(* ===== verification/Prelude.thy ===== *)
theory Prelude
  imports Complex_Main "HOL-Library.List_Lexorder" "HOL-Library.Product_Lexorder"
    "HOL-Library.AList" "HOL-Library.Multiset"
begin

text \<open>
  Shared vocabulary of the development: Python values as HOL values, and the generic lemmas on
  lists, association lists and results that the components use.

  \<^item> A Python \<^verbatim>\<open>str\<close> is the list of its Unicode code points (type \<open>pystr\<close>), so that \<^verbatim>\<open>len\<close>,
    comparison and \<^verbatim>\<open>strip\<close> mean what they mean in Python; \<open>lit ''abc''\<close> is an ASCII literal.
  \<^item> A Python \<^verbatim>\<open>float\<close> is its exact rational value (type \<open>pyfloat\<close>); infinities and NaN are left out. The theory \<open>Rounding\<close> says
    how an operation rounds its result.
  \<^item> A Python \<^verbatim>\<open>dict\<close> whose order is observable is an association list, updated with
    \<open>AList.update\<close> (in place, or appended) and \<open>AList.delete\<close>.
  \<^item> A raised exception is \<open>Inl\<close>, a returned value \<open>Inr\<close>.
\<close>

section \<open>Strings\<close>

type_synonym pystr = "nat list"

definition lit :: "string \<Rightarrow> pystr" where
  "lit s = map of_char s"

lemma lit_inject [simp]: "lit s = lit t \<longleftrightarrow> s = t"
  by (auto simp: lit_def inj_map_eq_map inj_def)

lemma lit_append [simp]: "lit (s @ t) = lit s @ lit t"
  by (simp add: lit_def)

lemma length_lit [simp]: "length (lit s) = length s"
  by (simp add: lit_def)

lemma lit_eq_Nil [simp]: "lit s = [] \<longleftrightarrow> s = []"
  by (simp add: lit_def)

text \<open>The code points \<^verbatim>\<open>str.strip\<close> removes, and the test \<^verbatim>\<open>not s.strip()\<close>.\<close>

definition is_space :: "nat \<Rightarrow> bool" where
  "is_space c \<longleftrightarrow> (9 \<le> c \<and> c \<le> 13) \<or> (28 \<le> c \<and> c \<le> 32) \<or> c = 0x85 \<or> c = 0xA0 \<or> c = 0x1680
     \<or> (0x2000 \<le> c \<and> c \<le> 0x200A) \<or> c = 0x2028 \<or> c = 0x2029 \<or> c = 0x202F \<or> c = 0x205F
     \<or> c = 0x3000"

definition blank :: "pystr \<Rightarrow> bool" where
  "blank s \<longleftrightarrow> list_all is_space s"

lemma blank_Nil [simp]: "blank []"
  by (simp add: blank_def)

lemma blank_append [simp]: "blank (s @ t) \<longleftrightarrow> blank s \<and> blank t"
  by (simp add: blank_def)

text \<open>Decimal printing: \<^verbatim>\<open>str(n)\<close>, and the zero-padded \<^verbatim>\<open>{n:0wd}\<close>.\<close>

fun show_nat :: "nat \<Rightarrow> pystr" where
  "show_nat n = (if n < 10 then [48 + n] else show_nat (n div 10) @ [48 + n mod 10])"

declare show_nat.simps [simp del]

definition show_int :: "int \<Rightarrow> pystr" where
  "show_int i = (if i < 0 then 45 # show_nat (nat (- i)) else show_nat (nat i))"

definition pad :: "nat \<Rightarrow> nat \<Rightarrow> pystr" where
  "pad w n = replicate (w - length (show_nat n)) 48 @ show_nat n"

definition read_nat :: "pystr \<Rightarrow> nat" where
  "read_nat s = foldl (\<lambda>a c. 10 * a + (c - 48)) 0 s"

definition is_digit :: "nat \<Rightarrow> bool" where
  "is_digit c \<longleftrightarrow> 48 \<le> c \<and> c \<le> 57"

lemma read_nat_snoc: "read_nat (s @ [c]) = 10 * read_nat s + (c - 48)"
  by (simp add: read_nat_def)

lemma read_show_nat [simp]: "read_nat (show_nat n) = n"
proof (induction n rule: show_nat.induct)
  case (1 n)
  show ?case
  proof (cases "n < 10")
    case True
    then show ?thesis by (subst show_nat.simps) (simp add: read_nat_def)
  next
    case False
    with "1.IH" show ?thesis by (subst show_nat.simps) (simp add: read_nat_snoc)
  qed
qed

lemma read_nat_zeros [simp]: "read_nat (replicate k 48 @ s) = read_nat s"
  by (induction k) (simp_all add: read_nat_def)

lemma read_pad [simp]: "read_nat (pad w n) = n"
  by (simp add: pad_def)

lemma show_nat_inject [simp]: "show_nat m = show_nat n \<longleftrightarrow> m = n"
  by (metis read_show_nat)

lemma pad_inject: "pad w m = pad v n \<Longrightarrow> m = n"
  by (metis read_pad)

lemma show_nat_digits: "list_all is_digit (show_nat n)"
proof (induction n rule: show_nat.induct)
  case (1 n)
  have d: "is_digit (48 + n mod 10)" by (simp add: is_digit_def)
  show ?case
  proof (cases "n < 10")
    case True
    with d show ?thesis by (subst show_nat.simps) simp
  next
    case False
    with "1.IH" d show ?thesis by (subst show_nat.simps) simp
  qed
qed

lemma pad_digits: "list_all is_digit (pad w n)"
  by (simp add: pad_def show_nat_digits) (simp add: list_all_length is_digit_def)

lemma show_nat_nonempty [simp]: "show_nat n \<noteq> []"
  by (subst show_nat.simps) simp

lemma length_show_nat: "n < 10 ^ Suc w \<Longrightarrow> length (show_nat n) \<le> Suc w"
proof (induction w arbitrary: n)
  case 0
  then show ?case by (subst show_nat.simps) simp
next
  case (Suc w)
  show ?case
  proof (cases "n < 10")
    case True
    then show ?thesis by (subst show_nat.simps) simp
  next
    case False
    have "n div 10 < 10 ^ Suc w" using Suc.prems by (simp add: less_mult_imp_div_less mult.commute)
    from Suc.IH [OF this] False show ?thesis by (subst show_nat.simps) simp
  qed
qed

lemma length_pad: "n < 10 ^ Suc w \<Longrightarrow> length (pad (Suc w) n) = Suc w"
  by (drule length_show_nat) (simp add: pad_def)

lemma not_in_digits:
  "list_all is_digit s \<Longrightarrow> \<not> is_digit c \<Longrightarrow> c \<notin> set s"
  by (auto simp: list_all_iff)

lemma replicate_numeral_eq: "replicate (numeral k) x = x # replicate (pred_numeral k) x"
  by (simp add: numeral_eq_Suc)

section \<open>Splitting a string at a separator\<close>

text \<open>A separator that does not occur in the first parts determines the split.\<close>

lemma split_at_sep:
  assumes "c \<notin> set a" and "c \<notin> set a'" and "a @ c # b = a' @ c # b'"
  shows "a = a' \<and> b = b'"
  using assms
proof (induction a arbitrary: a')
  case Nil
  then show ?case by (cases a') auto
next
  case (Cons x xs)
  then show ?case by (cases a') auto
qed

section \<open>Numbers\<close>

type_synonym pyfloat = rat

text \<open>Rounding to the nearest integer, ties to even: how \<^verbatim>\<open>timedelta(seconds=x)\<close> rounds to
  microseconds.\<close>

definition round_half_even :: "rat \<Rightarrow> int" where
  "round_half_even x =
     (let f = \<lfloor>x\<rfloor>; d = x - of_int f
      in if d < 1 / 2 then f else if d > 1 / 2 then f + 1 else if even f then f else f + 1)"

lemma round_half_even_of_int [simp]: "round_half_even (of_int i) = i"
  by (simp add: round_half_even_def)

lemma round_half_even_bounds:
  "of_int (round_half_even x) - 1 / 2 \<le> x \<and> x \<le> of_int (round_half_even x) + 1 / 2"
proof -
  have f: "of_int \<lfloor>x\<rfloor> \<le> x" "x < of_int \<lfloor>x\<rfloor> + 1"
    by linarith+
  consider "x - of_int \<lfloor>x\<rfloor> < 1 / 2" | "x - of_int \<lfloor>x\<rfloor> > 1 / 2" | "x - of_int \<lfloor>x\<rfloor> = 1 / 2"
    by linarith
  then show ?thesis
    by cases (use f in \<open>simp_all add: round_half_even_def Let_def\<close>, linarith+)
qed

lemma round_half_even_pos: "x > 1 / 2 \<Longrightarrow> round_half_even x \<ge> 1"
  using round_half_even_bounds [of x] by linarith

lemma round_half_even_mono_nonneg: "0 \<le> x \<Longrightarrow> 0 \<le> round_half_even x"
  using round_half_even_bounds [of x] by linarith

section \<open>Results\<close>

fun mapM :: "('a \<Rightarrow> 'e + 'b) \<Rightarrow> 'a list \<Rightarrow> 'e + 'b list" where
  "mapM f [] = Inr []"
| "mapM f (x # xs) =
     (case f x of Inl e \<Rightarrow> Inl e
      | Inr y \<Rightarrow> (case mapM f xs of Inl e \<Rightarrow> Inl e | Inr ys \<Rightarrow> Inr (y # ys)))"

lemma mapM_all_Inr:
  "(\<And>x. x \<in> set xs \<Longrightarrow> f x = Inr (g x)) \<Longrightarrow> mapM f xs = Inr (map g xs)"
  by (induction xs) auto

lemma mapM_Inr_iff: "mapM f xs = Inr ys \<longleftrightarrow> list_all2 (\<lambda>x y. f x = Inr y) xs ys"
proof (induction xs arbitrary: ys)
  case Nil
  then show ?case by auto
next
  case (Cons x xs)
  have tl: "mapM f xs = Inr zs \<longleftrightarrow> list_all2 (\<lambda>x y. f x = Inr y) xs zs" for zs
    by (rule Cons.IH)
  show ?case
    by (cases "f x"; cases "mapM f xs") (simp_all add: list_all2_Cons1 flip: tl, auto)
qed

section \<open>Lists\<close>

text \<open>\<open>update_first P f xs\<close> rewrites the first element that satisfies \<open>P\<close>: an \<^verbatim>\<open>UPDATE\<close> through
  a unique key.\<close>

fun update_first :: "('a \<Rightarrow> bool) \<Rightarrow> ('a \<Rightarrow> 'a) \<Rightarrow> 'a list \<Rightarrow> 'a list" where
  "update_first P f [] = []"
| "update_first P f (x # xs) = (if P x then f x # xs else x # update_first P f xs)"

lemma length_update_first [simp]: "length (update_first P f xs) = length xs"
  by (induction xs) auto

lemma map_update_first [simp]:
  "(\<And>x. P x \<Longrightarrow> g (f x) = g x) \<Longrightarrow> map g (update_first P f xs) = map g xs"
  by (induction xs) auto

lemma update_first_id [simp]: "(\<And>x. x \<in> set xs \<Longrightarrow> \<not> P x) \<Longrightarrow> update_first P f xs = xs"
  by (induction xs) auto

lemma set_update_firstD:
  "y \<in> set (update_first P f xs) \<Longrightarrow> y \<in> set xs \<or> (\<exists>x \<in> set xs. P x \<and> y = f x)"
  by (induction xs) (auto split: if_splits)

text \<open>A list whose elements have pairwise different keys.\<close>

definition unique_on :: "('a \<Rightarrow> 'k) \<Rightarrow> 'a list \<Rightarrow> bool" where
  "unique_on k xs \<longleftrightarrow> distinct (map k xs)"

lemma unique_on_Nil [simp]: "unique_on k []"
  by (simp add: unique_on_def)

lemma unique_on_Cons [simp]: "unique_on k (x # xs) \<longleftrightarrow> k x \<notin> k ` set xs \<and> unique_on k xs"
  by (auto simp: unique_on_def)

lemma unique_on_snoc [simp]: "unique_on k (xs @ [x]) \<longleftrightarrow> k x \<notin> k ` set xs \<and> unique_on k xs"
  by (auto simp: unique_on_def)

lemma unique_on_filter: "unique_on k xs \<Longrightarrow> unique_on k (filter P xs)"
  by (induction xs) auto

lemma unique_onD: "unique_on k xs \<Longrightarrow> x \<in> set xs \<Longrightarrow> y \<in> set xs \<Longrightarrow> k x = k y \<Longrightarrow> x = y"
  by (auto simp: unique_on_def distinct_map inj_on_def)

lemma find_Some_in: "find P xs = Some x \<Longrightarrow> x \<in> set xs \<and> P x"
  by (induction xs) (auto split: if_splits)

lemma find_None: "find P xs = None \<longleftrightarrow> (\<forall>x \<in> set xs. \<not> P x)"
  by (induction xs) auto

lemma find_unique:
  "unique_on k xs \<Longrightarrow> x \<in> set xs \<Longrightarrow> find (\<lambda>y. k y = k x) xs = Some x"
  by (induction xs) auto

lemma find_append:
  "find P (xs @ ys) = (case find P xs of None \<Rightarrow> find P ys | Some x \<Rightarrow> Some x)"
  by (induction xs) auto

lemma find_update_first_same:
  "(\<And>x. P x \<Longrightarrow> P (f x)) \<Longrightarrow> find P (update_first P f xs) = map_option f (find P xs)"
  by (induction xs) auto

lemma find_update_first_other:
  "(\<And>x. P x \<Longrightarrow> \<not> Q x \<and> \<not> Q (f x)) \<Longrightarrow> find Q (update_first P f xs) = find Q xs"
  by (induction xs) auto

lemma filter_update_first_other:
  "(\<And>x. P x \<Longrightarrow> \<not> Q x \<and> \<not> Q (f x)) \<Longrightarrow> filter Q (update_first P f xs) = filter Q xs"
  by (induction xs) auto

lemma set_update_first_unique:
  assumes "unique_on k xs" and "x \<in> set xs" and "P = (\<lambda>y. k y = k x)"
  shows "set (update_first P f xs) = insert (f x) (set xs - {x})"
  using assms(1,2) unfolding assms(3)
  by (induction xs) (auto simp: image_iff)

lemma sort_key_filter_set [simp]: "set (sort_key k (filter P xs)) = {x \<in> set xs. P x}"
  by simp

lemma find_map: "find P (map f xs) = map_option f (find (\<lambda>x. P (f x)) xs)"
  by (induction xs) auto

lemma filter_unique:
  "unique_on k xs \<Longrightarrow> filter (\<lambda>x. k x = v) xs = (case find (\<lambda>x. k x = v) xs of None \<Rightarrow> [] | Some x \<Rightarrow> [x])"
  by (induction xs) (auto simp: filter_empty_conv split: option.splits dest!: find_Some_in)

lemma update_first_map:
  "unique_on k xs \<Longrightarrow> update_first (\<lambda>r. k r = v) f xs = map (\<lambda>r. if k r = v then f r else r) xs"
proof (induction xs)
  case (Cons x xs)
  then show ?case by (auto simp: image_iff intro!: map_idI [symmetric])
qed simp

lemma unique_on_sort_filter: "unique_on k xs \<Longrightarrow> unique_on k (sort_key g (filter P xs))"
  by (auto simp: unique_on_def distinct_map inj_on_def)

lemma keys_of_filter:
  "unique_on k xs \<Longrightarrow> r \<in> set xs \<Longrightarrow> k r \<in> k ` set (sort_key g (filter P xs)) \<longleftrightarrow> P r"
  by (auto dest: unique_onD)

lemma unique_on_mset: "mset xs = mset ys \<Longrightarrow> unique_on k xs = unique_on k ys"
  unfolding unique_on_def by (rule mset_eq_imp_distinct_iff) simp

lemma unique_on_map: "unique_on k xs \<Longrightarrow> map k ys = map k xs \<Longrightarrow> unique_on k ys"
  by (simp add: unique_on_def)

lemma find_filter: "(\<And>x. P x \<Longrightarrow> Q x) \<Longrightarrow> find P (filter Q xs) = find P xs"
  by (induction xs) auto

lemma length_filter_unique: "unique_on k xs \<Longrightarrow> length (filter (\<lambda>x. k x = v) xs) = (if v \<in> k ` set xs then 1 else 0)"
  by (induction xs) (auto simp: filter_empty_conv)

lemma sorted_map_filter: "sorted_wrt (<) (map k xs) \<Longrightarrow> sorted_wrt (<) (map k (filter P xs))"
  by (induction xs) auto

lemma list_ex_key: "list_ex (\<lambda>r. k r = v) rs \<longleftrightarrow> v \<in> k ` set rs"
  by (auto simp: list_ex_iff)

lemma alist_update_new: "k \<notin> fst ` set xs \<Longrightarrow> AList.update k v xs = xs @ [(k, v)]"
  by (induction xs) auto

lemma alist_update_same:
  "map_of xs k = Some v \<Longrightarrow> f v' = f v \<Longrightarrow> map (\<lambda>p. (fst p, f (snd p))) (AList.update k v' xs) = map (\<lambda>p. (fst p, f (snd p))) xs"
  by (induction xs) auto

lemma alist_delete_filter: "AList.delete k xs = filter (\<lambda>p. fst p \<noteq> k) xs"
  by (induction xs) auto

section \<open>Dictionaries\<close>

text \<open>\<^verbatim>\<open>dict.get(key, default)\<close>, also the lookup of a \<^verbatim>\<open>defaultdict\<close>.\<close>

definition dict_get :: "'k \<Rightarrow> 'v \<Rightarrow> ('k \<times> 'v) list \<Rightarrow> 'v" where
  "dict_get k v m = (case map_of m k of None \<Rightarrow> v | Some x \<Rightarrow> x)"

lemma alist_update_keys [simp]: "fst ` set (AList.update k v m) = insert k (fst ` set m)"
  by (induction m) auto

lemma dict_get_update: "dict_get k v (AList.update k' x m) = (if k = k' then x else dict_get k v m)"
  by (simp add: dict_get_def update_conv')

lemma dict_get_Nil [simp]: "dict_get k v [] = v"
  by (simp add: dict_get_def)

lemma count_list_filter: "count_list xs x = length (filter (\<lambda>y. y = x) xs)"
  by (induction xs) auto

lemma alist_update_set: "set (AList.update k v xs) \<subseteq> insert (k, v) (set xs)"
  by (induction xs) auto

lemma mapM_Inl: "x \<in> set xs \<Longrightarrow> f x = Inl e \<Longrightarrow> \<exists>e. mapM f xs = Inl e"
  by (induction xs) (auto split: sum.splits)

lemma mapM_total:
  "\<forall>x \<in> set xs. \<exists>y. f x = Inr y \<Longrightarrow> \<exists>ys. mapM f xs = Inr ys \<and> set ys = {y. \<exists>x \<in> set xs. f x = Inr y}"
proof (induction xs)
  case (Cons x xs)
  then obtain y ys where "f x = Inr y" "mapM f xs = Inr ys" "set ys = {y. \<exists>x \<in> set xs. f x = Inr y}" by auto
  then show ?case by auto
qed simp

lemma map_of_tabulate: "map_of (map (\<lambda>n. (n, f n)) ns) x = (if x \<in> set ns then Some (f x) else None)"
  by (induction ns) auto

end
