(* ===== verification/Json.thy ===== *)
theory Json
  imports Prelude
begin

text \<open>
  The part of Python's \<^verbatim>\<open>json\<close> module that the message format uses: \<^verbatim>\<open>dumps\<close> with \<^verbatim>\<open>ensure_ascii=False\<close>,
  \<^verbatim>\<open>separators=(",", ":")\<close> on strings, integers and \<^verbatim>\<open>None\<close>, and \<^verbatim>\<open>loads\<close> on any text. A floating-point number keeps only its
  text. Two of the ways \<^verbatim>\<open>loads\<close> fails are told apart: a \<^verbatim>\<open>JSONDecodeError\<close>, and the plain \<^verbatim>\<open>ValueError\<close> that \<^verbatim>\<open>int\<close> raises on more than
  4300 digits. The recursion limit of the interpreter is not modelled.
\<close>

section \<open>Values\<close>

datatype json =
    JNull
  | JBool bool
  | JInt int
  | JFloat pystr
  | JStr pystr
  | JArray "json list"
  | JObject "(pystr \<times> json) list"

datatype json_error = JSONDecodeError | DigitLimit

definition INT_MAX_STR_DIGITS :: nat where
  "INT_MAX_STR_DIGITS = 4300"

section \<open>Encoding\<close>

definition hex_digit :: "nat \<Rightarrow> nat" where
  "hex_digit n = (if n < 10 then 48 + n else 87 + n)"

definition encode_char :: "nat \<Rightarrow> pystr" where
  "encode_char c =
     (if c = 34 then [92, 34]
      else if c = 92 then [92, 92]
      else if c = 10 then [92, 110]
      else if c = 13 then [92, 114]
      else if c = 9 then [92, 116]
      else if c = 12 then [92, 102]
      else if c = 8 then [92, 98]
      else if c < 32 then [92, 117, 48, 48, hex_digit (c div 16), hex_digit (c mod 16)]
      else [c])"

definition encode_string :: "pystr \<Rightarrow> pystr" where
  "encode_string s = [34] @ concat (map encode_char s) @ [34]"

definition encode_int :: "int \<Rightarrow> json_error + pystr" where
  "encode_int i = (if length (show_nat (nat \<bar>i\<bar>)) \<le> INT_MAX_STR_DIGITS then Inr (show_int i) else Inl DigitLimit)"

section \<open>Decoding\<close>

definition is_ws :: "nat \<Rightarrow> bool" where
  "is_ws c \<longleftrightarrow> c = 32 \<or> c = 9 \<or> c = 10 \<or> c = 13"

definition skip_ws :: "pystr \<Rightarrow> pystr" where
  "skip_ws s = dropWhile is_ws s"

definition hex_value :: "nat \<Rightarrow> nat option" where
  "hex_value c =
     (if 48 \<le> c \<and> c \<le> 57 then Some (c - 48)
      else if 97 \<le> c \<and> c \<le> 102 then Some (c - 87)
      else if 65 \<le> c \<and> c \<le> 70 then Some (c - 55)
      else None)"

fun hex4 :: "pystr \<Rightarrow> (nat \<times> pystr) option" where
  "hex4 (a # b # c # d # r) =
     (case (hex_value a, hex_value b, hex_value c, hex_value d) of
        (Some w, Some x, Some y, Some z) \<Rightarrow> Some (((w * 16 + x) * 16 + y) * 16 + z, r)
      | _ \<Rightarrow> None)"
| "hex4 _ = None"

definition BACKSLASH :: "(nat \<times> nat) list" where
  "BACKSLASH = [(34, 34), (92, 92), (47, 47), (98, 8), (102, 12), (110, 10), (114, 13), (116, 9)]"

definition prepend :: "'a \<Rightarrow> ('a list \<times> 'b) option \<Rightarrow> ('a list \<times> 'b) option" where
  "prepend c r = map_option (\<lambda>(t, rest). (c # t, rest)) r"

lemma hex4_shorter: "hex4 s = Some (u, r) \<Longrightarrow> length r < length s"
  by (cases s rule: hex4.cases) (auto split: option.splits)

text \<open>The characters of a string after its opening quote.\<close>

function scanstring :: "pystr \<Rightarrow> (pystr \<times> pystr) option" where
  "scanstring s =
     (case s of
        [] \<Rightarrow> None
      | c # r \<Rightarrow>
          if c = 34 then Some ([], r)
          else if c = 92 then
            (case r of
               [] \<Rightarrow> None
             | e # r1 \<Rightarrow>
                 if e = 117 then
                   (case hex4 r1 of
                      None \<Rightarrow> None
                    | Some (u, r2) \<Rightarrow>
                        if 0xD800 \<le> u \<and> u \<le> 0xDBFF \<and> take 2 r2 = [92, 117] then
                          (case hex4 (drop 2 r2) of
                             None \<Rightarrow> None
                           | Some (u2, r3) \<Rightarrow>
                               if 0xDC00 \<le> u2 \<and> u2 \<le> 0xDFFF
                               then prepend (0x10000 + (u - 0xD800) * 1024 + (u2 - 0xDC00)) (scanstring r3)
                               else prepend u (scanstring r2))
                        else prepend u (scanstring r2))
                 else (case map_of BACKSLASH e of None \<Rightarrow> None | Some x \<Rightarrow> prepend x (scanstring r1)))
          else if c < 32 then None
          else prepend c (scanstring r))"
  by pat_completeness auto
termination
  by (relation "measure length") (auto dest!: hex4_shorter)

declare scanstring.simps [simp del]

text \<open>\<^verbatim>\<open>(-?(?:0|[1-9][0-9]*))(\.[0-9]+)?([eE][-+]?[0-9]+)?\<close>\<close>

definition int_part :: "pystr \<Rightarrow> (pystr \<times> pystr) option" where
  "int_part s =
     (case s of
        [] \<Rightarrow> None
      | c # r \<Rightarrow>
          if c = 48 then Some ([48], r)
          else if 49 \<le> c \<and> c \<le> 57 then Some (c # takeWhile is_digit r, dropWhile is_digit r)
          else None)"

definition frac_part :: "pystr \<Rightarrow> pystr \<times> pystr" where
  "frac_part s =
     (case s of
        c # d # r \<Rightarrow> if c = 46 \<and> is_digit d then (c # d # takeWhile is_digit r, dropWhile is_digit r) else ([], s)
      | _ \<Rightarrow> ([], s))"

definition exp_part :: "pystr \<Rightarrow> pystr \<times> pystr" where
  "exp_part s =
     (case s of
        c # r \<Rightarrow>
          if c = 101 \<or> c = 69 then
            (let (sign, r1) = (case r of x # r' \<Rightarrow> if x = 43 \<or> x = 45 then ([x], r') else ([], r) | [] \<Rightarrow> ([], r))
             in if takeWhile is_digit r1 = [] then ([], s)
                else (c # sign @ takeWhile is_digit r1, dropWhile is_digit r1))
          else ([], s)
      | [] \<Rightarrow> ([], s))"

definition match_number :: "pystr \<Rightarrow> json_error + (json \<times> pystr)" where
  "match_number s =
     (let (neg, r) = (case s of c # r' \<Rightarrow> if c = 45 then (True, r') else (False, s) | [] \<Rightarrow> (False, s)) in
      case int_part r of
        None \<Rightarrow> Inl JSONDecodeError
      | Some (ds, r1) \<Rightarrow>
          let (fs, r2) = frac_part r1; (es, r3) = exp_part r2 in
          if fs = [] \<and> es = []
          then (if length ds \<le> INT_MAX_STR_DIGITS then Inr (JInt (if neg then - int (read_nat ds) else int (read_nat ds)), r1)
                else Inl DigitLimit)
          else Inr (JFloat ((if neg then [45] else []) @ ds @ fs @ es), r3))"

definition expect :: "nat \<Rightarrow> pystr \<Rightarrow> pystr option" where
  "expect c s = (case s of [] \<Rightarrow> None | x # r \<Rightarrow> if x = c then Some r else None)"

definition literals :: "(pystr \<times> json) list" where
  "literals = [(lit ''null'', JNull), (lit ''true'', JBool True), (lit ''false'', JBool False),
     (lit ''NaN'', JFloat (lit ''NaN'')), (lit ''Infinity'', JFloat (lit ''Infinity'')), (lit ''-Infinity'', JFloat (lit ''-Infinity''))]"

definition match_literal :: "pystr \<Rightarrow> (json \<times> pystr) option" where
  "match_literal s =
     map_option (\<lambda>(t, v). (v, drop (length t) s)) (find (\<lambda>(t, v). take (length t) s = t) literals)"

text \<open>The first argument bounds the depth of the recursion; the length of the text is always enough.\<close>

fun scan_once :: "nat \<Rightarrow> pystr \<Rightarrow> json_error + (json \<times> pystr)"
  and scan_members :: "nat \<Rightarrow> pystr \<Rightarrow> json_error + ((pystr \<times> json) list \<times> pystr)"
  and scan_elements :: "nat \<Rightarrow> pystr \<Rightarrow> json_error + (json list \<times> pystr)"
where
  "scan_once 0 s = Inl JSONDecodeError"
| "scan_once (Suc n) s =
     (case expect 34 s of
        Some r \<Rightarrow> (case scanstring r of None \<Rightarrow> Inl JSONDecodeError | Some (t, r1) \<Rightarrow> Inr (JStr t, r1))
      | None \<Rightarrow>
     (case expect 123 s of
        Some r \<Rightarrow>
          (case expect 125 (skip_ws r) of
             Some r1 \<Rightarrow> Inr (JObject [], r1)
           | None \<Rightarrow> (case scan_members n (skip_ws r) of Inl e \<Rightarrow> Inl e | Inr (ms, r1) \<Rightarrow> Inr (JObject ms, r1)))
      | None \<Rightarrow>
     (case expect 91 s of
        Some r \<Rightarrow>
          (case expect 93 (skip_ws r) of
             Some r1 \<Rightarrow> Inr (JArray [], r1)
           | None \<Rightarrow> (case scan_elements n (skip_ws r) of Inl e \<Rightarrow> Inl e | Inr (vs, r1) \<Rightarrow> Inr (JArray vs, r1)))
      | None \<Rightarrow> (case match_literal s of Some v \<Rightarrow> Inr v | None \<Rightarrow> match_number s))))"
| "scan_members 0 s = Inl JSONDecodeError"
| "scan_members (Suc n) s =
     (case Option.bind (expect 34 s) scanstring of
        None \<Rightarrow> Inl JSONDecodeError
      | Some (k, r) \<Rightarrow>
          (case expect 58 (skip_ws r) of
             None \<Rightarrow> Inl JSONDecodeError
           | Some r1 \<Rightarrow>
               (case scan_once n (skip_ws r1) of
                  Inl e \<Rightarrow> Inl e
                | Inr (v, r2) \<Rightarrow>
                    (case expect 125 (skip_ws r2) of
                       Some r3 \<Rightarrow> Inr ([(k, v)], r3)
                     | None \<Rightarrow>
                         (case expect 44 (skip_ws r2) of
                            None \<Rightarrow> Inl JSONDecodeError
                          | Some r3 \<Rightarrow>
                              (case scan_members n (skip_ws r3) of Inl e \<Rightarrow> Inl e | Inr (ms, r4) \<Rightarrow> Inr ((k, v) # ms, r4)))))))"
| "scan_elements 0 s = Inl JSONDecodeError"
| "scan_elements (Suc n) s =
     (case scan_once n s of
        Inl e \<Rightarrow> Inl e
      | Inr (v, r2) \<Rightarrow>
          (case expect 93 (skip_ws r2) of
             Some r3 \<Rightarrow> Inr ([v], r3)
           | None \<Rightarrow>
               (case expect 44 (skip_ws r2) of
                  None \<Rightarrow> Inl JSONDecodeError
                | Some r3 \<Rightarrow>
                    (case scan_elements n (skip_ws r3) of Inl e \<Rightarrow> Inl e | Inr (vs, r4) \<Rightarrow> Inr (v # vs, r4)))))"

definition json_loads :: "pystr \<Rightarrow> json_error + json" where
  "json_loads s =
     (if take 1 s = [0xFEFF] then Inl JSONDecodeError
      else case scan_once (2 * length s + 2) (skip_ws s) of
             Inl e \<Rightarrow> Inl e
           | Inr (v, r) \<Rightarrow> if skip_ws r = [] then Inr v else Inl JSONDecodeError)"

section \<open>The depth bound is enough\<close>

lemma expect_Some: "expect c s = Some r \<longleftrightarrow> s = c # r"
  by (cases s) (auto simp: expect_def)

lemma skip_ws_length: "length (skip_ws s) \<le> length s"
  by (simp add: skip_ws_def length_dropWhile_le)

lemma scanstring_shorter: "scanstring s = Some (t, r) \<Longrightarrow> length r < length s"
proof (induction s arbitrary: t rule: length_induct)
  case (1 s)
  have IH: "length r < length s" if "scanstring y = Some (u, r)" "length y < length s" for y u
    using 1(1) that by fastforce
  show ?case
  proof (cases s)
    case Nil
    with 1(2) show ?thesis by (simp add: scanstring.simps)
  next
    case (Cons c rest)
    from 1(2) [unfolded Cons] show ?thesis
      by (subst (asm) scanstring.simps,
        auto simp: prepend_def Cons split: if_splits list.splits option.splits dest!: IH [unfolded Cons] hex4_shorter) linarith
  qed
qed

lemma digits_length: "length (dropWhile is_digit s) \<le> length s"
  by (rule length_dropWhile_le)

lemma int_part_shorter: "int_part s = Some (d, r) \<Longrightarrow> length r < length s"
  by (auto simp: int_part_def digits_length le_imp_less_Suc split: list.splits if_splits)

lemma frac_part_length: "frac_part s = (f, r) \<Longrightarrow> length r \<le> length s"
  using digits_length by (auto simp: frac_part_def le_SucI split: list.splits if_splits)

lemma exp_part_length: "exp_part s = (e, r) \<Longrightarrow> length r \<le> length s"
  by (auto simp: exp_part_def Let_def digits_length le_SucI split: list.splits if_splits prod.splits)

lemma match_number_shorter:
  assumes "match_number s = Inr (v, r)"
  shows "length r < length s"
proof -
  obtain neg r0 where n: "(case s of c # r' \<Rightarrow> if c = 45 then (True, r') else (False, s) | [] \<Rightarrow> (False, s)) = (neg, r0)" by fastforce
  then have l: "length r0 \<le> length s" by (auto split: list.splits if_splits)
  from assms obtain ds r1 where i: "int_part r0 = Some (ds, r1)" by (auto simp: match_number_def n Let_def split: option.splits)
  obtain fs r2 es r3 where fe: "frac_part r1 = (fs, r2)" "exp_part r2 = (es, r3)" by fastforce
  have "length r1 < length s" "length r3 < length s"
    using int_part_shorter [OF i] frac_part_length [OF fe(1)] exp_part_length [OF fe(2)] l by auto
  with assms show ?thesis by (auto simp: match_number_def n i fe split: if_splits)
qed

lemma match_literal_shorter: "match_literal s = Some (v, r) \<Longrightarrow> length r < length s"
  by (auto simp: match_literal_def literals_def lit_def split: if_splits dest!: arg_cong [where f = length])

lemma match_literal_or_number_shorter:
  "(case match_literal s of Some v \<Rightarrow> Inr v | None \<Rightarrow> match_number s) = Inr (v, r) \<Longrightarrow> length r < length s"
  by (auto split: option.splits dest: match_literal_shorter match_number_shorter)

lemma expect_shorter: "expect c s = Some r \<Longrightarrow> length r < length s"
  by (simp add: expect_Some)

lemma expect_ws: "expect c (skip_ws s) = Some r \<Longrightarrow> length r < length s"
  using skip_ws_length [of s] by (auto simp: expect_Some)

lemma less_skip_ws: "length r < length (skip_ws s) \<Longrightarrow> length r < length s"
  using skip_ws_length [of s] by simp

lemmas scan_lengths = expect_ws expect_shorter less_skip_ws scanstring_shorter match_literal_shorter match_number_shorter

lemma scan_shorter:
  "scan_once n s = Inr (v, r) \<Longrightarrow> length r < length s"
  "scan_members n s = Inr (ms, r) \<Longrightarrow> length r < length s"
  "scan_elements n s = Inr (vs, r) \<Longrightarrow> length r < length s"
proof (induction n arbitrary: s v ms vs r)
  case (Suc n)
  {
    case 1
    then show ?case
      by (auto split: option.splits sum.splits prod.splits dest!: Suc.IH scan_lengths)
  next
    case 2
    then show ?case
      by (auto simp: bind_eq_Some_conv split: option.splits sum.splits prod.splits bind_splits dest!: Suc.IH scan_lengths)
  next
    case 3
    then show ?case
      by (auto split: option.splits sum.splits prod.splits dest!: Suc.IH scan_lengths)
  }
qed simp_all

lemma scan_depth:
  "2 * length s < n \<Longrightarrow> 2 * length s < m \<Longrightarrow> scan_once n s = scan_once m s"
  "2 * length s + 1 < n \<Longrightarrow> 2 * length s + 1 < m \<Longrightarrow> scan_members n s = scan_members m s"
  "2 * length s + 1 < n \<Longrightarrow> 2 * length s + 1 < m \<Longrightarrow> scan_elements n s = scan_elements m s"
proof (induction n arbitrary: s m)
  case (Suc n)
  {
    case 1
    then obtain k where m: "m = Suc k" by (cases m) auto
    have "scan_members n (skip_ws r) = scan_members k (skip_ws r)" "scan_elements n (skip_ws r) = scan_elements k (skip_ws r)"
      if "expect c s = Some r" for c r
      using expect_shorter [OF that] skip_ws_length [of r] 1 m by (intro Suc.IH; simp)+
    then show ?case by (simp add: m split: option.split)
  next
    case 2
    then obtain k where m: "m = Suc k" by (cases m) auto
    have once: "scan_once n (skip_ws r1) = scan_once k (skip_ws r1)"
      if "Option.bind (expect 34 s) scanstring = Some (t, r)" "expect 58 (skip_ws r) = Some r1" for t r r1
    proof -
      from that have "length r1 < length s" by (auto simp: bind_eq_Some_conv dest!: scan_lengths)
      with skip_ws_length [of r1] 2 m show ?thesis by (intro Suc.IH; simp)
    qed
    moreover have "scan_members n (skip_ws r3) = scan_members k (skip_ws r3)"
      if "Option.bind (expect 34 s) scanstring = Some (t, r)" "expect 58 (skip_ws r) = Some r1"
        "scan_once k (skip_ws r1) = Inr (v, r2)" "expect 44 (skip_ws r2) = Some r3" for t r r1 v r2 r3
    proof -
      from that have "length r3 < length s"
        by (auto simp: bind_eq_Some_conv dest!: scan_lengths scan_shorter(1))
      with skip_ws_length [of r3] 2 m show ?thesis by (intro Suc.IH; simp)
    qed
    ultimately show ?case by (simp add: m split: option.split sum.split)
  next
    case 3
    then obtain k where m: "m = Suc k" by (cases m) auto
    have "scan_once n s = scan_once k s" using 3 m by (intro Suc.IH; simp)
    moreover have "scan_elements n (skip_ws r3) = scan_elements k (skip_ws r3)"
      if "scan_once k s = Inr (v, r2)" "expect 44 (skip_ws r2) = Some r3" for v r2 r3
    proof -
      from that have "length r3 < length s" by (auto dest!: scan_lengths scan_shorter(1))
      with skip_ws_length [of r3] 3 m show ?thesis by (intro Suc.IH; simp)
    qed
    ultimately show ?case by (simp add: m split: option.split sum.split)
  }
qed simp_all

text \<open>So any larger bound gives the same result as the one \<open>json_loads\<close> uses.\<close>

lemma json_loads_depth:
  assumes "2 * length s < n"
  shows "json_loads s = (if take 1 s = [0xFEFF] then Inl JSONDecodeError
     else case scan_once n (skip_ws s) of Inl e \<Rightarrow> Inl e | Inr (v, r) \<Rightarrow> if skip_ws r = [] then Inr v else Inl JSONDecodeError)"
proof -
  have "scan_once (2 * length s + 2) (skip_ws s) = scan_once n (skip_ws s)"
    using assms skip_ws_length [of s] by (intro scan_depth) auto
  then show ?thesis by (simp add: json_loads_def)
qed

section \<open>Decoding an encoding\<close>

lemma hex_value_digit [simp]: "n < 16 \<Longrightarrow> hex_value (hex_digit n) = Some n"
  by (auto simp: hex_value_def hex_digit_def)

lemma scan_plain: "c \<noteq> 34 \<Longrightarrow> c \<noteq> 92 \<Longrightarrow> 32 \<le> c \<Longrightarrow> scanstring (c # r) = prepend c (scanstring r)"
  by (subst scanstring.simps) simp

lemma scan_escape: "map_of BACKSLASH e = Some x \<Longrightarrow> e \<noteq> 117 \<Longrightarrow> scanstring (92 # e # r) = prepend x (scanstring r)"
  by (subst scanstring.simps) simp

lemma scan_control:
  assumes "c < 32"
  shows "scanstring (92 # 117 # 48 # 48 # hex_digit (c div 16) # hex_digit (c mod 16) # r) = prepend c (scanstring r)"
proof -
  have "c div 16 < 16" "hex_value 48 = Some 0" using assms by (auto simp: hex_value_def)
  then show ?thesis using assms by (subst scanstring.simps) simp
qed

lemma scan_encode_char: "scanstring (encode_char c @ r) = prepend c (scanstring r)"
proof (cases "c < 32 \<and> c \<notin> {8, 9, 10, 12, 13}")
  case True
  then have "encode_char c = [92, 117, 48, 48, hex_digit (c div 16), hex_digit (c mod 16)]" by (auto simp: encode_char_def)
  with scan_control [of c r] True show ?thesis by simp
next
  case False
  then show ?thesis
    by (cases "c \<in> {8, 9, 10, 12, 13, 34, 92}") (auto simp: encode_char_def scan_escape BACKSLASH_def scan_plain)
qed

lemma scan_encode_string: "scanstring (concat (map encode_char s) @ 34 # r) = Some (s, r)"
proof (induction s)
  case Nil
  show ?case by (simp add: scanstring.simps)
next
  case (Cons c s)
  then show ?case by (simp add: scan_encode_char prepend_def)
qed

text \<open>A decimal numeral starts with a digit other than zero, unless it is zero.\<close>

lemma show_nat_head: "0 < n \<Longrightarrow> \<exists>c r. show_nat n = c # r \<and> 49 \<le> c \<and> c \<le> 57"
proof (induction n rule: show_nat.induct)
  case (1 n)
  show ?case
  proof (cases "n < 10")
    case True
    with 1(2) show ?thesis by (subst show_nat.simps) simp
  next
    case False
    then have "0 < n div 10" by (simp add: div_greater_zero_iff)
    with 1(1) [OF False] False show ?thesis by (subst show_nat.simps) auto
  qed
qed

lemma show_nat_int_part:
  assumes "\<And>c t. r = c # t \<Longrightarrow> \<not> is_digit c"
  shows "int_part (show_nat n @ r) = Some (show_nat n, r)"
proof (cases "n = 0")
  case True
  then show ?thesis by (subst (1 2) show_nat.simps) (simp add: int_part_def)
next
  case False
  then obtain c t where c: "show_nat n = c # t" "49 \<le> c" "c \<le> 57" using show_nat_head by blast
  then have t: "list_all is_digit t" using show_nat_digits [of n] by simp
  have "takeWhile is_digit (t @ r) = t" "dropWhile is_digit (t @ r) = r"
    using t assms by (induction t) (auto split: list.split, (cases r; simp)+)
  with c show ?thesis by (simp add: int_part_def)
qed

text \<open>A numeral in front of a character that does not continue a number.\<close>

definition ends_number :: "pystr \<Rightarrow> bool" where
  "ends_number r \<longleftrightarrow> (case r of [] \<Rightarrow> True | c # t \<Rightarrow> c = 44 \<or> c = 125 \<or> c = 93 \<or> is_ws c)"

lemma match_show_int:
  assumes "encode_int i = Inr s" and "ends_number r"
  shows "match_number (s @ r) = Inr (JInt i, r)"
proof -
  have r: "int_part (show_nat n @ r) = Some (show_nat n, r)" for n
    using assms(2) by (intro show_nat_int_part) (auto simp: ends_number_def is_digit_def is_ws_def)
  have fe: "frac_part r = ([], r)" "exp_part r = ([], r)"
    using assms(2) by (auto simp: ends_number_def is_ws_def frac_part_def exp_part_def split: list.splits)
  from assms(1) have s: "s = show_int i" and l: "length (show_nat (nat \<bar>i\<bar>)) \<le> INT_MAX_STR_DIGITS"
    by (auto simp: encode_int_def split: if_splits)
  have neg: "(case show_nat n @ r of c # r' \<Rightarrow> if c = 45 then (True, r') else (False, show_nat n @ r) | [] \<Rightarrow> (False, show_nat n @ r))
      = (False, show_nat n @ r)" for n
    using show_nat_digits [of n] by (cases "show_nat n") (auto simp: is_digit_def)
  show ?thesis
  proof (cases "i < 0")
    case True
    with l show ?thesis by (simp add: s show_int_def match_number_def r fe)
  next
    case False
    with l show ?thesis by (simp add: s show_int_def match_number_def neg r fe)
  qed
qed

lemma match_literal_digit: "\<not> s @ r = [] \<Longrightarrow> list_all is_digit s \<Longrightarrow> s \<noteq> [] \<Longrightarrow> match_literal (s @ r) = None"
  by (cases s) (auto simp: match_literal_def literals_def lit_def is_digit_def)

lemma scan_once_string: "scan_once (Suc n) (encode_string t @ r) = Inr (JStr t, r)"
  using scan_encode_string [of t r] by (simp add: encode_string_def expect_def)

lemma scan_once_null: "scan_once (Suc n) (lit ''null'' @ r) = Inr (JNull, r)"
  by (simp add: expect_def match_literal_def literals_def lit_def)

lemma scan_once_int:
  assumes "encode_int i = Inr s" and "0 \<le> i" and "ends_number r"
  shows "scan_once (Suc n) (s @ r) = Inr (JInt i, r)"
proof -
  from assms(1,2) have s: "s = show_nat (nat i)" by (auto simp: encode_int_def show_int_def split: if_splits)
  obtain c t where c: "s = c # t" "is_digit c" using show_nat_digits [of "nat i"] s by (cases "show_nat (nat i)") auto
  then have "expect 34 (s @ r) = None" "expect 123 (s @ r) = None" "expect 91 (s @ r) = None" "match_literal (s @ r) = None"
    by (auto simp: expect_def is_digit_def match_literal_def literals_def lit_def)
  with match_show_int [OF assms(1,3)] show ?thesis by simp
qed

text \<open>One member of an object printed without white space.\<close>

lemma skip_ws_Cons [simp]: "\<not> is_ws c \<Longrightarrow> skip_ws (c # r) = c # r"
  by (simp add: skip_ws_def)

lemma scan_member:
  assumes "scan_once n (v @ c # r) = Inr (x, c # r)" and "skip_ws (v @ c # r) = v @ c # r" and "c = 44 \<or> c = 125"
  shows "scan_members (Suc n) (encode_string k @ 58 # v @ c # r) =
     (if c = 125 then Inr ([(k, x)], r) else case scan_members n (skip_ws r) of Inl e \<Rightarrow> Inl e | Inr (ms, r4) \<Rightarrow> Inr ((k, x) # ms, r4))"
proof -
  have "Option.bind (expect 34 (encode_string k @ 58 # v @ c # r)) scanstring = Some (k, 58 # v @ c # r)"
    using scan_encode_string [of k "58 # v @ c # r"] by (simp add: encode_string_def expect_def)
  with assms show ?thesis by (auto simp: expect_def is_ws_def)
qed

end
