(* ===== verification/Enums.thy ===== *)
theory Enums
  imports Prelude
begin

text \<open>
  The enumerations of \<^verbatim>\<open>domain/enums.py\<close> and the exceptions the platform raises.
  A \<^verbatim>\<open>StrEnum\<close> is a datatype with its string value given by a function; \<open>exn\<close> has one constructor
  per exception class the code raises or distinguishes in an \<^verbatim>\<open>except\<close> clause, and \<open>OtherError\<close>
  (with its \<^verbatim>\<open>str\<close>) for every other exception, such as one raised by a task handler, the database
  driver or the queue client.
\<close>

section \<open>Enumerations\<close>

datatype JobStatus =
  PENDING | QUEUED | RUNNING | SUCCESS | RETRYING | FAILED | CANCELED | RECOVERABLE

fun status_value :: "JobStatus \<Rightarrow> pystr" where
  "status_value PENDING = lit ''PENDING''"
| "status_value QUEUED = lit ''QUEUED''"
| "status_value RUNNING = lit ''RUNNING''"
| "status_value SUCCESS = lit ''SUCCESS''"
| "status_value RETRYING = lit ''RETRYING''"
| "status_value FAILED = lit ''FAILED''"
| "status_value CANCELED = lit ''CANCELED''"
| "status_value RECOVERABLE = lit ''RECOVERABLE''"

text \<open>The iteration order of the enumeration, \<^verbatim>\<open>for s in JobStatus\<close>.\<close>

definition all_statuses :: "JobStatus list" where
  "all_statuses = [PENDING, QUEUED, RUNNING, SUCCESS, RETRYING, FAILED, CANCELED, RECOVERABLE]"

definition is_terminal :: "JobStatus \<Rightarrow> bool" where
  "is_terminal s \<longleftrightarrow> s \<in> {SUCCESS, FAILED, CANCELED}"

datatype JobType = DEMO_SUCCESS | DEMO_FAILURE | DEMO_SLOW | CUSTOM

datatype BackoffStrategy = FIXED | EXPONENTIAL

datatype ScheduleType = INTERVAL | DAILY

lemma set_all_statuses [simp]: "s \<in> set all_statuses"
  by (cases s) (simp_all add: all_statuses_def)

lemma distinct_all_statuses [simp]: "distinct all_statuses"
  by (simp add: all_statuses_def)

lemma status_value_inject [simp]: "status_value s = status_value t \<longleftrightarrow> s = t"
  by (cases s; cases t) simp_all

lemma is_terminal_simps [simp]:
  "is_terminal SUCCESS" "is_terminal FAILED" "is_terminal CANCELED"
  "\<not> is_terminal PENDING" "\<not> is_terminal QUEUED" "\<not> is_terminal RUNNING"
  "\<not> is_terminal RETRYING" "\<not> is_terminal RECOVERABLE"
  by (simp_all add: is_terminal_def)

section \<open>Exceptions\<close>

datatype exn =
    ValueError pystr
  | TypeError
  | AssertionError
  | OverflowError
  | KeyError pystr
  | TimeoutError pystr
  | JobCanceledError pystr
  | InvalidStateTransitionError JobStatus JobStatus
  | JobNotRegisteredError pystr
  | DuplicateJobNameError pystr
  | EntityNotFoundError pystr pystr
  | IntegrityError
  | InvalidMessageError pystr
  | OtherError pystr

text \<open>\<^verbatim>\<open>str(exc)\<close>: what the executor stores as the error message of a failed attempt. The texts of
  the standard exceptions that carry no argument here are immaterial and left empty.\<close>

definition quoted :: "pystr \<Rightarrow> pystr" where
  "quoted s = [39] @ s @ [39]"

fun exn_str :: "exn \<Rightarrow> pystr" where
  "exn_str (ValueError m) = m"
| "exn_str TypeError = []"
| "exn_str AssertionError = []"
| "exn_str OverflowError = []"
| "exn_str (KeyError k) = quoted k"
| "exn_str (TimeoutError m) = m"
| "exn_str (JobCanceledError m) = m"
| "exn_str (InvalidStateTransitionError c t) =
     [0x4E0D, 0x5141, 0x8BB8, 0x4ECE] @ lit '' '' @ status_value c @ lit '' ''
       @ [0x8F6C, 0x6362, 0x5230] @ lit '' '' @ status_value t"
| "exn_str (JobNotRegisteredError n) =
     [0x4EFB, 0x52A1] @ lit '' '' @ quoted n @ lit '' '' @ [0x672A, 0x5728] @ lit '' TaskRegistry ''
       @ [0x4E2D, 0x6CE8, 0x518C]"
| "exn_str (DuplicateJobNameError n) =
     [0x4EFB, 0x52A1, 0x540D, 0x79F0] @ lit '' '' @ quoted n @ lit '' ''
       @ [0x5DF2, 0x88AB, 0x6CE8, 0x518C, 0xFF0C, 0x4E0D, 0x80FD, 0x91CD, 0x590D, 0x6CE8, 0x518C]"
| "exn_str (EntityNotFoundError k n) = k @ lit '' '' @ [0x4E0D, 0x5B58, 0x5728] @ lit '': '' @ n"
| "exn_str IntegrityError = []"
| "exn_str (InvalidMessageError m) = m"
| "exn_str (OtherError m) = m"

text \<open>\<^verbatim>\<open>parse(source.get(key, fallback))\<close> on an environment, where parsing the fallback gives it back.\<close>

definition env_get :: "(pystr \<Rightarrow> exn + 'a) \<Rightarrow> (pystr \<Rightarrow> pystr option) \<Rightarrow> pystr \<Rightarrow> 'a \<Rightarrow> exn + 'a" where
  "env_get parse env key fallback = (case env key of None \<Rightarrow> Inr fallback | Some v \<Rightarrow> parse v)"

end
