(* ===== verification/Pytime.thy ===== *)
theory Pytime
  imports Enums
begin

text \<open>
  What the platform uses of Python's \<^verbatim>\<open>datetime\<close> module. A \<^verbatim>\<open>datetime\<close> is its wall-clock reading in
  microseconds since 0001-01-01T00:00 (the first representable instant) and its \<^verbatim>\<open>tzinfo\<close>: \<open>None\<close> for
  a naive value, \<open>Some off\<close> for a UTC offset in microseconds. A \<^verbatim>\<open>date\<close> is a day number
  (\<^verbatim>\<open>toordinal() - 1\<close>), a \<^verbatim>\<open>time\<close> the microseconds since midnight, a \<^verbatim>\<open>timedelta\<close> its microseconds.
  Ordering compares instants and raises \<open>TypeError\<close> on a naive and an aware value; arithmetic raises
  \<open>OverflowError\<close> outside the years 1 to 9999, as the library does.
\<close>

section \<open>Values and arithmetic\<close>

datatype datetime = Datetime (wall: int) (tzinfo: "int option")

abbreviation us_per_second :: int where
  "us_per_second \<equiv> 1000000"

abbreviation us_per_day :: int where
  "us_per_day \<equiv> 86400000000"

abbreviation max_wall :: int where
  "max_wall \<equiv> 3652059 * us_per_day"

definition utc :: "int \<Rightarrow> datetime" where
  "utc w = Datetime w (Some 0)"

definition is_aware :: "datetime \<Rightarrow> bool" where
  "is_aware d \<longleftrightarrow> tzinfo d \<noteq> None"

definition instant :: "datetime \<Rightarrow> int" where
  "instant d = wall d - (case tzinfo d of None \<Rightarrow> 0 | Some off \<Rightarrow> off)"

text \<open>An aware UTC value in the representable range: what \<^verbatim>\<open>datetime.now(UTC)\<close> returns.\<close>

definition is_utc :: "datetime \<Rightarrow> bool" where
  "is_utc d \<longleftrightarrow> tzinfo d = Some 0 \<and> 0 \<le> wall d \<and> wall d < max_wall"

definition mk_datetime :: "int \<Rightarrow> int option \<Rightarrow> exn + datetime" where
  "mk_datetime w tz = (if 0 \<le> w \<and> w < max_wall then Inr (Datetime w tz) else Inl OverflowError)"

definition timedelta_seconds :: "pyfloat \<Rightarrow> exn + int" where
  "timedelta_seconds x =
     (let us = round_half_even (x * 1000000)
      in if - 999999999 \<le> us div us_per_day \<and> us div us_per_day \<le> 999999999
         then Inr us else Inl OverflowError)"

definition add_timedelta :: "datetime \<Rightarrow> int \<Rightarrow> exn + datetime" where
  "add_timedelta d us = mk_datetime (wall d + us) (tzinfo d)"

definition dt_le :: "datetime \<Rightarrow> datetime \<Rightarrow> exn + bool" where
  "dt_le a b = (if is_aware a = is_aware b then Inr (instant a \<le> instant b) else Inl TypeError)"

definition astimezone_utc :: "datetime \<Rightarrow> exn + datetime" where
  "astimezone_utc d = mk_datetime (instant d) (Some 0)"

definition date_of :: "datetime \<Rightarrow> int" where
  "date_of d = wall d div us_per_day"

definition time_of :: "datetime \<Rightarrow> int" where
  "time_of d = wall d mod us_per_day"

definition combine :: "int \<Rightarrow> int \<Rightarrow> int option \<Rightarrow> datetime" where
  "combine date tod tz = Datetime (date * us_per_day + tod) tz"

lemma utc_sel [simp]: "wall (utc w) = w" "tzinfo (utc w) = Some 0" "instant (utc w) = w"
  by (simp_all add: utc_def instant_def)

lemma is_aware_utc [simp]: "is_aware (utc w)"
  by (simp add: is_aware_def)

lemma is_utcD: "is_utc d \<Longrightarrow> d = utc (wall d) \<and> instant d = wall d \<and> is_aware d"
  by (cases d) (simp add: is_utc_def utc_def instant_def is_aware_def)

lemma is_utc_utc [simp]: "is_utc (utc w) \<longleftrightarrow> 0 \<le> w \<and> w < max_wall"
  by (simp add: is_utc_def)

lemma astimezone_utc_id: "is_utc d \<Longrightarrow> astimezone_utc d = Inr d"
  by (cases d) (auto simp: astimezone_utc_def mk_datetime_def is_utc_def instant_def)

lemma dt_le_aware [simp]: "is_aware a \<Longrightarrow> is_aware b \<Longrightarrow> dt_le a b = Inr (instant a \<le> instant b)"
  by (simp add: dt_le_def)

lemma wall_split: "wall d = date_of d * us_per_day + time_of d"
  by (simp add: date_of_def time_of_def)

lemma time_of_bounds: "0 \<le> time_of d" "time_of d < us_per_day"
  by (simp_all add: time_of_def)

section \<open>Calendar\<close>

text \<open>\<^verbatim>\<open>date.fromordinal\<close> (the library's algorithm on \<^verbatim>\<open>ordinal - 1\<close>) and \<^verbatim>\<open>date.isoformat\<close>.\<close>

definition days_before_month :: "nat \<Rightarrow> bool \<Rightarrow> nat" where
  "days_before_month m leap =
     [0, 0, 31, 59, 90, 120, 151, 181, 212, 243, 273, 304, 334] ! m + (if m > 2 \<and> leap then 1 else 0)"

definition month_day :: "nat \<Rightarrow> bool \<Rightarrow> nat \<times> nat" where
  "month_day n leap =
     (let m = (n + 50) div 32
      in if days_before_month m leap > n
         then (m - 1, n - days_before_month (m - 1) leap + 1)
         else (m, n - days_before_month m leap + 1))"

definition ord2ymd :: "nat \<Rightarrow> nat \<times> nat \<times> nat" where
  "ord2ymd n =
     (let n400 = n div 146097; r = n mod 146097;
          n100 = r div 36524; s = r mod 36524;
          n4 = s div 1461; t = s mod 1461;
          n1 = t div 365; u = t mod 365;
          year = n400 * 400 + 1 + n100 * 100 + n4 * 4 + n1
      in if n1 = 4 \<or> n100 = 4 then (year - 1, 12, 31)
         else (year, month_day u (n1 = 3 \<and> (n4 \<noteq> 24 \<or> n100 = 3))))"

definition isoformat :: "int \<Rightarrow> pystr" where
  "isoformat date =
     (case ord2ymd (nat date) of (y, m, d) \<Rightarrow> pad 4 y @ [45] @ pad 2 m @ [45] @ pad 2 d)"

text \<open>\<^verbatim>\<open>strftime('%H%M%S.%f')\<close> of the time of day.\<close>

definition hms_us :: "int \<Rightarrow> pystr" where
  "hms_us tod =
     (let s = nat (tod div us_per_second)
      in pad 2 (s div 3600) @ pad 2 (s div 60 mod 60) @ pad 2 (s mod 60)
         @ [46] @ pad 6 (nat (tod mod us_per_second)))"

section \<open>The printed forms determine the date and the time\<close>

text \<open>\<open>ymd2ord\<close> is the inverse of \<open>ord2ymd\<close>, used only to show that \<open>isoformat\<close> is injective.\<close>

definition month_day_ok :: "bool \<Rightarrow> nat \<Rightarrow> bool" where
  "month_day_ok leap u \<longleftrightarrow>
     (case month_day u leap of (m, d) \<Rightarrow>
        days_before_month m leap + d = u + 1 \<and> m < 100 \<and> d < 100 \<and> 1 \<le> d)"

lemma month_day_ok:
  assumes "u < 366"
  shows "month_day_ok leap u"
proof -
  define m where "m = (u + 50) div 32"
  have b: "32 * m \<le> u + 50" "u + 50 < 32 * m + 32" by (simp_all add: m_def)
  then have "1 \<le> m \<and> m \<le> 12" using assms by auto
  then have "m \<in> {1, 2, 3, 4, 5, 6, 7, 8, 9, 10, 11, 12}" by (simp, presburger)
  then show ?thesis using b assms
    by (elim insertE) (simp_all add: month_day_ok_def month_day_def Let_def days_before_month_def flip: m_def, auto)
qed

definition ymd2ord :: "nat \<times> nat \<times> nat \<Rightarrow> nat" where
  "ymd2ord = (\<lambda>(y, m, d).
     let k = y - 1; a = k div 400; b = k mod 400 div 100; c = k mod 100 div 4; e = k mod 4
     in 146097 * a + 36524 * b + 1461 * c + 365 * e
        + (days_before_month m (e = 3 \<and> (c \<noteq> 24 \<or> b = 3)) + d) - 1)"

lemma year_digits:
  fixes a b c e :: nat
  assumes "b \<le> 3" "c \<le> 24" "e \<le> 3" and k: "k = 400 * a + 100 * b + 4 * c + e"
  shows "k div 400 = a" "k mod 400 div 100 = b" "k mod 100 div 4 = c" "k mod 4 = e"
proof -
  have "((100 * b + 4 * c + e) + a * 400) mod 400 = 100 * b + 4 * c + e"
    "((4 * c + e) + (4 * a + b) * 100) mod 100 = 4 * c + e"
    "(e + (100 * a + 25 * b + c) * 4) mod 4 = e"
    using assms(1-3) by (simp_all only: mod_mult_self1) simp_all
  then have m: "k mod 400 = 100 * b + 4 * c + e" "k mod 100 = 4 * c + e" "k mod 4 = e"
    using k by (simp_all add: algebra_simps)
  show "k mod 4 = e" by (fact m)
  show "k mod 100 div 4 = c" "k mod 400 div 100 = b" unfolding m using assms(1-3) by simp_all
  show "k div 400 = a" using assms by simp
qed

lemma ymd2ord_digits:
  fixes a b c e :: nat
  assumes "b \<le> 3" "c \<le> 24" "e \<le> 3"
  shows "ymd2ord (Suc (400 * a + 100 * b + 4 * c + e), m, d) =
    146097 * a + 36524 * b + 1461 * c + 365 * e
      + (days_before_month m (e = 3 \<and> (c \<noteq> 24 \<or> b = 3)) + d) - 1"
  by (simp only: ymd2ord_def Let_def prod.case diff_Suc_1 year_digits [OF assms refl])

lemma ymd2ord_ord2ymd: "ymd2ord (ord2ymd n) = n"
proof -
  define a r b s c t e u where defs: "a = n div 146097" "r = n mod 146097"
    "b = r div 36524" "s = r mod 36524" "c = s div 1461" "t = s mod 1461" "e = t div 365" "u = t mod 365"
  have n: "n = 146097 * a + r" "r = 36524 * b + s" "s = 1461 * c + t" "t = 365 * e + u"
    unfolding defs by (simp_all only: mult_div_mod_eq)
  have lt: "r < 146097" "s < 36524" "t < 1461" "u < 365" by (simp_all add: defs)
  have b4: "b \<le> 4" and c24: "c \<le> 24" and e4: "e \<le> 4" using lt n by arith+
  have eq: "ord2ymd n = (if e = 4 \<or> b = 4 then (a * 400 + 1 + b * 100 + c * 4 + e - 1, 12, 31)
      else (a * 400 + 1 + b * 100 + c * 4 + e, month_day u (e = 3 \<and> (c \<noteq> 24 \<or> b = 3))))"
    by (simp add: ord2ymd_def Let_def flip: defs)
  consider "b = 4" | "b \<noteq> 4" "e = 4" | "b \<noteq> 4" "e \<noteq> 4" by blast
  then show ?thesis
  proof cases
    case 1
    then have z: "s = 0" using lt n by arith
    then have "c = 0" "e = 0" using n by auto
    then have "ord2ymd n = (Suc (400 * a + 100 * 3 + 4 * 24 + 3), 12, 31)"
      using 1 by (simp add: eq)
    then show ?thesis
      using n z 1 by (simp only: ymd2ord_digits) (simp add: days_before_month_def)
  next
    case 2
    then have z: "u = 0" "c \<noteq> 24 \<or> b = 3" using lt n b4 by arith+
    then have "ord2ymd n = (Suc (400 * a + 100 * b + 4 * c + 3), 12, 31)"
      using 2 by (simp add: eq)
    then show ?thesis
      using n z 2 b4 c24 ymd2ord_digits [of b c 3 a 12 31] by (simp add: days_before_month_def)
  next
    case 3
    obtain m d where md: "month_day u (e = 3 \<and> (c \<noteq> 24 \<or> b = 3)) = (m, d)" by fastforce
    have "days_before_month m (e = 3 \<and> (c \<noteq> 24 \<or> b = 3)) + d = u + 1"
      using month_day_ok [of u "e = 3 \<and> (c \<noteq> 24 \<or> b = 3)"] lt md by (simp add: month_day_ok_def)
    moreover have "ord2ymd n = (Suc (400 * a + 100 * b + 4 * c + e), m, d)"
      using 3 md by (simp add: eq)
    ultimately show ?thesis
      using n 3 b4 c24 e4 by (simp add: ymd2ord_digits)
  qed
qed

lemma ord2ymd_range:
  assumes "n < 3652059" and "ord2ymd n = (y, m, d)"
  shows "y < 10000 \<and> m < 100 \<and> d < 100"
proof -
  define a r b s c t e u where defs: "a = n div 146097" "r = n mod 146097"
    "b = r div 36524" "s = r mod 36524" "c = s div 1461" "t = s mod 1461" "e = t div 365" "u = t mod 365"
  have n: "n = 146097 * a + r" "r = 36524 * b + s" "s = 1461 * c + t" "t = 365 * e + u"
    unfolding defs by (simp_all only: mult_div_mod_eq)
  have lt: "r < 146097" "s < 36524" "t < 1461" "u < 365" by (simp_all add: defs)
  have y: "400 * a + 1 + 100 * b + 4 * c + e \<le> 10000" 
    "e \<noteq> 4 \<Longrightarrow> b \<noteq> 4 \<Longrightarrow> 400 * a + 1 + 100 * b + 4 * c + e < 10000"
    using assms(1) n lt by arith+
  have eq: "ord2ymd n = (if e = 4 \<or> b = 4 then (a * 400 + 1 + b * 100 + c * 4 + e - 1, 12, 31)
      else (a * 400 + 1 + b * 100 + c * 4 + e, month_day u (e = 3 \<and> (c \<noteq> 24 \<or> b = 3))))"
    by (simp add: ord2ymd_def Let_def flip: defs)
  show ?thesis
    using assms(2) y month_day_ok [of u "e = 3 \<and> (c \<noteq> 24 \<or> b = 3)"] lt
    by (auto simp: eq month_day_ok_def split: if_splits prod.splits)
qed

lemma length_pad_pos: "n < 10 ^ w \<Longrightarrow> 0 < w \<Longrightarrow> length (pad w n) = w"
  by (cases w) (simp_all add: length_pad del: power_Suc)

lemma pad_width [simp]: "n < 10000 \<Longrightarrow> length (pad 4 n) = 4" "n < 100 \<Longrightarrow> length (pad 2 n) = 2"
  "n < 1000000 \<Longrightarrow> length (pad 6 n) = 6"
  using length_pad_pos [of n 4] length_pad_pos [of n 2] length_pad_pos [of n 6] by simp_all

lemma isoformat_inject:
  assumes "0 \<le> a" "a < 3652059" "0 \<le> b" "b < 3652059" and eq: "isoformat a = isoformat b"
  shows "a = b"
proof -
  obtain y m d where a: "ord2ymd (nat a) = (y, m, d)" by (metis prod_cases3)
  obtain y' m' d' where b: "ord2ymd (nat b) = (y', m', d')" by (metis prod_cases3)
  have r: "y < 10000 \<and> m < 100 \<and> d < 100" "y' < 10000 \<and> m' < 100 \<and> d' < 100"
    using ord2ymd_range [OF _ a] ord2ymd_range [OF _ b] assms(1-4) by auto
  have "pad 4 y = pad 4 y' \<and> pad 2 m = pad 2 m' \<and> pad 2 d = pad 2 d'"
    using eq r by (simp add: isoformat_def a b append_eq_append_conv)
  then have "y = y'" "m = m'" "d = d'" by (blast dest: pad_inject)+
  then have "ord2ymd (nat a) = ord2ymd (nat b)" using a b by simp
  then have "nat a = nat b" by (metis ymd2ord_ord2ymd)
  then show ?thesis using assms(1,3) by simp
qed

lemma isoformat_chars: "c \<in> set (isoformat a) \<Longrightarrow> is_digit c \<or> c = 45"
  using pad_digits by (auto simp: isoformat_def list_all_iff split: prod.splits)

lemma length_isoformat:
  assumes "0 \<le> a" "a < 3652059" shows "length (isoformat a) = 10"
proof -
  obtain y m d where a: "ord2ymd (nat a) = (y, m, d)" by (metis prod_cases3)
  with ord2ymd_range [OF _ a] assms show ?thesis by (simp add: isoformat_def)
qed

lemma hms_us_chars: "c \<in> set (hms_us t) \<Longrightarrow> is_digit c \<or> c = 46"
  using pad_digits by (auto simp: hms_us_def Let_def list_all_iff)

lemma hms_us_inject:
  assumes "0 \<le> a" "a < us_per_day" "0 \<le> b" "b < us_per_day" and eq: "hms_us a = hms_us b"
  shows "a = b"
proof -
  define s u where s: "s = nat (a div us_per_second)" and u: "u = nat (a mod us_per_second)"
  define s' u' where s': "s' = nat (b div us_per_second)" and u': "u' = nat (b mod us_per_second)"
  have r: "s < 86400" "s' < 86400" "u < 1000000" "u' < 1000000"
    using assms(1-4) by (simp_all add: s s' u u' nat_less_iff)
  then have h: "s div 3600 < 100" "s' div 3600 < 100" by auto
  have l: "s div 60 mod 60 < 100" "s' div 60 mod 60 < 100" "s mod 60 < 100" "s' mod 60 < 100"
    using mod_less_divisor [of 60] by (simp_all add: less_trans [OF mod_less_divisor])
  have "pad 2 (s div 3600) = pad 2 (s' div 3600) \<and> pad 2 (s div 60 mod 60) = pad 2 (s' div 60 mod 60)
      \<and> pad 2 (s mod 60) = pad 2 (s' mod 60) \<and> pad 6 u = pad 6 u'"
    using eq r h l by (simp add: hms_us_def Let_def append_eq_append_conv flip: s s' u u')
  then have e: "s div 3600 = s' div 3600" "s div 60 mod 60 = s' div 60 mod 60" "s mod 60 = s' mod 60" "u = u'"
    by (blast dest: pad_inject)+
  have "s div 3600 = s div 60 div 60" "s' div 3600 = s' div 60 div 60"
    by (simp_all add: div_mult2_eq [symmetric])
  with e(1,2) have "s div 60 = s' div 60" by (metis div_mult_mod_eq)
  with e(3) have "s = s'" by (metis div_mult_mod_eq)
  then have "a div us_per_second = b div us_per_second" "a mod us_per_second = b mod us_per_second"
    using e(4) assms(1,3) unfolding s s' u u'
    by (simp_all add: eq_nat_nat_iff pos_imp_zdiv_nonneg_iff)
  then show ?thesis by (metis div_mult_mod_eq)
qed

end
