(* ===== verification/Rounding.thy ===== *)
theory Rounding
  imports Prelude
begin

text \<open>
  Rounding to a fixed number of significant digits, as the two number types of Python that round do it: \<^verbatim>\<open>float\<close> keeps 53 binary digits, \<^verbatim>\<open>Decimal\<close> in the
  default context 28 decimal ones, both to the nearest and ties to even. The result of an operation is the exact result, rounded. The exponents are
  unbounded here: the durations and amounts of the platform are far from the limits of either type (\<open>10\<close> to the powers \<open>-308\<close> and \<open>308\<close>, and to \<open>-999999\<close> and
  \<open>999999\<close>).
\<close>

section \<open>Rounding\<close>

function digit_count :: "int \<Rightarrow> int \<Rightarrow> int" where
  "digit_count b n = (if n < 1 \<or> b < 2 then 0 else digit_count b (n div b) + 1)"
  by auto

termination
  by (relation "measure (\<lambda>(b, n). nat n)") (auto simp: int_div_less_self)

declare digit_count.simps [simp del]

text \<open>The exponent of the leading digit.\<close>

definition magnitude :: "int \<Rightarrow> rat \<Rightarrow> int" where
  "magnitude b x =
     (let (n, d) = quotient_of \<bar>x\<bar>; e = digit_count b n - digit_count b d
      in if \<bar>x\<bar> < of_int b powi e then e - 1 else e)"

definition round_digits :: "int \<Rightarrow> int \<Rightarrow> rat \<Rightarrow> rat" where
  "round_digits b p x =
     (if x = 0 then 0
      else let unit = of_int b powi (magnitude b x - p + 1) in of_int (round_half_even (x / unit)) * unit)"

section \<open>Lemmas\<close>

lemma round_half_even_near: "\<bar>of_int (round_half_even y) - y\<bar> \<le> 1 / 2"
  using round_half_even_bounds [of y] by linarith

lemma round_half_even_le: "y \<le> of_int k \<Longrightarrow> round_half_even y \<le> k"
proof (rule ccontr)
  assume y: "y \<le> of_int k" and "\<not> round_half_even y \<le> k"
  then have "k + 1 \<le> round_half_even y" by simp
  then have "of_int k + 1 \<le> (of_int (round_half_even y) :: rat)" by (metis of_int_1 of_int_add of_int_le_iff)
  with y round_half_even_bounds [of y] show False by linarith
qed

lemma round_half_even_ge: "of_int k \<le> y \<Longrightarrow> k \<le> round_half_even y"
proof (rule ccontr)
  assume y: "of_int k \<le> y" and "\<not> k \<le> round_half_even y"
  then have "round_half_even y + 1 \<le> k" by simp
  then have "of_int (round_half_even y) + 1 \<le> (of_int k :: rat)" by (metis of_int_1 of_int_add of_int_le_iff)
  with y round_half_even_bounds [of y] show False by linarith
qed

lemma digit_count_int:
  "1 < b \<Longrightarrow> 0 < n \<Longrightarrow> 1 \<le> digit_count b n \<and> b ^ nat (digit_count b n - 1) \<le> n \<and> n < b ^ nat (digit_count b n)"
proof (induction b n rule: digit_count.induct)
  case (1 b n)
  have dc: "digit_count b n = digit_count b (n div b) + 1" using "1.prems" by (simp add: digit_count.simps)
  show ?case
  proof (cases "n < b")
    case True
    then have "n div b = 0" using "1.prems" by simp
    then have "digit_count b n = 1" using dc by (simp add: digit_count.simps)
    with True "1.prems" show ?thesis by simp
  next
    case False
    define k where "k = nat (digit_count b (n div b) - 1)"
    have "0 < n div b" using False "1.prems" by (simp add: pos_imp_zdiv_pos_iff)
    with 1 have IH: "1 \<le> digit_count b (n div b)" "b ^ k \<le> n div b" "n div b < b ^ Suc k"
      by (auto simp: k_def Suc_nat_eq_nat_zadd1)
    have "n div b + 1 \<le> b ^ Suc k" using IH(3) by simp
    then have "b * b ^ k \<le> b * (n div b)" "b * (n div b + 1) \<le> b * b ^ Suc k"
      using IH(2) "1.prems" by (intro mult_left_mono; simp)+
    moreover have "b * (n div b) \<le> n" "n < b * (n div b + 1)"
      using "1.prems"(1) mult_div_mod_eq [of b n] pos_mod_bound [of b n] pos_mod_sign [of b n] unfolding distrib_left by linarith+
    ultimately have pow: "b ^ Suc k \<le> n" "n < b ^ Suc (Suc k)" by simp_all
    have "digit_count b n = int (Suc (Suc k))" using dc IH(1) by (simp add: k_def)
    then have "nat (digit_count b n - 1) = Suc k" "nat (digit_count b n) = Suc (Suc k)" "1 \<le> digit_count b n" by simp_all
    with pow show ?thesis by simp
  qed
qed

lemma digit_count_bounds:
  assumes "1 < b" and "0 < n"
  shows "of_int b powi (digit_count b n - 1) \<le> (of_int n :: rat)" and "(of_int n :: rat) < of_int b powi digit_count b n"
proof -
  note dc = digit_count_int [OF assms]
  then have "(of_int (b ^ nat (digit_count b n - 1)) :: rat) \<le> of_int n" "(of_int n :: rat) < of_int (b ^ nat (digit_count b n))"
    by (simp_all only: of_int_le_iff of_int_less_iff)
  with dc show "of_int b powi (digit_count b n - 1) \<le> (of_int n :: rat)" "(of_int n :: rat) < of_int b powi digit_count b n"
    by (simp_all add: power_int_def)
qed

lemma magnitude_bounds:
  assumes "1 < b" and "x \<noteq> 0"
  shows "of_int b powi magnitude b x \<le> \<bar>x\<bar>" and "\<bar>x\<bar> < of_int b powi (magnitude b x + 1)"
proof -
  let ?B = "of_int b :: rat"
  obtain n d where q: "quotient_of \<bar>x\<bar> = (n, d)" by fastforce
  have d: "0 < d" using quotient_of_denom_pos [OF q] .
  have x: "\<bar>x\<bar> = of_int n / of_int d" using quotient_of_div [OF q] .
  have n: "0 < n" using assms(2) d x by (simp add: zero_less_divide_iff flip: zero_less_abs_iff)
  let ?ln = "digit_count b n" and ?ld = "digit_count b d"
  have N: "?B powi (?ln - 1) \<le> of_int n" "of_int n < ?B powi ?ln"
    using digit_count_bounds [OF assms(1) n] by blast+
  have D: "?B powi (?ld - 1) \<le> of_int d" "of_int d < ?B powi ?ld"
    using digit_count_bounds [OF assms(1) d] by blast+
  have pos: "0 < ?B powi k" for k using assms(1) by simp
  have "?B powi (?ln - ?ld - 1) = ?B powi (?ln - 1) / ?B powi ?ld"
    using assms(1) by (simp add: power_int_diff)
  also have "\<dots> \<le> \<bar>x\<bar>" unfolding x by (rule frac_le) (use N D d n pos in auto)
  finally have lo: "?B powi (?ln - ?ld - 1) \<le> \<bar>x\<bar>" .
  have "\<bar>x\<bar> < ?B powi ?ln / ?B powi (?ld - 1)" unfolding x by (rule frac_less) (use N D d n pos in auto)
  also have "\<dots> = ?B powi (?ln - ?ld + 1)" using assms(1) by (simp add: power_int_diff power_int_add)
  finally have hi: "\<bar>x\<bar> < ?B powi (?ln - ?ld + 1)" .
  show "?B powi magnitude b x \<le> \<bar>x\<bar>" "\<bar>x\<bar> < ?B powi (magnitude b x + 1)"
    using lo hi by (auto simp: magnitude_def q Let_def)
qed

lemma magnitude_le: "1 < b \<Longrightarrow> x \<noteq> 0 \<Longrightarrow> \<bar>x\<bar> < of_int b powi k \<Longrightarrow> magnitude b x < k"
proof -
  assume a: "1 < b" "x \<noteq> 0" "\<bar>x\<bar> < of_int b powi k"
  from magnitude_bounds(1) [OF a(1,2)] a(3) have "(of_int b :: rat) powi magnitude b x < of_int b powi k" by simp
  moreover have "(of_int b :: rat) powi k \<le> of_int b powi magnitude b x" if "k \<le> magnitude b x"
    using that a(1) by (intro power_int_increasing) auto
  ultimately show ?thesis by (meson leD leI)
qed

text \<open>The relative error is at most half a unit of the last digit.\<close>

lemma round_digits_error:
  assumes "1 < b"
  shows "\<bar>round_digits b p x - x\<bar> \<le> of_int b powi (1 - p) / 2 * \<bar>x\<bar>"
proof (cases "x = 0")
  case False
  define u :: rat where "u = of_int b powi (magnitude b x - p + 1)"
  have u: "0 < u" using assms by (simp add: u_def)
  have "round_digits b p x - x = (of_int (round_half_even (x / u)) - x / u) * u"
    using False u by (simp add: round_digits_def Let_def left_diff_distrib flip: u_def)
  then have "\<bar>round_digits b p x - x\<bar> = \<bar>of_int (round_half_even (x / u)) - x / u\<bar> * u" using u by (simp add: abs_mult)
  also have "\<dots> \<le> 1 / 2 * u" using round_half_even_near u by (intro mult_right_mono) auto
  also have "u = of_int b powi (1 - p) * of_int b powi magnitude b x"
    using assms by (simp add: u_def flip: power_int_add) (simp add: algebra_simps)
  also have "1 / 2 * (of_int b powi (1 - p) * of_int b powi magnitude b x) \<le> 1 / 2 * (of_int b powi (1 - p) * \<bar>x\<bar>)"
    using magnitude_bounds(1) [OF assms False] assms by (intro mult_left_mono) auto
  finally show ?thesis by simp
qed (simp add: round_digits_def)

text \<open>A number with few enough digits is not changed.\<close>

lemma unit_multiple:
  assumes "1 < b" and "j \<le> i"
  shows "of_int k * of_int b powi i / of_int b powi j = (of_int (k * b ^ nat (i - j)) :: rat)"
proof -
  have "of_int b powi i / of_int b powi j = (of_int b :: rat) powi (i - j)" using assms(1) by (simp add: power_int_diff)
  also have "\<dots> = of_int b ^ nat (i - j)" using assms(2) by (simp add: power_int_def)
  finally show ?thesis by (simp add: times_divide_eq_right [symmetric] del: times_divide_eq_right)
qed

lemma round_digits_exact:
  assumes "1 < b" and "x = of_int k * of_int b powi j" and "\<bar>x\<bar> < of_int b powi (j + p)"
  shows "round_digits b p x = x"
proof (cases "x = 0")
  case False
  define u :: rat where "u = of_int b powi (magnitude b x - p + 1)"
  have "magnitude b x - p + 1 \<le> j" using magnitude_le [OF assms(1) False assms(3)] by simp
  then obtain m where "x / u = of_int m" using unit_multiple [OF assms(1)] unfolding assms(2) u_def by metis
  moreover have "0 < u" using assms(1) by (simp add: u_def)
  ultimately show ?thesis
    using False by (simp add: round_digits_def Let_def u_def [symmetric]) (simp add: field_simps)
qed (simp add: round_digits_def)

text \<open>Rounding does not cross a number of that kind.\<close>

lemma round_digits_le:
  assumes "1 < b" and "z = of_int k * of_int b powi j" and "\<bar>x\<bar> < of_int b powi (j + p)" and "x \<le> z" and "0 \<le> z"
  shows "round_digits b p x \<le> z"
proof (cases "x = 0")
  case False
  define u :: rat where "u = of_int b powi (magnitude b x - p + 1)"
  have "magnitude b x - p + 1 \<le> j" using magnitude_le [OF assms(1) False assms(3)] by simp
  then obtain m where m: "z / u = of_int m" using unit_multiple [OF assms(1)] unfolding assms(2) u_def by metis
  have u: "0 < u" using assms(1) by (simp add: u_def)
  then have "x / u \<le> of_int m" using assms(4) unfolding m [symmetric] by (simp add: divide_right_mono)
  then have "of_int (round_half_even (x / u)) \<le> z / u" using round_half_even_le m by simp
  then show ?thesis using False u by (simp add: round_digits_def Let_def u_def [symmetric] pos_le_divide_eq)
qed (use assms(5) in \<open>simp add: round_digits_def\<close>)

lemma round_digits_nonneg: "0 \<le> b \<Longrightarrow> 0 \<le> x \<Longrightarrow> 0 \<le> round_digits b p x"
  using round_half_even_ge [of 0] by (simp add: round_digits_def Let_def)

lemma round_digits_0 [simp]: "round_digits b p 0 = 0"
  by (simp add: round_digits_def)

section \<open>Floats\<close>

definition float_round :: "rat \<Rightarrow> pyfloat" where
  "float_round = round_digits 2 53"

text \<open>The relative error of one rounding.\<close>

definition float_eps :: rat where
  "float_eps = 1 / 2 ^ 53"

lemma float_eps_bounds [simp]: "0 < float_eps" "0 \<le> float_eps" "float_eps < 1"
  by (simp_all add: float_eps_def)

lemma float_round_error: "\<bar>float_round x - x\<bar> \<le> float_eps * \<bar>x\<bar>"
proof -
  have "(of_int 2 :: rat) powi (1 - 53) / 2 = float_eps" by (simp add: float_eps_def power_int_def inverse_eq_divide power_one_over)
  then show ?thesis using round_digits_error [of 2 53 x] unfolding float_round_def by (metis one_less_numeral_iff semiring_norm(76))
qed

lemma float_round_nonneg: "0 \<le> x \<Longrightarrow> 0 \<le> float_round x"
  by (simp add: float_round_def round_digits_nonneg)

lemma float_round_0 [simp]: "float_round 0 = 0"
  by (simp add: float_round_def)

lemma float_round_int: "\<bar>k\<bar> < 2 ^ 53 \<Longrightarrow> float_round (of_int k) = of_int k"
  unfolding float_round_def
proof (rule round_digits_exact [where k = k and j = 0])
  assume "\<bar>k\<bar> < 2 ^ 53"
  then have "(of_int \<bar>k\<bar> :: rat) < of_int (2 ^ 53)" by (simp only: of_int_less_iff)
  then show "\<bar>of_int k :: rat\<bar> < of_int 2 powi (0 + 53)" by simp
qed simp_all

lemma float_round_le_1: "0 \<le> x \<Longrightarrow> x \<le> 1 \<Longrightarrow> float_round x \<le> 1"
  unfolding float_round_def by (rule round_digits_le [where k = 1 and j = 0]) simp_all

lemma float_round_pos: "0 < x \<Longrightarrow> 0 < float_round x"
  using float_round_error [of x] by (simp add: float_eps_def abs_if split: if_splits)

text \<open>A fraction below 1 with fewer than \<open>2 ^ 53\<close> parts is still below 1.\<close>

lemma float_round_less_1:
  assumes "0 \<le> a" and "a < n" and "n < 2 ^ 53"
  shows "float_round (of_int a / of_int n) < 1"
proof -
  have n: "(0 :: rat) < of_int n" "(of_int n :: rat) < 2 ^ 53"
  proof -
    from assms(3) have "(of_int n :: rat) < of_int (2 ^ 53)" by (simp only: of_int_less_iff)
    then show "(of_int n :: rat) < 2 ^ 53" by simp
  qed (use assms in simp)
  have "(of_int a :: rat) \<le> of_int (n - 1)" using assms(2) by (simp only: of_int_le_iff)
  then have "of_int a / of_int n \<le> (of_int n - 1) / (of_int n :: rat)" using n(1) by (simp add: divide_right_mono)
  also have "\<dots> \<le> of_int (2 ^ 53 - 1) / 2 ^ 53" using n by (simp add: field_simps)
  finally have "of_int a / of_int n \<le> (of_int (2 ^ 53 - 1) * of_int 2 powi (- 53) :: rat)"
    by (simp add: power_int_minus field_simps)
  moreover have "\<bar>of_int a / of_int n\<bar> < (of_int 2 powi (- 53 + 53) :: rat)" using assms n by simp
  ultimately have "float_round (of_int a / of_int n) \<le> of_int (2 ^ 53 - 1) * of_int 2 powi (- 53)"
    unfolding float_round_def by (intro round_digits_le [where k = "2 ^ 53 - 1" and j = "- 53"]) (simp_all add: power_int_minus)
  also have "\<dots> < 1" by (simp add: power_int_minus)
  finally show ?thesis .
qed

section \<open>Decimals\<close>

definition decimal_round :: "rat \<Rightarrow> rat" where
  "decimal_round = round_digits 10 28"

lemma decimal_round_cents:
  assumes "\<bar>of_int k / 100\<bar> < (10 ^ 26 :: rat)"
  shows "decimal_round (of_int k / 100) = of_int k / 100"
  unfolding decimal_round_def
  by (rule round_digits_exact [where k = k and j = "- 2"]) (use assms in \<open>simp_all add: power_int_minus\<close>)

lemma decimal_round_error: "\<bar>decimal_round x - x\<bar> \<le> 1 / (2 * 10 ^ 27) * \<bar>x\<bar>"
proof -
  have "(of_int 10 :: rat) powi (1 - 28) / 2 = 1 / (2 * 10 ^ 27)" by (simp add: power_int_def inverse_eq_divide power_one_over)
  with round_digits_error [of 10 28 x] show ?thesis by (simp add: decimal_round_def)
qed

lemma decimal_round_0 [simp]: "decimal_round 0 = 0"
  by (simp add: decimal_round_def)

lemma decimal_round_double: "\<bar>decimal_round x\<bar> \<le> 2 * \<bar>x\<bar>"
proof -
  have "1 / (2 * 10 ^ 27) * \<bar>x\<bar> \<le> \<bar>x\<bar>" by simp
  with decimal_round_error [of x] show ?thesis by linarith
qed

text \<open>Sums, from left to right.\<close>

definition decimal_sum :: "rat \<Rightarrow> rat list \<Rightarrow> rat" where
  "decimal_sum = foldl (\<lambda>total x. decimal_round (total + x))"

definition whole_cents :: "rat \<Rightarrow> bool" where
  "whole_cents x \<longleftrightarrow> (\<exists>k. x = of_int k / 100)"

lemma whole_cents_add: "whole_cents x \<Longrightarrow> whole_cents y \<Longrightarrow> whole_cents (x + y)"
  unfolding whole_cents_def by (metis add_divide_distrib of_int_add)

lemma whole_cents_0 [simp]: "whole_cents 0"
  unfolding whole_cents_def by (rule exI [of _ 0]) simp

text \<open>Sums of whole cents are exact as long as they need no more than 28 digits.\<close>

lemma decimal_sum_exact:
  "whole_cents a \<Longrightarrow> \<forall>x \<in> set xs. whole_cents x \<Longrightarrow> \<bar>a\<bar> + sum_list (map abs xs) < 10 ^ 26 \<Longrightarrow> decimal_sum a xs = a + sum_list xs"
proof (induction xs arbitrary: a)
  case (Cons x xs)
  have pos: "0 \<le> sum_list (map abs xs)" by (rule sum_list_nonneg) auto
  have w: "whole_cents (a + x)" using Cons.prems(1,2) by (simp add: whole_cents_add)
  then obtain k where k: "a + x = of_int k / 100" by (auto simp: whole_cents_def)
  have "\<bar>a + x\<bar> < 10 ^ 26" using Cons.prems(3) pos abs_triangle_ineq [of a x] by simp
  then have "decimal_round (a + x) = a + x" using decimal_round_cents [of k] unfolding k by simp
  moreover have "decimal_sum (a + x) xs = a + x + sum_list xs"
    using Cons.prems(2,3) abs_triangle_ineq [of a x] by (intro Cons.IH [OF w]) simp_all
  ultimately show ?case by (simp add: decimal_sum_def add.assoc)
qed (simp add: decimal_sum_def)

end
