(* ===== verification/Domain.thy ===== *)
theory Domain
  imports Pytime Rounding
begin

text \<open>
  The domain objects (\<^verbatim>\<open>domain/models.py\<close>), the execution state machine (\<^verbatim>\<open>domain/state_machine.py\<close>)
  and the cancellation tokens (\<^verbatim>\<open>domain/cancel.py\<close>). A dataclass is a record; its
  \<^verbatim>\<open>__post_init__\<close> is the constructor function that returns the record or the exception raised.
\<close>

section \<open>Retry policy\<close>

record RetryPolicy =
  max_attempts :: int
  backoff :: BackoffStrategy
  base_delay_seconds :: pyfloat
  max_delay_seconds :: pyfloat

definition default_retry_policy :: RetryPolicy where
  "default_retry_policy =
     \<lparr>max_attempts = 3, backoff = FIXED, base_delay_seconds = 1, max_delay_seconds = 60\<rparr>"

definition max_delay_message :: pystr where
  "max_delay_message =
     lit ''max_delay_seconds '' @ [0x4E0D, 0x80FD, 0x5C0F, 0x4E8E] @ lit '' base_delay_seconds''"

definition RetryPolicy_post_init :: "RetryPolicy \<Rightarrow> exn + RetryPolicy" where
  "RetryPolicy_post_init p =
     (if max_attempts p < 1 then Inl (ValueError (lit ''max_attempts must be >= 1''))
      else if base_delay_seconds p < 0
        then Inl (ValueError (lit ''base_delay_seconds must be >= 0''))
      else if max_delay_seconds p < base_delay_seconds p then Inl (ValueError max_delay_message)
      else Inr p)"

text \<open>The product of a float and an int converts the int first, which overflows from \<open>2 ^ 1024\<close> on.\<close>

definition delay_for_attempt :: "RetryPolicy \<Rightarrow> int \<Rightarrow> exn + pyfloat" where
  "delay_for_attempt p attempt =
     (if attempt < 1 then Inl (ValueError (lit ''attempt must be >= 1''))
      else if backoff p = FIXED then Inr (min (base_delay_seconds p) (max_delay_seconds p))
      else if attempt - 1 \<ge> 1024 then Inl OverflowError
      else Inr (min (base_delay_seconds p * 2 ^ nat (attempt - 1)) (max_delay_seconds p)))"

definition allows_retry :: "RetryPolicy \<Rightarrow> int \<Rightarrow> bool" where
  "allows_retry p attempt \<longleftrightarrow> attempt < max_attempts p"

definition valid_policy :: "RetryPolicy \<Rightarrow> bool" where
  "valid_policy p \<longleftrightarrow> RetryPolicy_post_init p = Inr p"

lemma valid_policy_iff:
  "valid_policy p \<longleftrightarrow> 1 \<le> max_attempts p \<and> 0 \<le> base_delay_seconds p
     \<and> base_delay_seconds p \<le> max_delay_seconds p"
  by (auto simp: valid_policy_def RetryPolicy_post_init_def)

lemma RetryPolicy_post_init_Inr [simp]: "RetryPolicy_post_init p = Inr q \<longleftrightarrow> valid_policy p \<and> q = p"
  by (auto simp: valid_policy_def RetryPolicy_post_init_def)

lemma valid_policy_post_init [simp]: "valid_policy p \<Longrightarrow> RetryPolicy_post_init p = Inr p"
  by (simp only: valid_policy_def)

lemma valid_default_retry_policy [simp]: "valid_policy default_retry_policy"
  by (simp add: valid_policy_iff default_retry_policy_def)

lemma delay_for_attempt_returns:
  assumes "valid_policy p" and "1 \<le> n" and "n \<le> 1024"
  shows "\<exists>d. delay_for_attempt p n = Inr d \<and> base_delay_seconds p \<le> d \<and> d \<le> max_delay_seconds p"
proof -
  have "base_delay_seconds p * 1 \<le> base_delay_seconds p * 2 ^ nat (n - 1)"
    using assms(1) by (intro mult_left_mono) (simp_all add: valid_policy_iff)
  with assms show ?thesis
    by (auto simp: delay_for_attempt_def valid_policy_iff min_def)
qed

lemma delay_for_attempt_mono:
  assumes "valid_policy p" and "1 \<le> m" "m \<le> n" "n \<le> 1024"
    and "delay_for_attempt p m = Inr d" and "delay_for_attempt p n = Inr e"
  shows "d \<le> e"
proof -
  have "(2::rat) ^ nat (m - 1) \<le> 2 ^ nat (n - 1)"
    using assms(3) by (intro power_increasing) auto
  then have "base_delay_seconds p * 2 ^ nat (m - 1) \<le> base_delay_seconds p * 2 ^ nat (n - 1)"
    using assms(1) by (intro mult_left_mono) (simp_all add: valid_policy_iff)
  with assms show ?thesis
    by (auto simp: delay_for_attempt_def split: if_splits intro: min.mono)
qed

section \<open>Jobs, executions and logs\<close>

record Job =
  j_name :: pystr
  j_job_type :: JobType
  j_handler :: pystr
  j_id :: pystr
  j_timeout_seconds :: pyfloat
  j_retry_policy :: RetryPolicy
  j_enabled :: bool
  j_created_at :: datetime

definition Job_post_init :: "Job \<Rightarrow> exn + Job" where
  "Job_post_init j =
     (if blank (j_name j) then Inl (ValueError (lit ''name must not be empty''))
      else if j_timeout_seconds j \<le> 0 then Inl (ValueError (lit ''timeout_seconds must be >= 0''))
      else Inr j)"

definition valid_job :: "Job \<Rightarrow> bool" where
  "valid_job j \<longleftrightarrow> \<not> blank (j_name j) \<and> 0 < j_timeout_seconds j \<and> valid_policy (j_retry_policy j)"

record JobExecution =
  x_job_id :: pystr
  x_run_id :: pystr
  x_status :: JobStatus
  x_attempt :: int
  x_started_at :: "datetime option"
  x_finished_at :: "datetime option"
  x_error_message :: "pystr option"
  x_timeout_seconds :: "pyfloat option"
  x_max_attempts :: "int option"
  x_cancel_requested :: bool
  x_next_retry_at :: "datetime option"

text \<open>\<^verbatim>\<open>JobExecution(job_id=..., run_id=...)\<close>: every other field at its default.\<close>

definition new_execution :: "pystr \<Rightarrow> pystr \<Rightarrow> JobExecution" where
  "new_execution job_id run_id =
     \<lparr>x_job_id = job_id, x_run_id = run_id, x_status = PENDING, x_attempt = 0, x_started_at = None,
      x_finished_at = None, x_error_message = None, x_timeout_seconds = None, x_max_attempts = None,
      x_cancel_requested = False, x_next_retry_at = None\<rparr>"

definition duration_seconds :: "JobExecution \<Rightarrow> pyfloat" where
  "duration_seconds x =
     (case (x_started_at x, x_finished_at x) of
        (Some s, Some f) \<Rightarrow> float_round (of_int (instant f - instant s) / 1000000)
      | _ \<Rightarrow> 0)"

record JobLog =
  l_run_id :: pystr
  l_attempt :: int
  l_level :: pystr
  l_message :: pystr
  l_created_at :: datetime

text \<open>\<^verbatim>\<open>_new_id\<close> and \<^verbatim>\<open>new_run_id\<close>: the hexadecimal digits of the UUID are the argument.\<close>

definition new_id :: "pystr \<Rightarrow> pystr \<Rightarrow> pystr" where
  "new_id prefix hex = prefix @ lit ''_'' @ take 12 hex"

definition new_run_id :: "pystr \<Rightarrow> pystr" where
  "new_run_id hex = new_id (lit ''run'') hex"

lemma new_execution_sel [simp]:
  "x_job_id (new_execution j r) = j" "x_run_id (new_execution j r) = r"
  "x_status (new_execution j r) = PENDING" "x_attempt (new_execution j r) = 0"
  "x_started_at (new_execution j r) = None" "x_finished_at (new_execution j r) = None"
  "x_error_message (new_execution j r) = None" "x_timeout_seconds (new_execution j r) = None"
  "x_max_attempts (new_execution j r) = None" "\<not> x_cancel_requested (new_execution j r)"
  "x_next_retry_at (new_execution j r) = None"
  by (simp_all add: new_execution_def)

section \<open>State machine\<close>

fun allowed_transitions :: "JobStatus \<Rightarrow> JobStatus list" where
  "allowed_transitions PENDING = [QUEUED, CANCELED]"
| "allowed_transitions QUEUED = [RUNNING, CANCELED]"
| "allowed_transitions RUNNING = [SUCCESS, RETRYING, FAILED, CANCELED, RECOVERABLE]"
| "allowed_transitions RETRYING = [QUEUED, RECOVERABLE]"
| "allowed_transitions RECOVERABLE = [QUEUED, FAILED, CANCELED]"
| "allowed_transitions SUCCESS = []"
| "allowed_transitions FAILED = []"
| "allowed_transitions CANCELED = []"

definition can_transition :: "JobStatus \<Rightarrow> JobStatus \<Rightarrow> bool" where
  "can_transition current target \<longleftrightarrow> target \<in> set (allowed_transitions current)"

definition transition :: "JobExecution \<Rightarrow> JobStatus \<Rightarrow> exn + JobExecution" where
  "transition x target =
     (let current = x_status x
      in if \<not> can_transition current target then Inl (InvalidStateTransitionError current target)
         else Inr (x\<lparr>x_status := target\<rparr>))"

text \<open>The same machine as a step relation on statuses, and the statuses a run of it passes
  through: \<open>status_path s ss t\<close> leads from \<open>s\<close> to \<open>t\<close> by accepted transitions to each of \<open>ss\<close>.\<close>

inductive status_step :: "JobStatus \<Rightarrow> JobStatus \<Rightarrow> bool" where
  accepted: "transition x t = Inr x' \<Longrightarrow> status_step (x_status x) (x_status x')"

inductive status_path :: "JobStatus \<Rightarrow> JobStatus list \<Rightarrow> JobStatus \<Rightarrow> bool" where
  path_refl: "status_path s [] s"
| path_step: "status_path s ss t \<Longrightarrow> status_step t u \<Longrightarrow> status_path s (ss @ [u]) u"

lemma transition_ok [simp]:
  "can_transition (x_status x) t \<Longrightarrow> transition x t = Inr (x\<lparr>x_status := t\<rparr>)"
  by (simp add: transition_def Let_def)

lemma transition_Inr_iff:
  "transition x t = Inr x' \<longleftrightarrow> can_transition (x_status x) t \<and> x' = x\<lparr>x_status := t\<rparr>"
  by (auto simp: transition_def Let_def)

lemma status_step_iff: "status_step s t \<longleftrightarrow> can_transition s t"
proof
  assume "status_step s t"
  then show "can_transition s t"
    by cases (auto simp: transition_Inr_iff)
next
  assume c: "can_transition s t"
  let ?x = "(new_execution [] [])\<lparr>x_status := s\<rparr>"
  from c have "transition ?x t = Inr (?x\<lparr>x_status := t\<rparr>)" by simp
  from status_step.accepted [OF this] show "status_step s t" by simp
qed

lemma can_transition_simps [simp]:
  "can_transition PENDING t \<longleftrightarrow> t = QUEUED \<or> t = CANCELED"
  "can_transition QUEUED t \<longleftrightarrow> t = RUNNING \<or> t = CANCELED"
  "can_transition RUNNING t \<longleftrightarrow>
     t = SUCCESS \<or> t = RETRYING \<or> t = FAILED \<or> t = CANCELED \<or> t = RECOVERABLE"
  "can_transition RETRYING t \<longleftrightarrow> t = QUEUED \<or> t = RECOVERABLE"
  "can_transition RECOVERABLE t \<longleftrightarrow> t = QUEUED \<or> t = FAILED \<or> t = CANCELED"
  "\<not> can_transition SUCCESS t" "\<not> can_transition FAILED t" "\<not> can_transition CANCELED t"
  by (auto simp: can_transition_def)

lemma terminal_iff_no_step: "is_terminal s \<longleftrightarrow> (\<forall>t. \<not> status_step s t)"
  by (cases s) (auto simp: status_step_iff)

lemma status_path_last: "status_path s ss t \<Longrightarrow> t = (if ss = [] then s else last ss)"
  by (induction rule: status_path.induct) auto

lemma status_path_needs_running:
  "status_path s ss t \<Longrightarrow> s = PENDING \<Longrightarrow> ss = [] \<or> t \<in> {QUEUED, CANCELED} \<or> RUNNING \<in> set ss"
proof (induction rule: status_path.induct)
  case (path_refl s)
  then show ?case by simp
next
  case (path_step s ss t u)
  then show ?case
    by (cases t) (auto simp: status_step_iff dest: status_path_last)
qed

section \<open>Cancellation tokens and active runs\<close>

text \<open>A \<^verbatim>\<open>CancelToken\<close> is an identity in a store of events: the token a handler holds and the one
  \<^verbatim>\<open>ActiveRuns\<close> holds are the same object, so setting it is visible to both.\<close>

type_synonym token = nat

record ActiveRuns =
  fired :: "token \<Rightarrow> bool"
  next_token :: token
  tokens :: "(pystr \<times> token) list"

definition CancelToken_new :: "ActiveRuns \<Rightarrow> token \<times> ActiveRuns" where
  "CancelToken_new a = (next_token a, a\<lparr>fired := (fired a)(next_token a := False),
     next_token := Suc (next_token a)\<rparr>)"

definition token_cancel :: "token \<Rightarrow> ActiveRuns \<Rightarrow> ActiveRuns" where
  "token_cancel t a = a\<lparr>fired := (fired a)(t := True)\<rparr>"

definition token_is_cancelled :: "token \<Rightarrow> ActiveRuns \<Rightarrow> bool" where
  "token_is_cancelled t a \<longleftrightarrow> fired a t"

definition token_check :: "token \<Rightarrow> ActiveRuns \<Rightarrow> exn + unit" where
  "token_check t a = (if fired a t then Inl (JobCanceledError (lit ''job canceled'')) else Inr ())"

definition active_register :: "pystr \<Rightarrow> token \<Rightarrow> ActiveRuns \<Rightarrow> ActiveRuns" where
  "active_register run_id t a = a\<lparr>tokens := AList.update run_id t (tokens a)\<rparr>"

definition active_unregister :: "pystr \<Rightarrow> ActiveRuns \<Rightarrow> ActiveRuns" where
  "active_unregister run_id a = a\<lparr>tokens := AList.delete run_id (tokens a)\<rparr>"

definition active_cancel :: "pystr \<Rightarrow> ActiveRuns \<Rightarrow> bool \<times> ActiveRuns" where
  "active_cancel run_id a =
     (case map_of (tokens a) run_id of None \<Rightarrow> (False, a) | Some t \<Rightarrow> (True, token_cancel t a))"

definition active_ids :: "ActiveRuns \<Rightarrow> pystr list" where
  "active_ids a = map fst (tokens a)"

end
