(* ===== verification/Scheduling.thy ===== *)
theory Scheduling
  imports Domain
begin

text \<open>
  Schedules and their next trigger (\<^verbatim>\<open>domain/schedule.py\<close>) and the idempotency key of a trigger
  (\<^verbatim>\<open>domain/idempotency.py\<close>). The lemmas state when the next trigger is strictly later, that a daily
  schedule misses no occurrence, and that keys of different slots differ.
\<close>

section \<open>Schedules\<close>

record Schedule =
  s_job_id :: pystr
  s_schedule_type :: ScheduleType
  s_id :: pystr
  s_interval_seconds :: "pyfloat option"
  s_time_of_day :: "int option"
  s_enabled :: bool

definition interval_message :: pystr where
  "interval_message = lit ''INTERVAL '' @ [0x7C7B, 0x578B, 0x5FC5, 0x987B, 0x63D0, 0x4F9B]
     @ lit '' > 0 '' @ [0x7684] @ lit '' interval_seconds''"

definition daily_message :: pystr where
  "daily_message = lit ''DAILY '' @ [0x7C7B, 0x578B, 0x5FC5, 0x987B, 0x63D0, 0x4F9B] @ lit '' time_of_day''"

definition Schedule_post_init :: "Schedule \<Rightarrow> exn + Schedule" where
  "Schedule_post_init s =
     (case s_schedule_type s of
        INTERVAL \<Rightarrow>
          (case s_interval_seconds s of
             None \<Rightarrow> Inl (ValueError interval_message)
           | Some x \<Rightarrow> if x \<le> 0 then Inl (ValueError interval_message) else Inr s)
      | DAILY \<Rightarrow>
          (if s_time_of_day s = None then Inl (ValueError daily_message) else Inr s))"

definition compute_next_run :: "Schedule \<Rightarrow> datetime \<Rightarrow> exn + datetime" where
  "compute_next_run s after =
     (case s_schedule_type s of
        INTERVAL \<Rightarrow>
          (case s_interval_seconds s of
             None \<Rightarrow> Inl AssertionError
           | Some x \<Rightarrow>
               (case timedelta_seconds x of Inl e \<Rightarrow> Inl e | Inr td \<Rightarrow> add_timedelta after td))
      | DAILY \<Rightarrow>
          (case s_time_of_day s of
             None \<Rightarrow> Inl AssertionError
           | Some tod \<Rightarrow>
               (let candidate = combine (date_of after) tod (Some 0)
                in case dt_le candidate after of
                     Inl e \<Rightarrow> Inl e
                   | Inr b \<Rightarrow> if b then add_timedelta candidate us_per_day else Inr candidate)))"

text \<open>A schedule that passed its checks; a \<^verbatim>\<open>time\<close> is always within the day.\<close>

definition valid_schedule :: "Schedule \<Rightarrow> bool" where
  "valid_schedule s \<longleftrightarrow> Schedule_post_init s = Inr s
     \<and> (\<forall>tod. s_time_of_day s = Some tod \<longrightarrow> 0 \<le> tod \<and> tod < us_per_day)"

lemma Schedule_post_init_id: "Schedule_post_init s = Inr t \<Longrightarrow> t = s"
  by (auto simp: Schedule_post_init_def split: ScheduleType.splits option.splits if_splits)

lemma valid_schedule_interval:
  "valid_schedule s \<Longrightarrow> s_schedule_type s = INTERVAL \<Longrightarrow> \<exists>x > 0. s_interval_seconds s = Some x"
  by (auto simp: valid_schedule_def Schedule_post_init_def split: option.splits if_splits)

lemma valid_schedule_daily:
  "valid_schedule s \<Longrightarrow> s_schedule_type s = DAILY \<Longrightarrow>
     \<exists>tod. s_time_of_day s = Some tod \<and> 0 \<le> tod \<and> tod < us_per_day"
  by (auto simp: valid_schedule_def Schedule_post_init_def split: if_splits)

text \<open>Far from the end of the calendar the next trigger exists and is UTC again.\<close>

lemma wall_mono_date: "date_of d < date_of e \<Longrightarrow> wall d < wall e"
  unfolding date_of_def by (rule ccontr) (simp add: zdiv_mono1 not_less)

lemma compute_next_run_daily_cases:
  assumes "valid_schedule s" and "s_schedule_type s = DAILY" and "is_utc after"
    and "wall after + us_per_day < max_wall"
  obtains tod where "s_time_of_day s = Some tod" and "0 \<le> tod" and "tod < us_per_day"
    and "compute_next_run s after =
      Inr (utc (date_of after * us_per_day + tod + (if tod \<le> time_of after then us_per_day else 0)))"
proof -
  from valid_schedule_daily [OF assms(1,2)] obtain tod
    where tod: "s_time_of_day s = Some tod" "0 \<le> tod" "tod < us_per_day" by blast
  let ?c = "combine (date_of after) tod (Some 0)"
  have c: "?c = utc (date_of after * us_per_day + tod)" by (simp add: combine_def utc_def)
  have w: "wall after = date_of after * us_per_day + time_of after" "0 \<le> wall after"
    using assms(3) by (simp_all add: wall_split [symmetric] is_utc_def)
  have d: "0 \<le> date_of after" using w(2) by (simp add: date_of_def pos_imp_zdiv_nonneg_iff)
  have "dt_le ?c after = Inr (tod \<le> time_of after)"
    using is_utcD [OF assms(3)] w by (simp add: c)
  moreover have "add_timedelta ?c us_per_day = Inr (utc (date_of after * us_per_day + tod + us_per_day))"
    if "tod \<le> time_of after"
    using that tod d w assms(4) by (simp add: c add_timedelta_def mk_datetime_def utc_def)
  ultimately have "compute_next_run s after =
      Inr (utc (date_of after * us_per_day + tod + (if tod \<le> time_of after then us_per_day else 0)))"
    using assms(2) tod by (simp add: compute_next_run_def Let_def c)
  with tod that show thesis by blast
qed

lemma compute_next_run_daily_utc:
  assumes "valid_schedule s" and "s_schedule_type s = DAILY" and "is_utc after"
    and "wall after + us_per_day < max_wall"
  shows "\<exists>n. compute_next_run s after = Inr n \<and> is_utc n \<and> wall after < wall n
     \<and> wall n \<le> wall after + us_per_day \<and> s_time_of_day s = Some (time_of n)"
proof -
  obtain tod where t: "s_time_of_day s = Some tod" "0 \<le> tod" "tod < us_per_day"
    and n: "compute_next_run s after =
      Inr (utc (date_of after * us_per_day + tod + (if tod \<le> time_of after then us_per_day else 0)))"
    using compute_next_run_daily_cases [OF assms] by metis
  have w: "wall after = date_of after * us_per_day + time_of after" "0 \<le> wall after"
    "0 \<le> time_of after" "time_of after < us_per_day" "0 \<le> date_of after"
    using assms(3) time_of_bounds [of after]
    by (simp_all add: wall_split [symmetric] is_utc_def)
      (simp add: date_of_def pos_imp_zdiv_nonneg_iff)
  show ?thesis
  proof (intro exI conjI)
    show "compute_next_run s after =
      Inr (utc (date_of after * us_per_day + tod + (if tod \<le> time_of after then us_per_day else 0)))"
      by (fact n)
  qed (use t w assms(4) in \<open>auto simp: time_of_def\<close>)
qed

lemma compute_next_run_interval_cases:
  assumes "valid_schedule s" and "s_schedule_type s = INTERVAL"
    and "s_interval_seconds s = Some x" and "x \<le> 86399999913600" and "is_utc after"
    and "wall after + round_half_even (x * 1000000) < max_wall"
  shows "compute_next_run s after = Inr (utc (wall after + round_half_even (x * 1000000)))"
proof -
  have x: "0 < x" using valid_schedule_interval [OF assms(1,2)] assms(3) by auto
  then have r0: "0 \<le> round_half_even (x * 1000000)" by (intro round_half_even_mono_nonneg) simp
  have "of_int (round_half_even (x * 1000000)) \<le> x * 1000000 + 1 / 2"
    using round_half_even_bounds [of "x * 1000000"] by linarith
  also have "\<dots> \<le> 86399999913600 * 1000000 + 1 / 2" using assms(4) by simp
  finally have "round_half_even (x * 1000000) \<le> 86399999913600000000" by linarith
  then have "timedelta_seconds x = Inr (round_half_even (x * 1000000))"
    using r0 zdiv_mono1 [of _ 86399999913600000000 us_per_day]
    by (auto simp: timedelta_seconds_def Let_def intro: order_trans [of _ 0])
  then show ?thesis
    using assms(2,3,5,6) r0
    by (auto simp: compute_next_run_def add_timedelta_def mk_datetime_def is_utc_def utc_def)
qed

section \<open>Idempotency keys\<close>

definition MAX_KEY_LENGTH :: nat where
  "MAX_KEY_LENGTH = 255"

definition build_idempotency_key :: "pystr \<Rightarrow> int \<Rightarrow> pystr option \<Rightarrow> exn + pystr" where
  "build_idempotency_key job_id business_date part =
     (if job_id = [] then Inl (ValueError (lit ''job_id must not be empty''))
      else
        let key = job_id @ lit '':'' @ isoformat business_date
        in case (case part of
                   None \<Rightarrow> Inr key
                 | Some p \<Rightarrow>
                     if blank p then Inl (ValueError (lit ''partition must not be blank''))
                     else Inr (key @ lit '':'' @ p)) of
             Inl e \<Rightarrow> Inl e
           | Inr key \<Rightarrow>
               if length key > MAX_KEY_LENGTH
               then Inl (ValueError (lit ''idempotency key longer than '' @ show_nat MAX_KEY_LENGTH))
               else Inr key)"

definition scheduled_key :: "pystr \<Rightarrow> Schedule \<Rightarrow> datetime \<Rightarrow> exn + pystr" where
  "scheduled_key job_id s schedule_at =
     (if tzinfo schedule_at = None
      then Inl (ValueError (lit ''scheduled_at must be timezone-aware''))
      else case astimezone_utc schedule_at of
             Inl e \<Rightarrow> Inl e
           | Inr slot \<Rightarrow>
               if s_schedule_type s = DAILY
               then build_idempotency_key job_id (date_of slot) (Some (s_id s))
               else build_idempotency_key job_id (date_of slot)
                      (Some (s_id s @ lit ''@'' @ hms_us (time_of slot))))"

definition slot_partition :: "Schedule \<Rightarrow> datetime \<Rightarrow> pystr" where
  "slot_partition s slot =
     (if s_schedule_type s = DAILY then s_id s else s_id s @ lit ''@'' @ hms_us (time_of slot))"

lemma scheduled_key_form:
  assumes "is_utc slot" and "scheduled_key job_id s slot = Inr key"
  shows "key = job_id @ lit '':'' @ isoformat (date_of slot) @ lit '':'' @ slot_partition s slot"
  using assms
  by (auto simp: scheduled_key_def build_idempotency_key_def slot_partition_def Let_def
      astimezone_utc_id is_utc_def split: if_splits)

lemma colon_notin_isoformat: "(58::nat) \<notin> set (isoformat d)"
  using isoformat_chars [of 58 d] by (auto simp: is_digit_def)

lemma date_of_range: "is_utc d \<Longrightarrow> 0 \<le> date_of d \<and> date_of d < 3652059"
proof -
  assume "is_utc d"
  then have "0 \<le> wall d" "wall d < 3652059 * us_per_day" by (simp_all add: is_utc_def)
  then show ?thesis
    by (simp add: date_of_def pos_imp_zdiv_nonneg_iff)
qed

lemma slot_partition_inject:
  assumes "(64::nat) \<notin> set (s_id s)" "(64::nat) \<notin> set (s_id s')"
    and "slot_partition s slot = slot_partition s' slot'"
  shows "s_id s = s_id s' \<and> s_schedule_type s = s_schedule_type s'
    \<and> (s_schedule_type s = INTERVAL \<longrightarrow> time_of slot = time_of slot')"
proof (cases "s_schedule_type s"; cases "s_schedule_type s'")
  assume t: "s_schedule_type s = INTERVAL" "s_schedule_type s' = INTERVAL"
  have "s_id s @ 64 # hms_us (time_of slot) = s_id s' @ 64 # hms_us (time_of slot')"
    using assms(3) t by (simp add: slot_partition_def lit_def)
  from split_at_sep [OF assms(1,2) this] have "s_id s = s_id s'" "hms_us (time_of slot) = hms_us (time_of slot')"
    by simp_all
  moreover have "time_of slot = time_of slot'"
    by (rule hms_us_inject) (use calculation time_of_bounds in auto)
  ultimately show ?thesis using t by simp
next
  assume t: "s_schedule_type s = INTERVAL" "s_schedule_type s' = DAILY"
  with assms(3) have "64 \<in> set (s_id s')" by (auto simp: slot_partition_def lit_def dest: sym)
  with assms(2) show ?thesis by simp
next
  assume t: "s_schedule_type s = DAILY" "s_schedule_type s' = INTERVAL"
  with assms(3) have "64 \<in> set (s_id s)" by (auto simp: slot_partition_def lit_def)
  with assms(1) show ?thesis by simp
next
  assume t: "s_schedule_type s = DAILY" "s_schedule_type s' = DAILY"
  with assms(3) show ?thesis by (simp add: slot_partition_def)
qed

text \<open>Evaluation of a concrete key by the simplifier.\<close>

lemmas scheduled_key_eval = scheduled_key_def build_idempotency_key_def astimezone_utc_def mk_datetime_def
  date_of_def time_of_def isoformat_def hms_us_def ord2ymd_def month_day_def days_before_month_def
  pad_def show_nat.simps Let_def utc_def instant_def blank_def is_space_def MAX_KEY_LENGTH_def lit_def
  replicate_numeral_eq

section \<open>Properties\<close>

text \<open>
  C25: A daily schedule misses no day. For a UTC time \<open>after\<close> not on the last representable day,
  \<^verbatim>\<open>compute_next_run\<close> returns the least UTC instant strictly after \<open>after\<close> whose time of day is the
  schedule's, at most one day later.
\<close>

theorem compute_next_run_daily:
  assumes "valid_schedule s" and "s_schedule_type s = DAILY" and "is_utc after"
    and "wall after + us_per_day < max_wall"
  shows "\<exists>n. compute_next_run s after = Inr n \<and> is_utc n \<and> instant after < instant n
    \<and> instant n \<le> instant after + us_per_day \<and> s_time_of_day s = Some (time_of n)
    \<and> (\<forall>m. is_utc m \<and> s_time_of_day s = Some (time_of m) \<and> instant after < instant m
         \<longrightarrow> instant n \<le> instant m)"
proof -
  obtain n where n: "compute_next_run s after = Inr n" "is_utc n" "wall after < wall n"
    "wall n \<le> wall after + us_per_day" "s_time_of_day s = Some (time_of n)"
    using compute_next_run_daily_utc [OF assms] by blast
  have least: "wall n \<le> wall m" if "time_of m = time_of n" "wall after < wall m" for m
  proof (rule ccontr)
    assume "\<not> wall n \<le> wall m"
    then have "date_of m < date_of n"
      using that(1) wall_split [of m] wall_split [of n] by simp
    then have "wall m + us_per_day \<le> wall n"
      using that(1) wall_split [of m] wall_split [of n] by simp
    with n(4) that(2) show False by simp
  qed
  have i: "is_utc d \<Longrightarrow> instant d = wall d" for d by (simp add: is_utcD)
  show ?thesis
    by (intro exI [of _ n] conjI) (use n least assms(3) in \<open>auto simp: i\<close>)
qed

theorem compute_next_run_daily_witness:
  "\<exists>n. compute_next_run
        \<lparr>s_job_id = lit ''job_1'', s_schedule_type = DAILY, s_id = lit ''sch_1'', s_interval_seconds = None,
         s_time_of_day = Some 3600000000, s_enabled = True\<rparr> (utc 86400000000) = Inr n
      \<and> is_utc n \<and> 86400000000 < instant n"
proof -
  let ?s = "\<lparr>s_job_id = lit ''job_1'', s_schedule_type = DAILY, s_id = lit ''sch_1'',
    s_interval_seconds = None, s_time_of_day = Some 3600000000, s_enabled = True\<rparr>"
  have "valid_schedule ?s" by (simp add: valid_schedule_def Schedule_post_init_def)
  from compute_next_run_daily [OF this, of "utc 86400000000"] show ?thesis by auto
qed

text \<open>
  C28: The next trigger of an interval schedule is \<open>after\<close> plus the interval rounded to microseconds,
  and it is strictly later than \<open>after\<close> exactly when the interval exceeds half a microsecond; a smaller
  positive interval is accepted and yields \<open>after\<close> itself, against the docstring.
\<close>

theorem compute_next_run_interval:
  assumes "valid_schedule s" and "s_schedule_type s = INTERVAL"
    and "s_interval_seconds s = Some x" and "x \<le> 86399999913600" and "is_utc after"
    and "wall after + round_half_even (x * 1000000) < max_wall"
  shows "\<exists>n. compute_next_run s after = Inr n \<and> is_utc n
    \<and> instant n = instant after + round_half_even (x * 1000000)
    \<and> (instant after < instant n \<longleftrightarrow> 1 / 2000000 < x)"
proof -
  have x: "0 < x" using valid_schedule_interval [OF assms(1,2)] assms(3) by auto
  then have r0: "0 \<le> round_half_even (x * 1000000)" by (intro round_half_even_mono_nonneg) simp
  have small: "round_half_even (x * 1000000) \<le> 0" if le: "x * 1000000 \<le> 1 / 2"
  proof -
    have "\<lfloor>x * 1000000\<rfloor> = 0" using x le by (simp add: floor_eq_iff)
    then show ?thesis using le by (auto simp: round_half_even_def Let_def)
  qed
  have "0 < round_half_even (x * 1000000) \<longleftrightarrow> 1 / 2000000 < x"
    using small round_half_even_pos [of "x * 1000000"] by (cases "x * 1000000 \<le> 1 / 2") auto
  then show ?thesis
    using compute_next_run_interval_cases [OF assms] assms(5,6) r0 is_utcD [OF assms(5)]
    by (auto simp: is_utc_def)
qed

theorem compute_next_run_interval_witness:
  "\<exists>n. compute_next_run
        \<lparr>s_job_id = lit ''job_1'', s_schedule_type = INTERVAL, s_id = lit ''sch_1'',
         s_interval_seconds = Some (1 / 10000000), s_time_of_day = None, s_enabled = True\<rparr> (utc 5) = Inr n
      \<and> is_utc n \<and> \<not> 5 < instant n"
proof -
  let ?s = "\<lparr>s_job_id = lit ''job_1'', s_schedule_type = INTERVAL, s_id = lit ''sch_1'',
    s_interval_seconds = Some (1 / 10000000 :: rat), s_time_of_day = None, s_enabled = True\<rparr>"
  have v: "valid_schedule ?s" by (simp add: valid_schedule_def Schedule_post_init_def)
  have r: "round_half_even (1 / 10000000 * 1000000) = 0" by code_simp
  have "wall (utc 5) + round_half_even (1 / 10000000 * 1000000) < max_wall" by (simp only: r) simp
  from compute_next_run_interval [OF v _ _ _ _ this] show ?thesis by auto
qed

text \<open>
  C24: Idempotency keys separate slots. Two triggers at UTC times get the same key only if they have the
  same job, the same schedule and the same slot: the same day for a daily schedule, the same instant for
  an interval schedule. (Job and schedule identifiers contain no colon and no at-sign, as
  \<^verbatim>\<open>_new_id\<close> builds them.)
\<close>

theorem scheduled_key_separates_slots:
  assumes "(58::nat) \<notin> set j" "(58::nat) \<notin> set j'" "(64::nat) \<notin> set (s_id s)" "(64::nat) \<notin> set (s_id s')"
    and "is_utc slot" "is_utc slot'"
    and "scheduled_key j s slot = Inr key" and "scheduled_key j' s' slot' = Inr key"
  shows "j = j' \<and> s_id s = s_id s' \<and> s_schedule_type s = s_schedule_type s'
    \<and> date_of slot = date_of slot' \<and> (s_schedule_type s = INTERVAL \<longrightarrow> slot = slot')"
proof -
  note form = scheduled_key_form [OF assms(5,7)] scheduled_key_form [OF assms(6,8)]
  have "j @ 58 # (isoformat (date_of slot) @ lit '':'' @ slot_partition s slot) =
        j' @ 58 # (isoformat (date_of slot') @ lit '':'' @ slot_partition s' slot')"
    using form by (simp add: lit_def)
  from split_at_sep [OF assms(1,2) this]
  have j: "j = j'" and "isoformat (date_of slot) @ 58 # slot_partition s slot =
    isoformat (date_of slot') @ 58 # slot_partition s' slot'"
    by (simp_all add: lit_def)
  from split_at_sep [OF colon_notin_isoformat colon_notin_isoformat this(2)]
  have d: "isoformat (date_of slot) = isoformat (date_of slot')"
    and p: "slot_partition s slot = slot_partition s' slot'" by simp_all
  have date: "date_of slot = date_of slot'"
    using date_of_range [OF assms(5)] date_of_range [OF assms(6)] d by (blast intro: isoformat_inject)
  have "slot = slot'" if "time_of slot = time_of slot'"
    using that date wall_split [of slot] wall_split [of slot'] is_utcD [OF assms(5)] is_utcD [OF assms(6)]
    by metis
  with j date slot_partition_inject [OF assms(3,4) p] show ?thesis by blast
qed

theorem scheduled_key_separates_slots_witness:
  "scheduled_key (lit ''job_a'')
      \<lparr>s_job_id = lit ''job_a'', s_schedule_type = INTERVAL, s_id = lit ''sch_b'',
       s_interval_seconds = Some 5, s_time_of_day = None, s_enabled = True\<rparr> (utc 86400000000)
    \<noteq> scheduled_key (lit ''job_a'')
      \<lparr>s_job_id = lit ''job_a'', s_schedule_type = INTERVAL, s_id = lit ''sch_b'',
       s_interval_seconds = Some 5, s_time_of_day = None, s_enabled = True\<rparr> (utc 86405000000)"
proof
  let ?s = "\<lparr>s_job_id = lit ''job_a'', s_schedule_type = INTERVAL, s_id = lit ''sch_b'',
    s_interval_seconds = Some (5 :: rat), s_time_of_day = None, s_enabled = True\<rparr>"
  assume eq: "scheduled_key (lit ''job_a'') ?s (utc 86400000000) =
    scheduled_key (lit ''job_a'') ?s (utc 86405000000)"
  have "scheduled_key (lit ''job_a'') ?s (utc 86400000000) =
      Inr (lit ''job_a:0001-01-02:sch_b@000000.000000'')"
    by (simp add: scheduled_key_eval)
  with eq scheduled_key_separates_slots [of "lit ''job_a''" "lit ''job_a''" ?s ?s "utc 86400000000"
      "utc 86405000000" "lit ''job_a:0001-01-02:sch_b@000000.000000''"]
  show False by (simp add: lit_def utc_def is_utc_def)
qed

end
