(* ===== verification/Tables.thy ===== *)
theory Tables
  imports Scheduling
begin

text \<open>
  The persistent state: the ORM rows (\<^verbatim>\<open>infrastructure/db/models.py\<close>), the mappers between rows and
  domain objects (\<^verbatim>\<open>infrastructure/db/mappers.py\<close>), the UTC column type (\<^verbatim>\<open>infrastructure/db/base.py\<close>)
  and the transaction boundary (\<^verbatim>\<open>session_scope\<close> of \<^verbatim>\<open>infrastructure/db/session.py\<close>).

  A table is the list of its rows in insertion order. \<open>exec_seq\<close> and \<open>log_seq\<close> are the sequences of
  the autoincrement columns. \<open>wf_db\<close> states the constraints the schema declares: primary keys, unique
  columns, foreign keys, and that the stored definitions pass the checks of the domain classes.

  The mappers only fill the columns. The UTC column type converts a value later, when SQLAlchemy sends it to the database: an error of \<open>process_bind_param\<close>, like
  any other error of the flush, ends the transaction without effect and is one of the errors that \<open>session_scope\<close> takes as its parameter. Every time
  the platform stores comes from \<^verbatim>\<open>utc_now\<close> or from such a time plus a delay, so it is aware and in UTC; on these the conversion there and back is the identity
  (\<open>utc_bind_roundtrip\<close>), and a row holds the time itself.
\<close>

section \<open>Rows\<close>

record JobRecord =
  jr_id :: pystr
  jr_name :: pystr
  jr_job_type :: JobType
  jr_handler :: pystr
  jr_timeout_seconds :: pyfloat
  jr_retry_max_attempts :: int
  jr_retry_backoff :: BackoffStrategy
  jr_retry_base_delay_seconds :: pyfloat
  jr_retry_max_delay_seconds :: pyfloat
  jr_enabled :: bool
  jr_created_at :: datetime

record ScheduleRecord =
  sr_id :: pystr
  sr_job_id :: pystr
  sr_schedule_type :: ScheduleType
  sr_interval_seconds :: "pyfloat option"
  sr_time_of_day :: "int option"
  sr_enabled :: bool

record ExecutionRecord =
  er_id :: nat
  er_run_id :: pystr
  er_job_id :: pystr
  er_attempt :: int
  er_status :: JobStatus
  er_started_at :: "datetime option"
  er_finished_at :: "datetime option"
  er_error_message :: "pystr option"
  er_timeout_seconds :: "pyfloat option"
  er_max_attempts :: "int option"
  er_cancel_requested :: bool
  er_next_retry_at :: "datetime option"

record JobLogRecord =
  lr_id :: nat
  lr_run_id :: pystr
  lr_attempt :: int
  lr_level :: pystr
  lr_message :: pystr
  lr_created_at :: datetime

record IdempotencyRecord =
  ir_key :: pystr
  ir_job_id :: pystr
  ir_run_id :: pystr
  ir_created_at :: datetime

record db =
  t_jobs :: "JobRecord list"
  t_schedules :: "ScheduleRecord list"
  t_executions :: "ExecutionRecord list"
  t_logs :: "JobLogRecord list"
  t_keys :: "IdempotencyRecord list"
  exec_seq :: nat
  log_seq :: nat

definition empty_db :: db where
  "empty_db = \<lparr>t_jobs = [], t_schedules = [], t_executions = [], t_logs = [], t_keys = [],
     exec_seq = 1, log_seq = 1\<rparr>"

section \<open>Mappers\<close>

definition job_to_record :: "Job \<Rightarrow> JobRecord" where
  "job_to_record j =
     \<lparr>jr_id = j_id j, jr_name = j_name j, jr_job_type = j_job_type j, jr_handler = j_handler j,
      jr_timeout_seconds = j_timeout_seconds j,
      jr_retry_max_attempts = max_attempts (j_retry_policy j),
      jr_retry_backoff = backoff (j_retry_policy j),
      jr_retry_base_delay_seconds = base_delay_seconds (j_retry_policy j),
      jr_retry_max_delay_seconds = max_delay_seconds (j_retry_policy j),
      jr_enabled = j_enabled j, jr_created_at = j_created_at j\<rparr>"

definition update_job_record :: "JobRecord \<Rightarrow> Job \<Rightarrow> JobRecord" where
  "update_job_record r j =
     r\<lparr>jr_name := j_name j, jr_job_type := j_job_type j, jr_handler := j_handler j,
       jr_timeout_seconds := j_timeout_seconds j,
       jr_retry_max_attempts := max_attempts (j_retry_policy j),
       jr_retry_backoff := backoff (j_retry_policy j),
       jr_retry_base_delay_seconds := base_delay_seconds (j_retry_policy j),
       jr_retry_max_delay_seconds := max_delay_seconds (j_retry_policy j),
       jr_enabled := j_enabled j\<rparr>"

definition record_to_job :: "JobRecord \<Rightarrow> exn + Job" where
  "record_to_job r =
     (case RetryPolicy_post_init
             \<lparr>max_attempts = jr_retry_max_attempts r, backoff = jr_retry_backoff r,
              base_delay_seconds = jr_retry_base_delay_seconds r,
              max_delay_seconds = jr_retry_max_delay_seconds r\<rparr> of
        Inl e \<Rightarrow> Inl e
      | Inr p \<Rightarrow>
          Job_post_init
            \<lparr>j_name = jr_name r, j_job_type = jr_job_type r, j_handler = jr_handler r,
             j_id = jr_id r, j_timeout_seconds = jr_timeout_seconds r, j_retry_policy = p,
             j_enabled = jr_enabled r, j_created_at = jr_created_at r\<rparr>)"

definition schedule_to_record :: "Schedule \<Rightarrow> ScheduleRecord" where
  "schedule_to_record s =
     \<lparr>sr_id = s_id s, sr_job_id = s_job_id s, sr_schedule_type = s_schedule_type s,
      sr_interval_seconds = s_interval_seconds s, sr_time_of_day = s_time_of_day s,
      sr_enabled = s_enabled s\<rparr>"

definition update_schedule_record :: "ScheduleRecord \<Rightarrow> Schedule \<Rightarrow> ScheduleRecord" where
  "update_schedule_record r s =
     r\<lparr>sr_schedule_type := s_schedule_type s, sr_interval_seconds := s_interval_seconds s,
       sr_time_of_day := s_time_of_day s, sr_enabled := s_enabled s\<rparr>"

definition record_to_schedule :: "ScheduleRecord \<Rightarrow> exn + Schedule" where
  "record_to_schedule r =
     Schedule_post_init
       \<lparr>s_job_id = sr_job_id r, s_schedule_type = sr_schedule_type r, s_id = sr_id r,
        s_interval_seconds = sr_interval_seconds r, s_time_of_day = sr_time_of_day r,
        s_enabled = sr_enabled r\<rparr>"

text \<open>The row of a new execution; its \<open>er_id\<close> is the value the database assigns on insertion.\<close>

definition execution_to_record :: "nat \<Rightarrow> JobExecution \<Rightarrow> ExecutionRecord" where
  "execution_to_record rowid x =
     \<lparr>er_id = rowid, er_run_id = x_run_id x, er_job_id = x_job_id x, er_attempt = x_attempt x,
      er_status = x_status x, er_started_at = x_started_at x, er_finished_at = x_finished_at x,
      er_error_message = x_error_message x, er_timeout_seconds = x_timeout_seconds x,
      er_max_attempts = x_max_attempts x, er_cancel_requested = x_cancel_requested x,
      er_next_retry_at = x_next_retry_at x\<rparr>"

definition update_execution_record :: "ExecutionRecord \<Rightarrow> JobExecution \<Rightarrow> ExecutionRecord" where
  "update_execution_record r x =
     r\<lparr>er_status := x_status x, er_started_at := x_started_at x, er_finished_at := x_finished_at x,
       er_error_message := x_error_message x, er_timeout_seconds := x_timeout_seconds x,
       er_max_attempts := x_max_attempts x, er_next_retry_at := x_next_retry_at x\<rparr>"

definition record_to_execution :: "ExecutionRecord \<Rightarrow> JobExecution" where
  "record_to_execution r =
     \<lparr>x_job_id = er_job_id r, x_run_id = er_run_id r, x_status = er_status r,
      x_attempt = er_attempt r, x_started_at = er_started_at r, x_finished_at = er_finished_at r,
      x_error_message = er_error_message r, x_timeout_seconds = er_timeout_seconds r,
      x_max_attempts = er_max_attempts r, x_cancel_requested = er_cancel_requested r,
      x_next_retry_at = er_next_retry_at r\<rparr>"

definition log_to_record :: "nat \<Rightarrow> JobLog \<Rightarrow> JobLogRecord" where
  "log_to_record rowid l =
     \<lparr>lr_id = rowid, lr_run_id = l_run_id l, lr_attempt = l_attempt l, lr_level = l_level l,
      lr_message = l_message l, lr_created_at = l_created_at l\<rparr>"

definition record_to_log :: "JobLogRecord \<Rightarrow> JobLog" where
  "record_to_log r =
     \<lparr>l_run_id = lr_run_id r, l_attempt = lr_attempt r, l_level = lr_level r,
      l_message = lr_message r, l_created_at = lr_created_at r\<rparr>"

lemma record_to_execution_sel [simp]:
  "x_job_id (record_to_execution r) = er_job_id r" "x_run_id (record_to_execution r) = er_run_id r"
  "x_status (record_to_execution r) = er_status r" "x_attempt (record_to_execution r) = er_attempt r"
  "x_started_at (record_to_execution r) = er_started_at r"
  "x_finished_at (record_to_execution r) = er_finished_at r"
  "x_error_message (record_to_execution r) = er_error_message r"
  "x_timeout_seconds (record_to_execution r) = er_timeout_seconds r"
  "x_max_attempts (record_to_execution r) = er_max_attempts r"
  "x_cancel_requested (record_to_execution r) = er_cancel_requested r"
  "x_next_retry_at (record_to_execution r) = er_next_retry_at r"
  by (simp_all add: record_to_execution_def)

lemma execution_to_record_sel [simp]:
  "er_id (execution_to_record i x) = i" "er_run_id (execution_to_record i x) = x_run_id x"
  "er_job_id (execution_to_record i x) = x_job_id x" "er_attempt (execution_to_record i x) = x_attempt x"
  "er_status (execution_to_record i x) = x_status x"
  "er_next_retry_at (execution_to_record i x) = x_next_retry_at x"
  "er_cancel_requested (execution_to_record i x) = x_cancel_requested x"
  by (simp_all add: execution_to_record_def)

lemma update_execution_record_sel [simp]:
  "er_id (update_execution_record r x) = er_id r"
  "er_run_id (update_execution_record r x) = er_run_id r"
  "er_job_id (update_execution_record r x) = er_job_id r"
  "er_attempt (update_execution_record r x) = er_attempt r"
  "er_status (update_execution_record r x) = x_status x"
  "er_cancel_requested (update_execution_record r x) = er_cancel_requested r"
  "er_next_retry_at (update_execution_record r x) = x_next_retry_at x"
  by (simp_all add: update_execution_record_def)

lemma update_job_record_sel [simp]:
  "jr_id (update_job_record r j) = jr_id r" "jr_name (update_job_record r j) = j_name j"
  "jr_created_at (update_job_record r j) = jr_created_at r" "jr_enabled (update_job_record r j) = j_enabled j"
  by (simp_all add: update_job_record_def)

lemma job_to_record_sel [simp]: "jr_id (job_to_record j) = j_id j" "jr_name (job_to_record j) = j_name j"
  by (simp_all add: job_to_record_def)

lemma policy_eta [simp]:
  "\<lparr>max_attempts = max_attempts p, backoff = backoff p, base_delay_seconds = base_delay_seconds p,
    max_delay_seconds = max_delay_seconds p\<rparr> = p"
  by (cases p) simp

lemma job_eta [simp]:
  "\<lparr>j_name = j_name j, j_job_type = j_job_type j, j_handler = j_handler j, j_id = j_id j,
    j_timeout_seconds = j_timeout_seconds j, j_retry_policy = j_retry_policy j,
    j_enabled = j_enabled j, j_created_at = j_created_at j\<rparr> = j"
  by (cases j) simp

lemma record_job_roundtrip: "valid_job j \<Longrightarrow> record_to_job (job_to_record j) = Inr j"
  by (simp add: record_to_job_def job_to_record_def valid_job_def Job_post_init_def)

lemma record_schedule_roundtrip:
  "valid_schedule s \<Longrightarrow> record_to_schedule (schedule_to_record s) = Inr s"
  by (cases s) (simp add: record_to_schedule_def schedule_to_record_def valid_schedule_def)

lemma record_execution_roundtrip [simp]: "record_to_execution (execution_to_record i x) = x"
  by (cases x) (simp add: record_to_execution_def execution_to_record_def)

lemma record_update_roundtrip:
  "x_run_id x = er_run_id r \<Longrightarrow> x_attempt x = er_attempt r \<Longrightarrow> x_job_id x = er_job_id r \<Longrightarrow>
     record_to_execution (update_execution_record r x) = x\<lparr>x_cancel_requested := er_cancel_requested r\<rparr>"
  by (cases x) (simp add: record_to_execution_def update_execution_record_def)

lemma record_log_roundtrip [simp]: "record_to_log (log_to_record i l) = l"
  by (cases l) (simp add: record_to_log_def log_to_record_def)

lemma record_to_job_valid: "record_to_job r = Inr j \<Longrightarrow> valid_job j \<and> j_id j = jr_id r \<and> j_name j = jr_name r"
  by (auto simp: record_to_job_def Job_post_init_def valid_job_def split: sum.splits if_splits)

section \<open>The UTC column type\<close>

definition process_bind_param :: "datetime option \<Rightarrow> exn + datetime option" where
  "process_bind_param v =
     (case v of
        None \<Rightarrow> Inr None
      | Some d \<Rightarrow>
          if tzinfo d = None then Inl (ValueError (lit ''UTCDateTime '' @ [0x53EA, 0x63A5, 0x53D7, 0x5E26,
            0x65F6, 0x533A, 0x7684] @ lit '' datetime''))
          else (case astimezone_utc d of
                  Inl e \<Rightarrow> Inl e
                | Inr u \<Rightarrow> Inr (Some (Datetime (wall u) None))))"

definition process_result_value :: "datetime option \<Rightarrow> datetime option" where
  "process_result_value v = map_option (\<lambda>d. Datetime (wall d) (Some 0)) v"

lemma utc_bind_roundtrip:
  assumes "is_utc d"
  shows "\<exists>stored. process_bind_param (Some d) = Inr stored \<and> process_result_value stored = Some d"
  using assms astimezone_utc_id [OF assms]
  by (cases d) (simp add: process_bind_param_def process_result_value_def is_utc_def)

section \<open>Transactions\<close>

text \<open>The body of a \<^verbatim>\<open>with session_scope(factory)\<close> block works on the transaction's view of the
  database; an exception discards that view (rollback) and is raised again, a normal end commits it.
  \<^verbatim>\<open>session.commit()\<close> can itself raise (a lost connection, a locked database): the first argument is
  the exception it raises in this call, if any, and then the view is discarded as well.\<close>

type_synonym 'a txn = "db \<Rightarrow> exn + ('a \<times> db)"

definition session_scope :: "exn option \<Rightarrow> 'a txn \<Rightarrow> db \<Rightarrow> (exn + 'a) \<times> db" where
  "session_scope commit_error body d =
     (case body d of
        Inl e \<Rightarrow> (Inl e, d)
      | Inr (a, d') \<Rightarrow> (case commit_error of None \<Rightarrow> (Inr a, d') | Some e \<Rightarrow> (Inl e, d)))"

lemma session_scope_Inl: "fst (session_scope f t d) = Inl e \<Longrightarrow> snd (session_scope f t d) = d"
  by (auto simp: session_scope_def split: sum.splits option.splits)

lemma session_scope_Inr:
  "session_scope f t d = (Inr a, d') \<longleftrightarrow> f = None \<and> t d = Inr (a, d')"
  by (auto simp: session_scope_def split: sum.splits option.splits)

section \<open>Schema constraints\<close>

definition exec_key :: "ExecutionRecord \<Rightarrow> pystr \<times> int" where
  "exec_key r = (er_run_id r, er_attempt r)"

lemma exec_key_simps [simp]:
  "exec_key (execution_to_record i x) = (x_run_id x, x_attempt x)"
  "exec_key (update_execution_record r x) = exec_key r"
  "exec_key (r\<lparr>er_next_retry_at := v\<rparr>) = exec_key r"
  "exec_key (r\<lparr>er_cancel_requested := b\<rparr>) = exec_key r"
  by (simp_all add: exec_key_def)

definition valid_job_row :: "JobRecord \<Rightarrow> bool" where
  "valid_job_row r \<longleftrightarrow> (\<exists>j. record_to_job r = Inr j)"

definition valid_schedule_row :: "ScheduleRecord \<Rightarrow> bool" where
  "valid_schedule_row r \<longleftrightarrow> (\<exists>s. record_to_schedule r = Inr s)"

definition wf_jobs :: "db \<Rightarrow> bool" where
  "wf_jobs d \<longleftrightarrow> unique_on jr_id (t_jobs d) \<and> unique_on jr_name (t_jobs d)
     \<and> (\<forall>r \<in> set (t_jobs d). valid_job_row r)"

definition wf_schedules :: "db \<Rightarrow> bool" where
  "wf_schedules d \<longleftrightarrow> unique_on sr_id (t_schedules d)
     \<and> (\<forall>r \<in> set (t_schedules d). valid_schedule_row r \<and> sr_job_id r \<in> jr_id ` set (t_jobs d))"

definition wf_executions :: "db \<Rightarrow> bool" where
  "wf_executions d \<longleftrightarrow> unique_on exec_key (t_executions d) \<and> sorted_wrt (<) (map er_id (t_executions d))
     \<and> (\<forall>r \<in> set (t_executions d). er_id r < exec_seq d \<and> er_job_id r \<in> jr_id ` set (t_jobs d))"

definition wf_logs :: "db \<Rightarrow> bool" where
  "wf_logs d \<longleftrightarrow> sorted_wrt (<) (map lr_id (t_logs d))
     \<and> (\<forall>r \<in> set (t_logs d). lr_id r < log_seq d \<and> (lr_run_id r, lr_attempt r) \<in> exec_key ` set (t_executions d))"

definition wf_keys :: "db \<Rightarrow> bool" where
  "wf_keys d \<longleftrightarrow> unique_on ir_key (t_keys d) \<and> (\<forall>r \<in> set (t_keys d). ir_job_id r \<in> jr_id ` set (t_jobs d))"

definition wf_db :: "db \<Rightarrow> bool" where
  "wf_db d \<longleftrightarrow> wf_jobs d \<and> wf_schedules d \<and> wf_executions d \<and> wf_logs d \<and> wf_keys d"

lemmas wf_db_defs = wf_db_def wf_jobs_def wf_schedules_def wf_executions_def wf_logs_def wf_keys_def

lemma wf_empty_db [simp]: "wf_db empty_db"
  by (simp add: wf_db_defs empty_db_def)

end
