(* ===== verification/Repositories.thy ===== *)
theory Repositories
  imports Tables
begin

text \<open>
  The repositories of \<^verbatim>\<open>infrastructure/db/repositories.py\<close>. A read is a function of the database; a
  write is a \<open>txn\<close>: it returns the new database or the exception, \<open>IntegrityError\<close> where the insertion or
  update breaks a unique or foreign-key constraint of the schema. A \<^verbatim>\<open>select\<close> is a filter of the table's
  rows, sorted where it has an \<^verbatim>\<open>order_by\<close> (in insertion order where it has none), and a comparison with
  a NULL column is false. The lemmas show that every write keeps \<open>wf_db\<close>.
\<close>

section \<open>Pages\<close>

record 'a Page =
  pg_items :: "'a list"
  pg_total :: int
  pg_page :: int
  pg_page_size :: int

definition total_pages :: "'a Page \<Rightarrow> int" where
  "total_pages p = (if pg_page_size p \<le> 0 then 0 else - ((- pg_total p) div pg_page_size p))"

definition validate_pagination :: "int \<Rightarrow> int \<Rightarrow> exn + unit" where
  "validate_pagination page page_size =
     (if page < 1 then Inl (ValueError (lit ''page must be >= 1''))
      else if page_size < 1 then Inl (ValueError (lit ''page_size must be >= 1''))
      else Inr ())"

text \<open>\<^verbatim>\<open>stmt.offset((page - 1) * page_size).limit(page_size)\<close> on the ordered rows.\<close>

definition page_slice :: "int \<Rightarrow> int \<Rightarrow> 'a list \<Rightarrow> 'a list" where
  "page_slice page page_size rows = take (nat page_size) (drop (nat ((page - 1) * page_size)) rows)"

section \<open>Jobs\<close>

definition job_add :: "Job \<Rightarrow> unit txn" where
  "job_add j d =
     (if list_ex (\<lambda>r. jr_id r = j_id j \<or> jr_name r = j_name j) (t_jobs d) then Inl IntegrityError
      else Inr ((), d\<lparr>t_jobs := t_jobs d @ [job_to_record j]\<rparr>))"

definition opt_job :: "JobRecord option \<Rightarrow> exn + Job option" where
  "opt_job ro = (case ro of None \<Rightarrow> Inr None
     | Some r \<Rightarrow> (case record_to_job r of Inl e \<Rightarrow> Inl e | Inr j \<Rightarrow> Inr (Some j)))"

definition job_get :: "pystr \<Rightarrow> db \<Rightarrow> exn + Job option" where
  "job_get job_id d = opt_job (find (\<lambda>r. jr_id r = job_id) (t_jobs d))"

definition job_get_by_name :: "pystr \<Rightarrow> db \<Rightarrow> exn + Job option" where
  "job_get_by_name name d = opt_job (find (\<lambda>r. jr_name r = name) (t_jobs d))"

definition jobs_ordered :: "JobRecord list \<Rightarrow> JobRecord list" where
  "jobs_ordered rs = sort_key (\<lambda>r. (instant (jr_created_at r), jr_name r)) rs"

definition job_list_all :: "db \<Rightarrow> exn + Job list" where
  "job_list_all d = mapM record_to_job (jobs_ordered (t_jobs d))"

definition job_update :: "Job \<Rightarrow> unit txn" where
  "job_update j d =
     (if find (\<lambda>r. jr_id r = j_id j) (t_jobs d) = None
      then Inl (EntityNotFoundError (lit ''job'') (j_id j))
      else if list_ex (\<lambda>r. jr_id r \<noteq> j_id j \<and> jr_name r = j_name j) (t_jobs d) then Inl IntegrityError
      else Inr ((), d\<lparr>t_jobs :=
        update_first (\<lambda>r. jr_id r = j_id j) (\<lambda>r. update_job_record r j) (t_jobs d)\<rparr>))"

text \<open>The foreign keys cascade: schedules, executions (with their logs) and keys of the job go too.\<close>

definition job_delete :: "pystr \<Rightarrow> bool txn" where
  "job_delete job_id d =
     (if find (\<lambda>r. jr_id r = job_id) (t_jobs d) = None then Inr (False, d)
      else
        let gone = map exec_key (filter (\<lambda>r. er_job_id r = job_id) (t_executions d))
        in Inr (True,
             d\<lparr>t_jobs := filter (\<lambda>r. jr_id r \<noteq> job_id) (t_jobs d),
               t_schedules := filter (\<lambda>r. sr_job_id r \<noteq> job_id) (t_schedules d),
               t_executions := filter (\<lambda>r. er_job_id r \<noteq> job_id) (t_executions d),
               t_logs := filter (\<lambda>r. (lr_run_id r, lr_attempt r) \<notin> set gone) (t_logs d),
               t_keys := filter (\<lambda>r. ir_job_id r \<noteq> job_id) (t_keys d)\<rparr>))"

definition job_list_paginated :: "bool option \<Rightarrow> int \<Rightarrow> int \<Rightarrow> db \<Rightarrow> exn + Job Page" where
  "job_list_paginated enabled page page_size d =
     (case validate_pagination page page_size of
        Inl e \<Rightarrow> Inl e
      | Inr _ \<Rightarrow>
          let rows = filter (\<lambda>r. case enabled of None \<Rightarrow> True | Some b \<Rightarrow> jr_enabled r = b) (t_jobs d)
          in case mapM record_to_job (page_slice page page_size (jobs_ordered rows)) of
               Inl e \<Rightarrow> Inl e
             | Inr items \<Rightarrow>
                 Inr \<lparr>pg_items = items, pg_total = int (length rows), pg_page = page, pg_page_size = page_size\<rparr>)"

section \<open>Schedules\<close>

definition schedule_add :: "Schedule \<Rightarrow> unit txn" where
  "schedule_add s d =
     (if list_ex (\<lambda>r. sr_id r = s_id s) (t_schedules d)
         \<or> \<not> list_ex (\<lambda>r. jr_id r = s_job_id s) (t_jobs d)
      then Inl IntegrityError
      else Inr ((), d\<lparr>t_schedules := t_schedules d @ [schedule_to_record s]\<rparr>))"

definition schedule_get :: "pystr \<Rightarrow> db \<Rightarrow> exn + Schedule option" where
  "schedule_get sid d =
     (case find (\<lambda>r. sr_id r = sid) (t_schedules d) of
        None \<Rightarrow> Inr None
      | Some r \<Rightarrow> (case record_to_schedule r of Inl e \<Rightarrow> Inl e | Inr s \<Rightarrow> Inr (Some s)))"

definition schedule_list_by_job :: "pystr \<Rightarrow> db \<Rightarrow> exn + Schedule list" where
  "schedule_list_by_job job_id d =
     mapM record_to_schedule (filter (\<lambda>r. sr_job_id r = job_id) (t_schedules d))"

definition schedule_update :: "Schedule \<Rightarrow> unit txn" where
  "schedule_update s d =
     (if find (\<lambda>r. sr_id r = s_id s) (t_schedules d) = None
      then Inl (EntityNotFoundError (lit ''Schedule'') (s_id s))
      else Inr ((), d\<lparr>t_schedules :=
        update_first (\<lambda>r. sr_id r = s_id s) (\<lambda>r. update_schedule_record r s) (t_schedules d)\<rparr>))"

definition schedule_delete :: "pystr \<Rightarrow> bool txn" where
  "schedule_delete sid d =
     (if find (\<lambda>r. sr_id r = sid) (t_schedules d) = None then Inr (False, d)
      else Inr (True, d\<lparr>t_schedules := filter (\<lambda>r. sr_id r \<noteq> sid) (t_schedules d)\<rparr>))"

section \<open>Executions\<close>

definition exec_find :: "pystr \<Rightarrow> int \<Rightarrow> db \<Rightarrow> ExecutionRecord option" where
  "exec_find run_id attempt d = find (\<lambda>r. exec_key r = (run_id, attempt)) (t_executions d)"

definition exec_add :: "JobExecution \<Rightarrow> unit txn" where
  "exec_add x d =
     (if exec_find (x_run_id x) (x_attempt x) d \<noteq> None
         \<or> \<not> list_ex (\<lambda>r. jr_id r = x_job_id x) (t_jobs d)
      then Inl IntegrityError
      else Inr ((), d\<lparr>t_executions := t_executions d @ [execution_to_record (exec_seq d) x],
                      exec_seq := Suc (exec_seq d)\<rparr>))"

definition get_attempt :: "pystr \<Rightarrow> int \<Rightarrow> db \<Rightarrow> JobExecution option" where
  "get_attempt run_id attempt d = map_option record_to_execution (exec_find run_id attempt d)"

definition exec_list_by_run :: "pystr \<Rightarrow> db \<Rightarrow> JobExecution list" where
  "exec_list_by_run run_id d =
     map record_to_execution (sort_key er_attempt (filter (\<lambda>r. er_run_id r = run_id) (t_executions d)))"

definition exec_update :: "JobExecution \<Rightarrow> unit txn" where
  "exec_update x d =
     (if exec_find (x_run_id x) (x_attempt x) d = None
      then Inl (EntityNotFoundError (lit ''JobExecution'') (x_run_id x @ lit ''#'' @ show_int (x_attempt x)))
      else Inr ((), d\<lparr>t_executions :=
        update_first (\<lambda>r. exec_key r = (x_run_id x, x_attempt x)) (\<lambda>r. update_execution_record r x)
          (t_executions d)\<rparr>))"

definition exec_upsert :: "JobExecution \<Rightarrow> unit txn" where
  "exec_upsert x d =
     (if exec_find (x_run_id x) (x_attempt x) d = None then exec_add x d else exec_update x d)"

definition list_by_status :: "JobStatus \<Rightarrow> db \<Rightarrow> JobExecution list" where
  "list_by_status st d =
     map record_to_execution (sort_key er_id (filter (\<lambda>r. er_status r = st) (t_executions d)))"

definition superseded :: "db \<Rightarrow> ExecutionRecord \<Rightarrow> bool" where
  "superseded d r = list_ex (\<lambda>l. er_run_id l = er_run_id r \<and> er_attempt l > er_attempt r) (t_executions d)"

definition list_dangling_retries :: "db \<Rightarrow> JobExecution list" where
  "list_dangling_retries d =
     map record_to_execution (sort_key er_id
       (filter (\<lambda>r. er_status r = RETRYING \<and> er_next_retry_at r = None \<and> \<not> superseded d r)
         (t_executions d)))"

definition is_due :: "datetime \<Rightarrow> ExecutionRecord \<Rightarrow> bool" where
  "is_due now r \<longleftrightarrow> er_status r = RETRYING
     \<and> (case er_next_retry_at r of None \<Rightarrow> False | Some t \<Rightarrow> instant t \<le> instant now)"

definition list_due_retries :: "datetime \<Rightarrow> nat \<Rightarrow> db \<Rightarrow> JobExecution list" where
  "list_due_retries now limit d =
     map record_to_execution (take limit (sort_key
       (\<lambda>r. (case er_next_retry_at r of None \<Rightarrow> 0 | Some t \<Rightarrow> instant t, er_id r))
       (filter (is_due now) (t_executions d))))"

text \<open>The two \<^verbatim>\<open>UPDATE\<close> statements rewrite every row they match and report whether the row count
  is 1.\<close>

definition claim_retry :: "pystr \<Rightarrow> int \<Rightarrow> bool txn" where
  "claim_retry run_id attempt d =
     (let hit = (\<lambda>r. exec_key r = (run_id, attempt) \<and> er_next_retry_at r \<noteq> None)
      in Inr (length (filter hit (t_executions d)) = 1,
           d\<lparr>t_executions := map (\<lambda>r. if hit r then r\<lparr>er_next_retry_at := None\<rparr> else r) (t_executions d)\<rparr>))"

definition set_next_retry_at :: "pystr \<Rightarrow> int \<Rightarrow> datetime option \<Rightarrow> bool txn" where
  "set_next_retry_at run_id attempt v d =
     (let hit = (\<lambda>r. exec_key r = (run_id, attempt))
      in Inr (length (filter hit (t_executions d)) = 1,
           d\<lparr>t_executions := map (\<lambda>r. if hit r then r\<lparr>er_next_retry_at := v\<rparr> else r) (t_executions d)\<rparr>))"

definition mark_cancel_requested :: "pystr \<Rightarrow> int \<Rightarrow> bool txn" where
  "mark_cancel_requested run_id attempt d =
     (if exec_find run_id attempt d = None then Inr (False, d)
      else Inr (True, d\<lparr>t_executions :=
        update_first (\<lambda>r. exec_key r = (run_id, attempt)) (\<lambda>r. r\<lparr>er_cancel_requested := True\<rparr>)
          (t_executions d)\<rparr>))"

definition list_cancel_requested :: "pystr list \<Rightarrow> db \<Rightarrow> pystr list" where
  "list_cancel_requested run_ids d =
     (if run_ids = [] then []
      else remdups (map er_run_id
        (filter (\<lambda>r. er_run_id r \<in> set run_ids \<and> er_status r = RUNNING \<and> er_cancel_requested r)
          (t_executions d))))"

subsection \<open>Statistics\<close>

definition started_since :: "datetime option \<Rightarrow> ExecutionRecord \<Rightarrow> bool" where
  "started_since since r =
     (case since of None \<Rightarrow> True
      | Some s \<Rightarrow> (case er_started_at r of None \<Rightarrow> False | Some t \<Rightarrow> instant s \<le> instant t))"

text \<open>The join of executions with the name of their job.\<close>

definition joined :: "db \<Rightarrow> (pystr \<times> ExecutionRecord) list" where
  "joined d = concat (map (\<lambda>r. map (\<lambda>j. (jr_name j, r)) (filter (\<lambda>j. jr_id j = er_job_id r) (t_jobs d)))
     (t_executions d))"

definition count_by_job_and_status :: "datetime option \<Rightarrow> db \<Rightarrow> (pystr \<times> JobStatus \<times> int) list" where
  "count_by_job_and_status since d =
     (let rows = map (\<lambda>(n, r). (n, er_status r)) (filter (\<lambda>(n, r). started_since since r) (joined d))
      in map (\<lambda>(n, s). (n, s, int (count_list rows (n, s))))
           (sort_key (\<lambda>(n, s). (n, status_value s)) (remdups rows)))"

definition count_retry_attempts_by_job :: "datetime option \<Rightarrow> db \<Rightarrow> (pystr \<times> int) list" where
  "count_retry_attempts_by_job since d =
     (let names = map fst (filter (\<lambda>(n, r). er_attempt r > 1 \<and> started_since since r) (joined d))
      in map (\<lambda>n. (n, int (count_list names n))) (remdups names))"

definition list_durations :: "datetime option \<Rightarrow> db \<Rightarrow> (pystr \<times> pyfloat) list" where
  "list_durations since d =
     concat (map (\<lambda>(n, r).
       case (er_started_at r, er_finished_at r) of
         (Some s, Some f) \<Rightarrow>
           if er_status r \<in> {SUCCESS, FAILED} \<and> started_since since r
           then [(n, float_round (of_int (instant f - instant s) / 1000000))] else []
       | _ \<Rightarrow> []) (joined d))"

definition recent_final_statuses :: "pystr \<Rightarrow> nat \<Rightarrow> db \<Rightarrow> JobStatus list" where
  "recent_final_statuses job_id limit d =
     map er_status (take limit (rev (sort_key er_id
       (filter (\<lambda>r. er_job_id r = job_id \<and> er_status r \<in> {SUCCESS, FAILED}) (t_executions d)))))"

text \<open>\<^verbatim>\<open>startswith(prefix, autoescape=True)\<close> is \<^verbatim>\<open>LIKE 'prefix%'\<close>, which SQLite (the default database)
  compares without regard to the case of ASCII letters.\<close>

definition ascii_lower :: "nat \<Rightarrow> nat" where
  "ascii_lower c = (if 65 \<le> c \<and> c \<le> 90 then c + 32 else c)"

definition like_prefix :: "pystr \<Rightarrow> pystr \<Rightarrow> bool" where
  "like_prefix p s \<longleftrightarrow> length p \<le> length s \<and> map ascii_lower (take (length p) s) = map ascii_lower p"

definition count_timeouts_by_job :: "pystr \<Rightarrow> datetime \<Rightarrow> db \<Rightarrow> (pystr \<times> int) list" where
  "count_timeouts_by_job p since d =
     (let names = map fst (filter (\<lambda>(n, r).
            (case er_error_message r of None \<Rightarrow> False | Some m \<Rightarrow> like_prefix p m)
            \<and> started_since (Some since) r) (joined d))
      in map (\<lambda>n. (n, int (count_list names n))) (remdups names))"

definition exec_matches ::
  "pystr option \<Rightarrow> JobStatus option \<Rightarrow> datetime option \<Rightarrow> datetime option \<Rightarrow> ExecutionRecord \<Rightarrow> bool" where
  "exec_matches job_id st started_after started_before r \<longleftrightarrow>
     (case job_id of None \<Rightarrow> True | Some j \<Rightarrow> er_job_id r = j)
     \<and> (case st of None \<Rightarrow> True | Some s \<Rightarrow> er_status r = s)
     \<and> started_since started_after r
     \<and> (case started_before of None \<Rightarrow> True
        | Some b \<Rightarrow> (case er_started_at r of None \<Rightarrow> False | Some t \<Rightarrow> instant t \<le> instant b))"

definition exec_list_paginated ::
  "pystr option \<Rightarrow> JobStatus option \<Rightarrow> datetime option \<Rightarrow> datetime option \<Rightarrow> int \<Rightarrow> int \<Rightarrow> db
     \<Rightarrow> exn + JobExecution Page" where
  "exec_list_paginated job_id st started_after started_before page page_size d =
     (case validate_pagination page page_size of
        Inl e \<Rightarrow> Inl e
      | Inr _ \<Rightarrow>
          let rows = filter (exec_matches job_id st started_after started_before) (t_executions d)
          in Inr \<lparr>pg_items = map record_to_execution (page_slice page page_size (rev (sort_key er_id rows))),
                  pg_total = int (length rows), pg_page = page, pg_page_size = page_size\<rparr>)"

section \<open>Logs\<close>

fun number_logs :: "nat \<Rightarrow> JobLog list \<Rightarrow> JobLogRecord list" where
  "number_logs n [] = []"
| "number_logs n (l # ls) = log_to_record n l # number_logs (Suc n) ls"

definition log_add_many :: "JobLog list \<Rightarrow> unit txn" where
  "log_add_many logs d =
     (if list_all (\<lambda>l. exec_find (l_run_id l) (l_attempt l) d \<noteq> None) logs
      then Inr ((), d\<lparr>t_logs := t_logs d @ number_logs (log_seq d) logs,
                      log_seq := log_seq d + length logs\<rparr>)
      else Inl IntegrityError)"

definition log_list_by_run :: "pystr \<Rightarrow> int option \<Rightarrow> int \<Rightarrow> int \<Rightarrow> db \<Rightarrow> exn + JobLog Page" where
  "log_list_by_run run_id attempt page page_size d =
     (case validate_pagination page page_size of
        Inl e \<Rightarrow> Inl e
      | Inr _ \<Rightarrow>
          let rows = filter (\<lambda>r. lr_run_id r = run_id
                \<and> (case attempt of None \<Rightarrow> True | Some a \<Rightarrow> lr_attempt r = a)) (t_logs d)
          in Inr \<lparr>pg_items = map record_to_log (page_slice page page_size (sort_key lr_id rows)),
                  pg_total = int (length rows), pg_page = page, pg_page_size = page_size\<rparr>)"

section \<open>Idempotency keys\<close>

definition try_claim :: "pystr \<Rightarrow> pystr \<Rightarrow> pystr \<Rightarrow> datetime \<Rightarrow> bool txn" where
  "try_claim key job_id run_id now d =
     (if list_ex (\<lambda>r. ir_key r = key) (t_keys d) then Inr (False, d)
      else if \<not> list_ex (\<lambda>r. jr_id r = job_id) (t_jobs d) then Inl IntegrityError
      else Inr (True, d\<lparr>t_keys := t_keys d @
        [\<lparr>ir_key = key, ir_job_id = job_id, ir_run_id = run_id, ir_created_at = now\<rparr>]\<rparr>))"

definition get_run_id :: "pystr \<Rightarrow> db \<Rightarrow> pystr option" where
  "get_run_id key d = map_option ir_run_id (find (\<lambda>r. ir_key r = key) (t_keys d))"

definition key_release :: "pystr \<Rightarrow> bool txn" where
  "key_release key d =
     Inr (length (filter (\<lambda>r. ir_key r = key) (t_keys d)) = 1,
          d\<lparr>t_keys := filter (\<lambda>r. ir_key r \<noteq> key) (t_keys d)\<rparr>)"

definition list_orphan_keys :: "db \<Rightarrow> pystr list" where
  "list_orphan_keys d =
     map ir_key (filter (\<lambda>r. ir_run_id r \<notin> er_run_id ` set (t_executions d)) (t_keys d))"

section \<open>Every write keeps the schema constraints\<close>

definition keeps_wf :: "'a txn \<Rightarrow> bool" where
  "keeps_wf t \<longleftrightarrow> (\<forall>d a d'. wf_db d \<longrightarrow> t d = Inr (a, d') \<longrightarrow> wf_db d')"

lemma keeps_wfI: "(\<And>d a d'. wf_db d \<Longrightarrow> t d = Inr (a, d') \<Longrightarrow> wf_db d') \<Longrightarrow> keeps_wf t"
  by (auto simp: keeps_wf_def)

lemma keeps_wfD: "keeps_wf t \<Longrightarrow> wf_db d \<Longrightarrow> t d = Inr (a, d') \<Longrightarrow> wf_db d'"
  by (auto simp: keeps_wf_def)

lemma session_scope_keeps_wf: "keeps_wf t \<Longrightarrow> wf_db d \<Longrightarrow> wf_db (snd (session_scope f t d))"
  by (auto simp: session_scope_def keeps_wf_def split: sum.splits option.splits)

lemma valid_job_row_job_to_record: "valid_job j \<Longrightarrow> valid_job_row (job_to_record j)"
  by (auto simp: valid_job_row_def record_job_roundtrip)

lemma valid_job_row_update: "valid_job j \<Longrightarrow> valid_job_row (update_job_record r j)"
  by (auto simp: valid_job_row_def record_to_job_def update_job_record_def valid_job_def Job_post_init_def)

lemma job_add_keeps_wf [intro]: "valid_job j \<Longrightarrow> keeps_wf (job_add j)"
  by (rule keeps_wfI)
    (auto simp: job_add_def wf_db_defs list_ex_iff valid_job_row_job_to_record split: if_splits, metis+)

lemma jr_id_update_first [simp]:
  "jr_id ` set (update_first P (\<lambda>r. update_job_record r j) rs) = jr_id ` set rs"
  by (simp flip: set_map)

lemma unique_name_update:
  "unique_on jr_id rs \<Longrightarrow> unique_on jr_name rs \<Longrightarrow>
     (\<forall>r \<in> set rs. jr_id r = i \<or> jr_name r \<noteq> j_name j) \<Longrightarrow>
     unique_on jr_name (update_first (\<lambda>r. jr_id r = i) (\<lambda>r. update_job_record r j) rs)"
proof (induction rs)
  case Nil
  then show ?case by simp
next
  case (Cons r rs)
  then show ?case
    by (auto dest!: set_update_firstD split: if_splits) (metis imageI)+
qed

lemma job_update_keeps_wf [intro]:
  assumes "valid_job j"
  shows "keeps_wf (job_update j)"
proof (rule keeps_wfI)
  fix d a d'
  assume wf: "wf_db d" and run: "job_update j d = Inr (a, d')"
  let ?rs = "update_first (\<lambda>r. jr_id r = j_id j) (\<lambda>r. update_job_record r j) (t_jobs d)"
  from run have d': "d' = d\<lparr>t_jobs := ?rs\<rparr>"
    and free: "\<forall>r \<in> set (t_jobs d). jr_id r = j_id j \<or> jr_name r \<noteq> j_name j"
    by (auto simp: job_update_def list_ex_iff split: if_splits)
  have "unique_on jr_name ?rs"
    using wf free by (intro unique_name_update) (auto simp: wf_db_defs)
  moreover have "unique_on jr_id ?rs"
    using wf by (auto simp: unique_on_def wf_db_defs)
  moreover have "\<forall>r \<in> set ?rs. valid_job_row r"
    using wf assms by (auto simp: wf_db_defs valid_job_row_update dest!: set_update_firstD)
  ultimately show "wf_db d'"
    using wf by (simp add: d' wf_db_defs)
qed

lemma job_delete_keeps_wf [intro]: "keeps_wf (job_delete i)"
proof (rule keeps_wfI)
  fix d a d'
  assume wf: "wf_db d" and run: "job_delete i d = Inr (a, d')"
  show "wf_db d'"
  proof (cases "find (\<lambda>r. jr_id r = i) (t_jobs d) = None")
    case True
    with run wf show ?thesis by (simp add: job_delete_def)
  next
    case False
    with run have d': "d' = d\<lparr>t_jobs := filter (\<lambda>r. jr_id r \<noteq> i) (t_jobs d),
        t_schedules := filter (\<lambda>r. sr_job_id r \<noteq> i) (t_schedules d),
        t_executions := filter (\<lambda>r. er_job_id r \<noteq> i) (t_executions d),
        t_logs := filter (\<lambda>r. (lr_run_id r, lr_attempt r)
          \<notin> set (map exec_key (filter (\<lambda>r. er_job_id r = i) (t_executions d)))) (t_logs d),
        t_keys := filter (\<lambda>r. ir_job_id r \<noteq> i) (t_keys d)\<rparr>"
      by (simp add: job_delete_def Let_def)
    show ?thesis
      using wf unfolding d'
      by (auto simp: wf_db_defs unique_on_filter sorted_map_filter image_iff) metis+
  qed
qed

lemma schedule_to_record_sel [simp]:
  "sr_id (schedule_to_record s) = s_id s" "sr_job_id (schedule_to_record s) = s_job_id s"
  by (simp_all add: schedule_to_record_def)

lemma valid_schedule_row_schedule_to_record:
  "valid_schedule s \<Longrightarrow> valid_schedule_row (schedule_to_record s)"
  by (auto simp: valid_schedule_row_def record_schedule_roundtrip)

lemma schedule_add_keeps_wf [intro]: "valid_schedule s \<Longrightarrow> keeps_wf (schedule_add s)"
  by (rule keeps_wfI)
    (auto simp: schedule_add_def wf_db_defs list_ex_key valid_schedule_row_schedule_to_record
      split: if_splits)

lemma update_schedule_record_sel [simp]:
  "sr_id (update_schedule_record r s) = sr_id r" "sr_job_id (update_schedule_record r s) = sr_job_id r"
  by (simp_all add: update_schedule_record_def)

lemma valid_schedule_row_update:
  "valid_schedule s \<Longrightarrow> valid_schedule_row (update_schedule_record r s)"
  by (auto simp: valid_schedule_row_def valid_schedule_def record_to_schedule_def update_schedule_record_def
      Schedule_post_init_def split: if_splits ScheduleType.splits option.splits)

lemma schedule_update_keeps_wf [intro]: "valid_schedule s \<Longrightarrow> keeps_wf (schedule_update s)"
  by (rule keeps_wfI)
    (auto simp: schedule_update_def wf_db_defs valid_schedule_row_update split: if_splits
      dest!: set_update_firstD elim!: unique_on_map)

lemma schedule_delete_keeps_wf [intro]: "keeps_wf (schedule_delete i)"
  by (rule keeps_wfI) (auto simp: schedule_delete_def wf_db_defs unique_on_filter split: if_splits)

lemma exec_find_None: "exec_find r n d = None \<longleftrightarrow> (\<forall>x \<in> set (t_executions d). exec_key x \<noteq> (r, n))"
  by (simp add: exec_find_def find_None)

lemma exec_find_Some: "exec_find r n d = Some x \<Longrightarrow> x \<in> set (t_executions d) \<and> exec_key x = (r, n)"
  by (auto simp: exec_find_def dest: find_Some_in)

lemma exec_add_keeps_wf [intro]: "keeps_wf (exec_add x)"
proof (rule keeps_wfI)
  fix d a d'
  assume wf: "wf_db d" and run: "exec_add x d = Inr (a, d')"
  from run have d': "d' = d\<lparr>t_executions := t_executions d @ [execution_to_record (exec_seq d) x],
      exec_seq := Suc (exec_seq d)\<rparr>"
    and new: "(x_run_id x, x_attempt x) \<notin> exec_key ` set (t_executions d)"
    and job: "x_job_id x \<in> jr_id ` set (t_jobs d)"
    by (auto simp: exec_add_def exec_find_None list_ex_iff split: if_splits) (metis image_iff)
  have "wf_executions d'"
    using wf new job by (auto simp: d' wf_db_def wf_executions_def sorted_wrt_append less_Suc_eq)
  moreover have "wf_logs d'"
    using wf by (auto simp: d' wf_db_def wf_logs_def)
  ultimately show "wf_db d'"
    using wf by (simp add: d' wf_db_def wf_jobs_def wf_schedules_def wf_keys_def)
qed

text \<open>A rewriting of the executions that keeps the key, the row id and the job of each row.\<close>

lemma wf_rewrite_executions:
  assumes "wf_db d" and "map exec_key xs = map exec_key (t_executions d)"
    and "map er_id xs = map er_id (t_executions d)" and "map er_job_id xs = map er_job_id (t_executions d)"
  shows "wf_db (d\<lparr>t_executions := xs\<rparr>)"
proof -
  have img: "f ` set xs = f ` set (t_executions d)" if "map f xs = map f (t_executions d)"
    for f :: "ExecutionRecord \<Rightarrow> 'a"
    using that by (metis set_map)
  have "unique_on exec_key xs"
    using assms(1,2) by (auto simp: wf_db_defs elim: unique_on_map)
  moreover have "\<forall>r \<in> set xs. er_id r < exec_seq d"
    using assms(1) img [OF assms(3)] by (auto simp: wf_db_defs) (metis imageE imageI)
  moreover have "\<forall>r \<in> set xs. er_job_id r \<in> jr_id ` set (t_jobs d)"
    using assms(1) img [OF assms(4)] by (auto simp: wf_db_defs) (metis imageE imageI)
  moreover have "exec_key ` set xs = exec_key ` set (t_executions d)"
    by (rule img [OF assms(2)])
  ultimately show ?thesis
    using assms(1,3) by (simp add: wf_db_defs)
qed

lemma exec_update_keeps_wf [intro]: "keeps_wf (exec_update x)"
  by (rule keeps_wfI) (auto simp: exec_update_def split: if_splits intro!: wf_rewrite_executions)

lemma exec_upsert_keeps_wf [intro]: "keeps_wf (exec_upsert x)"
  using exec_add_keeps_wf exec_update_keeps_wf unfolding exec_upsert_def keeps_wf_def by metis

lemma claim_retry_keeps_wf [intro]: "keeps_wf (claim_retry r n)"
  by (rule keeps_wfI) (auto simp: claim_retry_def Let_def intro!: wf_rewrite_executions)

lemma set_next_retry_at_keeps_wf [intro]: "keeps_wf (set_next_retry_at r n v)"
  by (rule keeps_wfI) (auto simp: set_next_retry_at_def Let_def intro!: wf_rewrite_executions)

lemma mark_cancel_requested_keeps_wf [intro]: "keeps_wf (mark_cancel_requested r n)"
  by (rule keeps_wfI)
    (auto simp: mark_cancel_requested_def split: if_splits intro!: wf_rewrite_executions)

lemma number_logs_ids: "map lr_id (number_logs n ls) = [n..<n + length ls]"
  by (induction ls arbitrary: n) (simp_all add: log_to_record_def upt_rec)

lemma number_logs_keys:
  "map (\<lambda>r. (lr_run_id r, lr_attempt r)) (number_logs n ls) = map (\<lambda>l. (l_run_id l, l_attempt l)) ls"
  by (induction ls arbitrary: n) (simp_all add: log_to_record_def)

lemma record_to_log_number_logs [simp]: "map record_to_log (number_logs n ls) = ls"
  by (induction ls arbitrary: n) simp_all

lemma log_add_many_keeps_wf [intro]: "keeps_wf (log_add_many ls)"
proof (rule keeps_wfI)
  fix d a d'
  assume wf: "wf_db d" and run: "log_add_many ls d = Inr (a, d')"
  let ?new = "number_logs (log_seq d) ls"
  from run have d': "d' = d\<lparr>t_logs := t_logs d @ ?new, log_seq := log_seq d + length ls\<rparr>"
    and ok: "\<forall>l \<in> set ls. exec_find (l_run_id l) (l_attempt l) d \<noteq> None"
    by (auto simp: log_add_many_def list_all_iff split: if_splits)
  have ids: "lr_id r \<in> {log_seq d..<log_seq d + length ls}" if "r \<in> set ?new" for r
    using that number_logs_ids [of "log_seq d" ls] by (metis image_eqI set_map set_upt)
  have "(lr_run_id r, lr_attempt r) \<in> exec_key ` set (t_executions d)" if "r \<in> set ?new" for r
  proof -
    have "(lr_run_id r, lr_attempt r) \<in> (\<lambda>l. (l_run_id l, l_attempt l)) ` set ls"
      using that number_logs_keys [of "log_seq d" ls] by (metis (mono_tags, lifting) image_eqI set_map)
    with ok show ?thesis by (force simp: exec_find_None image_iff)
  qed
  with wf ids show "wf_db d'"
    by (auto simp: d' wf_db_defs sorted_wrt_append number_logs_ids)
qed

lemma try_claim_keeps_wf [intro]: "keeps_wf (try_claim k j r now)"
  by (rule keeps_wfI) (auto simp: try_claim_def wf_db_defs list_ex_iff split: if_splits intro: rev_image_eqI)

lemma key_release_keeps_wf [intro]: "keeps_wf (key_release k)"
  by (rule keeps_wfI) (auto simp: key_release_def wf_db_defs unique_on_filter)

section \<open>What the operations return\<close>

lemma exec_update_get_attempt:
  assumes "exec_update x d = Inr (a, d')" and "get_attempt (x_run_id x) (x_attempt x) d = Some y"
    and "x_job_id x = x_job_id y"
  shows "get_attempt (x_run_id x) (x_attempt x) d' = Some (x\<lparr>x_cancel_requested := x_cancel_requested y\<rparr>)"
proof -
  from assms(2) obtain r where r: "exec_find (x_run_id x) (x_attempt x) d = Some r" "y = record_to_execution r"
    by (auto simp: get_attempt_def)
  from exec_find_Some [OF r(1)] have key: "er_run_id r = x_run_id x" "er_attempt r = x_attempt x"
    by (simp_all add: exec_key_def)
  from assms(1) r(1) have "exec_find (x_run_id x) (x_attempt x) d' = Some (update_execution_record r x)"
    by (auto simp: exec_update_def exec_find_def find_update_first_same)
  with key r(2) assms(3) show ?thesis
    by (simp add: get_attempt_def record_update_roundtrip)
qed

lemma exec_add_get_attempt:
  "exec_add x d = Inr (a, d') \<Longrightarrow> get_attempt (x_run_id x) (x_attempt x) d' = Some x"
  by (auto simp: exec_add_def get_attempt_def exec_find_def find_append split: if_splits)

lemma get_attempt_Some:
  "get_attempt r n d = Some x \<longleftrightarrow> (\<exists>row. exec_find r n d = Some row \<and> x = record_to_execution row)"
  by (auto simp: get_attempt_def)

lemma get_attempt_key: "get_attempt r n d = Some x \<Longrightarrow> x_run_id x = r \<and> x_attempt x = n"
  by (auto simp: get_attempt_Some exec_key_def dest!: exec_find_Some)

text \<open>Writing one attempt leaves every other attempt as it was.\<close>

lemma exec_find_other:
  "(r, n) \<noteq> (x_run_id x, x_attempt x) \<Longrightarrow> exec_add x d = Inr (a, d') \<Longrightarrow> exec_find r n d' = exec_find r n d"
  "(r, n) \<noteq> (x_run_id x, x_attempt x) \<Longrightarrow> exec_update x d = Inr (a, d') \<Longrightarrow> exec_find r n d' = exec_find r n d"
  by (auto simp: exec_add_def exec_find_def find_append split: if_splits option.splits)
    (auto simp: exec_update_def exec_find_def split: if_splits intro!: find_update_first_other)

lemma exec_upsert_other:
  "(r, n) \<noteq> (x_run_id x, x_attempt x) \<Longrightarrow> exec_upsert x d = Inr (a, d') \<Longrightarrow>
     get_attempt r n d' = get_attempt r n d"
  using exec_find_other [of r n x d a d']
  by (auto simp: exec_upsert_def get_attempt_def split: if_splits)

lemma exec_upsert_get_attempt:
  assumes "exec_upsert x d = Inr (a, d')"
    and "\<And>y. get_attempt (x_run_id x) (x_attempt x) d = Some y \<Longrightarrow> x_job_id y = x_job_id x"
  shows "\<exists>c. get_attempt (x_run_id x) (x_attempt x) d' = Some (x\<lparr>x_cancel_requested := c\<rparr>)
     \<and> c = (case get_attempt (x_run_id x) (x_attempt x) d of None \<Rightarrow> x_cancel_requested x
             | Some y \<Rightarrow> x_cancel_requested y)"
proof (cases "exec_find (x_run_id x) (x_attempt x) d")
  case None
  with assms(1) have "exec_add x d = Inr (a, d')" by (simp add: exec_upsert_def)
  from exec_add_get_attempt [OF this] None show ?thesis by (simp add: get_attempt_def)
next
  case (Some r)
  with assms(1) have "exec_update x d = Inr (a, d')" by (simp add: exec_upsert_def)
  moreover have y: "get_attempt (x_run_id x) (x_attempt x) d = Some (record_to_execution r)"
    using Some by (simp add: get_attempt_def)
  ultimately show ?thesis
    using exec_update_get_attempt assms(2) by fastforce
qed

lemma exec_upsert_tables:
  "exec_upsert x d = Inr (a, d') \<Longrightarrow> t_jobs d' = t_jobs d \<and> t_schedules d' = t_schedules d
     \<and> t_keys d' = t_keys d \<and> t_logs d' = t_logs d"
  by (auto simp: exec_upsert_def exec_add_def exec_update_def split: if_splits)

text \<open>The write succeeds whenever the job exists.\<close>

lemma exec_upsert_ok:
  "x_job_id x \<in> jr_id ` set (t_jobs d) \<Longrightarrow> \<exists>d'. exec_upsert x d = Inr ((), d')"
  by (auto simp: exec_upsert_def exec_add_def exec_update_def list_ex_iff)

lemma get_run_id_None: "get_run_id k d = None \<longleftrightarrow> k \<notin> ir_key ` set (t_keys d)"
  by (auto simp: get_run_id_def find_None)

lemma try_claim_cases:
  "try_claim k j r now d =
     (if get_run_id k d \<noteq> None then Inr (False, d)
      else if j \<notin> jr_id ` set (t_jobs d) then Inl IntegrityError
      else Inr (True, d\<lparr>t_keys := t_keys d @
        [\<lparr>ir_key = k, ir_job_id = j, ir_run_id = r, ir_created_at = now\<rparr>]\<rparr>))"
  by (simp add: try_claim_def list_ex_key get_run_id_None)

lemma get_run_id_after_claim:
  "try_claim k j r now d = Inr (True, d') \<Longrightarrow> get_run_id k' d' = (if k' = k then Some r else get_run_id k' d)"
  by (auto simp: try_claim_cases get_run_id_def find_append split: if_splits option.splits)

lemma get_run_id_after_release:
  "key_release k d = Inr (b, d') \<Longrightarrow> get_run_id k' d' = (if k' = k then None else get_run_id k' d)"
  by (auto simp: key_release_def get_run_id_def find_None intro!: find_filter arg_cong [of _ _ "map_option ir_run_id"])

lemma key_release_result:
  "wf_db d \<Longrightarrow> key_release k d = Inr (b, d') \<Longrightarrow> b \<longleftrightarrow> get_run_id k d \<noteq> None"
  by (auto simp: key_release_def wf_db_defs length_filter_unique get_run_id_None split: if_splits)

subsection \<open>Pagination\<close>

lemma page_slice_concat:
  assumes "1 \<le> ps"
  shows "concat (map (\<lambda>p. page_slice (int p + 1) ps rows) [0..<n]) = take (n * nat ps) rows"
proof (induction n)
  case 0
  then show ?case by simp
next
  case (Suc n)
  have "nat (int n * ps) = n * nat ps"
    using assms by (simp add: nat_mult_distrib)
  then have "page_slice (int n + 1) ps rows = take (nat ps) (drop (n * nat ps) rows)"
    by (simp add: page_slice_def)
  moreover have "Suc n * nat ps = n * nat ps + nat ps" by simp
  ultimately show ?case using Suc by (simp add: take_add del: mult_Suc)
qed

lemma total_pages_covers:
  assumes "1 \<le> pg_page_size p" and "0 \<le> pg_total p"
  shows "pg_total p \<le> total_pages p * pg_page_size p" and "0 \<le> total_pages p"
    and "(total_pages p - 1) * pg_page_size p < pg_total p"
proof -
  define q where "q = (- pg_total p) div pg_page_size p"
  have m: "- pg_total p = q * pg_page_size p + (- pg_total p) mod pg_page_size p"
    by (simp add: q_def)
  have b: "0 \<le> (- pg_total p) mod pg_page_size p" "(- pg_total p) mod pg_page_size p < pg_page_size p"
    using assms by simp_all
  have t: "total_pages p = - q" using assms by (simp add: total_pages_def q_def)
  show "pg_total p \<le> total_pages p * pg_page_size p" using m b by (simp add: t)
  show "(total_pages p - 1) * pg_page_size p < pg_total p" using m b by (simp add: t algebra_simps)
  have "q \<le> 0" unfolding q_def using assms by (simp add: div_nonpos_pos_le0)
  then show "0 \<le> total_pages p" by (simp add: t)
qed

end
