(* ===== verification/Task_Queue.thy ===== *)
theory Task_Queue
  imports Repositories
begin

text \<open>
  The queue between the dispatcher and the workers: the message model and the \<^verbatim>\<open>TaskQueue\<close> protocol
  (\<^verbatim>\<open>infrastructure/queue/base.py\<close>) and the in-memory queue (\<^verbatim>\<open>infrastructure/queue/memory.py\<close>).

  The protocol is a record of operations over the state of the queue, so that the dispatcher, the retry
  sweeper and the worker are modelled once, for any queue. The locale \<open>task_queue\<close> states what the
  protocol's docstrings promise in terms of the messages waiting and the messages in flight, and proves
  that no message is lost before it is acknowledged; \<open>MemoryQueue\<close> is its instance. A reading of the
  clock is an argument of the operation that reads it. A blocking \<open>consume\<close> releases the lock while it
  waits; the argument \<open>during\<close> is what other threads do to the queue in that time.
\<close>

section \<open>Messages\<close>

record TaskMessage =
  m_job_id :: pystr
  m_run_id :: pystr
  m_attempt :: int
  m_idempotency_key :: "pystr option"

definition TaskMessage_post_init :: "TaskMessage \<Rightarrow> exn + TaskMessage" where
  "TaskMessage_post_init m =
     (if blank (m_job_id m) then Inl (ValueError (lit ''job_id must be a non-empty string''))
      else if blank (m_run_id m) then Inl (ValueError (lit ''run_id must be a non-empty string''))
      else if m_attempt m < 1 then Inl (ValueError (lit ''attempt must be an integer >= 1''))
      else case m_idempotency_key m of
             None \<Rightarrow> Inr m
           | Some k \<Rightarrow>
               if blank k
               then Inl (ValueError (lit ''idempotency_key must be None or a non-empty string''))
               else Inr m)"

definition valid_message :: "TaskMessage \<Rightarrow> bool" where
  "valid_message m \<longleftrightarrow> TaskMessage_post_init m = Inr m"

lemma TaskMessage_post_init_Inr: "TaskMessage_post_init m = Inr m' \<longleftrightarrow> valid_message m \<and> m' = m"
  by (auto simp: valid_message_def TaskMessage_post_init_def split: option.splits)

record Delivery =
  dl_message_id :: pystr
  dl_message :: TaskMessage
  dl_consumer :: pystr
  dl_delivery_count :: int

section \<open>The protocol\<close>

record 'q TaskQueue =
  tq_publish :: "TaskMessage \<Rightarrow> 'q \<Rightarrow> (exn + pystr) \<times> 'q"
  tq_consume :: "('q \<Rightarrow> 'q) \<Rightarrow> pyfloat \<Rightarrow> pystr \<Rightarrow> pyfloat \<Rightarrow> 'q \<Rightarrow> (exn + Delivery option) \<times> 'q"
  tq_ack :: "pystr \<Rightarrow> 'q \<Rightarrow> (exn + bool) \<times> 'q"
  tq_claim_stale :: "pyfloat \<Rightarrow> pystr \<Rightarrow> pyfloat \<Rightarrow> int \<Rightarrow> 'q \<Rightarrow> (exn + Delivery list) \<times> 'q"
  tq_renew :: "pyfloat \<Rightarrow> pystr \<Rightarrow> pystr \<Rightarrow> 'q \<Rightarrow> (exn + bool) \<times> 'q"
  tq_depth :: "'q \<Rightarrow> exn + int"
  tq_pending_count :: "'q \<Rightarrow> exn + int"

section \<open>The in-memory queue\<close>

record Pending =
  pd_message :: TaskMessage
  pd_consumer :: pystr
  pd_delivered_at :: pyfloat
  pd_delivery_count :: int

record MemoryQueue =
  mq_ready :: "(pystr \<times> TaskMessage) list"
  mq_pending :: "(pystr \<times> Pending) list"
  mq_seq :: nat

definition MemoryQueue_init :: MemoryQueue where
  "MemoryQueue_init = \<lparr>mq_ready = [], mq_pending = [], mq_seq = 1\<rparr>"

definition message_id :: "nat \<Rightarrow> pystr" where
  "message_id n = show_nat n @ lit ''-0''"

definition mq_publish :: "TaskMessage \<Rightarrow> MemoryQueue \<Rightarrow> (exn + pystr) \<times> MemoryQueue" where
  "mq_publish m q =
     (Inr (message_id (mq_seq q)),
      q\<lparr>mq_seq := Suc (mq_seq q), mq_ready := mq_ready q @ [(message_id (mq_seq q), m)]\<rparr>)"

definition mq_consume ::
  "(MemoryQueue \<Rightarrow> MemoryQueue) \<Rightarrow> pyfloat \<Rightarrow> pystr \<Rightarrow> pyfloat \<Rightarrow> MemoryQueue
     \<Rightarrow> (exn + Delivery option) \<times> MemoryQueue" where
  "mq_consume during now consumer block_seconds q =
     (let q1 = if mq_ready q = [] \<and> block_seconds > 0 then during q else q
      in case mq_ready q1 of
           [] \<Rightarrow> (Inr None, q1)
         | (mid, m) # rest \<Rightarrow>
             (Inr (Some \<lparr>dl_message_id = mid, dl_message = m, dl_consumer = consumer, dl_delivery_count = 1\<rparr>),
              q1\<lparr>mq_ready := rest,
                 mq_pending := AList.update mid
                   \<lparr>pd_message = m, pd_consumer = consumer, pd_delivered_at = now, pd_delivery_count = 1\<rparr>
                   (mq_pending q1)\<rparr>))"

definition mq_ack :: "pystr \<Rightarrow> MemoryQueue \<Rightarrow> (exn + bool) \<times> MemoryQueue" where
  "mq_ack mid q = (Inr (map_of (mq_pending q) mid \<noteq> None), q\<lparr>mq_pending := AList.delete mid (mq_pending q)\<rparr>)"

text \<open>The loop of \<^verbatim>\<open>claim_stale\<close>; \<open>room\<close> is \<^verbatim>\<open>count - len(claimed)\<close>.\<close>

fun claim_loop ::
  "pyfloat \<Rightarrow> pystr \<Rightarrow> pyfloat \<Rightarrow> int \<Rightarrow> (pystr \<times> Pending) list \<Rightarrow> Delivery list \<times> (pystr \<times> Pending) list" where
  "claim_loop now consumer min_idle room [] = ([], [])"
| "claim_loop now consumer min_idle room ((mid, e) # rest) =
     (if room \<le> 0 then ([], (mid, e) # rest)
      else if now - pd_delivered_at e < min_idle
        then (let (ds, rest') = claim_loop now consumer min_idle room rest in (ds, (mid, e) # rest'))
      else
        let e' = e\<lparr>pd_consumer := consumer, pd_delivered_at := now,
                   pd_delivery_count := pd_delivery_count e + 1\<rparr>;
            (ds, rest') = claim_loop now consumer min_idle (room - 1) rest
        in (\<lparr>dl_message_id = mid, dl_message = pd_message e', dl_consumer = consumer,
             dl_delivery_count = pd_delivery_count e'\<rparr> # ds, (mid, e') # rest'))"

definition mq_claim_stale ::
  "pyfloat \<Rightarrow> pystr \<Rightarrow> pyfloat \<Rightarrow> int \<Rightarrow> MemoryQueue \<Rightarrow> (exn + Delivery list) \<times> MemoryQueue" where
  "mq_claim_stale now consumer min_idle_seconds cnt q =
     (let (ds, pending') = claim_loop now consumer min_idle_seconds cnt (mq_pending q)
      in (Inr ds, q\<lparr>mq_pending := pending'\<rparr>))"

definition mq_renew :: "pyfloat \<Rightarrow> pystr \<Rightarrow> pystr \<Rightarrow> MemoryQueue \<Rightarrow> (exn + bool) \<times> MemoryQueue" where
  "mq_renew now mid consumer q =
     (case map_of (mq_pending q) mid of
        None \<Rightarrow> (Inr False, q)
      | Some e \<Rightarrow>
          if pd_consumer e \<noteq> consumer then (Inr False, q)
          else (Inr True, q\<lparr>mq_pending := AList.update mid (e\<lparr>pd_delivered_at := now\<rparr>) (mq_pending q)\<rparr>))"

definition mq_depth :: "MemoryQueue \<Rightarrow> exn + int" where
  "mq_depth q = Inr (int (length (mq_ready q)))"

definition mq_pending_count :: "MemoryQueue \<Rightarrow> exn + int" where
  "mq_pending_count q = Inr (int (length (mq_pending q)))"

definition memory_queue :: "MemoryQueue TaskQueue" where
  "memory_queue = \<lparr>tq_publish = mq_publish, tq_consume = mq_consume, tq_ack = mq_ack,
     tq_claim_stale = mq_claim_stale, tq_renew = mq_renew, tq_depth = mq_depth,
     tq_pending_count = mq_pending_count\<rparr>"

section \<open>What the protocol promises\<close>

text \<open>\<open>waiting\<close> are the messages not yet consumed, oldest first, and \<open>in_flight\<close> those consumed and not
  yet acknowledged, each with its identifier.\<close>

locale task_queue =
  fixes Q :: "'q TaskQueue"
    and waiting :: "'q \<Rightarrow> (pystr \<times> TaskMessage) list"
    and in_flight :: "'q \<Rightarrow> (pystr \<times> TaskMessage) list"
    and q_inv :: "'q \<Rightarrow> bool"
  assumes distinct_ids: "q_inv q \<Longrightarrow> distinct (map fst (waiting q @ in_flight q))"
    and publish_ok: "q_inv q \<Longrightarrow> tq_publish Q m q = (Inr i, q') \<Longrightarrow>
      q_inv q' \<and> waiting q' = waiting q @ [(i, m)] \<and> in_flight q' = in_flight q"
    and consume_poll: "waiting q \<noteq> [] \<or> b \<le> 0 \<Longrightarrow> tq_consume Q during t c b q = tq_consume Q during t c 0 q"
    and consume_block: "waiting q = [] \<Longrightarrow> b > 0 \<Longrightarrow>
      tq_consume Q during t c b q = tq_consume Q during t c 0 (during q)"
    and consume_some: "q_inv q \<Longrightarrow> tq_consume Q during t c 0 q = (Inr (Some d), q') \<Longrightarrow>
      q_inv q' \<and> waiting q = (dl_message_id d, dl_message d) # waiting q'
      \<and> mset (in_flight q') = add_mset (dl_message_id d, dl_message d) (mset (in_flight q))"
    and consume_none: "q_inv q \<Longrightarrow> tq_consume Q during t c 0 q = (Inr None, q') \<Longrightarrow>
      q' = q \<and> waiting q = []"
    and ack_ok: "q_inv q \<Longrightarrow> tq_ack Q i q = (Inr r, q') \<Longrightarrow>
      q_inv q' \<and> waiting q' = waiting q \<and> in_flight q' = filter (\<lambda>p. fst p \<noteq> i) (in_flight q)
      \<and> r = (i \<in> fst ` set (in_flight q))"
    and claim_ok: "q_inv q \<Longrightarrow> tq_claim_stale Q t c idle n q = (Inr ds, q') \<Longrightarrow>
      q_inv q' \<and> waiting q' = waiting q \<and> in_flight q' = in_flight q
      \<and> (\<forall>d \<in> set ds. (dl_message_id d, dl_message d) \<in> set (in_flight q))"
    and renew_ok: "q_inv q \<Longrightarrow> tq_renew Q t i c q = (Inr r, q') \<Longrightarrow>
      q_inv q' \<and> waiting q' = waiting q \<and> in_flight q' = in_flight q"
begin

definition held :: "'q \<Rightarrow> (pystr \<times> TaskMessage) multiset" where
  "held q = mset (waiting q) + mset (in_flight q)"

text \<open>The operations of a queue that returned normally, as steps.\<close>

inductive step :: "'q \<Rightarrow> 'q \<Rightarrow> bool" where
  published: "tq_publish Q m q = (Inr i, q') \<Longrightarrow> step q q'"
| consumed: "tq_consume Q during t c 0 q = (Inr r, q') \<Longrightarrow> step q q'"
| acked: "tq_ack Q i q = (Inr b, q') \<Longrightarrow> step q q'"
| claimed: "tq_claim_stale Q t c idle n q = (Inr ds, q') \<Longrightarrow> step q q'"
| renewed: "tq_renew Q t i c q = (Inr b, q') \<Longrightarrow> step q q'"

inductive_cases stepE: "step q q'"

lemma step_inv: "step q q' \<Longrightarrow> q_inv q \<Longrightarrow> q_inv q'"
proof (induction rule: step.induct)
  case (consumed during t c q r q')
  then show ?case by (cases r) (auto dest: consume_some consume_none)
qed (auto dest: publish_ok ack_ok claim_ok renew_ok)

lemma publish_held: "q_inv q \<Longrightarrow> tq_publish Q m q = (Inr i, q') \<Longrightarrow> held q' = add_mset (i, m) (held q)"
  by (drule (1) publish_ok) (simp add: held_def)

lemma consume_held:
  "q_inv q \<Longrightarrow> tq_consume Q during t c 0 q = (Inr r, q') \<Longrightarrow> held q' = held q"
  using consume_none [of q during t c q'] consume_some [of q during t c _ q']
  by (cases r) (auto simp: held_def)

lemma claim_held: "q_inv q \<Longrightarrow> tq_claim_stale Q t c idle n q = (Inr ds, q') \<Longrightarrow> held q' = held q"
  by (drule (1) claim_ok) (simp add: held_def)

lemma renew_held: "q_inv q \<Longrightarrow> tq_renew Q t i c q = (Inr b, q') \<Longrightarrow> held q' = held q"
  by (drule (1) renew_ok) (simp add: held_def)

lemma ack_held_other:
  "q_inv q \<Longrightarrow> tq_ack Q i q = (Inr b, q') \<Longrightarrow> (j, m) \<in># held q \<Longrightarrow> j \<noteq> i \<Longrightarrow> (j, m) \<in># held q'"
  by (drule (1) ack_ok) (auto simp: held_def)

text \<open>Only the acknowledgement of its own identifier removes a message.\<close>

lemma lost_only_by_ack:
  assumes "step q q'" and "q_inv q" and "(i, m) \<in># held q" and "(i, m) \<notin># held q'"
  shows "(i, m) \<in> set (in_flight q) \<and> (\<exists>b. tq_ack Q i q = (Inr b, q'))"
  using assms
proof (induction rule: step.induct)
  case (acked j q b q')
  then have "j = i" using ack_held_other by blast
  with acked show ?case by (auto simp: held_def dest: ack_ok)
qed (auto dest: publish_held consume_held claim_held renew_held)

lemma consume_then_ack:
  assumes "q_inv q" and "tq_consume Q during t c 0 q = (Inr (Some d), q1)"
    and "tq_ack Q (dl_message_id d) q1 = (Inr b, q2)"
  shows "b" and "held q = add_mset (dl_message_id d, dl_message d) (held q2)"
proof -
  let ?i = "dl_message_id d"
  from consume_some [OF assms(1,2)] have c: "q_inv q1" "waiting q = (?i, dl_message d) # waiting q1"
    "mset (in_flight q1) = add_mset (?i, dl_message d) (mset (in_flight q))" by auto
  have fresh: "?i \<notin> fst ` set (in_flight q)"
    using distinct_ids [OF assms(1)] c(2) by auto
  from c(3) have "set (in_flight q1) = insert (?i, dl_message d) (set (in_flight q))"
    by (metis set_mset_add_mset_insert set_mset_mset)
  with ack_ok [OF c(1) assms(3)] show b by auto
  have "mset (in_flight q2) = filter_mset (\<lambda>p. fst p \<noteq> ?i) (mset (in_flight q1))"
    using ack_ok [OF c(1) assms(3)] by simp
  also have "\<dots> = mset (in_flight q)"
    using fresh by (auto simp: c(3) filter_mset_eq_conv image_iff)
  finally show "held q = add_mset (?i, dl_message d) (held q2)"
    using c(2) ack_ok [OF c(1) assms(3)] by (simp add: held_def)
qed

end

section \<open>The in-memory queue keeps the promises\<close>

lemma message_id_inject [simp]: "message_id m = message_id n \<longleftrightarrow> m = n"
  by (simp add: message_id_def)

definition mq_in_flight :: "MemoryQueue \<Rightarrow> (pystr \<times> TaskMessage) list" where
  "mq_in_flight q = map (\<lambda>p. (fst p, pd_message (snd p))) (mq_pending q)"

definition mq_inv :: "MemoryQueue \<Rightarrow> bool" where
  "mq_inv q \<longleftrightarrow> distinct (map fst (mq_ready q @ mq_in_flight q))
     \<and> fst ` set (mq_ready q @ mq_in_flight q) \<subseteq> message_id ` {..<mq_seq q}"

lemma mq_inv_init [simp]: "mq_inv MemoryQueue_init"
  by (simp add: mq_inv_def MemoryQueue_init_def mq_in_flight_def)

lemma fst_mq_in_flight [simp]: "fst ` set (mq_in_flight q) = fst ` set (mq_pending q)"
  "map fst (mq_in_flight q) = map fst (mq_pending q)"
  by (simp_all add: mq_in_flight_def image_image comp_def)

lemma mq_in_flight_simps [simp]:
  "mq_in_flight (q\<lparr>mq_ready := r\<rparr>) = mq_in_flight q" "mq_in_flight (q\<lparr>mq_seq := n\<rparr>) = mq_in_flight q"
  by (simp_all add: mq_in_flight_def)

lemma mq_inv_iff:
  "mq_inv q \<longleftrightarrow> distinct (map fst (mq_ready q)) \<and> distinct (map fst (mq_pending q))
     \<and> fst ` set (mq_ready q) \<inter> fst ` set (mq_pending q) = {}
     \<and> fst ` set (mq_ready q) \<subseteq> message_id ` {..<mq_seq q}
     \<and> fst ` set (mq_pending q) \<subseteq> message_id ` {..<mq_seq q}"
  by (auto simp: mq_inv_def image_Un)

text \<open>The invariant depends on the ready list, the messages in flight and the counter only.\<close>

lemma mq_inv_cong:
  "mq_inv q \<Longrightarrow> mq_ready q' = mq_ready q \<Longrightarrow> mq_in_flight q' = mq_in_flight q \<Longrightarrow> mq_seq q' = mq_seq q \<Longrightarrow> mq_inv q'"
  by (auto simp: mq_inv_def)

lemma mq_publish_inv: "mq_inv q \<Longrightarrow> mq_inv (snd (mq_publish m q))"
  by (auto simp: mq_inv_iff mq_publish_def lessThan_Suc)

lemma mq_inv_filter: "mq_inv q \<Longrightarrow> mq_inv (q\<lparr>mq_pending := filter P (mq_pending q)\<rparr>)"
proof -
  have "fst ` set (filter P (mq_pending q)) \<subseteq> fst ` set (mq_pending q)" by auto
  then show "mq_inv q \<Longrightarrow> ?thesis"
    unfolding mq_inv_iff by (simp add: distinct_map_filter) blast
qed

lemma claim_loop_messages:
  "claim_loop t c idle n ps = (ds, ps') \<Longrightarrow> map (\<lambda>p. (fst p, pd_message (snd p))) ps' = map (\<lambda>p. (fst p, pd_message (snd p))) ps
     \<and> (\<forall>d \<in> set ds. (dl_message_id d, dl_message d) \<in> (\<lambda>p. (fst p, pd_message (snd p))) ` set ps)"
  by (induction t c idle n ps arbitrary: ds ps' rule: claim_loop.induct)
    (auto simp: Let_def split: if_splits prod.splits)

interpretation mq: task_queue memory_queue mq_ready mq_in_flight mq_inv
proof
  fix q q' :: MemoryQueue and m i during t c b d r idle n ds
  show "mq_inv q \<Longrightarrow> distinct (map fst (mq_ready q @ mq_in_flight q))"
    by (simp add: mq_inv_def)
  show "mq_inv q \<Longrightarrow> tq_publish memory_queue m q = (Inr i, q') \<Longrightarrow>
      mq_inv q' \<and> mq_ready q' = mq_ready q @ [(i, m)] \<and> mq_in_flight q' = mq_in_flight q"
    using mq_publish_inv [of q m] by (auto simp: memory_queue_def mq_publish_def)
  show "mq_ready q \<noteq> [] \<or> b \<le> 0 \<Longrightarrow>
      tq_consume memory_queue during t c b q = tq_consume memory_queue during t c 0 q"
    by (auto simp: memory_queue_def mq_consume_def)
  show "mq_ready q = [] \<Longrightarrow> b > 0 \<Longrightarrow>
      tq_consume memory_queue during t c b q = tq_consume memory_queue during t c 0 (during q)"
    by (simp add: memory_queue_def mq_consume_def)
  show "mq_inv q \<Longrightarrow> tq_consume memory_queue during t c 0 q = (Inr (Some d), q') \<Longrightarrow>
      mq_inv q' \<and> mq_ready q = (dl_message_id d, dl_message d) # mq_ready q'
      \<and> mset (mq_in_flight q') = add_mset (dl_message_id d, dl_message d) (mset (mq_in_flight q))"
    by (auto simp: memory_queue_def mq_consume_def mq_inv_iff mq_in_flight_def alist_update_new
        split: list.splits) (metis (no_types, lifting) disjoint_iff fst_conv image_eqI subsetD)+
  show "mq_inv q \<Longrightarrow> tq_consume memory_queue during t c 0 q = (Inr None, q') \<Longrightarrow> q' = q \<and> mq_ready q = []"
    by (auto simp: memory_queue_def mq_consume_def split: list.splits)
  show "mq_inv q \<Longrightarrow> tq_ack memory_queue i q = (Inr r, q') \<Longrightarrow>
      mq_inv q' \<and> mq_ready q' = mq_ready q \<and> mq_in_flight q' = filter (\<lambda>p. fst p \<noteq> i) (mq_in_flight q)
      \<and> r = (i \<in> fst ` set (mq_in_flight q))"
    by (auto simp: memory_queue_def mq_ack_def alist_delete_filter mq_inv_filter map_of_eq_None_iff)
      (auto simp: mq_in_flight_def filter_map comp_def)
  show "mq_inv q \<Longrightarrow> tq_claim_stale memory_queue t c idle n q = (Inr ds, q') \<Longrightarrow>
      mq_inv q' \<and> mq_ready q' = mq_ready q \<and> mq_in_flight q' = mq_in_flight q
      \<and> (\<forall>d \<in> set ds. (dl_message_id d, dl_message d) \<in> set (mq_in_flight q))"
    using claim_loop_messages [of t c idle n "mq_pending q"]
    by (auto simp: memory_queue_def mq_claim_stale_def mq_in_flight_def split: prod.splits
        elim!: mq_inv_cong)
  show "mq_inv q \<Longrightarrow> tq_renew memory_queue t i c q = (Inr r, q') \<Longrightarrow>
      mq_inv q' \<and> mq_ready q' = mq_ready q \<and> mq_in_flight q' = mq_in_flight q"
    by (auto simp: memory_queue_def mq_renew_def mq_in_flight_def alist_update_same
        split: option.splits if_splits elim!: mq_inv_cong)
qed

end
