(* ===== verification/Redis_Queue.thy ===== *)
theory Redis_Queue
  imports Json Task_Queue
begin

text \<open>
  The message format (\<^verbatim>\<open>TaskMessage.to_json\<close> and \<^verbatim>\<open>from_json\<close> of \<^verbatim>\<open>infrastructure/queue/base.py\<close>) and the queue over a Redis
  stream (\<^verbatim>\<open>infrastructure/queue/redis_stream.py\<close>). The Redis server is a parameter: a record of the commands the queue issues, over
  an arbitrary state of the server; a command raises or replies. What the queue relies on is the predicate \<open>stream_group\<close>,
  the documented behaviour of a stream with a consumer group. The loop of \<^verbatim>\<open>consume\<close> reads the clock once per turn; the readings are
  its input, and a list that is too short leaves it running (\<open>None\<close>).
\<close>

section \<open>Message format\<close>

definition digit_limit :: exn where
  "digit_limit = ValueError (lit ''Exceeds the limit (4300 digits) for integer string conversion'')"

definition encode_key :: "pystr option \<Rightarrow> pystr" where
  "encode_key k = (case k of None \<Rightarrow> lit ''null'' | Some s \<Rightarrow> encode_string s)"

definition to_json :: "TaskMessage \<Rightarrow> exn + pystr" where
  "to_json m =
     (case encode_int (m_attempt m) of
        Inl e \<Rightarrow> Inl digit_limit
      | Inr n \<Rightarrow>
          Inr ([123] @ encode_string (lit ''attempt'') @ 58 # n @ 44 #
            encode_string (lit ''idempotency_key'') @ 58 # encode_key (m_idempotency_key m) @ 44 #
            encode_string (lit ''job_id'') @ 58 # encode_string (m_job_id m) @ 44 #
            encode_string (lit ''run_id'') @ 58 # encode_string (m_run_id m) @ [125]))"

text \<open>The constructor on decoded values: \<^verbatim>\<open>__post_init__\<close> with its type checks.\<close>

definition json_text :: "json \<Rightarrow> pystr option" where
  "json_text v = (case v of JStr s \<Rightarrow> if blank s then None else Some s | _ \<Rightarrow> None)"

definition message_of_json :: "json \<Rightarrow> json \<Rightarrow> json \<Rightarrow> json option \<Rightarrow> exn + TaskMessage" where
  "message_of_json job_id run_id attempt key =
     (case json_text job_id of
        None \<Rightarrow> Inl (ValueError (lit ''job_id must be a non-empty string''))
      | Some j \<Rightarrow>
     (case json_text run_id of
        None \<Rightarrow> Inl (ValueError (lit ''run_id must be a non-empty string''))
      | Some r \<Rightarrow>
     (case (case attempt of JInt n \<Rightarrow> if n < 1 then None else Some n | _ \<Rightarrow> None) of
        None \<Rightarrow> Inl (ValueError (lit ''attempt must be an integer >= 1''))
      | Some n \<Rightarrow>
          if key = None \<or> key = Some JNull
          then Inr \<lparr>m_job_id = j, m_run_id = r, m_attempt = n, m_idempotency_key = None\<rparr>
          else (case Option.bind key json_text of
                  None \<Rightarrow> Inl (ValueError (lit ''idempotency_key must be None or a non-empty string''))
                | Some k \<Rightarrow> Inr \<lparr>m_job_id = j, m_run_id = r, m_attempt = n, m_idempotency_key = Some k\<rparr>))))"

definition from_json :: "pystr \<Rightarrow> exn + TaskMessage" where
  "from_json raw =
     (case json_loads raw of
        Inl JSONDecodeError \<Rightarrow> Inl (InvalidMessageError (lit ''not valid JSON''))
      | Inl DigitLimit \<Rightarrow> Inl digit_limit
      | Inr (JObject ms) \<Rightarrow>
          (let data = map_of (rev ms) in
           case (data (lit ''job_id''), data (lit ''run_id''), data (lit ''attempt'')) of
             (Some j, Some r, Some n) \<Rightarrow>
               (case message_of_json j r n (data (lit ''idempotency_key'')) of
                  Inl (ValueError t) \<Rightarrow> Inl (InvalidMessageError t)
                | res \<Rightarrow> res)
           | _ \<Rightarrow> Inl (InvalidMessageError (lit ''missing fields'')))
      | Inr _ \<Rightarrow> Inl (InvalidMessageError (lit ''message must be a JSON object'')))"

section \<open>The server\<close>

type_synonym fields = "(pystr \<times> pystr) list"
type_synonym entry = "pystr \<times> fields option"

record 'r redis =
  rd_xgroup_create :: "pystr \<Rightarrow> pystr \<Rightarrow> 'r \<Rightarrow> (exn + unit) \<times> 'r"
  rd_xadd :: "pystr \<Rightarrow> fields \<Rightarrow> 'r \<Rightarrow> (exn + pystr) \<times> 'r"
  rd_xreadgroup :: "pystr \<Rightarrow> pystr \<Rightarrow> pystr \<Rightarrow> int option \<Rightarrow> 'r \<Rightarrow> (exn + (pystr \<times> entry list) list) \<times> 'r"
  rd_xack_xdel :: "pystr \<Rightarrow> pystr \<Rightarrow> pystr \<Rightarrow> 'r \<Rightarrow> (exn + int \<times> int) \<times> 'r"
  rd_xautoclaim :: "pystr \<Rightarrow> pystr \<Rightarrow> pystr \<Rightarrow> int \<Rightarrow> int \<Rightarrow> 'r \<Rightarrow> (exn + entry list) \<times> 'r"
  rd_xpending_range :: "pystr \<Rightarrow> pystr \<Rightarrow> pystr \<Rightarrow> 'r \<Rightarrow> (exn + (pystr \<times> int) list) \<times> 'r"
  rd_xclaim_justid :: "pystr \<Rightarrow> pystr \<Rightarrow> pystr \<Rightarrow> pystr \<Rightarrow> 'r \<Rightarrow> (exn + pystr list) \<times> 'r"
  rd_xlen_xpending :: "pystr \<Rightarrow> pystr \<Rightarrow> 'r \<Rightarrow> (exn + int \<times> int) \<times> 'r"
  rd_xpending :: "pystr \<Rightarrow> pystr \<Rightarrow> 'r \<Rightarrow> (exn + int) \<times> 'r"

definition PAYLOAD_FIELD :: pystr where
  "PAYLOAD_FIELD = lit ''payload''"

text \<open>The queue object: the stream and the group it is bound to.\<close>

record redis_config =
  rc_stream :: pystr
  rc_group :: pystr

text \<open>\<^verbatim>\<open>"BUSYGROUP" in str(exc)\<close> for a \<^verbatim>\<open>ResponseError\<close> is the parameter \<open>busy\<close>.\<close>

definition ensure_group :: "(exn \<Rightarrow> bool) \<Rightarrow> 'r redis \<Rightarrow> redis_config \<Rightarrow> 'r \<Rightarrow> (exn + unit) \<times> 'r" where
  "ensure_group busy R c r =
     (case rd_xgroup_create R (rc_stream c) (rc_group c) r of
        (Inl e, r1) \<Rightarrow> if busy e then (Inr (), r1) else (Inl e, r1)
      | (Inr u, r1) \<Rightarrow> (Inr u, r1))"

definition redis_publish :: "'r redis \<Rightarrow> redis_config \<Rightarrow> TaskMessage \<Rightarrow> 'r \<Rightarrow> (exn + pystr) \<times> 'r" where
  "redis_publish R c m r =
     (case to_json m of Inl e \<Rightarrow> (Inl e, r) | Inr raw \<Rightarrow> rd_xadd R (rc_stream c) [(PAYLOAD_FIELD, raw)] r)"

definition redis_ack :: "'r redis \<Rightarrow> redis_config \<Rightarrow> pystr \<Rightarrow> 'r \<Rightarrow> (exn + bool) \<times> 'r" where
  "redis_ack R c mid r =
     (case rd_xack_xdel R (rc_stream c) (rc_group c) mid r of
        (Inl e, r1) \<Rightarrow> (Inl e, r1)
      | (Inr (acked, deleted), r1) \<Rightarrow> (Inr (acked = 1), r1))"

definition times_delivered :: "'r redis \<Rightarrow> redis_config \<Rightarrow> pystr \<Rightarrow> 'r \<Rightarrow> (exn + int) \<times> 'r" where
  "times_delivered R c mid r =
     (case rd_xpending_range R (rc_stream c) (rc_group c) mid r of
        (Inl e, r1) \<Rightarrow> (Inl e, r1)
      | (Inr rows, r1) \<Rightarrow> (Inr (case rows of [] \<Rightarrow> 1 | (_, n) # _ \<Rightarrow> n), r1))"

definition decode_entry :: "fields option \<Rightarrow> exn + TaskMessage" where
  "decode_entry fs =
     (case Option.bind fs (\<lambda>f. map_of f PAYLOAD_FIELD) of
        None \<Rightarrow> Inl (InvalidMessageError (lit ''missing payload field''))
      | Some raw \<Rightarrow> from_json raw)"

fun to_deliveries ::
  "'r redis \<Rightarrow> redis_config \<Rightarrow> pystr \<Rightarrow> bool \<Rightarrow> entry list \<Rightarrow> 'r \<Rightarrow> (exn + Delivery list) \<times> 'r" where
  "to_deliveries R c consumer claimed [] r = (Inr [], r)"
| "to_deliveries R c consumer claimed ((mid, fs) # es) r =
     (case decode_entry fs of
        Inl (InvalidMessageError t) \<Rightarrow>
          (case redis_ack R c mid r of
             (Inl e, r1) \<Rightarrow> (Inl e, r1)
           | (Inr _, r1) \<Rightarrow> to_deliveries R c consumer claimed es r1)
      | Inl e \<Rightarrow> (Inl e, r)
      | Inr m \<Rightarrow>
          (case (if claimed then times_delivered R c mid r else (Inr 1, r)) of
             (Inl e, r1) \<Rightarrow> (Inl e, r1)
           | (Inr n, r1) \<Rightarrow>
               (case to_deliveries R c consumer claimed es r1 of
                  (Inl e, r2) \<Rightarrow> (Inl e, r2)
                | (Inr ds, r2) \<Rightarrow>
                    (Inr (\<lparr>dl_message_id = mid, dl_message = m, dl_consumer = consumer, dl_delivery_count = n\<rparr> # ds), r2))))"

definition block_ms :: "pyfloat \<Rightarrow> pyfloat \<Rightarrow> int" where
  "block_ms deadline now = \<lfloor>max (deadline - now) 0 * 1000\<rfloor>"

fun consume_loop ::
  "'r redis \<Rightarrow> redis_config \<Rightarrow> pystr \<Rightarrow> pyfloat \<Rightarrow> pyfloat list \<Rightarrow> 'r \<Rightarrow> (exn + Delivery option) option \<times> 'r" where
  "consume_loop R c consumer deadline [] r = (None, r)"
| "consume_loop R c consumer deadline (t # ts) r =
     (let ms = block_ms deadline t in
      case rd_xreadgroup R (rc_group c) consumer (rc_stream c) (if ms > 0 then Some ms else None) r of
        (Inl e, r1) \<Rightarrow> (Some (Inl e), r1)
      | (Inr result, r1) \<Rightarrow>
          if result = [] then (Some (Inr None), r1)
          else (case to_deliveries R c consumer False (snd (hd result)) r1 of
                  (Inl e, r2) \<Rightarrow> (Some (Inl e), r2)
                | (Inr ds, r2) \<Rightarrow>
                    if ds \<noteq> [] then (Some (Inr (Some (hd ds))), r2)
                    else consume_loop R c consumer deadline ts r2))"

definition redis_consume ::
  "'r redis \<Rightarrow> redis_config \<Rightarrow> pystr \<Rightarrow> pyfloat \<Rightarrow> pyfloat \<Rightarrow> pyfloat list \<Rightarrow> 'r \<Rightarrow> (exn + Delivery option) option \<times> 'r" where
  "redis_consume R c consumer block_seconds start turns r =
     consume_loop R c consumer (start + max block_seconds 0) turns r"

text \<open>\<^verbatim>\<open>int\<close> truncates towards zero.\<close>

definition int_trunc :: "pyfloat \<Rightarrow> int" where
  "int_trunc x = (if x < 0 then \<lceil>x\<rceil> else \<lfloor>x\<rfloor>)"

definition redis_claim_stale ::
  "'r redis \<Rightarrow> redis_config \<Rightarrow> pystr \<Rightarrow> pyfloat \<Rightarrow> int \<Rightarrow> 'r \<Rightarrow> (exn + Delivery list) \<times> 'r" where
  "redis_claim_stale R c consumer min_idle_seconds cnt r =
     (case rd_xautoclaim R (rc_stream c) (rc_group c) consumer (int_trunc (min_idle_seconds * 1000)) cnt r of
        (Inl e, r1) \<Rightarrow> (Inl e, r1)
      | (Inr es, r1) \<Rightarrow> to_deliveries R c consumer True es r1)"

definition redis_renew :: "'r redis \<Rightarrow> redis_config \<Rightarrow> pystr \<Rightarrow> pystr \<Rightarrow> 'r \<Rightarrow> (exn + bool) \<times> 'r" where
  "redis_renew R c mid consumer r =
     (case rd_xpending_range R (rc_stream c) (rc_group c) mid r of
        (Inl e, r1) \<Rightarrow> (Inl e, r1)
      | (Inr rows, r1) \<Rightarrow>
          if rows = [] \<or> fst (hd rows) \<noteq> consumer then (Inr False, r1)
          else (case rd_xclaim_justid R (rc_stream c) (rc_group c) consumer mid r1 of
                  (Inl e, r2) \<Rightarrow> (Inl e, r2)
                | (Inr ids, r2) \<Rightarrow> (Inr (ids \<noteq> []), r2)))"

definition redis_depth :: "'r redis \<Rightarrow> redis_config \<Rightarrow> 'r \<Rightarrow> (exn + int) \<times> 'r" where
  "redis_depth R c r =
     (case rd_xlen_xpending R (rc_stream c) (rc_group c) r of
        (Inl e, r1) \<Rightarrow> (Inl e, r1)
      | (Inr (len, pending), r1) \<Rightarrow> (Inr (len - pending), r1))"

definition redis_pending_count :: "'r redis \<Rightarrow> redis_config \<Rightarrow> 'r \<Rightarrow> (exn + int) \<times> 'r" where
  "redis_pending_count R c r = rd_xpending R (rc_stream c) (rc_group c) r"

section \<open>The format round trips\<close>

text \<open>A printed value is followed by a comma or the end of the object and reads back as itself.\<close>

definition reads_as :: "pystr \<Rightarrow> json \<Rightarrow> bool" where
  "reads_as t v \<longleftrightarrow> (\<forall>n c r. c = 44 \<or> c = 125 \<longrightarrow> scan_once (Suc n) (t @ c # r) = Inr (v, c # r) \<and> skip_ws (t @ c # r) = t @ c # r)"

lemma reads_as_string: "reads_as (encode_string s) (JStr s)"
  using scan_once_string by (simp add: reads_as_def) (simp add: encode_string_def is_ws_def)

lemma reads_as_key: "reads_as (encode_key k) (case k of None \<Rightarrow> JNull | Some s \<Rightarrow> JStr s)"
  using scan_once_null reads_as_string
  by (cases k) (auto simp: encode_key_def reads_as_def, simp_all add: lit_def is_ws_def)

lemma reads_as_int:
  assumes "encode_int i = Inr t" and "0 \<le> i"
  shows "reads_as t (JInt i)"
proof -
  from assms have "t = show_nat (nat i)" by (auto simp: encode_int_def show_int_def split: if_splits)
  then obtain c u where "t = c # u" "\<not> is_ws c"
    using show_nat_digits [of "nat i"] by (cases "show_nat (nat i)") (auto simp: is_digit_def is_ws_def)
  moreover have "scan_once (Suc n) (t @ x # r) = Inr (JInt i, x # r)" if "x = 44 \<or> x = 125" for n x r
    using scan_once_int [OF assms] that by (auto simp: ends_number_def)
  ultimately show ?thesis by (auto simp: reads_as_def)
qed

lemma scan_member_more:
  assumes "reads_as t v" and "scan_members (Suc n) (encode_string k' @ r) = Inr (ms, rest)"
  shows "scan_members (Suc (Suc n)) (encode_string k @ 58 # t @ 44 # encode_string k' @ r) = Inr ((k, v) # ms, rest)"
proof -
  have "skip_ws (encode_string k' @ r) = encode_string k' @ r" by (simp add: encode_string_def is_ws_def)
  with assms scan_member [of "Suc n" t 44 "encode_string k' @ r" v k] show ?thesis by (simp add: reads_as_def)
qed

lemma scan_member_last:
  assumes "reads_as t v"
  shows "scan_members (Suc (Suc n)) (encode_string k @ 58 # t @ [125]) = Inr ([(k, v)], [])"
  using assms scan_member [of "Suc n" t 125 "[]" v k] by (simp add: reads_as_def)

lemma json_loads_object:
  assumes "\<And>n. scan_members (Suc (Suc (Suc (Suc (Suc n))))) (encode_string k @ r) = Inr (ms, [])"
  shows "json_loads (123 # encode_string k @ r) = Inr (JObject ms)"
proof -
  let ?s = "123 # encode_string k @ r"
  let ?n = "2 * length ?s"
  have ws: "skip_ws (encode_string k @ r) = encode_string k @ r" "expect 125 (encode_string k @ r) = None"
    by (simp_all add: encode_string_def is_ws_def expect_def)
  have "scan_once (Suc (Suc (Suc (Suc (Suc (Suc ?n)))))) ?s = Inr (JObject ms, [])"
    using assms [of ?n] ws by (simp only: scan_once.simps) (simp add: expect_def del: scan_members.simps)
  moreover have "skip_ws ?s = ?s" by (simp add: is_ws_def)
  ultimately show ?thesis
    using json_loads_depth [of ?s "Suc (Suc (Suc (Suc (Suc (Suc ?n)))))"] by (simp del: scan_once.simps) (simp add: skip_ws_def)
qed

lemma to_json_loads:
  assumes "to_json m = Inr s" and "0 \<le> m_attempt m"
  shows "json_loads s = Inr (JObject [(lit ''attempt'', JInt (m_attempt m)),
     (lit ''idempotency_key'', case m_idempotency_key m of None \<Rightarrow> JNull | Some k \<Rightarrow> JStr k),
     (lit ''job_id'', JStr (m_job_id m)), (lit ''run_id'', JStr (m_run_id m))])"
proof -
  from assms(1) obtain n where n: "encode_int (m_attempt m) = Inr n" and s: "s = 123 # encode_string (lit ''attempt'') @ 58 # n @ 44 #
      encode_string (lit ''idempotency_key'') @ 58 # encode_key (m_idempotency_key m) @ 44 #
      encode_string (lit ''job_id'') @ 58 # encode_string (m_job_id m) @ 44 #
      encode_string (lit ''run_id'') @ 58 # encode_string (m_run_id m) @ [125]"
    by (auto simp: to_json_def split: sum.splits)
  show ?thesis
    unfolding s
    by (intro json_loads_object scan_member_more scan_member_last reads_as_string reads_as_key reads_as_int [OF n assms(2)])
qed

lemma from_to_json:
  assumes "valid_message m" and "to_json m = Inr s"
  shows "from_json s = Inr m"
proof -
  from assms(1) have v: "\<not> blank (m_job_id m)" "\<not> blank (m_run_id m)" "1 \<le> m_attempt m"
    "\<And>k. m_idempotency_key m = Some k \<Longrightarrow> \<not> blank k"
    by (auto simp: valid_message_def TaskMessage_post_init_def split: if_splits option.splits)
  then have loads: "json_loads s = Inr (JObject [(lit ''attempt'', JInt (m_attempt m)),
     (lit ''idempotency_key'', case m_idempotency_key m of None \<Rightarrow> JNull | Some k \<Rightarrow> JStr k),
     (lit ''job_id'', JStr (m_job_id m)), (lit ''run_id'', JStr (m_run_id m))])"
    using to_json_loads [OF assms(2)] by simp
  show ?thesis
    using v by (cases m) (auto simp: from_json_def loads message_of_json_def json_text_def split: option.splits)
qed

text \<open>C8: A message survives the queue's format: what \<^verbatim>\<open>to_json\<close> prints of a valid message, \<^verbatim>\<open>from_json\<close> reads back as the
  same message, whatever characters its identifiers contain.\<close>

theorem message_json_roundtrip:
  assumes "valid_message m" and "to_json m = Inr s"
  shows "from_json s = Inr m"
  using assms by (rule from_to_json)

lemma to_json_returns:
  assumes "0 \<le> m_attempt m" and "m_attempt m < 10 ^ Suc w" and "Suc w \<le> INT_MAX_STR_DIGITS"
  shows "\<exists>s. to_json m = Inr s"
proof -
  have "nat (m_attempt m) < 10 ^ Suc w" using assms(1,2) by (simp only: nat_less_iff of_nat_power of_nat_numeral)
  from length_show_nat [OF this] assms(1,3) show ?thesis by (simp add: to_json_def encode_int_def)
qed

section \<open>Over a stream server\<close>

text \<open>What a consumer group sees of its stream: the entries it has not delivered yet, and its pending entries with the consumer that holds
  each and the number of its deliveries.\<close>

record group_view =
  gv_new :: "(pystr \<times> fields) list"
  gv_pending :: "pystr \<rightharpoonup> fields \<times> pystr \<times> int"

definition view_ids :: "group_view \<Rightarrow> pystr set" where
  "view_ids v = fst ` set (gv_new v) \<union> dom (gv_pending v)"

definition ids_apart :: "group_view \<Rightarrow> bool" where
  "ids_apart v \<longleftrightarrow> distinct (map fst (gv_new v)) \<and> fst ` set (gv_new v) \<inter> dom (gv_pending v) = {}"

text \<open>The documented effect of each command that is answered: \<^verbatim>\<open>XADD\<close>, \<^verbatim>\<open>XREADGROUP\<close> of one new entry (without \<^verbatim>\<open>BLOCK\<close>, or when
  there is one), \<^verbatim>\<open>XACK\<close> with \<^verbatim>\<open>XDEL\<close>, \<^verbatim>\<open>XAUTOCLAIM\<close>, \<^verbatim>\<open>XPENDING\<close> and \<^verbatim>\<open>XCLAIM JUSTID\<close>. Nothing is said of a
  command that fails.\<close>

definition add_law :: "'r redis \<Rightarrow> redis_config \<Rightarrow> ('r \<Rightarrow> group_view) \<Rightarrow> bool" where
  "add_law R c view \<longleftrightarrow> (\<forall>fs r i r'. rd_xadd R (rc_stream c) fs r = (Inr i, r') \<longrightarrow>
     i \<notin> view_ids (view r) \<and> view r' = (view r)\<lparr>gv_new := gv_new (view r) @ [(i, fs)]\<rparr>)"

definition read_law :: "'r redis \<Rightarrow> redis_config \<Rightarrow> ('r \<Rightarrow> group_view) \<Rightarrow> bool" where
  "read_law R c view \<longleftrightarrow> (\<forall>consumer block r res r'.
     rd_xreadgroup R (rc_group c) consumer (rc_stream c) block r = (Inr res, r') \<and> (block = None \<or> gv_new (view r) \<noteq> []) \<longrightarrow>
     (case gv_new (view r) of
        [] \<Rightarrow> res = [] \<and> view r' = view r
      | (i, fs) # es \<Rightarrow> res = [(rc_stream c, [(i, Some fs)])]
          \<and> view r' = \<lparr>gv_new = es, gv_pending = (gv_pending (view r))(i \<mapsto> (fs, consumer, 1))\<rparr>))"

definition ack_law :: "'r redis \<Rightarrow> redis_config \<Rightarrow> ('r \<Rightarrow> group_view) \<Rightarrow> bool" where
  "ack_law R c view \<longleftrightarrow> (\<forall>mid r a n r'. rd_xack_xdel R (rc_stream c) (rc_group c) mid r = (Inr (a, n), r') \<longrightarrow>
     a = (if mid \<in> dom (gv_pending (view r)) then 1 else 0)
     \<and> view r' = \<lparr>gv_new = filter (\<lambda>e. fst e \<noteq> mid) (gv_new (view r)), gv_pending = (gv_pending (view r))(mid := None)\<rparr>)"

definition autoclaim_law :: "'r redis \<Rightarrow> redis_config \<Rightarrow> ('r \<Rightarrow> group_view) \<Rightarrow> bool" where
  "autoclaim_law R c view \<longleftrightarrow> (\<forall>consumer idle n r es r'.
     rd_xautoclaim R (rc_stream c) (rc_group c) consumer idle n r = (Inr es, r') \<longrightarrow>
     length es \<le> nat n \<and> distinct (map fst es)
     \<and> (\<forall>e \<in> set es. \<exists>fs own k. gv_pending (view r) (fst e) = Some (fs, own, k) \<and> snd e = Some fs)
     \<and> view r' = (view r)\<lparr>gv_pending := (\<lambda>i. if i \<in> fst ` set es
           then map_option (\<lambda>(fs, own, k). (fs, consumer, k + 1)) (gv_pending (view r) i) else gv_pending (view r) i)\<rparr>)"

definition pending_law :: "'r redis \<Rightarrow> redis_config \<Rightarrow> ('r \<Rightarrow> group_view) \<Rightarrow> bool" where
  "pending_law R c view \<longleftrightarrow> (\<forall>mid r rows r'. rd_xpending_range R (rc_stream c) (rc_group c) mid r = (Inr rows, r') \<longrightarrow>
     view r' = view r \<and> rows = (case gv_pending (view r) mid of None \<Rightarrow> [] | Some (fs, own, k) \<Rightarrow> [(own, k)]))"

definition claim_law :: "'r redis \<Rightarrow> redis_config \<Rightarrow> ('r \<Rightarrow> group_view) \<Rightarrow> bool" where
  "claim_law R c view \<longleftrightarrow> (\<forall>consumer mid r ids r'.
     rd_xclaim_justid R (rc_stream c) (rc_group c) consumer mid r = (Inr ids, r') \<longrightarrow>
     (ids \<noteq> [] \<longleftrightarrow> mid \<in> dom (gv_pending (view r)))
     \<and> view r' = (view r)\<lparr>gv_pending := (gv_pending (view r))(mid := map_option (\<lambda>(fs, own, k). (fs, consumer, k)) (gv_pending (view r) mid))\<rparr>)"

definition stream_group :: "'r redis \<Rightarrow> redis_config \<Rightarrow> ('r \<Rightarrow> group_view) \<Rightarrow> bool" where
  "stream_group R c view \<longleftrightarrow> add_law R c view \<and> read_law R c view \<and> ack_law R c view \<and> autoclaim_law R c view
     \<and> pending_law R c view \<and> claim_law R c view"

text \<open>A server that can be reached answers a read and an acknowledgement.\<close>

definition responsive :: "'r redis \<Rightarrow> redis_config \<Rightarrow> bool" where
  "responsive R c \<longleftrightarrow>
     (\<forall>consumer block r. \<exists>res r'. rd_xreadgroup R (rc_group c) consumer (rc_stream c) block r = (Inr res, r'))
     \<and> (\<forall>mid r. \<exists>a n r'. rd_xack_xdel R (rc_stream c) (rc_group c) mid r = (Inr (a, n), r'))"

lemma stream_group_add:
  "stream_group R c view \<Longrightarrow> rd_xadd R (rc_stream c) fs r = (Inr i, r') \<Longrightarrow>
     i \<notin> view_ids (view r) \<and> view r' = (view r)\<lparr>gv_new := gv_new (view r) @ [(i, fs)]\<rparr>"
  by (simp add: stream_group_def add_law_def)

lemma stream_group_read:
  assumes "stream_group R c view" and "rd_xreadgroup R (rc_group c) consumer (rc_stream c) block r = (Inr res, r')"
    and "block = None \<or> gv_new (view r) \<noteq> []"
  shows "case gv_new (view r) of
        [] \<Rightarrow> res = [] \<and> view r' = view r
      | (i, fs) # es \<Rightarrow> res = [(rc_stream c, [(i, Some fs)])]
          \<and> view r' = \<lparr>gv_new = es, gv_pending = (gv_pending (view r))(i \<mapsto> (fs, consumer, 1))\<rparr>"
  using assms unfolding stream_group_def read_law_def by blast

lemma stream_group_ack:
  "stream_group R c view \<Longrightarrow> redis_ack R c mid r = (Inr b, r') \<Longrightarrow>
     b = (mid \<in> dom (gv_pending (view r)))
     \<and> view r' = \<lparr>gv_new = filter (\<lambda>e. fst e \<noteq> mid) (gv_new (view r)), gv_pending = (gv_pending (view r))(mid := None)\<rparr>"
  by (fastforce simp: stream_group_def ack_law_def redis_ack_def split: prod.splits sum.splits if_splits)

lemma stream_group_autoclaim:
  assumes "stream_group R c view" and "rd_xautoclaim R (rc_stream c) (rc_group c) consumer idle n r = (Inr es, r')"
  shows "length es \<le> nat n" and "distinct (map fst es)"
    and "e \<in> set es \<Longrightarrow> \<exists>fs own k. gv_pending (view r) (fst e) = Some (fs, own, k) \<and> snd e = Some fs"
    and "view r' = (view r)\<lparr>gv_pending := (\<lambda>i. if i \<in> fst ` set es
           then map_option (\<lambda>(fs, own, k). (fs, consumer, k + 1)) (gv_pending (view r) i) else gv_pending (view r) i)\<rparr>"
  using assms unfolding stream_group_def autoclaim_law_def by blast+

lemma stream_group_pending:
  "stream_group R c view \<Longrightarrow> rd_xpending_range R (rc_stream c) (rc_group c) mid r = (Inr rows, r') \<Longrightarrow>
     view r' = view r \<and> rows = (case gv_pending (view r) mid of None \<Rightarrow> [] | Some (fs, own, k) \<Rightarrow> [(own, k)])"
  by (simp add: stream_group_def pending_law_def)

lemma stream_group_claim:
  "stream_group R c view \<Longrightarrow> rd_xclaim_justid R (rc_stream c) (rc_group c) consumer mid r = (Inr ids, r') \<Longrightarrow>
     (ids \<noteq> [] \<longleftrightarrow> mid \<in> dom (gv_pending (view r)))
     \<and> view r' = (view r)\<lparr>gv_pending := (gv_pending (view r))(mid := map_option (\<lambda>(fs, own, k). (fs, consumer, k)) (gv_pending (view r) mid))\<rparr>"
  by (simp add: stream_group_def claim_law_def)

lemma filter_apart: "ids_apart v \<Longrightarrow> i \<in> dom (gv_pending v) \<Longrightarrow> filter (\<lambda>e. fst e \<noteq> i) (gv_new v) = gv_new v"
  by (auto simp: ids_apart_def filter_id_conv)

definition poison :: "fields \<Rightarrow> bool" where
  "poison fs \<longleftrightarrow> (\<exists>t. decode_entry (Some fs) = Inl (InvalidMessageError t))"

text \<open>An entry that is not a message is acknowledged and dropped.\<close>

lemma poison_dropped:
  assumes "poison fs" and "to_deliveries R c consumer claimed ((i, Some fs) # es) r = (Inr ds, r')"
  obtains b r1 where "redis_ack R c i r = (Inr b, r1)" and "to_deliveries R c consumer claimed es r1 = (Inr ds, r')"
proof -
  from assms(1) obtain t where t: "decode_entry (Some fs) = Inl (InvalidMessageError t)" unfolding poison_def by blast
  obtain a r1 where ack: "redis_ack R c i r = (a, r1)" by fastforce
  show thesis
  proof (cases a)
    case (Inl e)
    with assms(2) show thesis by (simp add: t ack)
  next
    case (Inr b)
    with assms(2) ack that show thesis by (simp add: t ack)
  qed
qed

lemma responsive_ack: "responsive R c \<Longrightarrow> \<exists>b r'. redis_ack R c mid r = (Inr b, r')"
  unfolding responsive_def redis_ack_def by (metis (no_types, lifting) case_prod_conv old.sum.simps(6))

text \<open>C11: Consuming from a stream finds the next good message. When the undelivered entries start with entries that are not
  messages, followed by one that is, then \<^verbatim>\<open>consume\<close>, given one turn of its loop per entry, delivers that message to its caller and
  leaves it pending; every bad entry before it has been acknowledged and is neither pending nor undelivered.\<close>

theorem redis_consume_next:
  assumes "stream_group R c view" and "responsive R c" and "gv_new (view r) = bad @ (i, fs) # rest"
    and "list_all (poison \<circ> snd) bad" and "decode_entry (Some fs) = Inr m" and "length bad < length turns"
    and "ids_apart (view r)"
  shows "\<exists>r'. redis_consume R c consumer block start turns r =
      (Some (Inr (Some \<lparr>dl_message_id = i, dl_message = m, dl_consumer = consumer, dl_delivery_count = 1\<rparr>)), r')
    \<and> view r' = \<lparr>gv_new = rest, gv_pending = (gv_pending (view r))(i \<mapsto> (fs, consumer, 1))\<rparr>"
  unfolding redis_consume_def using assms(3-7)
proof (induction bad arbitrary: r turns)
  case Nil
  then obtain t ts where turns: "turns = t # ts" by (cases turns) auto
  let ?ms = "block_ms (start + max block 0) t"
  obtain res r' where read: "rd_xreadgroup R (rc_group c) consumer (rc_stream c) (if ?ms > 0 then Some ?ms else None) r = (Inr res, r')"
    using assms(2) unfolding responsive_def by blast
  with stream_group_read [OF assms(1) read] Nil show ?case by (auto simp: turns)
next
  case (Cons e bad)
  then obtain t ts where turns: "turns = t # ts" by (cases turns) auto
  let ?ms = "block_ms (start + max block 0) t"
  obtain j gs where e: "e = (j, gs)" by fastforce
  obtain res r1 where read: "rd_xreadgroup R (rc_group c) consumer (rc_stream c) (if ?ms > 0 then Some ?ms else None) r = (Inr res, r1)"
    using assms(2) unfolding responsive_def by blast
  with stream_group_read [OF assms(1) read] Cons.prems(1) e have res: "res = [(rc_stream c, [(j, Some gs)])]"
    and r1: "view r1 = \<lparr>gv_new = bad @ (i, fs) # rest, gv_pending = (gv_pending (view r))(j \<mapsto> (gs, consumer, 1))\<rparr>" by auto
  obtain b r2 where ack: "redis_ack R c j r1 = (Inr b, r2)" using responsive_ack [OF assms(2)] by blast
  have j: "j \<notin> dom (gv_pending (view r))" "j \<notin> fst ` set (bad @ (i, fs) # rest)" using Cons.prems(1,5) e by (auto simp: ids_apart_def)
  moreover from j(2) have "filter (\<lambda>e. fst e \<noteq> j) (bad @ (i, fs) # rest) = bad @ (i, fs) # rest" by (force simp only: filter_id_conv)
  ultimately have "(gv_pending (view r))(j := None) = gv_pending (view r)" "filter (\<lambda>e. fst e \<noteq> j) (bad @ (i, fs) # rest) = bad @ (i, fs) # rest"
    by auto
  with stream_group_ack [OF assms(1) ack] r1 have r2: "view r2 = \<lparr>gv_new = bad @ (i, fs) # rest, gv_pending = gv_pending (view r)\<rparr>"
    by (simp del: filter.simps filter_append)
  from Cons.prems(2) e ack have del: "to_deliveries R c consumer False [(j, Some gs)] r1 = (Inr [], r2)" by (auto simp: poison_def)
  have "\<exists>r'. consume_loop R c consumer (start + max block 0) ts r2 =
      (Some (Inr (Some \<lparr>dl_message_id = i, dl_message = m, dl_consumer = consumer, dl_delivery_count = 1\<rparr>)), r')
    \<and> view r' = \<lparr>gv_new = rest, gv_pending = (gv_pending (view r2))(i \<mapsto> (fs, consumer, 1))\<rparr>"
    using Cons.prems r2 turns by (intro Cons.IH) (auto simp: ids_apart_def)
  with read del res r2 show ?case by (auto simp: turns fun_upd_def simp del: to_deliveries.simps)
qed

section \<open>An entry that is neither a message nor dropped\<close>

text \<open>An integer of more than 4300 digits is refused by \<^verbatim>\<open>int\<close> with a plain \<^verbatim>\<open>ValueError\<close>, which \<^verbatim>\<open>from_json\<close> does not turn into an
  \<^verbatim>\<open>InvalidMessageError\<close>. The entry that carries it is not acknowledged, and the entries behind it in the same batch are not delivered.\<close>

lemma oversized_integer_escapes:
  assumes "INT_MAX_STR_DIGITS < length (show_nat n)"
  shows "from_json (show_nat n) = Inl digit_limit"
proof -
  obtain c t where c: "show_nat n = c # t" "is_digit c" using show_nat_digits [of n] by (cases "show_nat n") auto
  then have first: "expect 34 (show_nat n) = None" "expect 123 (show_nat n) = None" "expect 91 (show_nat n) = None" "match_literal (show_nat n) = None"
    "skip_ws (show_nat n) = show_nat n" "take 1 (show_nat n) \<noteq> [0xFEFF]"
    by (auto simp: expect_def is_digit_def match_literal_def literals_def lit_def is_ws_def)
  have "int_part (show_nat n) = Some (show_nat n, [])" using show_nat_int_part [of "[]" n] by simp
  then have "match_number (show_nat n) = Inl DigitLimit"
    using assms c by (auto simp: match_number_def frac_part_def exp_part_def is_digit_def)
  with first have "json_loads (show_nat n) = Inl DigitLimit" by (simp add: json_loads_def)
  then show ?thesis by (simp add: from_json_def)
qed

lemma oversized_integer_blocks:
  assumes "INT_MAX_STR_DIGITS < length (show_nat n)"
  shows "to_deliveries R c consumer claimed ((mid, Some [(PAYLOAD_FIELD, show_nat n)]) # es) r = (Inl digit_limit, r)"
  by (simp add: decode_entry_def oversized_integer_escapes [OF assms] digit_limit_def)

section \<open>A sample server\<close>

record sample_stream =
  ss_new :: "(pystr \<times> fields) list"
  ss_pending :: "(pystr \<times> fields \<times> pystr \<times> int) list"

definition sample_view :: "sample_stream \<Rightarrow> group_view" where
  "sample_view r = \<lparr>gv_new = ss_new r, gv_pending = map_of (ss_pending r)\<rparr>"

text \<open>An identifier longer than all others is new.\<close>

definition sample_id :: "sample_stream \<Rightarrow> pystr" where
  "sample_id r = replicate (Suc (sum_list (map length (map fst (ss_new r) @ map fst (ss_pending r))))) 48"

definition sample_keys :: "sample_stream \<Rightarrow> int" where
  "sample_keys r = int (length (remdups (map fst (ss_pending r))))"

definition sample_redis :: "sample_stream redis" where
  "sample_redis =
     \<lparr>rd_xgroup_create = (\<lambda>st g r. (Inr (), r)),
      rd_xadd = (\<lambda>st fs r. (Inr (sample_id r), r\<lparr>ss_new := ss_new r @ [(sample_id r, fs)]\<rparr>)),
      rd_xreadgroup = (\<lambda>g co st b r. case ss_new r of [] \<Rightarrow> (Inr [], r)
         | (i, fs) # es \<Rightarrow> (Inr [(st, [(i, Some fs)])], r\<lparr>ss_new := es, ss_pending := AList.update i (fs, co, 1) (ss_pending r)\<rparr>)),
      rd_xack_xdel = (\<lambda>st g mid r. (Inr (if mid \<in> fst ` set (ss_pending r) then 1 else 0, 1),
         r\<lparr>ss_new := filter (\<lambda>e. fst e \<noteq> mid) (ss_new r), ss_pending := AList.delete mid (ss_pending r)\<rparr>)),
      rd_xautoclaim = (\<lambda>st g co idle n r.
         case ss_pending r of
           (i, fs, own, k) # ps \<Rightarrow> if 0 < n then (Inr [(i, Some fs)], r\<lparr>ss_pending := (i, fs, co, k + 1) # ps\<rparr>) else (Inr [], r)
         | [] \<Rightarrow> (Inr [], r)),
      rd_xpending_range = (\<lambda>st g mid r. (Inr (case map_of (ss_pending r) mid of None \<Rightarrow> [] | Some (fs, own, k) \<Rightarrow> [(own, k)]), r)),
      rd_xclaim_justid = (\<lambda>st g co mid r. case map_of (ss_pending r) mid of None \<Rightarrow> (Inr [], r)
         | Some (fs, own, k) \<Rightarrow> (Inr [mid], r\<lparr>ss_pending := AList.update mid (fs, co, k) (ss_pending r)\<rparr>)),
      rd_xlen_xpending = (\<lambda>st g r. (Inr (int (length (ss_new r)) + sample_keys r, sample_keys r), r)),
      rd_xpending = (\<lambda>st g r. (Inr (sample_keys r), r))\<rparr>"

lemma sample_id_new: "sample_id r \<notin> view_ids (sample_view r)"
proof
  assume "sample_id r \<in> view_ids (sample_view r)"
  then have "sample_id r \<in> set (map fst (ss_new r) @ map fst (ss_pending r))"
    by (auto simp: view_ids_def sample_view_def dom_map_of_conv_image_fst)
  then have "length (sample_id r) \<le> sum_list (map length (map fst (ss_new r) @ map fst (ss_pending r)))"
    by (intro member_le_sum_list) (auto simp: image_iff, metis fst_conv, metis fst_conv)
  then show False by (simp add: sample_id_def)
qed

lemma sample_autoclaim_law: "autoclaim_law sample_redis c sample_view"
  unfolding autoclaim_law_def sample_redis_def sample_view_def
  by (auto simp: fun_eq_iff split: list.splits if_splits prod.splits)

lemma sample_stream_group: "stream_group sample_redis c sample_view"
proof -
  have "add_law sample_redis c sample_view"
    using sample_id_new by (auto simp: add_law_def sample_redis_def) (simp add: sample_view_def)
  moreover have "read_law sample_redis c sample_view"
    by (auto simp: read_law_def sample_redis_def sample_view_def update_conv' split: list.splits)
  moreover have "ack_law sample_redis c sample_view"
    by (auto simp: ack_law_def sample_redis_def sample_view_def delete_conv' dom_map_of_conv_image_fst split: if_splits)
  moreover have "pending_law sample_redis c sample_view" by (auto simp: pending_law_def sample_redis_def sample_view_def)
  moreover have "claim_law sample_redis c sample_view"
    by (auto simp: claim_law_def sample_redis_def sample_view_def update_conv' fun_upd_idem split: option.splits)
  ultimately show ?thesis by (simp add: stream_group_def sample_autoclaim_law)
qed

lemma sample_responsive: "responsive sample_redis c"
  by (auto simp: responsive_def sample_redis_def split: list.splits)

definition wire_message :: TaskMessage where
  "wire_message = \<lparr>m_job_id = lit ''job_a'', m_run_id = lit ''run_1'', m_attempt = 1, m_idempotency_key = None\<rparr>"

lemma wire_message_valid: "valid_message wire_message"
  by (simp add: valid_message_def TaskMessage_post_init_def wire_message_def) (simp add: blank_def lit_def is_space_def)

lemma wire_message_json: "\<exists>s. to_json wire_message = Inr s"
  by (rule to_json_returns [where w = 0]) (simp_all add: wire_message_def INT_MAX_STR_DIGITS_def)

theorem message_json_roundtrip_witness: "\<exists>s. to_json wire_message = Inr s \<and> from_json s = Inr wire_message"
  using wire_message_json message_json_roundtrip [OF wire_message_valid] by blast

definition sample_config :: redis_config where
  "sample_config = \<lparr>rc_stream = lit ''jobs'', rc_group = lit ''workers''\<rparr>"

theorem redis_consume_next_witness:
  "\<exists>s r'. to_json wire_message = Inr s
    \<and> redis_consume sample_redis sample_config (lit ''w1'') 1 0 [0, 0]
        \<lparr>ss_new = [(lit ''1-0'', []), (lit ''2-0'', [(PAYLOAD_FIELD, s)])], ss_pending = []\<rparr>
      = (Some (Inr (Some \<lparr>dl_message_id = lit ''2-0'', dl_message = wire_message, dl_consumer = lit ''w1'', dl_delivery_count = 1\<rparr>)), r')
    \<and> gv_new (sample_view r') = []"
proof -
  obtain s where s: "to_json wire_message = Inr s" "from_json s = Inr wire_message"
    using wire_message_json from_to_json [OF wire_message_valid] by blast
  let ?r = "\<lparr>ss_new = [(lit ''1-0'', []), (lit ''2-0'', [(PAYLOAD_FIELD, s)])], ss_pending = []\<rparr>"
  have "\<exists>r'. redis_consume sample_redis sample_config (lit ''w1'') 1 0 [0, 0] ?r
      = (Some (Inr (Some \<lparr>dl_message_id = lit ''2-0'', dl_message = wire_message, dl_consumer = lit ''w1'', dl_delivery_count = 1\<rparr>)), r')
    \<and> sample_view r' = \<lparr>gv_new = [], gv_pending = (gv_pending (sample_view ?r))(lit ''2-0'' \<mapsto> ([(PAYLOAD_FIELD, s)], lit ''w1'', 1))\<rparr>"
    by (rule redis_consume_next [OF sample_stream_group sample_responsive, where bad = "[(lit ''1-0'', [])]"])
      (simp_all add: poison_def decode_entry_def s sample_view_def ids_apart_def)
  with s(1) show ?thesis by auto
qed

end
