(* ===== verification/Queue_Spec.thy ===== *)
theory Queue_Spec
  imports Redis_Queue
begin

text \<open>
  What the \<^verbatim>\<open>TaskQueue\<close> protocol (\<^verbatim>\<open>infrastructure/queue/base.py\<close>) promises, as an abstract queue: the messages that wait, in order, and
  the messages in flight with their holder and the number of their deliveries. An implementation refines it when every call that returns is a
  step of the abstract queue. The locale \<open>queue_implementation\<close> carries this over to sequences of calls; it is interpreted on the in-memory
  queue, and the Redis queue satisfies it over every server that is a stream with a consumer group. A call of \<^verbatim>\<open>consume\<close> here does not block.
\<close>

section \<open>The abstract queue\<close>

record aqueue =
  aq_waiting :: "(pystr \<times> TaskMessage) list"
  aq_flight :: "pystr \<rightharpoonup> TaskMessage \<times> pystr \<times> int"

datatype queue_call =
    Publish TaskMessage
  | Consume pystr
  | Ack pystr
  | ClaimStale pystr pyfloat int
  | Renew pystr pystr

datatype queue_reply =
    Published pystr
  | Delivered "Delivery option"
  | Answer bool
  | Claimed "Delivery list"

definition delivery :: "pystr \<Rightarrow> TaskMessage \<Rightarrow> pystr \<Rightarrow> int \<Rightarrow> Delivery" where
  "delivery i m c k = \<lparr>dl_message_id = i, dl_message = m, dl_consumer = c, dl_delivery_count = k\<rparr>"

definition taken :: "Delivery \<Rightarrow> pystr \<times> TaskMessage \<times> pystr \<times> int" where
  "taken d = (dl_message_id d, dl_message d, dl_consumer d, dl_delivery_count d)"

text \<open>A delivery that repeats one in flight, for another consumer and with the next count.\<close>

definition redelivers :: "aqueue \<Rightarrow> pystr \<Rightarrow> Delivery \<Rightarrow> bool" where
  "redelivers a c d \<longleftrightarrow> dl_consumer d = c
     \<and> (\<exists>own. aq_flight a (dl_message_id d) = Some (dl_message d, own, dl_delivery_count d - 1))"

inductive aq_step :: "aqueue \<Rightarrow> queue_call \<Rightarrow> queue_reply \<Rightarrow> aqueue \<Rightarrow> bool" where
  publish: "i \<notin> fst ` set (aq_waiting a) \<Longrightarrow> i \<notin> dom (aq_flight a) \<Longrightarrow>
    aq_step a (Publish m) (Published i) (a\<lparr>aq_waiting := aq_waiting a @ [(i, m)]\<rparr>)"
| consume: "aq_waiting a = (i, m) # ws \<Longrightarrow>
    aq_step a (Consume c) (Delivered (Some (delivery i m c 1))) (a\<lparr>aq_waiting := ws, aq_flight := (aq_flight a)(i \<mapsto> (m, c, 1))\<rparr>)"
| empty: "aq_waiting a = [] \<Longrightarrow> aq_step a (Consume c) (Delivered None) a"
| ack: "aq_step a (Ack i) (Answer (i \<in> dom (aq_flight a))) (a\<lparr>aq_flight := (aq_flight a)(i := None)\<rparr>)"
| claim: "length ds \<le> nat n \<Longrightarrow> distinct (map dl_message_id ds) \<Longrightarrow> list_all (redelivers a c) ds \<Longrightarrow>
    aq_step a (ClaimStale c idle n) (Claimed ds) (a\<lparr>aq_flight := aq_flight a ++ map_of (map taken ds)\<rparr>)"
| renew: "aq_step a (Renew i c) (Answer (\<exists>m k. aq_flight a i = Some (m, c, k))) a"

inductive_cases aq_stepE: "aq_step a call rep a'"

text \<open>The calls the clients make: a message passed the checks of its constructor, and only what was delivered is acknowledged.\<close>

definition proper :: "aqueue \<Rightarrow> queue_call \<Rightarrow> bool" where
  "proper a call = (case call of Publish m \<Rightarrow> valid_message m | Ack i \<Rightarrow> i \<notin> fst ` set (aq_waiting a) | _ \<Rightarrow> True)"

section \<open>Sequences of calls\<close>

inductive aq_trace :: "aqueue \<Rightarrow> (queue_call \<times> queue_reply) list \<Rightarrow> aqueue \<Rightarrow> bool" where
  nil: "aq_trace a [] a"
| cons: "aq_step a call rep a1 \<Longrightarrow> aq_trace a1 h a2 \<Longrightarrow> aq_trace a ((call, rep) # h) a2"

fun sent :: "(queue_call \<times> queue_reply) list \<Rightarrow> (pystr \<times> TaskMessage) list" where
  "sent [] = []"
| "sent ((Publish m, Published i) # h) = (i, m) # sent h"
| "sent (_ # h) = sent h"

fun received :: "(queue_call \<times> queue_reply) list \<Rightarrow> (pystr \<times> TaskMessage) list" where
  "received [] = []"
| "received ((_, Delivered (Some d)) # h) = (dl_message_id d, dl_message d) # received h"
| "received (_ # h) = received h"

text \<open>First in, first out: what the consumers received, in order, and what still waits is what waited before and what was published.\<close>

lemma trace_fifo: "aq_trace a h a' \<Longrightarrow> aq_waiting a @ sent h = received h @ aq_waiting a'"
proof (induction rule: aq_trace.induct)
  case (cons a call rep a1 h a2)
  from cons.hyps(1) cons.IH show ?case by cases (auto simp: delivery_def)
qed simp

text \<open>A message in flight stays there, with its content, until it is acknowledged; its count of deliveries never decreases.\<close>

lemma redelivered_flight:
  assumes "list_all (redelivers a c) ds" and "aq_flight a i = Some (m, own, k)"
  shows "\<exists>own' k'. (aq_flight a ++ map_of (map taken ds)) i = Some (m, own', k') \<and> k \<le> k'"
proof (cases "map_of (map taken ds) i")
  case (Some v)
  then obtain d where "d \<in> set ds" "(i, v) = taken d" by (force dest: map_of_SomeD)
  with assms Some show ?thesis by (auto simp: list_all_iff redelivers_def taken_def)
qed (use assms in \<open>simp add: map_add_def\<close>)

definition apart :: "aqueue \<Rightarrow> bool" where
  "apart a \<longleftrightarrow> distinct (map fst (aq_waiting a)) \<and> fst ` set (aq_waiting a) \<inter> dom (aq_flight a) = {}"

lemma step_apart: "aq_step a call rep a' \<Longrightarrow> apart a \<Longrightarrow> apart a'"
proof (induction rule: aq_step.induct)
  case (claim ds n a c idle)
  have "dom (map_of (map taken ds)) \<subseteq> dom (aq_flight a)"
    using claim(3) by (auto simp: dom_map_of_conv_image_fst list_all_iff redelivers_def taken_def)
  with claim show ?case by (auto simp: apart_def)
qed (auto simp: apart_def)

lemma step_flight:
  assumes "aq_step a call rep a'" and "aq_flight a i = Some (m, own, k)" and "apart a"
    and "(call, rep) \<noteq> (Ack i, Answer True)"
  shows "\<exists>own' k'. aq_flight a' i = Some (m, own', k') \<and> k \<le> k'"
  using assms(1)
proof cases
  case (claim ds n c idle)
  with redelivered_flight assms(2) show ?thesis by simp
qed (use assms(2-4) in \<open>auto simp: apart_def\<close>)

lemma trace_flight:
  assumes "aq_trace a h a'" and "aq_flight a i = Some (m, own, k)" and "apart a" and "(Ack i, Answer True) \<notin> set h"
  shows "\<exists>own' k'. aq_flight a' i = Some (m, own', k') \<and> k \<le> k'"
  using assms
proof (induction arbitrary: own k rule: aq_trace.induct)
  case (cons a call rep a1 h a2)
  have "(call, rep) \<noteq> (Ack i, Answer True)" "(Ack i, Answer True) \<notin> set h" using cons.prems(3) by auto
  with step_flight [OF cons.hyps(1) cons.prems(1,2)] obtain own1 k1 where "aq_flight a1 i = Some (m, own1, k1)" "k \<le> k1" by blast
  moreover note step_apart [OF cons.hyps(1) cons.prems(2)]
  ultimately show ?case using cons.IH \<open>(Ack i, Answer True) \<notin> set h\<close> by fastforce
qed auto

section \<open>Implementations\<close>

text \<open>\<open>call env c s\<close> is one call in an implementation with states \<open>s\<close>: it returns a reply, raises, or is still running (\<open>None\<close>). The inputs it
  reads (clock, turns of its loop) are \<open>env\<close>. \<open>calls\<close> are the histories of calls that returned, made by clients that keep to the protocol.\<close>

inductive calls ::
  "('e \<Rightarrow> queue_call \<Rightarrow> 's \<Rightarrow> (exn + queue_reply) option \<times> 's) \<Rightarrow> ('e \<Rightarrow> bool) \<Rightarrow> ('s \<Rightarrow> aqueue)
     \<Rightarrow> 's \<Rightarrow> (queue_call \<times> queue_reply) list \<Rightarrow> 's \<Rightarrow> bool"
  for call :: "'e \<Rightarrow> queue_call \<Rightarrow> 's \<Rightarrow> (exn + queue_reply) option \<times> 's" and sane :: "'e \<Rightarrow> bool" and abs_queue :: "'s \<Rightarrow> aqueue"
where
  nil: "calls call sane abs_queue s [] s"
| cons: "sane e \<Longrightarrow> proper (abs_queue s) c \<Longrightarrow> call e c s = (Some (Inr rep), s1) \<Longrightarrow> calls call sane abs_queue s1 h s2
    \<Longrightarrow> calls call sane abs_queue s ((c, rep) # h) s2"

locale queue_implementation =
  fixes call :: "'e \<Rightarrow> queue_call \<Rightarrow> 's \<Rightarrow> (exn + queue_reply) option \<times> 's"
    and sane :: "'e \<Rightarrow> bool"
    and abs_queue :: "'s \<Rightarrow> aqueue"
    and q_ok :: "'s \<Rightarrow> bool"
  assumes simulates: "\<lbrakk>q_ok s; sane e; proper (abs_queue s) c; call e c s = (Some (Inr rep), s')\<rbrakk> \<Longrightarrow>
      q_ok s' \<and> aq_step (abs_queue s) c rep (abs_queue s')"
    and ok_apart: "q_ok s \<Longrightarrow> apart (abs_queue s)"
begin

lemma run_trace: "calls call sane abs_queue s h s' \<Longrightarrow> q_ok s \<Longrightarrow> q_ok s' \<and> aq_trace (abs_queue s) h (abs_queue s')"
proof (induction rule: calls.induct)
  case (cons e s c rep s1 h s2)
  with simulates [OF cons.prems cons.hyps(1-3)] show ?case by (auto intro: aq_trace.cons)
qed (simp add: aq_trace.nil)

lemma run_fifo:
  assumes "calls call sane abs_queue s h s'" and "q_ok s"
  shows "aq_waiting (abs_queue s) @ sent h = received h @ aq_waiting (abs_queue s')"
  using run_trace [OF assms] trace_fifo by blast

lemma run_keeps_flight:
  assumes "calls call sane abs_queue s h s'" and "q_ok s" and "aq_flight (abs_queue s) i = Some (m, own, k)" and "(Ack i, Answer True) \<notin> set h"
  shows "\<exists>own' k'. aq_flight (abs_queue s') i = Some (m, own', k') \<and> k \<le> k'"
  using run_trace [OF assms(1,2)] trace_flight assms(3,4) ok_apart [OF assms(2)] by blast

end

section \<open>The in-memory queue\<close>

lemma map_sum_Inr: "map_sum f g x = Inr y \<longleftrightarrow> (\<exists>z. x = Inr z \<and> y = g z)"
  by (cases x) auto

definition memory_call :: "pyfloat \<Rightarrow> queue_call \<Rightarrow> MemoryQueue \<Rightarrow> (exn + queue_reply) option \<times> MemoryQueue" where
  "memory_call now call q =
     (case call of
        Publish m \<Rightarrow> (case mq_publish m q of (r, q1) \<Rightarrow> (Some (map_sum id Published r), q1))
      | Consume c \<Rightarrow> (case mq_consume id now c 0 q of (r, q1) \<Rightarrow> (Some (map_sum id Delivered r), q1))
      | Ack i \<Rightarrow> (case mq_ack i q of (r, q1) \<Rightarrow> (Some (map_sum id Answer r), q1))
      | ClaimStale c idle n \<Rightarrow> (case mq_claim_stale now c idle n q of (r, q1) \<Rightarrow> (Some (map_sum id Claimed r), q1))
      | Renew i c \<Rightarrow> (case mq_renew now i c q of (r, q1) \<Rightarrow> (Some (map_sum id Answer r), q1)))"

definition pending_abs :: "Pending \<Rightarrow> TaskMessage \<times> pystr \<times> int" where
  "pending_abs e = (pd_message e, pd_consumer e, pd_delivery_count e)"

definition memory_abs :: "MemoryQueue \<Rightarrow> aqueue" where
  "memory_abs q = \<lparr>aq_waiting = mq_ready q, aq_flight = map_option pending_abs \<circ> map_of (mq_pending q)\<rparr>"

lemma claim_loop_abs:
  assumes "claim_loop now c idle n ps = (ds, ps')" and "distinct (map fst ps)"
  shows "length ds \<le> nat n \<and> distinct (map dl_message_id ds) \<and> dl_message_id ` set ds \<subseteq> fst ` set ps
    \<and> (\<forall>d \<in> set ds. dl_consumer d = c
        \<and> (\<exists>own. map_option pending_abs (map_of ps (dl_message_id d)) = Some (dl_message d, own, dl_delivery_count d - 1)))
    \<and> (\<forall>i. map_option pending_abs (map_of ps' i) = (case map_of (map taken ds) i of None \<Rightarrow> map_option pending_abs (map_of ps i) | Some v \<Rightarrow> Some v))"
  using assms
proof (induction now c idle n ps arbitrary: ds ps' rule: claim_loop.induct)
  case (2 now c idle n mid e rest)
  have other: "dl_message_id d \<noteq> mid" if "dl_message_id ` set ds1 \<subseteq> fst ` set rest" "d \<in> set ds1" for d ds1
    using 2(4) that by auto
  have unclaimed: "map_of (map taken ds1) mid = None" if "dl_message_id ` set ds1 \<subseteq> fst ` set rest" for ds1
    using other [OF that] by (auto simp: map_of_eq_None_iff taken_def) blast
  consider (full) "n \<le> 0" | (fresh) "0 < n" "now - pd_delivered_at e < idle" | (stale) "0 < n" "idle \<le> now - pd_delivered_at e"
    by linarith
  then show ?case
  proof cases
    case full
    with 2(3) show ?thesis by auto
  next
    case fresh
    with 2(3) obtain rest' where r: "claim_loop now c idle n rest = (ds, rest')" "ps' = (mid, e) # rest'"
      by (auto split: prod.splits)
    from 2(1) [OF _ fresh(2) r(1)] fresh 2(4) have IH: "length ds \<le> nat n" "distinct (map dl_message_id ds)"
      "dl_message_id ` set ds \<subseteq> fst ` set rest" "\<forall>d \<in> set ds. dl_consumer d = c
        \<and> (\<exists>own. map_option pending_abs (map_of rest (dl_message_id d)) = Some (dl_message d, own, dl_delivery_count d - 1))"
      "\<forall>i. map_option pending_abs (map_of rest' i) = (case map_of (map taken ds) i of None \<Rightarrow> map_option pending_abs (map_of rest i) | Some v \<Rightarrow> Some v)" by auto
    from IH(5) have "\<forall>i. map_option pending_abs (map_of ps' i) = (case map_of (map taken ds) i of None \<Rightarrow> map_option pending_abs (map_of ((mid, e) # rest) i) | Some v \<Rightarrow> Some v)"
      using unclaimed [OF IH(3)] by (simp add: r(2) split: option.split)
    with IH other [OF IH(3)] show ?thesis by auto
  next
    case stale
    with 2(3) obtain ds1 rest' where r: "claim_loop now c idle (n - 1) rest = (ds1, rest')"
      "ds = \<lparr>dl_message_id = mid, dl_message = pd_message e, dl_consumer = c, dl_delivery_count = pd_delivery_count e + 1\<rparr> # ds1"
      "ps' = (mid, e\<lparr>pd_consumer := c, pd_delivered_at := now, pd_delivery_count := pd_delivery_count e + 1\<rparr>) # rest'"
      by (auto simp: Let_def split: prod.splits)
    from 2(2) [OF _ _ refl r(1)] stale 2(4) have IH: "length ds1 \<le> nat (n - 1)" "distinct (map dl_message_id ds1)"
      "dl_message_id ` set ds1 \<subseteq> fst ` set rest" "\<forall>d \<in> set ds1. dl_consumer d = c
        \<and> (\<exists>own. map_option pending_abs (map_of rest (dl_message_id d)) = Some (dl_message d, own, dl_delivery_count d - 1))"
      "\<forall>i. map_option pending_abs (map_of rest' i) = (case map_of (map taken ds1) i of None \<Rightarrow> map_option pending_abs (map_of rest i) | Some v \<Rightarrow> Some v)" by auto
    from IH(5) have "\<forall>i. map_option pending_abs (map_of ps' i) = (case map_of (map taken ds) i of None \<Rightarrow> map_option pending_abs (map_of ((mid, e) # rest) i) | Some v \<Rightarrow> Some v)"
      by (simp add: r(2,3) taken_def pending_abs_def split: option.split)
    moreover have "length ds \<le> nat n \<and> distinct (map dl_message_id ds) \<and> dl_message_id ` set ds \<subseteq> fst ` set ((mid, e) # rest)"
      using IH(1-3) other [OF IH(3)] stale(1) by (auto simp: r(2))
    moreover have "\<forall>d \<in> set ds. dl_consumer d = c \<and> (\<exists>own. map_option pending_abs (map_of ((mid, e) # rest) (dl_message_id d)) = Some (dl_message d, own, dl_delivery_count d - 1))"
      using IH(4) other [OF IH(3)] by (auto simp: r(2)) (simp add: pending_abs_def)
    ultimately show ?thesis by blast
  qed
qed simp

lemma map_option_update: "map_option f \<circ> m(k \<mapsto> v) = (map_option f \<circ> m)(k \<mapsto> f v)"
  by auto

lemma memory_apart: "mq_inv q \<Longrightarrow> apart (memory_abs q)"
  by (auto simp: mq_inv_def apart_def memory_abs_def dom_map_of_conv_image_fst simp flip: fst_mq_in_flight)

lemma memory_publish_step:
  assumes "mq_inv q"
  shows "aq_step (memory_abs q) (Publish m) (Published (message_id (mq_seq q))) (memory_abs (snd (mq_publish m q)))"
proof -
  have "distinct (map fst (mq_ready (snd (mq_publish m q)) @ mq_in_flight (snd (mq_publish m q))))"
    using mq_publish_inv [OF assms, of m] by (simp only: mq_inv_def)
  then have "message_id (mq_seq q) \<notin> fst ` set (aq_waiting (memory_abs q))" "message_id (mq_seq q) \<notin> dom (aq_flight (memory_abs q))"
    by (auto simp: memory_abs_def mq_publish_def dom_map_of_conv_image_fst)
  from aq_step.publish [OF this, of m] show ?thesis by (simp add: memory_abs_def mq_publish_def)
qed

lemma memory_consume_step:
  assumes "mq_consume id now c 0 q = (Inr r, q')"
  shows "aq_step (memory_abs q) (Consume c) (Delivered r) (memory_abs q')"
proof (cases "mq_ready q")
  case Nil
  with assms aq_step.empty [of "memory_abs q" c] show ?thesis by (simp add: mq_consume_def memory_abs_def)
next
  case (Cons p ws)
  obtain i m where p: "p = (i, m)" by fastforce
  with Cons assms aq_step.consume [of "memory_abs q" i m ws c] show ?thesis
    by (auto simp: mq_consume_def memory_abs_def update_conv' map_option_update pending_abs_def delivery_def)
qed

lemma memory_ack_step: "aq_step (memory_abs q) (Ack i) (Answer (map_of (mq_pending q) i \<noteq> None)) (memory_abs (snd (mq_ack i q)))"
proof -
  have "map_option pending_abs \<circ> map_of (AList.delete i (mq_pending q)) = (map_option pending_abs \<circ> map_of (mq_pending q))(i := None)"
    by (auto simp: delete_conv')
  moreover have "map_of (mq_pending q) i \<noteq> None \<longleftrightarrow> i \<in> dom (aq_flight (memory_abs q))" by (auto simp: memory_abs_def)
  ultimately show ?thesis using aq_step.ack [of "memory_abs q" i] by (simp add: memory_abs_def mq_ack_def)
qed

lemma memory_claim_step:
  assumes "mq_inv q" and "mq_claim_stale now c idle n q = (Inr ds, q')"
  shows "aq_step (memory_abs q) (ClaimStale c idle n) (Claimed ds) (memory_abs q')"
proof -
  from assms(2) obtain ps' where l: "claim_loop now c idle n (mq_pending q) = (ds, ps')" and q': "q' = q\<lparr>mq_pending := ps'\<rparr>"
    by (auto simp: mq_claim_stale_def split: prod.splits)
  have "distinct (map fst (mq_pending q))" using assms(1) by (simp add: mq_inv_def)
  from claim_loop_abs [OF l this] aq_step.claim [of ds n "memory_abs q" c idle] q' show ?thesis
    by (simp add: memory_abs_def list_all_iff redelivers_def map_add_def comp_def)
qed

lemma memory_renew_step:
  assumes "mq_renew now i c q = (Inr b, q')"
  shows "aq_step (memory_abs q) (Renew i c) (Answer b) (memory_abs q')"
proof -
  have "memory_abs q' = memory_abs q \<and> b = (\<exists>m k. aq_flight (memory_abs q) i = Some (m, c, k))"
    using assms by (auto simp: mq_renew_def memory_abs_def update_conv' pending_abs_def fun_eq_iff split: option.splits if_splits)
  then show ?thesis using aq_step.renew [of "memory_abs q" i c] by simp
qed

text \<open>Every call is a call of the record \<open>memory_queue\<close>, whose laws are those of the locale \<open>task_queue\<close>.\<close>

lemma memory_call_inv:
  assumes "mq_inv q" and "memory_call now call q = (Some (Inr rep), q')"
  shows "mq_inv q'"
proof (cases call)
  case (Consume c)
  with assms(2) obtain r where "tq_consume memory_queue id now c 0 q = (Inr r, q')"
    by (auto simp: memory_call_def memory_queue_def map_sum_Inr split: prod.splits)
  with assms(1) mq.consume_some [of q id now c _ q'] mq.consume_none [of q id now c q'] show ?thesis by (cases r) auto
next
  case (Publish m)
  with assms mq_publish_inv [of q m] show ?thesis by (auto simp: memory_call_def split: prod.splits)
next
  case (Ack i)
  with assms mq.ack_ok [of q i _ q'] show ?thesis
    by (auto simp: memory_call_def memory_queue_def map_sum_Inr split: prod.splits)
next
  case (ClaimStale c idle n)
  with assms mq.claim_ok [of q now c idle n _ q'] show ?thesis
    by (auto simp: memory_call_def memory_queue_def map_sum_Inr split: prod.splits)
next
  case (Renew i c)
  with assms mq.renew_ok [of q now i c _ q'] show ?thesis
    by (auto simp: memory_call_def memory_queue_def map_sum_Inr split: prod.splits)
qed

lemma memory_call_step:
  assumes "mq_inv q" and "memory_call now call q = (Some (Inr rep), q')"
  shows "aq_step (memory_abs q) call rep (memory_abs q')"
proof (cases call)
  case (Publish m)
  with assms memory_publish_step [OF assms(1), of m] show ?thesis by (auto simp: memory_call_def mq_publish_def)
next
  case (Ack i)
  with assms memory_ack_step [of q i] show ?thesis by (auto simp: memory_call_def mq_ack_def)
qed (use assms in \<open>auto simp: memory_call_def map_sum_Inr split: prod.splits
      intro: memory_consume_step memory_claim_step memory_renew_step\<close>)

interpretation mem: queue_implementation memory_call "\<lambda>now. True" memory_abs mq_inv
  by unfold_locales (use memory_call_inv memory_call_step memory_apart in blast)+

section \<open>The Redis queue\<close>

definition redis_call ::
  "'r redis \<Rightarrow> redis_config \<Rightarrow> pyfloat \<times> pyfloat list \<Rightarrow> queue_call \<Rightarrow> 'r \<Rightarrow> (exn + queue_reply) option \<times> 'r" where
  "redis_call R c env call r =
     (case call of
        Publish m \<Rightarrow> (case redis_publish R c m r of (x, r1) \<Rightarrow> (Some (map_sum id Published x), r1))
      | Consume co \<Rightarrow> (case redis_consume R c co 0 (fst env) (snd env) r of (x, r1) \<Rightarrow> (map_option (map_sum id Delivered) x, r1))
      | Ack i \<Rightarrow> (case redis_ack R c i r of (x, r1) \<Rightarrow> (Some (map_sum id Answer x), r1))
      | ClaimStale co idle n \<Rightarrow> (case redis_claim_stale R c co idle n r of (x, r1) \<Rightarrow> (Some (map_sum id Claimed x), r1))
      | Renew i co \<Rightarrow> (case redis_renew R c i co r of (x, r1) \<Rightarrow> (Some (map_sum id Answer x), r1)))"

text \<open>The clock of the loop does not run backwards.\<close>

definition monotonic :: "pyfloat \<times> pyfloat list \<Rightarrow> bool" where
  "monotonic env \<longleftrightarrow> list_all (\<lambda>t. fst env \<le> t) (snd env)"

text \<open>The messages among the entries; an entry that is none is not part of the abstract queue.\<close>

definition readable :: "pystr \<times> fields \<Rightarrow> (pystr \<times> TaskMessage) option" where
  "readable e = (case decode_entry (Some (snd e)) of Inr m \<Rightarrow> Some (fst e, m) | Inl _ \<Rightarrow> None)"

definition held_abs :: "fields \<times> pystr \<times> int \<Rightarrow> (TaskMessage \<times> pystr \<times> int) option" where
  "held_abs p = (case decode_entry (Some (fst p)) of Inr m \<Rightarrow> Some (m, snd p) | Inl _ \<Rightarrow> None)"

definition view_abs :: "group_view \<Rightarrow> aqueue" where
  "view_abs v = \<lparr>aq_waiting = List.map_filter readable (gv_new v), aq_flight = (\<lambda>i. Option.bind (gv_pending v i) held_abs)\<rparr>"

lemma readable_fst: "readable e = Some p \<Longrightarrow> fst p = fst e"
  by (auto simp: readable_def split: sum.splits)

lemma waiting_ids: "fst ` set (List.map_filter readable es) \<subseteq> fst ` set es"
  by (induction es) (auto simp: map_filter_simps dest!: readable_fst split: option.splits)

lemma distinct_readable: "distinct (map fst es) \<Longrightarrow> distinct (map fst (List.map_filter readable es))"
proof (induction es)
  case (Cons e es)
  have "fst e \<notin> fst ` set (List.map_filter readable es)" using waiting_ids [of es] Cons.prems by auto
  with Cons readable_fst [of e] show ?case by (cases "readable e") (simp_all add: map_filter_simps)
qed (simp add: map_filter_simps)

lemma flight_ids: "dom (\<lambda>i. Option.bind (g i) held_abs) \<subseteq> dom g"
  by (auto simp: bind_eq_Some_conv)

lemma view_apart: "ids_apart v \<Longrightarrow> apart (view_abs v)"
  using waiting_ids [of "gv_new v"] flight_ids [of "gv_pending v"] distinct_readable [of "gv_new v"]
  by (auto simp: ids_apart_def apart_def view_abs_def)

text \<open>Between two calls that returned, every pending entry is a message: the others were acknowledged by the call that took them.\<close>

definition redis_ok :: "group_view \<Rightarrow> bool" where
  "redis_ok v \<longleftrightarrow> ids_apart v \<and> (\<forall>i p. gv_pending v i = Some p \<longrightarrow> held_abs p \<noteq> None)"

lemma redis_ok_flight: "redis_ok v \<Longrightarrow> dom (aq_flight (view_abs v)) = dom (gv_pending v)"
  by (auto simp: redis_ok_def view_abs_def bind_eq_Some_conv)

lemma redis_publish_step:
  assumes "stream_group R c view" and "redis_ok (view r)" and "valid_message m" and "redis_publish R c m r = (Inr i, r')"
  shows "redis_ok (view r') \<and> aq_step (view_abs (view r)) (Publish m) (Published i) (view_abs (view r'))"
proof -
  from assms(4) obtain raw where raw: "to_json m = Inr raw" and add: "rd_xadd R (rc_stream c) [(PAYLOAD_FIELD, raw)] r = (Inr i, r')"
    by (auto simp: redis_publish_def split: sum.splits)
  note add = stream_group_add [OF assms(1) add]
  have "readable (i, [(PAYLOAD_FIELD, raw)]) = Some (i, m)"
    by (simp add: readable_def decode_entry_def from_to_json [OF assms(3) raw])
  with add have abs: "view_abs (view r') = (view_abs (view r))\<lparr>aq_waiting := aq_waiting (view_abs (view r)) @ [(i, m)]\<rparr>"
    by (simp add: view_abs_def map_filter_def)
  have "i \<notin> fst ` set (aq_waiting (view_abs (view r)))" "i \<notin> dom (aq_flight (view_abs (view r)))"
    using add waiting_ids [of "gv_new (view r)"] flight_ids [of "gv_pending (view r)"] by (auto simp: view_abs_def view_ids_def)
  from aq_step.publish [OF this, of m] abs add assms(2) show ?thesis by (auto simp: redis_ok_def ids_apart_def view_ids_def)
qed

lemma filter_readable:
  "i \<notin> fst ` set (List.map_filter readable es) \<Longrightarrow> List.map_filter readable (filter (\<lambda>e. fst e \<noteq> i) es) = List.map_filter readable es"
  by (induction es) (auto simp: map_filter_simps dest: readable_fst split: option.splits)

lemma redis_ok_delete:
  "redis_ok v \<Longrightarrow> redis_ok \<lparr>gv_new = filter P (gv_new v), gv_pending = (gv_pending v)(i := None)\<rparr>"
  by (auto simp: redis_ok_def ids_apart_def distinct_map_filter split: if_splits)

lemma redis_ack_step:
  assumes "stream_group R c view" and "redis_ok (view r)" and "i \<notin> fst ` set (aq_waiting (view_abs (view r)))"
    and "redis_ack R c i r = (Inr b, r')"
  shows "redis_ok (view r') \<and> aq_step (view_abs (view r)) (Ack i) (Answer b) (view_abs (view r'))"
proof -
  note ack = stream_group_ack [OF assms(1,4)]
  then have "view_abs (view r') = (view_abs (view r))\<lparr>aq_flight := (aq_flight (view_abs (view r)))(i := None)\<rparr>"
    using assms(3) by (auto simp: view_abs_def filter_readable)
  moreover have "b = (i \<in> dom (aq_flight (view_abs (view r))))" using ack redis_ok_flight [OF assms(2)] by simp
  moreover have "redis_ok (view r')" using ack redis_ok_delete [OF assms(2)] by simp
  ultimately show ?thesis using aq_step.ack [of "view_abs (view r)" i] by simp
qed

lemma redis_consume_step:
  assumes "stream_group R c view" and "redis_ok (view r)" and "list_all (\<lambda>t. start \<le> t) turns"
    and "consume_loop R c co start turns r = (Some (Inr d), r')"
  shows "redis_ok (view r') \<and> aq_step (view_abs (view r)) (Consume co) (Delivered d) (view_abs (view r'))"
  using assms(2-4)
proof (induction turns arbitrary: r)
  case (Cons t ts)
  then have "block_ms start t = 0" by (simp add: block_ms_def)
  with Cons.prems(3) obtain res r1 where read: "rd_xreadgroup R (rc_group c) co (rc_stream c) None r = (Inr res, r1)"
    by (auto split: prod.splits sum.splits)
  note group = stream_group_read [OF assms(1) read disjI1 [OF refl]]
  show ?case
  proof (cases "gv_new (view r)")
    case Nil
    with group Cons.prems read \<open>block_ms start t = 0\<close> aq_step.empty [of "view_abs (view r)" co] show ?thesis
      by (auto simp: view_abs_def map_filter_simps)
  next
    case (Cons e es)
    obtain i fs where e: "e = (i, fs)" by fastforce
    have res: "res = [(rc_stream c, [(i, Some fs)])]"
      and r1: "view r1 = \<lparr>gv_new = es, gv_pending = (gv_pending (view r))(i \<mapsto> (fs, co, 1))\<rparr>" using group Cons e by auto
    have i: "i \<notin> fst ` set es" "gv_pending (view r) i = None"
      using Cons.prems(1) Cons e by (auto simp: redis_ok_def ids_apart_def)
    from Cons.prems(3) read res \<open>block_ms start t = 0\<close> obtain ds r2 where del: "to_deliveries R c co False [(i, Some fs)] r1 = (Inr ds, r2)"
      and rest: "if ds \<noteq> [] then d = Some (hd ds) \<and> r' = r2 else consume_loop R c co start ts r2 = (Some (Inr d), r')"
      by (auto split: prod.splits sum.splits if_splits simp del: to_deliveries.simps)
    show ?thesis
    proof (cases "decode_entry (Some fs)")
      case (Inl x)
      with del have "poison fs" "ds = []" and "redis_ack R c i r1 = (Inr (i \<in> dom (gv_pending (view r1))), r2)"
        using stream_group_ack [OF assms(1)] by (auto simp: poison_def split: exn.splits prod.splits sum.splits)
      moreover from this have "view r2 = \<lparr>gv_new = es, gv_pending = gv_pending (view r)\<rparr>"
        using stream_group_ack [OF assms(1)] r1 i by (auto simp: filter_id_conv fun_upd_idem)
      moreover have "readable e = None" using Inl e by (simp add: readable_def)
      ultimately have "redis_ok (view r2)" "view_abs (view r2) = view_abs (view r)"
        using Cons.prems(1) Cons by (auto simp: redis_ok_def ids_apart_def view_abs_def map_filter_simps)
      with Cons.IH [of r2] Cons.prems(2) rest \<open>ds = []\<close> show ?thesis by simp
    next
      case (Inr m)
      with del rest have d: "d = Some (delivery i m co 1)" "r' = r1" by (auto simp: delivery_def)
      have wait: "aq_waiting (view_abs (view r)) = (i, m) # List.map_filter readable es"
        using Cons e Inr by (simp add: view_abs_def map_filter_simps readable_def)
      have "view_abs (view r1) = (view_abs (view r))\<lparr>aq_waiting := List.map_filter readable es, aq_flight := (aq_flight (view_abs (view r)))(i \<mapsto> (m, co, 1))\<rparr>"
        using Inr by (auto simp: r1 view_abs_def held_abs_def)
      moreover have "redis_ok (view r1)" using Cons.prems(1) Cons e i Inr by (auto simp: r1 redis_ok_def ids_apart_def held_abs_def)
      ultimately show ?thesis using aq_step.consume [OF wait, of co] d by simp
    qed
  qed
qed simp

lemma claimed_deliveries:
  assumes "stream_group R c view" and "to_deliveries R c co True es r = (Inr ds, r')"
    and "\<And>e. e \<in> set es \<Longrightarrow> \<exists>fs m k. gv_pending (view r) (fst e) = Some (fs, co, k) \<and> snd e = Some fs \<and> decode_entry (Some fs) = Inr m"
  shows "view r' = view r \<and> map dl_message_id ds = map fst es
    \<and> (\<forall>d \<in> set ds. dl_consumer d = co \<and> aq_flight (view_abs (view r)) (dl_message_id d) = Some (dl_message d, co, dl_delivery_count d))"
  using assms(2,3)
proof (induction es arbitrary: r ds)
  case (Cons e es)
  obtain fs m k where e: "gv_pending (view r) (fst e) = Some (fs, co, k)" "e = (fst e, Some fs)" "decode_entry (Some fs) = Inr m"
    using Cons.prems(2) [of e] by (cases e) auto
  have "to_deliveries R c co True ((fst e, Some fs) # es) r = (Inr ds, r')" using Cons.prems(1) e(2) by simp
  then obtain n r1 ds1 where n: "times_delivered R c (fst e) r = (Inr n, r1)" and rest: "to_deliveries R c co True es r1 = (Inr ds1, r')"
    and ds: "ds = delivery (fst e) m co n # ds1"
    using e(3) by (auto simp: delivery_def split: prod.splits sum.splits)
  from n e(1) have "view r1 = view r" "n = k"
    by (auto simp: times_delivered_def split: prod.splits sum.splits dest!: stream_group_pending [OF assms(1)])
  moreover have "aq_flight (view_abs (view r)) (fst e) = Some (m, co, k)" using e by (simp add: view_abs_def held_abs_def)
  moreover from Cons.IH [OF rest] Cons.prems(2) have "view r' = view r1 \<and> map dl_message_id ds1 = map fst es
    \<and> (\<forall>d \<in> set ds1. dl_consumer d = co \<and> aq_flight (view_abs (view r1)) (dl_message_id d) = Some (dl_message d, co, dl_delivery_count d))"
    by (simp add: \<open>view r1 = view r\<close>)
  ultimately show ?case by (simp add: ds delivery_def)
qed simp

lemma held_abs_fst: "fst p = fst q \<Longrightarrow> held_abs p = None \<longleftrightarrow> held_abs q = None"
  by (auto simp: held_abs_def split: sum.splits)

lemma redis_ok_held:
  assumes "redis_ok v" and "gv_pending v i = Some (fs, p)"
  obtains m where "decode_entry (Some fs) = Inr m" and "aq_flight (view_abs v) i = Some (m, p)"
proof -
  have "held_abs (fs, p) \<noteq> None" using assms unfolding redis_ok_def by blast
  then obtain m where m: "decode_entry (Some fs) = Inr m" by (cases "decode_entry (Some fs)") (auto simp: held_abs_def)
  moreover have "aq_flight (view_abs v) i = Some (m, p)" using assms(2) m by (simp add: view_abs_def held_abs_def)
  ultimately show thesis by (rule that)
qed

lemma map_of_taken:
  assumes "distinct (map dl_message_id ds)"
  shows "d \<in> set ds \<Longrightarrow> map_of (map taken ds) (dl_message_id d) = Some (dl_message d, dl_consumer d, dl_delivery_count d)"
    and "i \<notin> dl_message_id ` set ds \<Longrightarrow> map_of (map taken ds) i = None"
proof -
  have "fst \<circ> taken = dl_message_id" by (simp add: fun_eq_iff taken_def)
  with assms show "d \<in> set ds \<Longrightarrow> map_of (map taken ds) (dl_message_id d) = Some (dl_message d, dl_consumer d, dl_delivery_count d)"
    by (intro map_of_is_SomeI) (auto simp: taken_def image_iff intro!: bexI [of _ d])
  show "i \<notin> dl_message_id ` set ds \<Longrightarrow> map_of (map taken ds) i = None" by (auto simp: map_of_eq_None_iff taken_def)
qed

text \<open>What \<^verbatim>\<open>XAUTOCLAIM\<close> does to the abstract queue: the entries it returns change hands and count one delivery more.\<close>

lemma autoclaim_flight:
  assumes "stream_group R c view" and "redis_ok (view r)"
    and "rd_xautoclaim R (rc_stream c) (rc_group c) co idle n r = (Inr es, r1)"
  shows "redis_ok (view r1)" and "aq_waiting (view_abs (view r1)) = aq_waiting (view_abs (view r))"
    and "i \<notin> fst ` set es \<Longrightarrow> aq_flight (view_abs (view r1)) i = aq_flight (view_abs (view r)) i"
    and "e \<in> set es \<Longrightarrow> \<exists>fs m own k. gv_pending (view r1) (fst e) = Some (fs, co, k + 1) \<and> snd e = Some fs \<and> decode_entry (Some fs) = Inr m
      \<and> aq_flight (view_abs (view r)) (fst e) = Some (m, own, k) \<and> aq_flight (view_abs (view r1)) (fst e) = Some (m, co, k + 1)"
proof -
  note group = stream_group_autoclaim [OF assms(1,3)]
  show "aq_waiting (view_abs (view r1)) = aq_waiting (view_abs (view r))"
    and "i \<notin> fst ` set es \<Longrightarrow> aq_flight (view_abs (view r1)) i = aq_flight (view_abs (view r)) i"
    using group(4) by (simp_all add: view_abs_def)
  show "\<exists>fs m own k. gv_pending (view r1) (fst e) = Some (fs, co, k + 1) \<and> snd e = Some fs \<and> decode_entry (Some fs) = Inr m
      \<and> aq_flight (view_abs (view r)) (fst e) = Some (m, own, k) \<and> aq_flight (view_abs (view r1)) (fst e) = Some (m, co, k + 1)"
    if e: "e \<in> set es"
  proof -
    obtain fs own k where g: "gv_pending (view r) (fst e) = Some (fs, own, k)" "snd e = Some fs" using group(3) [OF e] by blast
    obtain m where m: "decode_entry (Some fs) = Inr m" "aq_flight (view_abs (view r)) (fst e) = Some (m, own, k)"
      using redis_ok_held [OF assms(2) g(1)] by blast
    moreover have "gv_pending (view r1) (fst e) = Some (fs, co, k + 1)" using group(4) g(1) e by simp
    ultimately show ?thesis using g(2) by (simp add: view_abs_def held_abs_def)
  qed
  have "held_abs p \<noteq> None" if p: "gv_pending (view r1) i = Some p" for i p
  proof -
    obtain q where "gv_pending (view r) i = Some q" "fst q = fst p"
      using p group(4) by (cases "gv_pending (view r) i") (auto split: if_splits)
    then show ?thesis using assms(2) held_abs_fst unfolding redis_ok_def by metis
  qed
  moreover have "dom (gv_pending (view r1)) = dom (gv_pending (view r))" using group(4) by (auto split: if_splits)
  then have "ids_apart (view r1)" using assms(2) group(4) by (simp add: redis_ok_def ids_apart_def)
  ultimately show "redis_ok (view r1)" unfolding redis_ok_def by blast
qed

lemma redis_claim_step:
  assumes "stream_group R c view" and "redis_ok (view r)" and "redis_claim_stale R c co idle n r = (Inr ds, r')"
  shows "redis_ok (view r') \<and> aq_step (view_abs (view r)) (ClaimStale co idle n) (Claimed ds) (view_abs (view r'))"
proof -
  from assms(3) obtain es r1 where cl: "rd_xautoclaim R (rc_stream c) (rc_group c) co (int_trunc (idle * 1000)) n r = (Inr es, r1)"
    and del: "to_deliveries R c co True es r1 = (Inr ds, r')" by (auto simp: redis_claim_stale_def split: prod.splits sum.splits)
  note flight = autoclaim_flight [OF assms(1,2) cl]
  have "\<exists>fs m k. gv_pending (view r1) (fst e) = Some (fs, co, k) \<and> snd e = Some fs \<and> decode_entry (Some fs) = Inr m" if "e \<in> set es" for e
    using flight(4) [OF that] by blast
  from claimed_deliveries [OF assms(1) del this] have view: "view r' = view r1" and ids: "map dl_message_id ds = map fst es"
    and ds: "\<And>d. d \<in> set ds \<Longrightarrow> dl_consumer d = co \<and> aq_flight (view_abs (view r1)) (dl_message_id d) = Some (dl_message d, co, dl_delivery_count d)"
    by auto
  have mem: "fst ` set es = dl_message_id ` set ds" using ids by (metis list.set_map)
  have dist: "distinct (map dl_message_id ds)" "length ds \<le> nat n" using ids stream_group_autoclaim(1,2) [OF assms(1) cl]
    by (simp, metis length_map)
  have "redelivers (view_abs (view r)) co d" if "d \<in> set ds" for d
  proof -
    from mem that obtain e where "e \<in> set es" "fst e = dl_message_id d" by (metis image_iff)
    with flight(4) [OF this(1)] ds [OF that] show ?thesis by (auto simp: redelivers_def)
  qed
  with dist have "aq_step (view_abs (view r)) (ClaimStale co idle n) (Claimed ds)
      ((view_abs (view r))\<lparr>aq_flight := aq_flight (view_abs (view r)) ++ map_of (map taken ds)\<rparr>)"
    by (intro aq_step.claim) (simp_all add: list_all_iff)
  moreover have "aq_flight (view_abs (view r1)) i = (aq_flight (view_abs (view r)) ++ map_of (map taken ds)) i" for i
    using map_of_taken(1) [OF dist(1)] map_of_taken(2) [OF dist(1), of i] ds flight(3) [of i] mem
    by (cases "i \<in> dl_message_id ` set ds") (auto simp: map_add_def)
  then have "view_abs (view r1) = (view_abs (view r))\<lparr>aq_flight := aq_flight (view_abs (view r)) ++ map_of (map taken ds)\<rparr>"
    using flight(2) by (intro aqueue.equality) auto
  ultimately show ?thesis using flight(1) view by simp
qed

lemma redis_renew_step:
  assumes "stream_group R c view" and "redis_ok (view r)" and "redis_renew R c i co r = (Inr b, r')"
  shows "redis_ok (view r') \<and> aq_step (view_abs (view r)) (Renew i co) (Answer b) (view_abs (view r'))"
proof -
  from assms(3) obtain rows r1 where rows: "rd_xpending_range R (rc_stream c) (rc_group c) i r = (Inr rows, r1)"
    by (auto simp: redis_renew_def split: prod.splits sum.splits)
  note pend = stream_group_pending [OF assms(1) rows]
  have "view r' = view r \<and> b = (\<exists>m k. aq_flight (view_abs (view r)) i = Some (m, co, k))"
  proof (cases "\<exists>fs k. gv_pending (view r) i = Some (fs, co, k)")
    case True
    then obtain fs k where g: "gv_pending (view r) i = Some (fs, co, k)" by blast
    with assms(3) rows pend obtain xs where xs: "rd_xclaim_justid R (rc_stream c) (rc_group c) co i r1 = (Inr xs, r')" "b = (xs \<noteq> [])"
      by (auto simp: redis_renew_def split: prod.splits sum.splits)
    obtain m where "aq_flight (view_abs (view r)) i = Some (m, co, k)" using redis_ok_held [OF assms(2) g] by blast
    with stream_group_claim [OF assms(1) xs(1)] pend g xs(2) show ?thesis by (auto simp: fun_upd_idem)
  next
    case False
    then have "\<not> (\<exists>m k. aq_flight (view_abs (view r)) i = Some (m, co, k))"
      by (auto simp: view_abs_def bind_eq_Some_conv held_abs_def split: sum.splits)
    moreover have "view r' = view r \<and> \<not> b" using False assms(3) rows pend
      by (auto simp: redis_renew_def split: prod.splits sum.splits if_splits option.splits)
    ultimately show ?thesis by simp
  qed
  with assms(2) aq_step.renew [of "view_abs (view r)" i co] show ?thesis by simp
qed

lemma redis_implementation:
  assumes "stream_group R c view"
  shows "queue_implementation (redis_call R c) monotonic (\<lambda>r. view_abs (view r)) (\<lambda>r. redis_ok (view r))"
proof
  fix r r' env call rep
  assume a: "redis_ok (view r)" "monotonic env" "proper (view_abs (view r)) call" "redis_call R c env call r = (Some (Inr rep), r')"
  show "redis_ok (view r') \<and> aq_step (view_abs (view r)) call rep (view_abs (view r'))"
  proof (cases call)
    case (Publish m)
    with a redis_publish_step [OF assms a(1)] show ?thesis by (auto simp: redis_call_def proper_def map_sum_Inr split: prod.splits)
  next
    case (Consume co)
    with a(4) obtain d where "consume_loop R c co (fst env) (snd env) r = (Some (Inr d), r')" "rep = Delivered d"
      by (auto simp: redis_call_def redis_consume_def map_sum_Inr split: prod.splits)
    with redis_consume_step [OF assms a(1)] a(2) Consume show ?thesis by (auto simp: monotonic_def)
  next
    case (Ack i)
    with a redis_ack_step [OF assms a(1)] show ?thesis by (auto simp: redis_call_def proper_def map_sum_Inr split: prod.splits)
  next
    case (ClaimStale co idle n)
    with a redis_claim_step [OF assms a(1)] show ?thesis by (auto simp: redis_call_def map_sum_Inr split: prod.splits)
  next
    case (Renew i co)
    with a redis_renew_step [OF assms a(1)] show ?thesis by (auto simp: redis_call_def map_sum_Inr split: prod.splits)
  qed
qed (simp add: redis_ok_def view_apart)

section \<open>Properties\<close>

text \<open>The in-memory queue implements the protocol: any history of calls that returned, made by clients that publish valid messages and
  acknowledge only what was delivered, is a history of the abstract queue, in which \<^verbatim>\<open>ack\<close> tells whether the message was in flight,
  \<^verbatim>\<open>claim_stale\<close> hands over messages in flight with their count increased, and \<^verbatim>\<open>renew\<close> answers to the holder only.\<close>

theorem memory_queue_refines:
  assumes "calls memory_call (\<lambda>now. True) memory_abs q h q'" and "mq_inv q"
  shows "mq_inv q' \<and> aq_trace (memory_abs q) h (memory_abs q')"
  by (rule mem.run_trace [OF assms])

text \<open>C9: The Redis queue implements the protocol: over a server that is a stream with a consumer group, any history of calls that returned, made
  by clients that publish valid messages and acknowledge only what was delivered, is a history of the abstract queue.\<close>

theorem redis_queue_refines:
  assumes "stream_group R c view" and "redis_ok (view r)"
    and "calls (redis_call R c) monotonic (\<lambda>r. view_abs (view r)) r h r'"
  shows "redis_ok (view r') \<and> aq_trace (view_abs (view r)) h (view_abs (view r'))"
  by (rule queue_implementation.run_trace [OF redis_implementation [OF assms(1)] assms(3,2)])

text \<open>C10: The Redis queue neither loses nor reorders messages, and a message taken is kept until it is acknowledged: in any history of calls that
  returned, what was waiting followed by what was published is, in order, what was consumed followed by what still waits; and a message in flight
  whose acknowledgement is not part of the history is still in flight, with the same content and at least as many deliveries.\<close>

theorem redis_queue_fifo:
  assumes "stream_group R c view" and "redis_ok (view r)"
    and "calls (redis_call R c) monotonic (\<lambda>r. view_abs (view r)) r h r'"
  shows "aq_waiting (view_abs (view r)) @ sent h = received h @ aq_waiting (view_abs (view r'))
    \<and> (aq_flight (view_abs (view r)) i = Some (m, own, k) \<and> (Ack i, Answer True) \<notin> set h
        \<longrightarrow> (\<exists>own' k'. aq_flight (view_abs (view r')) i = Some (m, own', k') \<and> k \<le> k'))"
proof -
  note impl = redis_implementation [OF assms(1)]
  show ?thesis
    using queue_implementation.run_fifo [OF impl assms(3,2)] queue_implementation.run_keeps_flight [OF impl assms(3,2)] by blast
qed

section \<open>Sample histories\<close>

definition first_delivery :: "pystr \<Rightarrow> Delivery" where
  "first_delivery i = delivery i wire_message (lit ''w1'') 1"

theorem memory_queue_refines_witness:
  "\<exists>q'. aq_trace (memory_abs MemoryQueue_init)
     [(Publish wire_message, Published (message_id 1)), (Consume (lit ''w1''), Delivered (Some (first_delivery (message_id 1)))),
      (Ack (message_id 1), Answer True)] (memory_abs q')"
proof -
  obtain q' where "calls memory_call (\<lambda>now. True) memory_abs MemoryQueue_init
     [(Publish wire_message, Published (message_id 1)), (Consume (lit ''w1''), Delivered (Some (first_delivery (message_id 1)))),
      (Ack (message_id 1), Answer True)] q'"
    using wire_message_valid
    by (fastforce simp: proper_def memory_call_def mq_publish_def mq_consume_def mq_ack_def MemoryQueue_init_def memory_abs_def first_delivery_def
        delivery_def intro!: calls.intros)
  from memory_queue_refines [OF this] show ?thesis by auto
qed

definition empty_stream :: sample_stream where
  "empty_stream = \<lparr>ss_new = [], ss_pending = []\<rparr>"

definition short_history :: "(queue_call \<times> queue_reply) list" where
  "short_history = [(Publish wire_message, Published [48]), (Consume (lit ''w1''), Delivered (Some (first_delivery [48])))]"

lemma sample_calls:
  "\<exists>r'. calls (redis_call sample_redis sample_config) monotonic (\<lambda>r. view_abs (sample_view r)) empty_stream short_history r'"
proof -
  obtain s where s: "to_json wire_message = Inr s" "from_json s = Inr wire_message"
    using wire_message_json from_to_json [OF wire_message_valid] by blast
  let ?r1 = "\<lparr>ss_new = [([48], [(PAYLOAD_FIELD, s)])], ss_pending = []\<rparr>"
  let ?r2 = "\<lparr>ss_new = [], ss_pending = [([48], [(PAYLOAD_FIELD, s)], lit ''w1'', 1)]\<rparr>"
  have "redis_call sample_redis sample_config (0, [0]) (Publish wire_message) empty_stream = (Some (Inr (Published [48])), ?r1)"
    by (simp add: redis_call_def redis_publish_def s(1) sample_redis_def empty_stream_def sample_id_def)
  moreover have "redis_call sample_redis sample_config (0, [0]) (Consume (lit ''w1'')) ?r1
      = (Some (Inr (Delivered (Some (first_delivery [48])))), ?r2)"
    by (simp add: redis_call_def redis_consume_def block_ms_def sample_redis_def decode_entry_def s(2) first_delivery_def delivery_def)
  ultimately show ?thesis
    using wire_message_valid unfolding short_history_def
    by (intro exI [of _ ?r2] calls.cons [where e = "(0, [0])"] calls.nil) (auto simp: monotonic_def proper_def intro: calls.nil)
qed

lemma redis_ok_empty: "redis_ok (sample_view empty_stream)"
  by (simp add: redis_ok_def ids_apart_def sample_view_def empty_stream_def)

theorem redis_queue_refines_witness:
  "\<exists>r'. aq_trace (view_abs (sample_view empty_stream)) short_history (view_abs (sample_view r'))"
  using sample_calls redis_queue_refines [OF sample_stream_group redis_ok_empty] by blast

theorem redis_queue_fifo_witness:
  "\<exists>r'. aq_waiting (view_abs (sample_view empty_stream)) @ sent short_history = received short_history @ aq_waiting (view_abs (sample_view r'))"
  using sample_calls redis_queue_fifo [OF sample_stream_group redis_ok_empty] by blast

end
