(* ===== verification/Samples.thy ===== *)
theory Samples
  imports Repositories
begin

text \<open>A job, a schedule and a database that holds them: the concrete inputs at which the properties of the
  other theories are instantiated.\<close>

definition demo_job :: Job where
  "demo_job = \<lparr>j_name = lit ''demo'', j_job_type = CUSTOM, j_handler = lit ''demo'', j_id = lit ''job_a'',
     j_timeout_seconds = 10, j_retry_policy = default_retry_policy, j_enabled = True, j_created_at = utc 0\<rparr>"

definition demo_schedule :: Schedule where
  "demo_schedule = \<lparr>s_job_id = lit ''job_a'', s_schedule_type = INTERVAL, s_id = lit ''sch_b'',
     s_interval_seconds = Some 5, s_time_of_day = None, s_enabled = True\<rparr>"

definition demo_slot :: datetime where
  "demo_slot = utc 86400000000"

definition demo_key :: pystr where
  "demo_key = lit ''job_a:0001-01-02:sch_b@000000.000000''"

definition demo_db :: db where
  "demo_db = empty_db\<lparr>t_jobs := [job_to_record demo_job]\<rparr>"

lemma demo_job_sel [simp]:
  "j_id demo_job = lit ''job_a''" "j_handler demo_job = lit ''demo''" "j_enabled demo_job"
  "j_retry_policy demo_job = default_retry_policy" "j_timeout_seconds demo_job = 10"
  "j_name demo_job = lit ''demo''"
  by (simp_all add: demo_job_def)

lemma demo_schedule_sel [simp]: "s_enabled demo_schedule" "s_id demo_schedule = lit ''sch_b''"
  by (simp_all add: demo_schedule_def)

lemma valid_demo_job [simp]: "valid_job demo_job"
  by (simp add: valid_job_def) (simp add: blank_def lit_def is_space_def)

lemma valid_demo_schedule [simp]: "valid_schedule demo_schedule"
  by (simp add: valid_schedule_def Schedule_post_init_def demo_schedule_def)

lemma demo_scheduled_key [simp]: "scheduled_key (lit ''job_a'') demo_schedule demo_slot = Inr demo_key"
  by (simp add: demo_schedule_def demo_slot_def demo_key_def scheduled_key_eval)

lemma demo_next_run [simp]: "compute_next_run demo_schedule demo_slot = Inr (utc 86405000000)"
proof -
  have r: "round_half_even 5000000 = 5000000" by code_simp
  show ?thesis
    by (simp add: compute_next_run_def demo_schedule_def demo_slot_def timedelta_seconds_def add_timedelta_def
        mk_datetime_def Let_def r) (simp add: utc_def)
qed

lemma wf_demo_db [simp]: "wf_db demo_db"
proof -
  have "job_add demo_job empty_db = Inr ((), demo_db)"
    by (simp add: job_add_def empty_db_def demo_db_def)
  from keeps_wfD [OF job_add_keeps_wf [OF valid_demo_job] wf_empty_db this] show ?thesis .
qed

lemma demo_db_sel [simp]:
  "t_jobs demo_db = [job_to_record demo_job]" "t_executions demo_db = []" "t_keys demo_db = []"
  "t_logs demo_db = []" "t_schedules demo_db = []" "exec_seq demo_db = 1" "log_seq demo_db = 1"
  by (simp_all add: demo_db_def empty_db_def)

end
