(* ===== verification/Recovery.thy ===== *)
theory Recovery
  imports Samples
begin

text \<open>
  Crash recovery (\<^verbatim>\<open>recovery.py\<close>) and cancellation (\<^verbatim>\<open>cancellation.py\<close>). \<open>recover_interrupted\<close> and
  \<open>request_cancel\<close> run in the caller's transaction and are \<open>txn\<close> functions; the clock reading of each row they
  touch is an input.
\<close>

section \<open>Recovery\<close>

definition INTERRUPTED_MESSAGE :: pystr where
  "INTERRUPTED_MESSAGE = lit ''interrupted: process exited while RUNNING''"

record RecoveryReport =
  rp_recovered :: "pystr list"
  rp_released_keys :: "pystr list"
  rp_recovered_retries :: "pystr list"

text \<open>Both loops change each listed execution, write it back and collect its label.\<close>

fun update_each :: "(JobExecution \<Rightarrow> exn + JobExecution) \<Rightarrow> JobExecution list \<Rightarrow> pystr list txn" where
  "update_each change [] d = Inr ([], d)"
| "update_each change (x # xs) d =
     (case change x of
        Inl e \<Rightarrow> Inl e
      | Inr y \<Rightarrow>
          (case exec_update y d of
             Inl e \<Rightarrow> Inl e
           | Inr (_, d1) \<Rightarrow>
               (case update_each change xs d1 of
                  Inl e \<Rightarrow> Inl e
                | Inr (labels, d2) \<Rightarrow> Inr ((x_run_id y @ lit ''#'' @ show_int (x_attempt y)) # labels, d2))))"

definition interrupt :: "(JobExecution \<Rightarrow> datetime) \<Rightarrow> JobExecution \<Rightarrow> exn + JobExecution" where
  "interrupt clock x =
     (case transition x RECOVERABLE of
        Inl e \<Rightarrow> Inl e
      | Inr y \<Rightarrow> Inr (y\<lparr>x_finished_at := Some (clock x),
          x_error_message := (case x_error_message x of
             None \<Rightarrow> Some INTERRUPTED_MESSAGE
           | Some m \<Rightarrow> if m = [] then Some INTERRUPTED_MESSAGE else Some m)\<rparr>))"

fun release_each :: "pystr list \<Rightarrow> unit txn" where
  "release_each [] d = Inr ((), d)"
| "release_each (k # ks) d = (case key_release k d of Inl e \<Rightarrow> Inl e | Inr (_, d1) \<Rightarrow> release_each ks d1)"

definition recover_interrupted :: "(JobExecution \<Rightarrow> datetime) \<Rightarrow> RecoveryReport txn" where
  "recover_interrupted clock d =
     (case update_each (interrupt clock) (list_by_status RUNNING d) d of
        Inl e \<Rightarrow> Inl e
      | Inr (recovered, d1) \<Rightarrow>
          (case update_each (\<lambda>x. transition x RECOVERABLE) (list_dangling_retries d1) d1 of
             Inl e \<Rightarrow> Inl e
           | Inr (retries, d2) \<Rightarrow>
               let released = list_orphan_keys d2 in
               (case release_each released d2 of
                  Inl e \<Rightarrow> Inl e
                | Inr (_, d3) \<Rightarrow>
                    Inr (\<lparr>rp_recovered = recovered, rp_released_keys = released, rp_recovered_retries = retries\<rparr>, d3))))"

section \<open>Cancellation\<close>

datatype CancelOutcome = CO_REQUESTED | CO_CANCELED | CO_ALREADY_FINISHED | CO_NOT_FOUND | CO_NOT_CANCELLABLE

definition request_cancel :: "datetime \<Rightarrow> pystr \<Rightarrow> CancelOutcome txn" where
  "request_cancel now run_id d =
     (let attempts = exec_list_by_run run_id d in
      if attempts = [] then Inr (CO_NOT_FOUND, d)
      else
        let x = last attempts in
        if x_status x = RUNNING then
          (case mark_cancel_requested run_id (x_attempt x) d of
             Inl e \<Rightarrow> Inl e | Inr (_, d1) \<Rightarrow> Inr (CO_REQUESTED, d1))
        else if x_status x = RECOVERABLE then
          (case transition x CANCELED of
             Inl e \<Rightarrow> Inl e
           | Inr y \<Rightarrow>
               (case exec_update (y\<lparr>x_finished_at := Some now\<rparr>) d of
                  Inl e \<Rightarrow> Inl e | Inr (_, d1) \<Rightarrow> Inr (CO_CANCELED, d1)))
        else if is_terminal (x_status x) then Inr (CO_ALREADY_FINISHED, d)
        else Inr (CO_NOT_CANCELLABLE, d))"

fun cancel_each :: "pystr list \<Rightarrow> ActiveRuns \<Rightarrow> ActiveRuns" where
  "cancel_each [] a = a"
| "cancel_each (r # rs) a = cancel_each rs (snd (active_cancel r a))"

definition poll_once :: "exn option \<Rightarrow> db \<Rightarrow> ActiveRuns \<Rightarrow> (exn + pystr list) \<times> ActiveRuns" where
  "poll_once commit_error d a =
     (let ids = active_ids a in
      if ids = [] then (Inr [], a)
      else case fst (session_scope commit_error (\<lambda>d. Inr (list_cancel_requested ids d, d)) d) of
             Inl e \<Rightarrow> (Inl e, a)
           | Inr requested \<Rightarrow> (Inr requested, cancel_each requested a))"

section \<open>Lemmas\<close>

lemma exec_update_map:
  assumes "wf_db d" and "r \<in> set (t_executions d)" and "exec_key r = (x_run_id x, x_attempt x)"
  shows "exec_update x d = Inr ((), d\<lparr>t_executions :=
    map (\<lambda>s. if exec_key s = exec_key r then update_execution_record s x else s) (t_executions d)\<rparr>)"
proof -
  have "exec_find (x_run_id x) (x_attempt x) d \<noteq> None"
    using assms(2,3) by (auto simp: exec_find_None)
  with assms show ?thesis
    by (simp add: exec_update_def update_first_map wf_db_defs)
qed

lemma wf_map_executions:
  "wf_db d \<Longrightarrow> (\<And>r. exec_key (f r) = exec_key r \<and> er_id (f r) = er_id r \<and> er_job_id (f r) = er_job_id r) \<Longrightarrow>
     wf_db (d\<lparr>t_executions := map f (t_executions d)\<rparr>)"
  by (rule wf_rewrite_executions) (simp_all add: comp_def)

lemma update_each_rows:
  assumes "wf_db d" and "set rs \<subseteq> set (t_executions d)" and "unique_on exec_key rs"
    and "\<And>r. r \<in> set rs \<Longrightarrow> change (record_to_execution r) = Inr (c (record_to_execution r))"
    and "\<And>x. x_run_id (c x) = x_run_id x \<and> x_attempt (c x) = x_attempt x"
  shows "\<exists>labels. length labels = length rs \<and>
    update_each change (map record_to_execution rs) d = Inr (labels, d\<lparr>t_executions :=
      map (\<lambda>r. if exec_key r \<in> exec_key ` set rs then update_execution_record r (c (record_to_execution r)) else r)
        (t_executions d)\<rparr>)"
  using assms
proof (induction rs arbitrary: d)
  case Nil
  then show ?case by simp
next
  case (Cons r rs)
  let ?x = "c (record_to_execution r)"
  let ?f = "\<lambda>s. if exec_key s = exec_key r then update_execution_record s ?x else s"
  let ?d = "d\<lparr>t_executions := map ?f (t_executions d)\<rparr>"
  have r: "r \<in> set (t_executions d)" "exec_key r = (x_run_id ?x, x_attempt ?x)"
    using Cons.prems(2,5) by (auto simp: exec_key_def)
  have upd: "exec_update ?x d = Inr ((), ?d)"
    by (rule exec_update_map [OF Cons.prems(1) r])
  have wf: "wf_db ?d" by (rule wf_map_executions [OF Cons.prems(1)]) simp
  have "exec_key s \<noteq> exec_key r" if "s \<in> set rs" for s using that Cons.prems(3) by (auto simp: image_iff)
  then have "set rs \<subseteq> set (t_executions ?d)" using Cons.prems(2) by (force simp: image_iff)
  from Cons.IH [OF wf this] Cons.prems(3-5) obtain labels where l: "length labels = length rs"
    "update_each change (map record_to_execution rs) ?d = Inr (labels, ?d\<lparr>t_executions :=
      map (\<lambda>r. if exec_key r \<in> exec_key ` set rs then update_execution_record r (c (record_to_execution r)) else r)
        (t_executions ?d)\<rparr>)"
    by auto
  have "(if exec_key (?f s) \<in> exec_key ` set rs then update_execution_record (?f s) (c (record_to_execution (?f s))) else ?f s) =
      (if exec_key s \<in> exec_key ` set (r # rs) then update_execution_record s (c (record_to_execution s)) else s)"
    if "s \<in> set (t_executions d)" for s
    using that Cons.prems(1,3) r(1) unique_onD [of exec_key "t_executions d" s r] by (auto simp: wf_db_defs)
  then have "map (\<lambda>r. if exec_key r \<in> exec_key ` set rs then update_execution_record r (c (record_to_execution r)) else r)
        (map ?f (t_executions d)) =
      map (\<lambda>s. if exec_key s \<in> exec_key ` set (r # rs) then update_execution_record s (c (record_to_execution s)) else s)
        (t_executions d)"
    by simp
  with l upd Cons.prems(4) show ?case by auto
qed

definition recovered_row :: "(JobExecution \<Rightarrow> datetime) \<Rightarrow> db \<Rightarrow> ExecutionRecord \<Rightarrow> ExecutionRecord" where
  "recovered_row clock d r =
     (if er_status r = RUNNING then
        r\<lparr>er_status := RECOVERABLE, er_finished_at := Some (clock (record_to_execution r)),
          er_error_message := (case er_error_message r of None \<Rightarrow> Some INTERRUPTED_MESSAGE
            | Some m \<Rightarrow> if m = [] then Some INTERRUPTED_MESSAGE else Some m)\<rparr>
      else if er_status r = RETRYING \<and> er_next_retry_at r = None \<and> \<not> superseded d r
        then r\<lparr>er_status := RECOVERABLE\<rparr>
      else r)"

lemma update_row_interrupt:
  "interrupt clock (record_to_execution r) = Inr y \<Longrightarrow> er_status r = RUNNING \<Longrightarrow>
     update_execution_record r y = recovered_row clock d r"
  by (cases r) (auto simp: interrupt_def update_execution_record_def record_to_execution_def recovered_row_def)

lemma update_row_dangling:
  "update_execution_record r ((record_to_execution r)\<lparr>x_status := st\<rparr>) = r\<lparr>er_status := st\<rparr>"
  by (cases r) (simp add: update_execution_record_def record_to_execution_def)

lemma release_each_eq:
  "release_each ks d = Inr ((), d\<lparr>t_keys := filter (\<lambda>r. ir_key r \<notin> set ks) (t_keys d)\<rparr>)"
proof (induction ks arbitrary: d)
  case (Cons k ks)
  have "filter (\<lambda>r. ir_key r \<notin> set ks) (filter (\<lambda>r. ir_key r \<noteq> k) (t_keys d)) =
      filter (\<lambda>r. ir_key r \<notin> set (k # ks)) (t_keys d)"
    by (auto intro: filter_cong)
  with Cons show ?case by (simp add: key_release_def)
qed simp

lemma recovered_row_key [simp]:
  "exec_key (recovered_row clock d r) = exec_key r" "er_run_id (recovered_row clock d r) = er_run_id r"
  "er_id (recovered_row clock d r) = er_id r" "er_job_id (recovered_row clock d r) = er_job_id r"
  "er_attempt (recovered_row clock d r) = er_attempt r"
  "er_next_retry_at (recovered_row clock d r) = er_next_retry_at r"
  by (simp_all add: recovered_row_def exec_key_def)

text \<open>The first loop.\<close>

definition interrupted_row :: "(JobExecution \<Rightarrow> datetime) \<Rightarrow> ExecutionRecord \<Rightarrow> ExecutionRecord" where
  "interrupted_row clock r = (if er_status r = RUNNING then recovered_row clock empty_db r else r)"

lemma recover_running:
  assumes "wf_db d"
  shows "\<exists>labels. length labels = length (filter (\<lambda>r. er_status r = RUNNING) (t_executions d)) \<and>
    update_each (interrupt clock) (list_by_status RUNNING d) d =
      Inr (labels, d\<lparr>t_executions := map (interrupted_row clock) (t_executions d)\<rparr>)"
proof -
  let ?rs = "sort_key er_id (filter (\<lambda>r. er_status r = RUNNING) (t_executions d))"
  let ?c = "\<lambda>x. (x\<lparr>x_status := RECOVERABLE, x_finished_at := Some (clock x),
    x_error_message := (case x_error_message x of None \<Rightarrow> Some INTERRUPTED_MESSAGE
      | Some m \<Rightarrow> if m = [] then Some INTERRUPTED_MESSAGE else Some m)\<rparr>)"
  have u: "unique_on exec_key (t_executions d)" using assms by (simp add: wf_db_defs)
  have c: "interrupt clock (record_to_execution r) = Inr (?c (record_to_execution r))" if "er_status r = RUNNING" for r
    using that by (simp add: interrupt_def)
  obtain labels where "length labels = length ?rs"
    and "update_each (interrupt clock) (map record_to_execution ?rs) d = Inr (labels, d\<lparr>t_executions :=
      map (\<lambda>r. if exec_key r \<in> exec_key ` set ?rs then update_execution_record r (?c (record_to_execution r)) else r)
        (t_executions d)\<rparr>)"
    using update_each_rows [OF assms _ unique_on_sort_filter [OF u], of er_id "\<lambda>r. er_status r = RUNNING" "interrupt clock" ?c]
    by (auto simp: c)
  moreover have "(if exec_key r \<in> exec_key ` set ?rs then update_execution_record r (?c (record_to_execution r)) else r) =
      interrupted_row clock r" if "r \<in> set (t_executions d)" for r
    using keys_of_filter [OF u that, of er_id "\<lambda>r. er_status r = RUNNING"] update_row_interrupt [OF c, of r]
    by (auto simp: interrupted_row_def)
  then have "map (\<lambda>r. if exec_key r \<in> exec_key ` set ?rs then update_execution_record r (?c (record_to_execution r)) else r)
      (t_executions d) = map (interrupted_row clock) (t_executions d)" by (intro map_cong refl)
  ultimately show ?thesis unfolding list_by_status_def by (metis length_sort)
qed

text \<open>The second loop, on a database whose rows \<open>f\<close> rewrote without touching their keys.\<close>

lemma superseded_map:
  "(\<And>r. er_run_id (f r) = er_run_id r \<and> er_attempt (f r) = er_attempt r) \<Longrightarrow>
     superseded (d\<lparr>t_executions := map f (t_executions d)\<rparr>) (f r) = superseded d r"
  by (simp add: superseded_def list_ex_iff)

definition dangling :: "db \<Rightarrow> ExecutionRecord \<Rightarrow> bool" where
  "dangling d r \<longleftrightarrow> er_status r = RETRYING \<and> er_next_retry_at r = None \<and> \<not> superseded d r"

lemma recover_dangling:
  assumes "wf_db d"
  shows "\<exists>labels. length labels = length (filter (dangling d) (t_executions d)) \<and>
    update_each (\<lambda>x. transition x RECOVERABLE) (list_dangling_retries d) d =
      Inr (labels, d\<lparr>t_executions := map (\<lambda>r. if dangling d r then r\<lparr>er_status := RECOVERABLE\<rparr> else r) (t_executions d)\<rparr>)"
proof -
  let ?rs = "sort_key er_id (filter (dangling d) (t_executions d))"
  let ?c = "\<lambda>x. x\<lparr>x_status := RECOVERABLE\<rparr>"
  have u: "unique_on exec_key (t_executions d)" using assms by (simp add: wf_db_defs)
  have c: "transition (record_to_execution r) RECOVERABLE = Inr (?c (record_to_execution r))" if "dangling d r" for r
    using that by (simp add: dangling_def)
  obtain labels where "length labels = length ?rs"
    and "update_each (\<lambda>x. transition x RECOVERABLE) (map record_to_execution ?rs) d = Inr (labels, d\<lparr>t_executions :=
      map (\<lambda>r. if exec_key r \<in> exec_key ` set ?rs then update_execution_record r (?c (record_to_execution r)) else r)
        (t_executions d)\<rparr>)"
    using update_each_rows [OF assms _ unique_on_sort_filter [OF u], of er_id "dangling d" "\<lambda>x. transition x RECOVERABLE" ?c]
    by (auto simp: c)
  moreover have "(if exec_key r \<in> exec_key ` set ?rs then update_execution_record r (?c (record_to_execution r)) else r) =
      (if dangling d r then r\<lparr>er_status := RECOVERABLE\<rparr> else r)" if "r \<in> set (t_executions d)" for r
    using keys_of_filter [OF u that, of er_id "dangling d"] by (simp add: update_row_dangling)
  then have "map (\<lambda>r. if exec_key r \<in> exec_key ` set ?rs then update_execution_record r (?c (record_to_execution r)) else r)
      (t_executions d) = map (\<lambda>r. if dangling d r then r\<lparr>er_status := RECOVERABLE\<rparr> else r) (t_executions d)"
    by (intro map_cong refl)
  moreover have eq: "list_dangling_retries d = map record_to_execution ?rs"
    by (simp add: list_dangling_retries_def dangling_def [abs_def])
  ultimately show ?thesis unfolding eq by (intro exI [of _ labels]) (simp only: length_sort)
qed

lemma orphan_keys_released:
  assumes "wf_keys d"
  shows "filter (\<lambda>r. ir_key r \<notin> set (list_orphan_keys d)) (t_keys d) =
    filter (\<lambda>r. ir_run_id r \<in> er_run_id ` set (t_executions d)) (t_keys d)"
proof (rule filter_cong [OF refl])
  fix r
  assume r: "r \<in> set (t_keys d)"
  have "unique_on ir_key (t_keys d)" using assms by (simp add: wf_keys_def)
  from keys_of_filter [OF this r, of "\<lambda>r. 0 :: nat" "\<lambda>r. ir_run_id r \<notin> er_run_id ` set (t_executions d)"]
  show "(ir_key r \<notin> set (list_orphan_keys d)) = (ir_run_id r \<in> er_run_id ` set (t_executions d))"
    by (simp add: list_orphan_keys_def)
qed

text \<open>Recovery in closed form.\<close>

definition recovered_db :: "(JobExecution \<Rightarrow> datetime) \<Rightarrow> db \<Rightarrow> db" where
  "recovered_db clock d =
     d\<lparr>t_executions := map (recovered_row clock d) (t_executions d),
       t_keys := filter (\<lambda>r. ir_run_id r \<in> er_run_id ` set (t_executions d)) (t_keys d)\<rparr>"

lemma recovered_row_two_steps:
  "(if dangling (d\<lparr>t_executions := map (interrupted_row clock) (t_executions d)\<rparr>) (interrupted_row clock r)
    then (interrupted_row clock r)\<lparr>er_status := RECOVERABLE\<rparr> else interrupted_row clock r) = recovered_row clock d r"
proof -
  have "superseded (d\<lparr>t_executions := map (interrupted_row clock) (t_executions d)\<rparr>) (interrupted_row clock r) = superseded d r"
    by (rule superseded_map) (simp add: interrupted_row_def)
  then show ?thesis
    by (simp add: dangling_def) (auto simp: interrupted_row_def recovered_row_def)
qed

lemma recover_interrupted_eq:
  assumes "wf_db d"
  obtains rep where "recover_interrupted clock d = Inr (rep, recovered_db clock d)"
    and "length (rp_recovered rep) = length (filter (\<lambda>r. er_status r = RUNNING) (t_executions d))"
    and "set (rp_released_keys rep) = ir_key ` {r \<in> set (t_keys d). ir_run_id r \<notin> er_run_id ` set (t_executions d)}"
proof -
  let ?d1 = "d\<lparr>t_executions := map (interrupted_row clock) (t_executions d)\<rparr>"
  let ?d2 = "d\<lparr>t_executions := map (recovered_row clock d) (t_executions d)\<rparr>"
  from recover_running [OF assms] obtain l1 where l1: "length l1 = length (filter (\<lambda>r. er_status r = RUNNING) (t_executions d))"
    "update_each (interrupt clock) (list_by_status RUNNING d) d = Inr (l1, ?d1)" by blast
  have wf1: "wf_db ?d1" by (rule wf_map_executions [OF assms]) (simp add: interrupted_row_def)
  from recover_dangling [OF wf1] obtain l2
    where l2: "update_each (\<lambda>x. transition x RECOVERABLE) (list_dangling_retries ?d1) ?d1 = Inr (l2, ?d2)"
    by (auto simp: comp_def recovered_row_two_steps)
  have wf2: "wf_db ?d2" by (rule wf_map_executions [OF assms]) simp
  have runs: "er_run_id ` set (t_executions ?d2) = er_run_id ` set (t_executions d)" by (simp add: image_image)
  have "release_each (list_orphan_keys ?d2) ?d2 = Inr ((), recovered_db clock d)"
    using orphan_keys_released [of ?d2] wf2 runs by (simp add: release_each_eq recovered_db_def wf_db_def)
  with l1 l2 show thesis
    using runs by (intro that [of "\<lparr>rp_recovered = l1, rp_released_keys = list_orphan_keys ?d2, rp_recovered_retries = l2\<rparr>"])
      (auto simp: recover_interrupted_def list_orphan_keys_def)
qed

lemma recovered_db_wf: "wf_db d \<Longrightarrow> wf_db (recovered_db clock d)"
proof -
  assume wf: "wf_db d"
  have "wf_db (d\<lparr>t_executions := map (recovered_row clock d) (t_executions d)\<rparr>)"
    by (rule wf_map_executions [OF wf]) simp
  then show ?thesis
    by (auto simp: recovered_db_def wf_db_defs unique_on_filter)
qed

lemma superseded_recovered: "superseded (recovered_db clock d) (recovered_row clock d r) = superseded d r"
  by (simp add: superseded_def recovered_db_def list_ex_iff)

lemma recovered_db_clean:
  "list_by_status RUNNING (recovered_db clock d) = []" "list_dangling_retries (recovered_db clock d) = []"
  "list_orphan_keys (recovered_db clock d) = []"
proof -
  have rows: "t_executions (recovered_db clock d) = map (recovered_row clock d) (t_executions d)"
    by (simp add: recovered_db_def)
  have "er_status (recovered_row clock d r) \<noteq> RUNNING" for r by (simp add: recovered_row_def)
  then show "list_by_status RUNNING (recovered_db clock d) = []"
    by (simp add: list_by_status_def rows filter_empty_conv)
  have "\<not> (er_status (recovered_row clock d r) = RETRYING \<and> er_next_retry_at (recovered_row clock d r) = None
      \<and> \<not> superseded (recovered_db clock d) (recovered_row clock d r))" for r
    unfolding superseded_recovered by (simp add: recovered_row_def)
  then have "filter (\<lambda>r. er_status r = RETRYING \<and> er_next_retry_at r = None \<and> \<not> superseded (recovered_db clock d) r)
      (t_executions (recovered_db clock d)) = []"
    by (auto simp: rows filter_empty_conv)
  then show "list_dangling_retries (recovered_db clock d) = []" by (simp add: list_dangling_retries_def)
  show "list_orphan_keys (recovered_db clock d) = []"
    by (auto simp: list_orphan_keys_def recovered_db_def filter_empty_conv image_image)
qed

section \<open>Properties\<close>

lemma superseded_get_attempt: "superseded d r \<longleftrightarrow> (\<exists>m > er_attempt r. get_attempt (er_run_id r) m d \<noteq> None)"
  by (auto simp: superseded_def list_ex_iff get_attempt_def exec_find_None exec_key_def)

lemma runs_get_attempt: "rid \<in> er_run_id ` set (t_executions d) \<longleftrightarrow> (\<exists>n. get_attempt rid n d \<noteq> None)"
  by (auto simp: get_attempt_def exec_find_None exec_key_def)

text \<open>What recovery makes of an attempt: a run in progress is marked as interrupted, and a retry that nobody will send any more as recoverable.\<close>

definition recovered_execution :: "(JobExecution \<Rightarrow> datetime) \<Rightarrow> db \<Rightarrow> JobExecution \<Rightarrow> JobExecution" where
  "recovered_execution clock d x =
     (if x_status x = RUNNING then
        x\<lparr>x_status := RECOVERABLE, x_finished_at := Some (clock x),
          x_error_message := Some (case x_error_message x of Some (c # cs) \<Rightarrow> c # cs | _ \<Rightarrow> INTERRUPTED_MESSAGE)\<rparr>
      else if x_status x = RETRYING \<and> x_next_retry_at x = None \<and> (\<forall>m > x_attempt x. get_attempt (x_run_id x) m d = None)
        then x\<lparr>x_status := RECOVERABLE\<rparr>
      else x)"

lemma recovered_row_execution:
  "record_to_execution (recovered_row clock d r) = recovered_execution clock d (record_to_execution r)"
  by (auto simp: recovered_row_def recovered_execution_def superseded_get_attempt record_to_execution_def split: option.splits list.splits)


definition running_row :: JobExecution where
  "running_row = (new_execution (lit ''job_a'') (lit ''run_1''))\<lparr>x_attempt := 1, x_status := RUNNING\<rparr>"

definition running_db :: db where
  "running_db = demo_db\<lparr>t_executions := [execution_to_record 1 running_row], exec_seq := 2\<rparr>"

lemma running_db_wf [simp]: "wf_db running_db"
proof -
  have "exec_add running_row demo_db = Inr ((), running_db)"
    by (simp add: exec_add_def exec_find_def running_db_def running_row_def)
  from keeps_wfD [OF exec_add_keeps_wf wf_demo_db this] show ?thesis .
qed

lemma running_db_row [simp]: "get_attempt (lit ''run_1'') 1 running_db = Some running_row"
  by (simp add: get_attempt_def exec_find_def running_db_def running_row_def)


text \<open>Recovery is idempotent: running it again, at any later time, finds nothing to do and changes nothing.\<close>

theorem recovery_idempotent:
  assumes "wf_db d" and "recover_interrupted clock d = Inr (rep, d')"
  shows "recover_interrupted clock' d' = Inr (\<lparr>rp_recovered = [], rp_released_keys = [], rp_recovered_retries = []\<rparr>, d')"
proof -
  from recover_interrupted_eq [OF assms(1), of clock] assms(2) have "d' = recovered_db clock d" by auto
  with recovered_db_clean [of clock d] show ?thesis by (simp add: recover_interrupted_def)
qed

theorem recovery_idempotent_witness:
  "\<exists>rep d'. recover_interrupted (\<lambda>x. utc 9) running_db = Inr (rep, d')
     \<and> recover_interrupted (\<lambda>x. utc 10) d' = Inr (\<lparr>rp_recovered = [], rp_released_keys = [], rp_recovered_retries = []\<rparr>, d')"
  using recover_interrupted_eq [OF running_db_wf, of "\<lambda>x. utc 9"] recovery_idempotent [OF running_db_wf] by metis

subsection \<open>Cancellation\<close>

lemma exec_list_by_run_get:
  assumes "wf_db d" and "x \<in> set (exec_list_by_run run_id d)"
  shows "get_attempt run_id (x_attempt x) d = Some x \<and> x_run_id x = run_id"
proof -
  from assms(2) obtain r where r: "r \<in> set (t_executions d)" "er_run_id r = run_id" "x = record_to_execution r"
    by (auto simp: exec_list_by_run_def)
  then show ?thesis
    using assms(1) find_unique [of exec_key "t_executions d" r]
    by (simp add: get_attempt_def exec_find_def wf_db_defs exec_key_def)
qed

lemma last_attempt_greatest:
  assumes "y \<in> set (exec_list_by_run run_id d)"
  shows "x_attempt y \<le> x_attempt (last (exec_list_by_run run_id d))"
proof -
  have "map x_attempt (exec_list_by_run run_id d) = map er_attempt (sort_key er_attempt (filter (\<lambda>r. er_run_id r = run_id) (t_executions d)))"
    by (simp add: exec_list_by_run_def)
  then have "sorted (map x_attempt (exec_list_by_run run_id d))" by (simp only: sorted_sort_key)
  then show ?thesis using assms by (cases "exec_list_by_run run_id d" rule: rev_cases) (auto simp: sorted_append)
qed

lemma mark_cancel_requested_ok:
  assumes "get_attempt r n d = Some x"
  obtains d' where "mark_cancel_requested r n d = Inr (True, d')"
    and "get_attempt r n d' = Some (x\<lparr>x_cancel_requested := True\<rparr>)"
    and "\<And>r' n'. (r', n') \<noteq> (r, n) \<Longrightarrow> get_attempt r' n' d' = get_attempt r' n' d"
proof -
  let ?d = "d\<lparr>t_executions := update_first (\<lambda>s. exec_key s = (r, n)) (\<lambda>s. s\<lparr>er_cancel_requested := True\<rparr>) (t_executions d)\<rparr>"
  from assms obtain s where s: "exec_find r n d = Some s" "x = record_to_execution s" by (auto simp: get_attempt_def)
  have "record_to_execution (s\<lparr>er_cancel_requested := True\<rparr>) = x\<lparr>x_cancel_requested := True\<rparr>"
    using s by (simp add: record_to_execution_def)
  moreover have "find (\<lambda>s. exec_key s = (r', n')) (t_executions ?d) = find (\<lambda>s. exec_key s = (r', n')) (t_executions d)"
    if "(r', n') \<noteq> (r, n)" for r' n'
    using that by (simp, intro find_update_first_other) auto
  ultimately show thesis
    using s by (intro that [of ?d])
      (auto simp: mark_cancel_requested_def get_attempt_def exec_find_def find_update_first_same)
qed

text \<open>Requesting a cancellation does exactly what the last attempt of the run allows. It never raises on a
  consistent database; a run without attempts is NOT_FOUND; if the last attempt is RUNNING its flag is set and
  nothing else changes; if it is RECOVERABLE it becomes CANCELED; in every other case nothing changes.\<close>

theorem request_cancel_effect:
  assumes "wf_db d"
  shows "\<exists>o' d'. request_cancel now run_id d = Inr (o', d') \<and> wf_db d'
    \<and> (if exec_list_by_run run_id d = [] then o' = CO_NOT_FOUND \<and> d' = d
       else let x = last (exec_list_by_run run_id d) in
         (\<forall>r n. (r, n) \<noteq> (run_id, x_attempt x) \<longrightarrow> get_attempt r n d' = get_attempt r n d)
         \<and> (case x_status x of
              RUNNING \<Rightarrow> o' = CO_REQUESTED \<and> get_attempt run_id (x_attempt x) d' = Some (x\<lparr>x_cancel_requested := True\<rparr>)
            | RECOVERABLE \<Rightarrow> o' = CO_CANCELED
                \<and> get_attempt run_id (x_attempt x) d' = Some (x\<lparr>x_status := CANCELED, x_finished_at := Some now\<rparr>)
            | st \<Rightarrow> o' = (if is_terminal st then CO_ALREADY_FINISHED else CO_NOT_CANCELLABLE) \<and> d' = d))"
proof (cases "exec_list_by_run run_id d = []")
  case True
  with assms show ?thesis by (simp add: request_cancel_def)
next
  case False
  define x where "x = last (exec_list_by_run run_id d)"
  have x: "get_attempt run_id (x_attempt x) d = Some x" "x_run_id x = run_id"
    using exec_list_by_run_get [OF assms, of x run_id] False by (simp_all add: x_def)
  consider (run) "x_status x = RUNNING" | (rec) "x_status x = RECOVERABLE" | (other) "x_status x \<notin> {RUNNING, RECOVERABLE}"
    by auto
  then show ?thesis
  proof cases
    case run
    from mark_cancel_requested_ok [OF x(1)] obtain d' where d': "mark_cancel_requested run_id (x_attempt x) d = Inr (True, d')"
      "get_attempt run_id (x_attempt x) d' = Some (x\<lparr>x_cancel_requested := True\<rparr>)"
      "\<And>r n. (r, n) \<noteq> (run_id, x_attempt x) \<Longrightarrow> get_attempt r n d' = get_attempt r n d" by metis
    moreover have "wf_db d'" by (rule keeps_wfD [OF mark_cancel_requested_keeps_wf assms d'(1)])
    ultimately show ?thesis
      using False run by (auto simp: request_cancel_def x_def [symmetric] Let_def)
  next
    case rec
    let ?y = "x\<lparr>x_status := CANCELED, x_finished_at := Some now\<rparr>"
    have "exec_find (x_run_id ?y) (x_attempt ?y) d \<noteq> None" using x by (auto simp: get_attempt_def)
    then obtain d' where d': "exec_update ?y d = Inr ((), d')" by (auto simp: exec_update_def)
    have "get_attempt run_id (x_attempt x) d' = Some ?y"
      using exec_update_get_attempt [OF d', of x] x by (cases x) simp
    moreover have "get_attempt r n d' = get_attempt r n d" if "(r, n) \<noteq> (run_id, x_attempt x)" for r n
      using exec_find_other(2) [OF _ d', of r n] that x(2) by (simp add: get_attempt_def)
    moreover have "wf_db d'" by (rule keeps_wfD [OF exec_update_keeps_wf assms d'])
    ultimately show ?thesis
      using False rec d' by (auto simp: request_cancel_def x_def [symmetric] Let_def)
  next
    case other
    then show ?thesis
      using False assms by (cases "x_status x") (auto simp: request_cancel_def x_def [symmetric] Let_def)
  qed
qed

theorem request_cancel_effect_witness:
  "\<exists>d'. request_cancel (utc 9) (lit ''run_1'') running_db = Inr (CO_REQUESTED, d')
     \<and> get_attempt (lit ''run_1'') 1 d' = Some (running_row\<lparr>x_cancel_requested := True\<rparr>)"
proof -
  have l: "exec_list_by_run (lit ''run_1'') running_db = [running_row]"
    by (simp add: exec_list_by_run_def running_db_def running_row_def)
  have "x_status running_row = RUNNING" "x_attempt running_row = 1" by (simp_all add: running_row_def)
  then show ?thesis
    using request_cancel_effect [OF running_db_wf, of "utc 9" "lit ''run_1''"] by (auto simp: l Let_def)
qed

lemma cancel_each_tokens [simp]: "tokens (cancel_each rs a) = tokens a"
  by (induction rs arbitrary: a) (auto simp: active_cancel_def token_cancel_def split: option.splits)

lemma cancel_each_fired:
  "fired (cancel_each rs a) t \<longleftrightarrow> fired a t \<or> (\<exists>r \<in> set rs. map_of (tokens a) r = Some t)"
  by (induction rs arbitrary: a) (auto simp: active_cancel_def token_cancel_def split: option.splits)

text \<open>A requested cancellation reaches the handler. If a run is active in this process and the database has a
  RUNNING attempt of it with the cancel flag set, then a successful poll of the watcher fires the run's token, so that the
  handler's next check raises \<^verbatim>\<open>JobCanceledError\<close>; tokens of runs that were not asked to stop are untouched.\<close>

theorem watcher_fires_requested_tokens:
  assumes "map_of (tokens a) run_id = Some t"
  shows "case poll_once None d a of
      (Inr requested, a') \<Rightarrow>
        (\<forall>n x. get_attempt run_id n d = Some x \<longrightarrow> x_status x = RUNNING \<longrightarrow> x_cancel_requested x \<longrightarrow>
           run_id \<in> set requested \<and> token_check t a' = Inl (JobCanceledError (lit ''job canceled'')))
        \<and> (\<forall>u. \<not> fired a u \<longrightarrow> (\<forall>r. map_of (tokens a) r = Some u \<longrightarrow> r \<notin> set requested) \<longrightarrow> token_check u a' = Inr ())
    | (Inl e, a') \<Rightarrow> False"
proof -
  have ids: "run_id \<in> set (active_ids a)"
    using assms by (force simp: active_ids_def dest: map_of_SomeD)
  let ?req = "list_cancel_requested (active_ids a) d"
  have p: "poll_once None d a = (Inr ?req, cancel_each ?req a)"
    using ids by (auto simp: poll_once_def session_scope_def Let_def)
  have "run_id \<in> set ?req" if x: "get_attempt run_id n d = Some x" "x_status x = RUNNING" "x_cancel_requested x" for n x
  proof -
    from x obtain s where "exec_find run_id n d = Some s" "x = record_to_execution s" by (auto simp: get_attempt_def)
    with exec_find_Some [OF this(1)] x ids show ?thesis
      by (auto simp: list_cancel_requested_def exec_key_def intro!: rev_image_eqI [of s])
  qed
  then show ?thesis
    using assms by (auto simp: p token_check_def cancel_each_fired)
qed

theorem watcher_fires_requested_tokens_witness:
  "\<exists>a'. poll_once None (running_db\<lparr>t_executions := [execution_to_record 1 (running_row\<lparr>x_cancel_requested := True\<rparr>)]\<rparr>)
      \<lparr>fired = (\<lambda>t. False), next_token = 1, tokens = [(lit ''run_1'', 0)]\<rparr> = (Inr [lit ''run_1''], a')
    \<and> token_check 0 a' = Inl (JobCanceledError (lit ''job canceled''))"
proof -
  let ?d = "running_db\<lparr>t_executions := [execution_to_record 1 (running_row\<lparr>x_cancel_requested := True\<rparr>)]\<rparr>"
  let ?a = "\<lparr>fired = (\<lambda>t. False), next_token = 1, tokens = [(lit ''run_1'', 0)]\<rparr>"
  have "\<exists>a'. poll_once None ?d ?a = (Inr [lit ''run_1''], a')"
    by (simp add: poll_once_def session_scope_def active_ids_def list_cancel_requested_def running_row_def Let_def)
  moreover have "get_attempt (lit ''run_1'') 1 ?d = Some (running_row\<lparr>x_cancel_requested := True\<rparr>)"
    "x_status (running_row\<lparr>x_cancel_requested := True\<rparr>) = RUNNING"
    by (simp_all add: get_attempt_def exec_find_def running_row_def)
  ultimately show ?thesis
    using watcher_fires_requested_tokens [of ?a "lit ''run_1''" 0 ?d] by fastforce
qed

end
