(* ===== verification/Watcher.thy ===== *)
theory Watcher
  imports Recovery
begin

text \<open>
  The thread of the cancel watcher (\<^verbatim>\<open>cancellation.py\<close>, \<^verbatim>\<open>CancelWatcher\<close>). A turn of its loop waits for the interval, unless it is stopped, and polls; a poll that
  raises is logged and the loop goes on. The list of turns is an input: what other threads do to the table of active runs in the wait, whether the
  watcher was stopped, the database the poll sees, and an exception of its transaction. A list that ends leaves the loop running.
\<close>

record watch_turn =
  wt_between :: "ActiveRuns \<Rightarrow> ActiveRuns"
  wt_stopped :: bool
  wt_db :: db
  wt_error :: "exn option"

fun watcher_loop :: "watch_turn list \<Rightarrow> ActiveRuns \<Rightarrow> bool \<times> ActiveRuns" where
  "watcher_loop [] a = (False, a)"
| "watcher_loop (w # ws) a =
     (let a1 = wt_between w a in
      if wt_stopped w then (True, a1)
      else watcher_loop ws (snd (poll_once (wt_error w) (wt_db w) a1)))"

lemma poll_once_fired: "fired a t \<Longrightarrow> fired (snd (poll_once e d a)) t"
  by (auto simp: poll_once_def Let_def cancel_each_fired split: sum.splits)

lemma watcher_loop_append:
  "list_all (\<lambda>w. \<not> wt_stopped w) ws \<Longrightarrow> watcher_loop (ws @ vs) a = watcher_loop vs (snd (watcher_loop ws a))"
  by (induction ws arbitrary: a) (auto simp: Let_def)

lemma watcher_loop_fired:
  "\<lbrakk>fired a t; \<And>w b. w \<in> set ws \<Longrightarrow> fired b t \<Longrightarrow> fired (wt_between w b) t\<rbrakk> \<Longrightarrow> fired (snd (watcher_loop ws a)) t"
proof (induction ws arbitrary: a)
  case (Cons w ws)
  have "fired (wt_between w a) t" using Cons.prems by simp
  then show ?case using Cons.IH [OF poll_once_fired] Cons.prems(2) by (simp add: Let_def)
qed simp

lemma poll_once_fires:
  assumes "map_of (tokens a) run_id = Some t" and "get_attempt run_id n d = Some x" and "x_status x = RUNNING" and "x_cancel_requested x"
  shows "fired (snd (poll_once None d a)) t"
proof -
  have ids: "run_id \<in> set (active_ids a)" using assms(1) by (force simp: active_ids_def dest: map_of_SomeD)
  from assms(2) obtain s where "exec_find run_id n d = Some s" "x = record_to_execution s" by (auto simp: get_attempt_def)
  with exec_find_Some [OF this(1)] assms(3,4) ids have "run_id \<in> set (list_cancel_requested (active_ids a) d)"
    by (auto simp: list_cancel_requested_def exec_key_def intro!: rev_image_eqI [of s])
  with ids assms(1) show ?thesis by (auto simp: poll_once_def session_scope_def cancel_each_fired Let_def)
qed

text \<open>C29: A cancel request reaches a running handler through the watcher thread, whatever its other polls do. Suppose the watcher is not stopped up to some turn; in
  that turn the database is reachable and has a RUNNING attempt with the cancel flag of a run that is active with token \<open>t\<close>. Then \<open>t\<close> is fired at the end of
  every continuation of the loop, even if polls before and after it raise, unless another thread resets the token, so the handler's next
  check raises \<^verbatim>\<open>JobCanceledError\<close>.\<close>

theorem watcher_loop_fires:
  assumes "list_all (\<lambda>v. \<not> wt_stopped v) ws" and "\<not> wt_stopped w" and "wt_error w = None"
    and "map_of (tokens (wt_between w (snd (watcher_loop ws a)))) run_id = Some t"
    and "get_attempt run_id n (wt_db w) = Some x" and "x_status x = RUNNING" and "x_cancel_requested x"
    and "\<And>v b. v \<in> set vs \<Longrightarrow> fired b t \<Longrightarrow> fired (wt_between v b) t"
  shows "token_check t (snd (watcher_loop (ws @ w # vs) a)) = Inl (JobCanceledError (lit ''job canceled''))"
proof -
  have "fired (snd (poll_once None (wt_db w) (wt_between w (snd (watcher_loop ws a))))) t"
    by (rule poll_once_fires [OF assms(4-7)])
  with watcher_loop_fired [OF this assms(8)] assms(2,3) show ?thesis
    by (simp add: watcher_loop_append [OF assms(1)] Let_def token_check_def)
qed

text \<open>Two turns: the database cannot be reached in the first.\<close>

definition broken_turn :: watch_turn where
  "broken_turn = \<lparr>wt_between = (\<lambda>a. a), wt_stopped = False, wt_db = running_db, wt_error = Some (OtherError (lit ''connection lost''))\<rparr>"

definition requested_turn :: watch_turn where
  "requested_turn = \<lparr>wt_between = (\<lambda>a. a), wt_stopped = False,
     wt_db = running_db\<lparr>t_executions := [execution_to_record 1 (running_row\<lparr>x_cancel_requested := True\<rparr>)]\<rparr>, wt_error = None\<rparr>"

theorem watcher_loop_fires_witness:
  "token_check 0 (snd (watcher_loop [broken_turn, requested_turn, broken_turn]
     \<lparr>fired = (\<lambda>t. False), next_token = 1, tokens = [(lit ''run_1'', 0)]\<rparr>)) = Inl (JobCanceledError (lit ''job canceled''))"
proof -
  let ?a = "\<lparr>fired = (\<lambda>t. False), next_token = 1, tokens = [(lit ''run_1'', 0)]\<rparr>"
  have "token_check 0 (snd (watcher_loop ([broken_turn] @ requested_turn # [broken_turn]) ?a)) = Inl (JobCanceledError (lit ''job canceled''))"
  proof (rule watcher_loop_fires [where run_id = "lit ''run_1''" and n = 1])
    show "get_attempt (lit ''run_1'') 1 (wt_db requested_turn) = Some (running_row\<lparr>x_cancel_requested := True\<rparr>)"
      by (simp add: get_attempt_def exec_find_def running_row_def requested_turn_def)
    show "map_of (tokens (wt_between requested_turn (snd (watcher_loop [broken_turn] ?a)))) (lit ''run_1'') = Some 0"
      by (simp add: requested_turn_def broken_turn_def poll_once_def session_scope_def active_ids_def Let_def)
  qed (simp_all add: requested_turn_def broken_turn_def running_row_def)
  then show ?thesis by simp
qed

end
