(* ===== verification/Executor.thy ===== *)
theory Executor
  imports Samples
begin

text \<open>
  The handler registry (\<^verbatim>\<open>registry.py\<close>, \<^verbatim>\<open>jobs/decorators.py\<close>), the handler context
  (\<^verbatim>\<open>jobs/context.py\<close>) and the executor (\<^verbatim>\<open>executor.py\<close>).

  \<open>execute_attempt\<close> runs over an arbitrary state \<open>'s\<close>, because its caller shares state with other
  threads while the handler runs. What happens outside the calling thread is its input: each turn of
  the waiting loop is a \<open>poll\<close> that says what other threads did in the meantime (\<open>p_env\<close>), whether the
  future is done and with which result, and what the monotonic clock reads. A list of polls that ends
  before the loop does leaves the attempt in progress (\<open>Waiting\<close>): it is the state a crash of the
  process would leave behind. The logger calls are left out; a log record a thread produces reaches the
  shared state through \<open>p_env\<close>.
\<close>

section \<open>Registry\<close>

text \<open>A handler function is known by its identity.\<close>

type_synonym Handler = nat

record RegisteredHandler =
  rh_name :: pystr
  rh_func :: Handler
  rh_description :: pystr
  rh_timeout_seconds :: "pyfloat option"
  rh_retry_policy :: "RetryPolicy option"

type_synonym TaskRegistry = "(pystr \<times> RegisteredHandler) list"

definition registry_register ::
  "pystr \<Rightarrow> Handler \<Rightarrow> pystr \<Rightarrow> pyfloat option \<Rightarrow> RetryPolicy option \<Rightarrow> TaskRegistry \<Rightarrow> exn + TaskRegistry" where
  "registry_register name func description timeout policy reg =
     (if map_of reg name \<noteq> None then Inl (DuplicateJobNameError name)
      else Inr (AList.update name
        \<lparr>rh_name = name, rh_func = func, rh_description = description, rh_timeout_seconds = timeout,
         rh_retry_policy = policy\<rparr> reg))"

definition registry_get :: "pystr \<Rightarrow> TaskRegistry \<Rightarrow> exn + RegisteredHandler" where
  "registry_get name reg =
     (case map_of reg name of None \<Rightarrow> Inl (JobNotRegisteredError name) | Some h \<Rightarrow> Inr h)"

definition is_registered :: "pystr \<Rightarrow> TaskRegistry \<Rightarrow> bool" where
  "is_registered name reg \<longleftrightarrow> map_of reg name \<noteq> None"

definition list_names :: "TaskRegistry \<Rightarrow> pystr list" where
  "list_names reg = map fst reg"

definition registry_unregister :: "pystr \<Rightarrow> TaskRegistry \<Rightarrow> TaskRegistry" where
  "registry_unregister name reg = AList.delete name reg"

definition registry_clear :: "TaskRegistry \<Rightarrow> TaskRegistry" where
  "registry_clear reg = []"

text \<open>The \<^verbatim>\<open>@job\<close> decorator: it builds the policy and registers the function.\<close>

definition job_decorator ::
  "pystr \<Rightarrow> pystr \<Rightarrow> pyfloat \<Rightarrow> int \<Rightarrow> BackoffStrategy \<Rightarrow> pyfloat \<Rightarrow> pyfloat \<Rightarrow> Handler \<Rightarrow> TaskRegistry
     \<Rightarrow> exn + TaskRegistry" where
  "job_decorator name description timeout attempts strategy base_delay max_delay func reg =
     (case RetryPolicy_post_init \<lparr>max_attempts = attempts, backoff = strategy,
             base_delay_seconds = base_delay, max_delay_seconds = max_delay\<rparr> of
        Inl e \<Rightarrow> Inl e
      | Inr policy \<Rightarrow> registry_register name func description (Some timeout) (Some policy) reg)"

section \<open>Handler context\<close>

record JobContext =
  execution_id :: pystr
  logger_name :: pystr
  cancel :: token

definition build_context :: "pystr \<Rightarrow> token \<Rightarrow> JobContext" where
  "build_context run_id tok =
     \<lparr>execution_id = run_id, logger_name = lit ''task_platform.job.'' @ run_id, cancel = tok\<rparr>"

definition check_cancelled :: "JobContext \<Rightarrow> ActiveRuns \<Rightarrow> exn + unit" where
  "check_cancelled ctx a = token_check (cancel ctx) a"

text \<open>\<^verbatim>\<open>accepts_context\<close> on what \<^verbatim>\<open>inspect.signature\<close> gives: the parameter names, or an exception.\<close>

definition accepts_context :: "exn + pystr list \<Rightarrow> exn + bool" where
  "accepts_context sig =
     (case sig of
        Inr params \<Rightarrow> Inr (lit ''ctx'' \<in> set params)
      | Inl TypeError \<Rightarrow> Inr False
      | Inl (ValueError _) \<Rightarrow> Inr False
      | Inl e \<Rightarrow> Inl e)"

section \<open>Waiting for the handler\<close>

record 's poll =
  p_env :: "'s \<Rightarrow> 's"
  p_done :: "(exn + unit) option"
  p_now :: pyfloat

record 's token_ops =
  tk_cancel :: "'s \<Rightarrow> 's"
  tk_is_cancelled :: "'s \<Rightarrow> bool"

datatype ('s, 'a) progress = Waiting 's | Done "exn + 'a" 's

definition TIMEOUT_ERROR_PREFIX :: pystr where
  "TIMEOUT_ERROR_PREFIX = lit ''job '' @ [0x6267, 0x884C, 0x8D85, 0x8FC7]"

text \<open>The message of a timeout; \<open>fmt\<close> is how Python prints the number.\<close>

definition timeout_message :: "(pyfloat \<Rightarrow> pystr) \<Rightarrow> pyfloat \<Rightarrow> pystr" where
  "timeout_message fmt timeout = TIMEOUT_ERROR_PREFIX @ lit '' '' @ fmt timeout @ lit ''s ''
     @ [0x4ECD, 0x672A, 0x5B8C, 0x6210, 0xFF08, 0x7EBF, 0x7A0B, 0x4ECD, 0x53EF, 0x80FD, 0x5728, 0x540E,
        0x53F0, 0x7EE7, 0x7EED, 0x8FD0, 0x884C, 0xFF09]"

definition grace_message :: pystr where
  "grace_message = lit ''canceled: handler did not stop within grace period''"

fun wait_loop ::
  "'s token_ops \<Rightarrow> pystr \<Rightarrow> pyfloat \<Rightarrow> pyfloat \<Rightarrow> pyfloat option \<Rightarrow> 's poll list \<Rightarrow> 's \<Rightarrow> ('s, unit) progress" where
  "wait_loop tok msg grace deadline cancel_deadline [] s = Waiting s"
| "wait_loop tok msg grace deadline cancel_deadline (p # ps) s =
     (let s1 = p_env p s in
      case p_done p of
        Some r \<Rightarrow> Done r s1
      | None \<Rightarrow>
          if p_now p \<ge> deadline then Done (Inl (TimeoutError msg)) (tk_cancel tok s1)
          else if tk_is_cancelled tok s1 then
            (case cancel_deadline of
               None \<Rightarrow> wait_loop tok msg grace deadline (Some (p_now p + grace)) ps s1
             | Some c \<Rightarrow>
                 if p_now p \<ge> c then Done (Inl (JobCanceledError grace_message)) s1
                 else wait_loop tok msg grace deadline cancel_deadline ps s1)
          else wait_loop tok msg grace deadline cancel_deadline ps s1)"

definition wait_for ::
  "(pyfloat \<Rightarrow> pystr) \<Rightarrow> 's token_ops \<Rightarrow> pyfloat \<Rightarrow> pyfloat \<Rightarrow> pyfloat \<Rightarrow> 's poll list \<Rightarrow> 's \<Rightarrow> ('s, unit) progress" where
  "wait_for fmt tok timeout grace start polls s =
     wait_loop tok (timeout_message fmt timeout) grace (start + timeout) None polls s"

section \<open>One attempt\<close>

definition resolve_timeout_seconds :: "Job \<Rightarrow> RegisteredHandler \<Rightarrow> pyfloat" where
  "resolve_timeout_seconds job h =
     (case rh_timeout_seconds h of Some t \<Rightarrow> t | None \<Rightarrow> j_timeout_seconds job)"

definition resolve_retry_policy :: "Job \<Rightarrow> RegisteredHandler \<Rightarrow> RetryPolicy" where
  "resolve_retry_policy job h =
     (case rh_retry_policy h of Some p \<Rightarrow> p | None \<Rightarrow> j_retry_policy job)"

record AttemptResult =
  ar_execution :: JobExecution
  ar_retry_policy :: RetryPolicy
  ar_should_retry :: bool

text \<open>The inputs of one attempt: the run id a new execution would draw, the clock readings, an
  exception of \<^verbatim>\<open>pool.submit\<close> if it raises one, and the polls.\<close>

record 's attempt_env =
  e_fresh_run_id :: pystr
  e_started :: datetime
  e_submit_error :: "exn option"
  e_clock :: pyfloat
  e_polls :: "'s poll list"
  e_finished :: datetime

text \<open>The three ends of the \<^verbatim>\<open>try\<close> statement.\<close>

definition conclude_attempt ::
  "JobExecution \<Rightarrow> RetryPolicy \<Rightarrow> int \<Rightarrow> datetime \<Rightarrow> exn + unit \<Rightarrow> exn + AttemptResult" where
  "conclude_attempt x policy attempt finished outcome =
     (case outcome of
        Inl (JobCanceledError m) \<Rightarrow>
          (case transition (x\<lparr>x_error_message := Some m\<rparr>) CANCELED of
             Inl e \<Rightarrow> Inl e
           | Inr y \<Rightarrow> Inr \<lparr>ar_execution = y\<lparr>x_finished_at := Some finished\<rparr>, ar_retry_policy = policy,
                            ar_should_retry = False\<rparr>)
      | Inl exc \<Rightarrow>
          let should_retry = allows_retry policy attempt in
          (case transition (x\<lparr>x_error_message := Some (exn_str exc)\<rparr>)
                  (if should_retry then RETRYING else FAILED) of
             Inl e \<Rightarrow> Inl e
           | Inr y \<Rightarrow> Inr \<lparr>ar_execution = y\<lparr>x_finished_at := Some finished\<rparr>, ar_retry_policy = policy,
                            ar_should_retry = should_retry\<rparr>)
      | Inr _ \<Rightarrow>
          (case transition x SUCCESS of
             Inl e \<Rightarrow> Inl e
           | Inr y \<Rightarrow> Inr \<lparr>ar_execution = y\<lparr>x_finished_at := Some finished\<rparr>, ar_retry_policy = policy,
                            ar_should_retry = False\<rparr>))"

text \<open>The execution up to the state RUNNING.\<close>

definition start_execution :: "Job \<Rightarrow> pystr option \<Rightarrow> pystr \<Rightarrow> datetime \<Rightarrow> int \<Rightarrow> exn + JobExecution" where
  "start_execution job run_id fresh started attempt =
     (let x = new_execution (j_id job)
            (case run_id of Some r \<Rightarrow> (if r = [] then fresh else r) | None \<Rightarrow> fresh)
      in case transition x QUEUED of
           Inl e \<Rightarrow> Inl e
         | Inr x1 \<Rightarrow>
             (case transition x1 RUNNING of
                Inl e \<Rightarrow> Inl e
              | Inr x2 \<Rightarrow> Inr (x2\<lparr>x_started_at := Some started, x_attempt := attempt\<rparr>)))"

definition execute_attempt ::
  "(pyfloat \<Rightarrow> pystr) \<Rightarrow> TaskRegistry \<Rightarrow> 's token_ops \<Rightarrow> (JobExecution \<Rightarrow> 's \<Rightarrow> (exn + unit) \<times> 's) option
     \<Rightarrow> pyfloat \<Rightarrow> 's attempt_env \<Rightarrow> Job \<Rightarrow> int \<Rightarrow> pystr option \<Rightarrow> 's \<Rightarrow> ('s, AttemptResult) progress" where
  "execute_attempt fmt reg tok on_started grace env job attempt run_id s =
     (case start_execution job run_id (e_fresh_run_id env) (e_started env) attempt of
        Inl e \<Rightarrow> Done (Inl e) s
      | Inr x \<Rightarrow>
          (case registry_get (j_handler job) reg of
             Inl e \<Rightarrow> Done (Inl e) s
           | Inr h \<Rightarrow>
               let timeout = resolve_timeout_seconds job h;
                   policy = resolve_retry_policy job h;
                   x = x\<lparr>x_timeout_seconds := Some timeout, x_max_attempts := Some (max_attempts policy)\<rparr>
               in case (case on_started of None \<Rightarrow> (Inr (), s) | Some f \<Rightarrow> f x s) of
                    (Inl e, s1) \<Rightarrow> Done (Inl e) s1
                  | (Inr _, s1) \<Rightarrow>
                      (case (case e_submit_error env of
                               Some e \<Rightarrow> Done (Inl e) s1
                             | None \<Rightarrow> wait_for fmt tok timeout grace (e_clock env) (e_polls env) s1) of
                         Waiting s2 \<Rightarrow> Waiting s2
                       | Done outcome s2 \<Rightarrow>
                           Done (conclude_attempt x policy attempt (e_finished env) outcome) s2)))"

definition cancel_before_start :: "Job \<Rightarrow> pystr \<Rightarrow> datetime \<Rightarrow> exn + JobExecution" where
  "cancel_before_start job fresh now =
     (case transition (new_execution (j_id job) fresh) CANCELED of
        Inl e \<Rightarrow> Inl e
      | Inr x \<Rightarrow> Inr (x\<lparr>x_finished_at := Some now\<rparr>))"

section \<open>Lemmas\<close>

subsection \<open>Registry\<close>

lemma registry_get_register:
  "registry_register n f d t p reg = Inr reg' \<Longrightarrow>
     registry_get m reg' = (if m = n then Inr \<lparr>rh_name = n, rh_func = f, rh_description = d,
       rh_timeout_seconds = t, rh_retry_policy = p\<rparr> else registry_get m reg)"
  by (auto simp: registry_register_def registry_get_def update_Some_unfold split: if_splits option.splits)
    (auto simp: update_conv' split: if_splits)

lemma registry_get_unregister:
  "registry_get m (registry_unregister n reg) = (if m = n then Inl (JobNotRegisteredError n) else registry_get m reg)"
  by (auto simp: registry_get_def registry_unregister_def delete_conv' split: option.splits)

subsection \<open>The waiting loop\<close>

lemma wait_loop_returns:
  assumes "p \<in> set ps" and "p_done p \<noteq> None \<or> deadline \<le> p_now p"
  shows "\<exists>r s'. wait_loop tok msg grace deadline cd ps s = Done r s'"
  using assms(1)
proof (induction ps arbitrary: cd s)
  case Nil
  then show ?case by simp
next
  case (Cons q qs)
  show ?case
  proof (cases "q = p")
    case True
    with assms(2) show ?thesis by (auto simp: Let_def split: option.splits)
  next
    case False
    with Cons.prems have "p \<in> set qs" by simp
    then have IH: "\<exists>r s'. wait_loop tok msg grace deadline c qs t = Done r s'" for c t
      by (rule Cons.IH)
    show ?thesis
      by (simp add: Let_def IH split: option.splits)
  qed
qed

text \<open>A result that is not the handler's is a timeout at or after the deadline, or the end of the grace
  period.\<close>

lemma wait_loop_result:
  "wait_loop tok msg grace deadline cd ps s = Done r s' \<Longrightarrow>
     (\<exists>p \<in> set ps. p_done p = Some r)
     \<or> (r = Inl (TimeoutError msg) \<and> (\<exists>p \<in> set ps. deadline \<le> p_now p) \<and> (\<exists>t. s' = tk_cancel tok t))
     \<or> (r = Inl (JobCanceledError grace_message) \<and> tk_is_cancelled tok s')"
proof (induction tok msg grace deadline cd ps s rule: wait_loop.induct)
  case (1 tok msg grace deadline cd s)
  then show ?case by simp
next
  case (2 tok msg grace deadline cd p ps s)
  consider (fin) x where "p_done p = Some x"
    | (late) "p_done p = None" "deadline \<le> p_now p"
    | (cancel) "p_done p = None" "\<not> deadline \<le> p_now p" "tk_is_cancelled tok (p_env p s)"
    | (live) "p_done p = None" "\<not> deadline \<le> p_now p" "\<not> tk_is_cancelled tok (p_env p s)"
    by (cases "p_done p") auto
  then show ?case
  proof cases
    case cancel
    show ?thesis
    proof (cases cd)
      case None
      with cancel 2 show ?thesis by (auto simp: Let_def)
    next
      case (Some c)
      with cancel 2 show ?thesis by (auto simp: Let_def split: if_splits)
    qed
  qed (use 2 in \<open>auto simp: Let_def\<close>)
qed

text \<open>A handler that is neither done nor cancelled before the first poll at or after the deadline times
  out there, in the state the other threads have left.\<close>

lemma wait_loop_timeout:
  assumes "\<forall>p \<in> set ps. p_done p = None \<and> p_now p < deadline" and "p_done q = None" and "deadline \<le> p_now q"
    and "\<not> tk_is_cancelled tok s" and "\<And>p t. p \<in> set ps \<Longrightarrow> \<not> tk_is_cancelled tok t \<Longrightarrow> \<not> tk_is_cancelled tok (p_env p t)"
  shows "wait_loop tok msg grace deadline cd (ps @ q # qs) s
    = Done (Inl (TimeoutError msg)) (tk_cancel tok (fold p_env (ps @ [q]) s))"
  using assms
proof (induction ps arbitrary: s)
  case (Cons p ps)
  then have "\<not> tk_is_cancelled tok (p_env p s)" by simp
  with Cons show ?case by (auto simp: Let_def)
qed (simp add: Let_def)

text \<open>Once cancellation is seen, the loop ends no later than the first poll past the grace period.\<close>

lemma wait_loop_grace:
  assumes "p \<in> set ps" and "c \<le> p_now p" and "tk_is_cancelled tok s"
    and "\<And>q t. q \<in> set ps \<Longrightarrow> tk_is_cancelled tok t \<Longrightarrow> tk_is_cancelled tok (p_env q t)"
  shows "\<exists>r s'. wait_loop tok msg grace deadline (Some c) ps s = Done r s'"
  using assms
proof (induction ps arbitrary: s)
  case Nil
  then show ?case by simp
next
  case (Cons q qs)
  from Cons.prems(3,4) have "tk_is_cancelled tok (p_env q s)" by simp
  with Cons show ?case by (cases "p_done q") (auto simp: Let_def)
qed

subsection \<open>One attempt\<close>

lemma start_execution_eq:
  "start_execution job rid fresh t n = Inr ((new_execution (j_id job)
     (case rid of Some r \<Rightarrow> (if r = [] then fresh else r) | None \<Rightarrow> fresh))
       \<lparr>x_status := RUNNING, x_started_at := Some t, x_attempt := n\<rparr>)"
  by (simp add: start_execution_def Let_def)

definition outcome_status :: "RetryPolicy \<Rightarrow> int \<Rightarrow> exn + unit \<Rightarrow> JobStatus" where
  "outcome_status policy n outcome =
     (case outcome of Inr _ \<Rightarrow> SUCCESS | Inl (JobCanceledError _) \<Rightarrow> CANCELED
      | Inl _ \<Rightarrow> if n < max_attempts policy then RETRYING else FAILED)"

definition outcome_message :: "exn + unit \<Rightarrow> pystr option" where
  "outcome_message outcome = (case outcome of Inr _ \<Rightarrow> None | Inl e \<Rightarrow> Some (exn_str e))"

lemma conclude_attempt_eq:
  assumes "x_status x = RUNNING" and "x_error_message x = None"
  shows "conclude_attempt x p n f outcome =
    Inr \<lparr>ar_execution = x\<lparr>x_error_message := outcome_message outcome, x_status := outcome_status p n outcome,
                         x_finished_at := Some f\<rparr>,
         ar_retry_policy = p, ar_should_retry = (outcome_status p n outcome = RETRYING)\<rparr>"
proof (cases outcome)
  case (Inl e)
  with assms show ?thesis
    by (cases e) (auto simp: conclude_attempt_def outcome_status_def outcome_message_def allows_retry_def Let_def)
next
  case (Inr u)
  with assms show ?thesis
    by (cases x) (simp add: conclude_attempt_def outcome_status_def outcome_message_def)
qed

text \<open>The execution of a finished attempt.\<close>

definition attempt_execution ::
  "Job \<Rightarrow> RegisteredHandler \<Rightarrow> 's attempt_env \<Rightarrow> int \<Rightarrow> pystr option \<Rightarrow> JobStatus \<Rightarrow> JobExecution" where
  "attempt_execution job h env n rid st =
     (new_execution (j_id job) (case rid of Some r \<Rightarrow> (if r = [] then e_fresh_run_id env else r)
        | None \<Rightarrow> e_fresh_run_id env))
       \<lparr>x_status := st, x_started_at := Some (e_started env), x_attempt := n,
        x_timeout_seconds := Some (resolve_timeout_seconds job h),
        x_max_attempts := Some (max_attempts (resolve_retry_policy job h))\<rparr>"

definition attempt_result ::
  "Job \<Rightarrow> RegisteredHandler \<Rightarrow> 's attempt_env \<Rightarrow> int \<Rightarrow> pystr option \<Rightarrow> exn + unit \<Rightarrow> AttemptResult" where
  "attempt_result job h env n rid outcome =
     (let p = resolve_retry_policy job h; st = outcome_status p n outcome
      in \<lparr>ar_execution = (attempt_execution job h env n rid st)
            \<lparr>x_error_message := outcome_message outcome, x_finished_at := Some (e_finished env)\<rparr>,
          ar_retry_policy = p, ar_should_retry = (st = RETRYING)\<rparr>)"

lemma started_execution_eq:
  "start_execution job rid (e_fresh_run_id env) (e_started env) n = Inr x \<Longrightarrow>
     x\<lparr>x_timeout_seconds := Some (resolve_timeout_seconds job h),
       x_max_attempts := Some (max_attempts (resolve_retry_policy job h))\<rparr>
     = attempt_execution job h env n rid RUNNING"
  by (auto simp: start_execution_eq attempt_execution_def new_execution_def)

lemma conclude_attempt_execution:
  "conclude_attempt (attempt_execution job h env n rid RUNNING) (resolve_retry_policy job h) n (e_finished env) out
     = Inr (attempt_result job h env n rid out)"
  by (subst conclude_attempt_eq)
    (simp_all add: attempt_execution_def attempt_result_def new_execution_def Let_def)

text \<open>\<open>execute_attempt\<close> in one line per branch.\<close>

lemma execute_attempt_eq:
  "execute_attempt fmt reg tok cb grace env job n rid s =
     (case registry_get (j_handler job) reg of
        Inl e \<Rightarrow> Done (Inl e) s
      | Inr h \<Rightarrow>
          (case (case cb of None \<Rightarrow> (Inr (), s) | Some f \<Rightarrow> f (attempt_execution job h env n rid RUNNING) s) of
             (Inl e, s1) \<Rightarrow> Done (Inl e) s1
           | (Inr _, s1) \<Rightarrow>
               (case (case e_submit_error env of Some e \<Rightarrow> Done (Inl e) s1
                      | None \<Rightarrow> wait_for fmt tok (resolve_timeout_seconds job h) grace (e_clock env)
                                 (e_polls env) s1) of
                  Waiting s2 \<Rightarrow> Waiting s2
                | Done outcome s2 \<Rightarrow> Done (Inr (attempt_result job h env n rid outcome)) s2)))"
proof -
  obtain x where x: "start_execution job rid (e_fresh_run_id env) (e_started env) n = Inr x"
    by (simp add: start_execution_eq)
  show ?thesis
    by (cases "registry_get (j_handler job) reg")
      (simp_all add: execute_attempt_def x Let_def started_execution_eq [OF x] conclude_attempt_execution
        cong: prod.case_cong sum.case_cong progress.case_cong option.case_cong)
qed

lemma execute_attempt_Done:
  assumes "execute_attempt fmt reg tok cb grace env job n rid s = Done (Inr res) s'"
  obtains h outcome where "registry_get (j_handler job) reg = Inr h"
    and "res = attempt_result job h env n rid outcome"
  using assms by (auto simp: execute_attempt_eq split: sum.splits prod.splits progress.splits)

lemma attempt_result_sel [simp]:
  "x_job_id (ar_execution (attempt_result job h env n rid out)) = j_id job"
  "x_attempt (ar_execution (attempt_result job h env n rid out)) = n"
  "x_status (ar_execution (attempt_result job h env n rid out)) = outcome_status (resolve_retry_policy job h) n out"
  "x_error_message (ar_execution (attempt_result job h env n rid out)) = outcome_message out"
  "x_max_attempts (ar_execution (attempt_result job h env n rid out)) = Some (max_attempts (resolve_retry_policy job h))"
  "x_next_retry_at (ar_execution (attempt_result job h env n rid out)) = None"
  "\<not> x_cancel_requested (ar_execution (attempt_result job h env n rid out))"
  "x_started_at (ar_execution (attempt_result job h env n rid out)) = Some (e_started env)"
  "x_finished_at (ar_execution (attempt_result job h env n rid out)) = Some (e_finished env)"
  "ar_retry_policy (attempt_result job h env n rid out) = resolve_retry_policy job h"
  "ar_should_retry (attempt_result job h env n rid out) \<longleftrightarrow> outcome_status (resolve_retry_policy job h) n out = RETRYING"
  "x_run_id (ar_execution (attempt_result job h env n (Some r) out)) = (if r = [] then e_fresh_run_id env else r)"
  by (simp_all add: attempt_result_def attempt_execution_def Let_def)

lemma attempt_execution_sel [simp]:
  "x_job_id (attempt_execution job h env n rid st) = j_id job" "x_attempt (attempt_execution job h env n rid st) = n"
  "x_status (attempt_execution job h env n rid st) = st"
  "x_run_id (attempt_execution job h env n (Some r) st) = (if r = [] then e_fresh_run_id env else r)"
  by (simp_all add: attempt_execution_def)

lemma outcome_status_cases:
  "outcome_status p n out \<in> {SUCCESS, CANCELED, RETRYING, FAILED}"
  "outcome_status p n out = RETRYING \<Longrightarrow> n < max_attempts p"
  "outcome_status p n out = FAILED \<Longrightarrow> max_attempts p \<le> n"
  "outcome_status p n out = SUCCESS \<longleftrightarrow> out = Inr ()"
  by (auto simp: outcome_status_def split: sum.splits exn.splits if_splits)

text \<open>A predicate on the shared state that the callback, the other threads and the firing of the token keep
  is kept by the attempt.\<close>

fun state_of :: "('s, 'a) progress \<Rightarrow> 's" where
  "state_of (Waiting s) = s"
| "state_of (Done r s) = s"

lemma wait_loop_preserves:
  assumes "\<And>p t. p \<in> set ps \<Longrightarrow> I t \<Longrightarrow> I (p_env p t)" and "\<And>t. I t \<Longrightarrow> I (tk_cancel tok t)" and "I s"
  shows "I (state_of (wait_loop tok msg grace deadline cd ps s))"
  using assms
proof (induction tok msg grace deadline cd ps s rule: wait_loop.induct)
  case (1 tok msg grace deadline cd s)
  then show ?case by simp
next
  case (2 tok msg grace deadline cd p ps s)
  have env: "I (p_env p s)" using "2.prems" by simp
  consider (fin) r where "p_done p = Some r" | (late) "p_done p = None" "deadline \<le> p_now p"
    | (cancel) "p_done p = None" "\<not> deadline \<le> p_now p" "tk_is_cancelled tok (p_env p s)"
    | (live) "p_done p = None" "\<not> deadline \<le> p_now p" "\<not> tk_is_cancelled tok (p_env p s)"
    by (cases "p_done p") auto
  then show ?case
  proof cases
    case cancel
    with 2 env show ?thesis by (cases cd) (auto simp: Let_def)
  qed (use 2 env in \<open>auto simp: Let_def\<close>)
qed

lemma execute_attempt_preserves:
  assumes "\<And>p t. p \<in> set (e_polls env) \<Longrightarrow> I t \<Longrightarrow> I (p_env p t)" and "\<And>t. I t \<Longrightarrow> I (tk_cancel tok t)"
    and "\<And>x. I (snd (f x s))" and "I s"
  shows "I (state_of (execute_attempt fmt reg tok (Some f) grace env job n rid s))"
proof (cases "registry_get (j_handler job) reg")
  case (Inl e)
  with assms(4) show ?thesis by (simp add: execute_attempt_eq)
next
  case (Inr h)
  obtain r s1 where f: "f (attempt_execution job h env n rid RUNNING) s = (r, s1)" by fastforce
  with assms(3) have s1: "I s1" by (metis snd_conv)
  show ?thesis
  proof (cases r)
    case (Inl e)
    with Inr f s1 show ?thesis by (simp add: execute_attempt_eq)
  next
    case ok: (Inr u)
    have "I (state_of (wait_for fmt tok (resolve_timeout_seconds job h) grace (e_clock env) (e_polls env) s1))"
      unfolding wait_for_def by (rule wait_loop_preserves) (use assms(1,2) s1 in auto)
    with Inr f ok s1 show ?thesis
      by (cases "e_submit_error env") (auto simp: execute_attempt_eq split: progress.splits)
  qed
qed

text \<open>The state in which the attempt waits or ends is one the callback left, changed by other threads.\<close>

lemma execute_attempt_after_start:
  assumes "registry_get (j_handler job) reg = Inr h"
    and "f (attempt_execution job h env n rid RUNNING) s = (Inr u, s1)"
    and "\<And>p t. p \<in> set (e_polls env) \<Longrightarrow> I t \<Longrightarrow> I (p_env p t)" and "\<And>t. I t \<Longrightarrow> I (tk_cancel tok t)" and "I s1"
  shows "I (state_of (execute_attempt fmt reg tok (Some f) grace env job n rid s))"
proof -
  have "I (state_of (wait_for fmt tok (resolve_timeout_seconds job h) grace (e_clock env) (e_polls env) s1))"
    unfolding wait_for_def by (rule wait_loop_preserves) (use assms(3-5) in auto)
  with assms(1,2,5) show ?thesis
    by (cases "e_submit_error env") (auto simp: execute_attempt_eq split: progress.splits)
qed

lemma outcome_message_None: "outcome_message out = None \<longleftrightarrow> out = Inr ()"
  by (auto simp: outcome_message_def split: sum.splits)

section \<open>Properties\<close>

text \<open>C16: An attempt that returns describes what happened. Its execution belongs to the job and to the
  attempt number asked for; its status is the end of an accepted path from PENDING through QUEUED and
  RUNNING; it is SUCCESS exactly when there is no error message; the caller is told to retry exactly when
  the status is RETRYING, which means that the attempt number is below the maximum of the policy in
  force, and FAILED means that it is not.\<close>

theorem execute_attempt_outcome:
  assumes "execute_attempt fmt reg tok on_started grace env job n run_id s = Done (Inr res) s'"
  shows "x_job_id (ar_execution res) = j_id job \<and> x_attempt (ar_execution res) = n
    \<and> status_path PENDING [QUEUED, RUNNING, x_status (ar_execution res)] (x_status (ar_execution res))
    \<and> (x_status (ar_execution res) = SUCCESS \<longleftrightarrow> x_error_message (ar_execution res) = None)
    \<and> (ar_should_retry res \<longleftrightarrow> x_status (ar_execution res) = RETRYING)
    \<and> (ar_should_retry res \<longrightarrow> n < max_attempts (ar_retry_policy res))
    \<and> (x_status (ar_execution res) = FAILED \<longrightarrow> max_attempts (ar_retry_policy res) \<le> n)
    \<and> x_max_attempts (ar_execution res) = Some (max_attempts (ar_retry_policy res))
    \<and> x_finished_at (ar_execution res) = Some (e_finished env)"
proof -
  from assms obtain h out where res: "res = attempt_result job h env n run_id out"
    by (rule execute_attempt_Done)
  let ?st = "outcome_status (resolve_retry_policy job h) n out"
  have "status_path PENDING ([] @ [QUEUED]) QUEUED"
    by (rule path_step [OF path_refl]) (simp add: status_step_iff)
  then have "status_path PENDING ([QUEUED] @ [RUNNING]) RUNNING"
    by (intro path_step [of _ _ QUEUED]) (simp_all add: status_step_iff)
  then have "status_path PENDING ([QUEUED, RUNNING] @ [?st]) ?st"
    using outcome_status_cases(1) [of "resolve_retry_policy job h" n out]
    by (intro path_step [of _ _ RUNNING]) (auto simp: status_step_iff)
  then show ?thesis
    by (auto simp: res outcome_message_None outcome_status_cases)
qed

definition demo_registry :: TaskRegistry where
  "demo_registry = [(lit ''demo'', \<lparr>rh_name = lit ''demo'', rh_func = 0, rh_description = [],
     rh_timeout_seconds = None, rh_retry_policy = None\<rparr>)]"

definition no_token :: "'s token_ops" where
  "no_token = \<lparr>tk_cancel = (\<lambda>s. s), tk_is_cancelled = (\<lambda>s. False)\<rparr>"

definition failing_env :: "'s attempt_env" where
  "failing_env = \<lparr>e_fresh_run_id = lit ''run_1'', e_started = utc 5, e_submit_error = None, e_clock = 0,
     e_polls = [\<lparr>p_env = (\<lambda>s. s), p_done = None, p_now = 1\<rparr>,
                \<lparr>p_env = (\<lambda>s. s), p_done = Some (Inl (OtherError (lit ''boom''))), p_now = 2\<rparr>],
     e_finished = utc 7\<rparr>"

lemmas demo_defs = demo_registry_def no_token_def failing_env_def default_retry_policy_def

lemma demo_attempt:
  "execute_attempt (\<lambda>x. []) demo_registry no_token None 5 failing_env demo_job 1 None s =
     Done (Inr (attempt_result demo_job (snd (hd demo_registry)) (failing_env :: 's attempt_env) 1 None
       (Inl (OtherError (lit ''boom''))))) (s :: 's)"
  by (simp add: execute_attempt_eq registry_get_def wait_for_def demo_defs resolve_timeout_seconds_def Let_def)

theorem execute_attempt_outcome_witness:
  "\<exists>res. execute_attempt (\<lambda>x. []) demo_registry no_token None 5 failing_env demo_job 1 None 0 = Done (Inr res) (0 :: nat)
     \<and> x_status (ar_execution res) = RETRYING \<and> ar_should_retry res \<and> 1 < max_attempts (ar_retry_policy res)"
proof -
  let ?res = "attempt_result demo_job (snd (hd demo_registry)) (failing_env :: nat attempt_env) 1 None
    (Inl (OtherError (lit ''boom'')))"
  have st: "x_status (ar_execution ?res) = RETRYING"
    by (simp add: outcome_status_def resolve_retry_policy_def demo_defs)
  from execute_attempt_outcome [OF demo_attempt [of 0]] st
  have "ar_should_retry ?res" "1 < max_attempts (ar_retry_policy ?res)" by blast+
  with st demo_attempt [of 0] show ?thesis by blast
qed

text \<open>C17: An attempt always comes to an end: if the handler is registered, the callback that records the
  start, if there is one, succeeds on this execution, and the polls reach the deadline (start of the wait plus the timeout in
  force) or the end of the handler, then \<open>execute_attempt\<close> returns a result, whatever other threads do in the
  meantime.\<close>

theorem execute_attempt_returns:
  assumes "registry_get (j_handler job) reg = Inr h"
    and "case on_started of None \<Rightarrow> True | Some f \<Rightarrow> fst (f (attempt_execution job h env n run_id RUNNING) s) = Inr ()"
    and "p \<in> set (e_polls env)"
    and "p_done p \<noteq> None \<or> e_clock env + resolve_timeout_seconds job h \<le> p_now p"
  shows "\<exists>res s'. execute_attempt fmt reg tok on_started grace env job n run_id s = Done (Inr res) s'"
proof -
  obtain s1 where f: "(case on_started of None \<Rightarrow> (Inr (), s) | Some f \<Rightarrow> f (attempt_execution job h env n run_id RUNNING) s) = (Inr (), s1)"
    using assms(2) by (cases on_started) (auto simp: prod_eq_iff)
  obtain r s2 where "wait_for fmt tok (resolve_timeout_seconds job h) grace (e_clock env) (e_polls env) s1 = Done r s2"
    using wait_loop_returns [OF assms(3,4)] unfolding wait_for_def by blast
  with f assms(1) show ?thesis
    by (cases "e_submit_error env") (simp_all add: execute_attempt_eq)
qed

theorem execute_attempt_returns_witness:
  "\<exists>res s'. execute_attempt (\<lambda>x. []) demo_registry no_token (Some (\<lambda>x s. (Inr (), s))) 5 failing_env demo_job 1 None (0 :: nat)
     = Done (Inr res) s'"
  by (rule execute_attempt_returns [where h = "snd (hd demo_registry)"
        and p = "\<lparr>p_env = (\<lambda>s. s), p_done = Some (Inl (OtherError (lit ''boom''))), p_now = 2\<rparr>"])
    (simp_all add: demo_defs registry_get_def)

text \<open>C18: A handler that is neither finished nor cancelled when the deadline is first seen is given up
  with a timeout. Suppose the start is recorded, the token is not fired then, and other threads do not fire it before the poll that sees the
  deadline. Then the attempt is RETRYING while attempts remain and FAILED otherwise, its message starts
  with \<open>TIMEOUT_ERROR_PREFIX\<close> (by which the alert rules recognise timeouts), and it ends in the state the other threads have left, with the token
  fired, so that a cooperative handler stops.\<close>

theorem execute_attempt_timeout:
  assumes "registry_get (j_handler job) reg = Inr h" and "e_submit_error env = None"
    and "e_polls env = ps @ q # qs"
    and "\<forall>p \<in> set ps. p_done p = None \<and> p_now p < e_clock env + resolve_timeout_seconds job h"
    and "p_done q = None" and "e_clock env + resolve_timeout_seconds job h \<le> p_now q"
    and "(case on_started of None \<Rightarrow> (Inr (), s) | Some f \<Rightarrow> f (attempt_execution job h env n run_id RUNNING) s) = (Inr (), begun)"
    and "\<not> tk_is_cancelled tok begun"
    and "\<And>p t. p \<in> set ps \<Longrightarrow> \<not> tk_is_cancelled tok t \<Longrightarrow> \<not> tk_is_cancelled tok (p_env p t)"
    and "\<And>t. tk_is_cancelled tok (tk_cancel tok t)"
  shows "\<exists>res s' rest. execute_attempt fmt reg tok on_started grace env job n run_id s = Done (Inr res) s'
    \<and> s' = tk_cancel tok (fold p_env (ps @ [q]) begun) \<and> tk_is_cancelled tok s'
    \<and> x_status (ar_execution res) = (if n < max_attempts (resolve_retry_policy job h) then RETRYING else FAILED)
    \<and> ar_should_retry res = (n < max_attempts (resolve_retry_policy job h))
    \<and> x_error_message (ar_execution res) = Some (TIMEOUT_ERROR_PREFIX @ rest)"
proof -
  let ?msg = "timeout_message fmt (resolve_timeout_seconds job h)" and ?t = "tk_cancel tok (fold p_env (ps @ [q]) begun)"
  have "wait_for fmt tok (resolve_timeout_seconds job h) grace (e_clock env) (e_polls env) begun = Done (Inl (TimeoutError ?msg)) ?t"
    unfolding wait_for_def assms(3) by (rule wait_loop_timeout [OF assms(4-6,8,9)])
  then have "execute_attempt fmt reg tok on_started grace env job n run_id s =
      Done (Inr (attempt_result job h env n run_id (Inl (TimeoutError ?msg)))) ?t"
    using assms(1,2,7) by (simp add: execute_attempt_eq)
  then show ?thesis
    using assms(10) by (auto simp: outcome_status_def outcome_message_def timeout_message_def)
qed

text \<open>A token of \<^verbatim>\<open>domain/cancel.py\<close>, in the table of active runs.\<close>

definition token_in_runs :: "token \<Rightarrow> ActiveRuns token_ops" where
  "token_in_runs t = \<lparr>tk_cancel = token_cancel t, tk_is_cancelled = token_is_cancelled t\<rparr>"

definition no_runs :: ActiveRuns where
  "no_runs = \<lparr>fired = (\<lambda>t. False), next_token = 0, tokens = []\<rparr>"

text \<open>Another run is registered while the handler hangs.\<close>

definition stuck_env :: "ActiveRuns attempt_env" where
  "stuck_env = failing_env\<lparr>e_polls := [\<lparr>p_env = active_register (lit ''run_2'') 7, p_done = None, p_now = 3\<rparr>,
     \<lparr>p_env = (\<lambda>s. s), p_done = None, p_now = 11\<rparr>]\<rparr>"

theorem execute_attempt_timeout_witness:
  "\<exists>res s' rest. execute_attempt (\<lambda>x. []) demo_registry (token_in_runs 0) None 5 stuck_env demo_job 3 None no_runs = Done (Inr res) s'
    \<and> token_is_cancelled 0 s' \<and> \<not> token_is_cancelled 7 s'
    \<and> x_status (ar_execution res) = FAILED \<and> x_error_message (ar_execution res) = Some (TIMEOUT_ERROR_PREFIX @ rest)"
  using execute_attempt_timeout [where job = demo_job and reg = demo_registry and h = "snd (hd demo_registry)" and env = stuck_env
      and ps = "[\<lparr>p_env = active_register (lit ''run_2'') 7, p_done = None, p_now = 3\<rparr>]"
      and q = "\<lparr>p_env = (\<lambda>s. s), p_done = None, p_now = 11\<rparr>" and qs = "[]" and on_started = None and n = 3 and run_id = None
      and s = no_runs and begun = no_runs and tok = "token_in_runs 0" and fmt = "\<lambda>x. []" and grace = 5]
  by (force simp: demo_defs stuck_env_def registry_get_def resolve_timeout_seconds_def resolve_retry_policy_def token_in_runs_def no_runs_def
      token_is_cancelled_def token_cancel_def active_register_def)

end
