(* ===== verification/Log_Collector.thy ===== *)
theory Log_Collector
  imports Executor
begin

text \<open>
  The log collector (\<^verbatim>\<open>infrastructure/logging/collector.py\<close>): log records that carry a run id are buffered
  per run until the caller that persists the execution takes them.
\<close>

record LogRecord =
  lg_run_id :: "pystr option"
  lg_name :: pystr
  lg_levelname :: pystr
  lg_message :: pystr
  lg_created :: datetime

definition JOB_LOGGER_PREFIX :: pystr where
  "JOB_LOGGER_PREFIX = lit ''task_platform.job.''"

text \<open>\<open>lg_run_id\<close> is the attribute \<^verbatim>\<open>run_id\<close> of the record where it is a string.\<close>

definition extract_run_id :: "LogRecord \<Rightarrow> pystr option" where
  "extract_run_id r =
     (case lg_run_id r of
        Some i \<Rightarrow> Some i
      | None \<Rightarrow>
          if take (length JOB_LOGGER_PREFIX) (lg_name r) = JOB_LOGGER_PREFIX
          then Some (drop (length JOB_LOGGER_PREFIX) (lg_name r)) else None)"

type_synonym log_buffer = "(pystr \<times> JobLog list) list"

definition buffered :: "pystr \<Rightarrow> log_buffer \<Rightarrow> JobLog list" where
  "buffered run_id b = (case map_of b run_id of None \<Rightarrow> [] | Some ls \<Rightarrow> ls)"

definition emit :: "LogRecord \<Rightarrow> log_buffer \<Rightarrow> log_buffer" where
  "emit r b =
     (case extract_run_id r of
        None \<Rightarrow> b
      | Some run_id \<Rightarrow>
          AList.update run_id
            (buffered run_id b @ [\<lparr>l_run_id = run_id, l_attempt = 0, l_level = lg_levelname r,
               l_message = lg_message r, l_created_at = lg_created r\<rparr>]) b)"

definition drain_logs :: "pystr \<Rightarrow> int \<Rightarrow> log_buffer \<Rightarrow> JobLog list \<times> log_buffer" where
  "drain_logs run_id attempt b = (map (\<lambda>l. l\<lparr>l_attempt := attempt\<rparr>) (buffered run_id b), AList.delete run_id b)"

lemma buffered_emit:
  "buffered r (emit rec b) = (if extract_run_id rec = Some r
     then buffered r b @ [\<lparr>l_run_id = r, l_attempt = 0, l_level = lg_levelname rec,
        l_message = lg_message rec, l_created_at = lg_created rec\<rparr>]
     else buffered r b)"
  by (auto simp: emit_def buffered_def update_conv' split: option.splits)

lemma buffered_delete: "buffered r (AList.delete r' b) = (if r = r' then [] else buffered r b)"
  by (auto simp: buffered_def delete_conv')

text \<open>A handler that logs through its context is attributed to its run.\<close>

lemma context_logger_run_id:
  "lg_run_id r = None \<Longrightarrow> lg_name r = logger_name (build_context run_id tok) \<Longrightarrow> extract_run_id r = Some run_id"
  by (simp add: extract_run_id_def build_context_def JOB_LOGGER_PREFIX_def)

text \<open>Every buffered line belongs to the run it is filed under.\<close>

definition buffer_ok :: "log_buffer \<Rightarrow> bool" where
  "buffer_ok b \<longleftrightarrow> (\<forall>r. \<forall>l \<in> set (buffered r b). l_run_id l = r)"

lemma buffer_ok_emit: "buffer_ok b \<Longrightarrow> buffer_ok (emit rec b)"
  by (auto simp: buffer_ok_def buffered_emit)

lemma drain_logs_key:
  "buffer_ok b \<Longrightarrow> drain_logs r n b = (ls, b') \<Longrightarrow> buffer_ok b' \<and> (\<forall>l \<in> set ls. l_run_id l = r \<and> l_attempt l = n)"
  by (auto simp: drain_logs_def buffer_ok_def buffered_delete split: if_splits)

end
