(* ===== verification/Worker.thy ===== *)
theory Worker
  imports Task_Queue Log_Collector
begin

text \<open>
  The worker (\<^verbatim>\<open>worker.py\<close>): one message is taken from the queue, checked for duplication, executed, persisted and
  only then acknowledged.

  The state \<open>world\<close> is everything the worker shares with other threads and processes: the database, the
  queue, the active runs with their tokens, and the buffered log lines. The record \<open>step_env\<close> holds the inputs of one
  step: clock readings, what the commit of each transaction raises (if anything), and the polls of the
  attempt, through which other threads act while the handler runs (the heartbeat of the lease, the
  cancel watcher, other workers). A result \<open>Waiting\<close> is a worker that is still executing, or has crashed.
\<close>

section \<open>State, configuration and inputs\<close>

datatype Outcome = FINISHED | RETRY_SCHEDULED | DROPPED | UNRUNNABLE | DUPLICATE

record ProcessResult =
  pr_outcome :: Outcome
  pr_execution :: "JobExecution option"

definition HANDLED_STATUSES :: "JobStatus set" where
  "HANDLED_STATUSES = {SUCCESS, FAILED, CANCELED, RETRYING, RECOVERABLE}"

record Worker =
  wk_consumer :: pystr
  wk_stale_after :: "pyfloat option"
  wk_reclaim_interval :: pyfloat
  wk_heartbeat_interval :: "pyfloat option"

definition Worker_init :: "pystr \<Rightarrow> pyfloat option \<Rightarrow> pyfloat \<Rightarrow> pyfloat option \<Rightarrow> exn + Worker" where
  "Worker_init consumer stale_after reclaim_interval heartbeat =
     (if (case stale_after of None \<Rightarrow> False | Some x \<Rightarrow> x \<le> 0)
      then Inl (ValueError (lit ''stale_after_seconds must be > 0''))
      else if (case heartbeat of None \<Rightarrow> False | Some x \<Rightarrow> x \<le> 0)
      then Inl (ValueError (lit ''heartbeat_interval_seconds must be > 0''))
      else if (case (stale_after, heartbeat) of (Some sa, Some h) \<Rightarrow> h \<ge> sa | _ \<Rightarrow> False)
      then Inl (ValueError (lit ''heartbeat interval must be shorter than stale_after''))
      else Inr \<lparr>wk_consumer = consumer, wk_stale_after = stale_after,
                wk_reclaim_interval = reclaim_interval, wk_heartbeat_interval = heartbeat\<rparr>)"

record 'q world =
  w_db :: db
  w_queue :: 'q
  w_active :: ActiveRuns
  w_buffer :: log_buffer
  w_next_reclaim_at :: pyfloat

record 'q step_env =
  se_monotonic :: pyfloat
  se_monotonic_after :: pyfloat
  se_queue_clock :: pyfloat
  se_during :: "'q \<Rightarrow> 'q"
  se_lookup_error :: "exn option"
  se_duplicate_error :: "exn option"
  se_started_error :: "exn option"
  se_final_error :: "exn option"
  se_attempt :: "'q world attempt_env"
  se_now :: datetime

section \<open>Persistence\<close>

definition persist_started :: "exn option \<Rightarrow> JobExecution \<Rightarrow> 'q world \<Rightarrow> (exn + unit) \<times> 'q world" where
  "persist_started commit_error x w =
     (let (r, d) = session_scope commit_error (exec_upsert x) (w_db w) in (r, w\<lparr>w_db := d\<rparr>))"

definition upsert_with_logs :: "JobExecution \<Rightarrow> JobLog list \<Rightarrow> unit txn" where
  "upsert_with_logs x logs d =
     (case exec_upsert x d of
        Inl e \<Rightarrow> Inl e
      | Inr (_, d1) \<Rightarrow> if logs \<noteq> [] then log_add_many logs d1 else Inr ((), d1))"

definition persist_final :: "exn option \<Rightarrow> JobExecution \<Rightarrow> 'q world \<Rightarrow> (exn + unit) \<times> 'q world" where
  "persist_final commit_error x w =
     (let (logs, b) = drain_logs (x_run_id x) (x_attempt x) (w_buffer w);
          (r, d) = session_scope commit_error (upsert_with_logs x logs) (w_db w)
      in (r, w\<lparr>w_buffer := b, w_db := d\<rparr>))"

section \<open>Executing one message\<close>

definition unrunnable :: "datetime \<Rightarrow> Job \<Rightarrow> TaskMessage \<Rightarrow> exn + JobExecution" where
  "unrunnable now job m =
     (let x = (new_execution (j_id job) (m_run_id m))\<lparr>x_attempt := m_attempt m\<rparr> in
      case transition x QUEUED of Inl e \<Rightarrow> Inl e | Inr x1 \<Rightarrow>
      (case transition x1 RUNNING of Inl e \<Rightarrow> Inl e | Inr x2 \<Rightarrow>
      (case transition x2 FAILED of Inl e \<Rightarrow> Inl e | Inr x3 \<Rightarrow>
         Inr (x3\<lparr>x_started_at := Some now, x_finished_at := Some now,
                 x_error_message := Some (lit ''handler not registered: '' @ j_handler job)\<rparr>))))"

definition token_in_world :: "token \<Rightarrow> 'q world token_ops" where
  "token_in_world t =
     \<lparr>tk_cancel = (\<lambda>w. w\<lparr>w_active := token_cancel t (w_active w)\<rparr>),
      tk_is_cancelled = (\<lambda>w. token_is_cancelled t (w_active w))\<rparr>"

definition unregister_run :: "pystr \<Rightarrow> 'q world \<Rightarrow> 'q world" where
  "unregister_run run_id w = w\<lparr>w_active := active_unregister run_id (w_active w)\<rparr>"

text \<open>The retry time of a failed attempt: \<^verbatim>\<open>utc_now() + timedelta(seconds=delay)\<close>.\<close>

definition retry_time :: "RetryPolicy \<Rightarrow> int \<Rightarrow> datetime \<Rightarrow> exn + datetime" where
  "retry_time policy attempt now =
     (case delay_for_attempt policy attempt of
        Inl e \<Rightarrow> Inl e
      | Inr delay \<Rightarrow>
          (case timedelta_seconds delay of Inl e \<Rightarrow> Inl e | Inr us \<Rightarrow> add_timedelta now us))"

definition schedule_retry :: "AttemptResult \<Rightarrow> int \<Rightarrow> datetime \<Rightarrow> exn + JobExecution" where
  "schedule_retry res attempt now =
     (if ar_should_retry res
      then (case retry_time (ar_retry_policy res) attempt now of
              Inl e \<Rightarrow> Inl e
            | Inr t \<Rightarrow> Inr ((ar_execution res)\<lparr>x_next_retry_at := Some t\<rparr>))
      else Inr (ar_execution res))"

definition execute_and_persist ::
  "(pyfloat \<Rightarrow> pystr) \<Rightarrow> TaskRegistry \<Rightarrow> 'q step_env \<Rightarrow> Job \<Rightarrow> TaskMessage \<Rightarrow> 'q world
     \<Rightarrow> ('q world, ProcessResult) progress" where
  "execute_and_persist fmt reg env job m w =
     (let (t, a) = CancelToken_new (w_active w);
          w0 = w\<lparr>w_active := active_register (m_run_id m) t a\<rparr>
      in case execute_attempt fmt reg (token_in_world t) (Some (persist_started (se_started_error env))) 5
                (se_attempt env) job (m_attempt m) (Some (m_run_id m)) w0 of
           Waiting w1 \<Rightarrow> Waiting w1
         | Done (Inl (JobNotRegisteredError n)) w1 \<Rightarrow>
             (case unrunnable (se_now env) job m of
                Inl e \<Rightarrow> Done (Inl e) (unregister_run (m_run_id m) w1)
              | Inr x \<Rightarrow>
                  (case persist_final (se_final_error env) x w1 of
                     (Inl e, w2) \<Rightarrow> Done (Inl e) (unregister_run (m_run_id m) w2)
                   | (Inr _, w2) \<Rightarrow>
                       Done (Inr \<lparr>pr_outcome = UNRUNNABLE, pr_execution = Some x\<rparr>) (unregister_run (m_run_id m) w2)))
         | Done (Inl e) w1 \<Rightarrow> Done (Inl e) (unregister_run (m_run_id m) w1)
         | Done (Inr res) w1 \<Rightarrow>
             let w2 = unregister_run (m_run_id m) w1 in
             (case schedule_retry res (m_attempt m) (se_now env) of
                Inl e \<Rightarrow> Done (Inl e) w2
              | Inr x \<Rightarrow>
                  (case persist_final (se_final_error env) x w2 of
                     (Inl e, w3) \<Rightarrow> Done (Inl e) w3
                   | (Inr _, w3) \<Rightarrow>
                       Done (Inr \<lparr>pr_outcome = (if ar_should_retry res then RETRY_SCHEDULED else FINISHED),
                                  pr_execution = Some x\<rparr>) w3)))"

section \<open>Processing a delivery\<close>

definition check_duplicate ::
  "exn option \<Rightarrow> TaskMessage \<Rightarrow> db \<Rightarrow> exn + (pystr \<times> JobExecution option) option" where
  "check_duplicate commit_error m d =
     (case fst (session_scope commit_error
             (\<lambda>d. Inr ((get_attempt (m_run_id m) (m_attempt m) d,
                        case m_idempotency_key m of None \<Rightarrow> None | Some k \<Rightarrow> get_run_id k d), d)) d) of
        Inl e \<Rightarrow> Inl e
      | Inr (existing, owner) \<Rightarrow>
          Inr (case existing of
                 Some x \<Rightarrow>
                   if x_status x \<in> HANDLED_STATUSES
                   then Some (lit ''attempt already '' @ status_value (x_status x), Some x)
                   else (case owner of
                           Some r \<Rightarrow> if r \<noteq> m_run_id m then Some (lit ''idempotency key owned by '' @ r, None) else None
                         | None \<Rightarrow> None)
               | None \<Rightarrow>
                   (case owner of
                      Some r \<Rightarrow> if r \<noteq> m_run_id m then Some (lit ''idempotency key owned by '' @ r, None) else None
                    | None \<Rightarrow> None)))"

definition ack_and_return ::
  "'q TaskQueue \<Rightarrow> pystr \<Rightarrow> ProcessResult \<Rightarrow> 'q world \<Rightarrow> ('q world, ProcessResult) progress" where
  "ack_and_return Q mid res w =
     (case tq_ack Q mid (w_queue w) of
        (Inl e, q) \<Rightarrow> Done (Inl e) (w\<lparr>w_queue := q\<rparr>)
      | (Inr _, q) \<Rightarrow> Done (Inr res) (w\<lparr>w_queue := q\<rparr>))"

definition worker_process ::
  "'q TaskQueue \<Rightarrow> (pyfloat \<Rightarrow> pystr) \<Rightarrow> TaskRegistry \<Rightarrow> 'q step_env \<Rightarrow> Delivery \<Rightarrow> 'q world
     \<Rightarrow> ('q world, ProcessResult) progress" where
  "worker_process Q fmt reg env dl w =
     (let m = dl_message dl in
      case fst (session_scope (se_lookup_error env)
             (\<lambda>d. case job_get (m_job_id m) d of Inl e \<Rightarrow> Inl e | Inr j \<Rightarrow> Inr (j, d)) (w_db w)) of
        Inl e \<Rightarrow> Done (Inl e) w
      | Inr None \<Rightarrow> ack_and_return Q (dl_message_id dl) \<lparr>pr_outcome = DROPPED, pr_execution = None\<rparr> w
      | Inr (Some job) \<Rightarrow>
          (case check_duplicate (se_duplicate_error env) m (w_db w) of
             Inl e \<Rightarrow> Done (Inl e) w
           | Inr (Some (reason, existing)) \<Rightarrow>
               ack_and_return Q (dl_message_id dl) \<lparr>pr_outcome = DUPLICATE, pr_execution = existing\<rparr> w
           | Inr None \<Rightarrow>
               (case execute_and_persist fmt reg env job m w of
                  Waiting w1 \<Rightarrow> Waiting w1
                | Done (Inl e) w1 \<Rightarrow> Done (Inl e) w1
                | Done (Inr res) w1 \<Rightarrow> ack_and_return Q (dl_message_id dl) res w1)))"

definition next_delivery ::
  "'q TaskQueue \<Rightarrow> Worker \<Rightarrow> 'q step_env \<Rightarrow> pyfloat \<Rightarrow> 'q world \<Rightarrow> (exn + Delivery option) \<times> 'q world" where
  "next_delivery Q wk env block_seconds w =
     (let take_new = (\<lambda>w. let (r, q) = tq_consume Q (se_during env) (se_queue_clock env) (wk_consumer wk)
                                         block_seconds (w_queue w) in (r, w\<lparr>w_queue := q\<rparr>))
      in case wk_stale_after wk of
           Some stale_after \<Rightarrow>
             if se_monotonic env \<ge> w_next_reclaim_at w
             then (case tq_claim_stale Q (se_queue_clock env) (wk_consumer wk) stale_after 1 (w_queue w) of
                     (Inl e, q) \<Rightarrow> (Inl e, w\<lparr>w_queue := q\<rparr>)
                   | (Inr (dl # _), q) \<Rightarrow> (Inr (Some dl), w\<lparr>w_queue := q\<rparr>)
                   | (Inr [], q) \<Rightarrow>
                       take_new (w\<lparr>w_queue := q,
                         w_next_reclaim_at := se_monotonic_after env + wk_reclaim_interval wk\<rparr>))
             else take_new w
         | None \<Rightarrow> take_new w)"

definition run_once ::
  "'q TaskQueue \<Rightarrow> Worker \<Rightarrow> (pyfloat \<Rightarrow> pystr) \<Rightarrow> TaskRegistry \<Rightarrow> 'q step_env \<Rightarrow> pyfloat \<Rightarrow> 'q world
     \<Rightarrow> ('q world, ProcessResult option) progress" where
  "run_once Q wk fmt reg env block_seconds w =
     (case next_delivery Q wk env block_seconds w of
        (Inl e, w1) \<Rightarrow> Done (Inl e) w1
      | (Inr None, w1) \<Rightarrow> Done (Inr None) w1
      | (Inr (Some dl), w1) \<Rightarrow>
          (case worker_process Q fmt reg env dl w1 of
             Waiting w2 \<Rightarrow> Waiting w2
           | Done (Inl e) w2 \<Rightarrow> Done (Inl e) w2
           | Done (Inr res) w2 \<Rightarrow> Done (Inr (Some res)) w2))"

text \<open>The heartbeat thread of \<^verbatim>\<open>_lease\<close>: one renewal per clock reading until the lease is lost; an exception is
  logged and the next beat follows.\<close>

fun lease_beats :: "'q TaskQueue \<Rightarrow> pystr \<Rightarrow> pystr \<Rightarrow> pyfloat list \<Rightarrow> 'q \<Rightarrow> 'q" where
  "lease_beats Q mid consumer [] q = q"
| "lease_beats Q mid consumer (t # ts) q =
     (case tq_renew Q t mid consumer q of
        (Inr False, q') \<Rightarrow> q'
      | (Inr True, q') \<Rightarrow> lease_beats Q mid consumer ts q'
      | (Inl e, q') \<Rightarrow> lease_beats Q mid consumer ts q')"

section \<open>Lemmas\<close>

lemma exec_upsert_row:
  assumes "exec_upsert x d = Inr (a, d')"
  shows "\<exists>y. get_attempt (x_run_id x) (x_attempt x) d' = Some y \<and> x_status y = x_status x
    \<and> x_next_retry_at y = x_next_retry_at x"
proof (cases "exec_find (x_run_id x) (x_attempt x) d")
  case None
  with assms have "exec_add x d = Inr (a, d')" by (simp add: exec_upsert_def)
  from exec_add_get_attempt [OF this] show ?thesis by simp
next
  case (Some r)
  with assms have "exec_find (x_run_id x) (x_attempt x) d' = Some (update_execution_record r x)"
    by (auto simp: exec_upsert_def exec_update_def exec_find_def find_update_first_same)
  then show ?thesis by (simp add: get_attempt_def)
qed

lemma log_add_many_get_attempt: "log_add_many ls d = Inr (a, d') \<Longrightarrow> get_attempt r n d' = get_attempt r n d"
  by (auto simp: log_add_many_def get_attempt_def exec_find_def split: if_splits)

lemma upsert_with_logs_keeps_wf [intro]: "keeps_wf (upsert_with_logs x logs)"
proof (rule keeps_wfI)
  fix d a d'
  assume wf: "wf_db d" and run: "upsert_with_logs x logs d = Inr (a, d')"
  then obtain b d1 where u: "exec_upsert x d = Inr (b, d1)"
    by (auto simp: upsert_with_logs_def split: sum.splits)
  from keeps_wfD [OF exec_upsert_keeps_wf wf u] have "wf_db d1" .
  with run u keeps_wfD [OF log_add_many_keeps_wf [of logs], of d1] show "wf_db d'"
    by (auto simp: upsert_with_logs_def split: if_splits)
qed

lemma persist_started_state:
  "persist_started f x w = (r, w') \<Longrightarrow> w_queue w' = w_queue w \<and> w_buffer w' = w_buffer w
     \<and> w_active w' = w_active w \<and> (wf_db (w_db w) \<longrightarrow> wf_db (w_db w'))"
  using session_scope_keeps_wf [OF exec_upsert_keeps_wf, of "w_db w" f x]
  by (auto simp: persist_started_def split: prod.splits)

lemma persist_started_row:
  "persist_started f x w = (Inr u, w') \<Longrightarrow>
     \<exists>y. get_attempt (x_run_id x) (x_attempt x) (w_db w') = Some y \<and> x_status y = x_status x"
  using exec_upsert_row by (fastforce simp: persist_started_def session_scope_Inr split: prod.splits)

lemma persist_final_state:
  "persist_final f x w = (r, w') \<Longrightarrow> w_queue w' = w_queue w \<and> w_active w' = w_active w
     \<and> (wf_db (w_db w) \<longrightarrow> wf_db (w_db w'))"
  using session_scope_keeps_wf [OF upsert_with_logs_keeps_wf, of "w_db w" f x]
  by (auto simp: persist_final_def split: prod.splits) (metis snd_conv)

lemma upsert_with_logs_row:
  assumes "upsert_with_logs x logs d = Inr (u, d1)"
  shows "\<exists>y. get_attempt (x_run_id x) (x_attempt x) d1 = Some y \<and> x_status y = x_status x \<and> x_next_retry_at y = x_next_retry_at x"
proof -
  from assms obtain d0 where "exec_upsert x d = Inr ((), d0)" "d1 = d0 \<or> log_add_many logs d0 = Inr ((), d1)"
    by (auto simp: upsert_with_logs_def split: sum.splits if_splits)
  with exec_upsert_row [OF this(1)] show ?thesis using log_add_many_get_attempt by metis
qed

lemma persist_final_row:
  assumes "persist_final f x w = (Inr u, w')"
  shows "\<exists>y. get_attempt (x_run_id x) (x_attempt x) (w_db w') = Some y \<and> x_status y = x_status x
     \<and> x_next_retry_at y = x_next_retry_at x"
  using assms by (auto simp: persist_final_def session_scope_Inr split: prod.splits dest!: upsert_with_logs_row)

lemma persist_queue [simp]:
  "w_queue (snd (persist_started f x w)) = w_queue w" "w_queue (snd (persist_final f x w)) = w_queue w"
  by (simp_all add: persist_started_def persist_final_def split_beta)

lemma persist_wf:
  "wf_db (w_db w) \<Longrightarrow> wf_db (w_db (snd (persist_started f x w)))"
  "wf_db (w_db w) \<Longrightarrow> wf_db (w_db (snd (persist_final f x w)))"
  using persist_started_state [of f x w] persist_final_state [of f x w] by (metis prod.collapse)+

lemma valid_message_run_id: "valid_message m \<Longrightarrow> m_run_id m \<noteq> []"
  by (auto simp: valid_message_def TaskMessage_post_init_def split: if_splits)

lemma unrunnable_eq:
  "unrunnable now job m = Inr ((new_execution (j_id job) (m_run_id m))
     \<lparr>x_status := FAILED, x_attempt := m_attempt m, x_started_at := Some now, x_finished_at := Some now,
      x_error_message := Some (lit ''handler not registered: '' @ j_handler job)\<rparr>)"
  by (simp add: unrunnable_def Let_def new_execution_def)

lemma schedule_retry_cases:
  assumes "schedule_retry res n now = Inr x"
  shows "x_run_id x = x_run_id (ar_execution res) \<and> x_attempt x = x_attempt (ar_execution res)
    \<and> x_status x = x_status (ar_execution res) \<and> (ar_should_retry res \<longrightarrow> x_next_retry_at x \<noteq> None)"
  using assms by (auto simp: schedule_retry_def split: if_splits sum.splits)

lemma unregister_run_sel [simp]:
  "w_db (unregister_run r w) = w_db w" "w_queue (unregister_run r w) = w_queue w"
  "w_buffer (unregister_run r w) = w_buffer w"
  by (simp_all add: unregister_run_def)

text \<open>The three ways \<open>execute_and_persist\<close> returns, with what it left in the database.\<close>

lemma execute_and_persist_Done:
  assumes "execute_and_persist fmt reg env job m w = Done (Inr res) w'" and "m_run_id m \<noteq> []"
  shows "\<exists>x y. pr_execution res = Some x \<and> get_attempt (m_run_id m) (m_attempt m) (w_db w') = Some y
    \<and> x_status y = x_status x \<and> x_status x \<in> {SUCCESS, CANCELED, RETRYING, FAILED}
    \<and> (x_status x = RETRYING \<longrightarrow> x_next_retry_at y \<noteq> None)
    \<and> pr_outcome res \<in> {FINISHED, RETRY_SCHEDULED, UNRUNNABLE}
    \<and> (pr_outcome res = RETRY_SCHEDULED \<longleftrightarrow> x_status x = RETRYING)"
proof -
  obtain t a where t: "CancelToken_new (w_active w) = (t, a)" by fastforce
  define w0 where "w0 = w\<lparr>w_active := active_register (m_run_id m) t a\<rparr>"
  let ?ex = "execute_attempt fmt reg (token_in_world t) (Some (persist_started (se_started_error env))) 5
    (se_attempt env) job (m_attempt m) (Some (m_run_id m)) w0"
  consider (unrun) n w1 x w2 where "?ex = Done (Inl (JobNotRegisteredError n)) w1"
      "unrunnable (se_now env) job m = Inr x" "persist_final (se_final_error env) x w1 = (Inr (), w2)"
      "res = \<lparr>pr_outcome = UNRUNNABLE, pr_execution = Some x\<rparr>" "w' = unregister_run (m_run_id m) w2"
    | (ran) ar w1 x where "?ex = Done (Inr ar) w1" "schedule_retry ar (m_attempt m) (se_now env) = Inr x"
      "persist_final (se_final_error env) x (unregister_run (m_run_id m) w1) = (Inr (), w')"
      "res = \<lparr>pr_outcome = (if ar_should_retry ar then RETRY_SCHEDULED else FINISHED), pr_execution = Some x\<rparr>"
    using assms(1)
    by (auto simp: execute_and_persist_def t w0_def Let_def split: progress.splits sum.splits exn.splits prod.splits)
  then show ?thesis
  proof cases
    case unrun
    with persist_final_row [OF unrun(3)] show ?thesis by (auto simp: unrunnable_eq)
  next
    case ran
    from ran(1) obtain h out where "ar = attempt_result job h (se_attempt env) (m_attempt m) (Some (m_run_id m)) out"
      by (rule execute_attempt_Done)
    moreover note schedule_retry_cases [OF ran(2)] persist_final_row [OF ran(3)]
    ultimately show ?thesis
      using ran(4) assms(2) outcome_status_cases(1) [of "resolve_retry_policy job h" "m_attempt m" out]
      by auto
  qed
qed

lemma handled_statuses: "s \<in> {SUCCESS, CANCELED, RETRYING, FAILED} \<Longrightarrow> s \<in> HANDLED_STATUSES"
  by (auto simp: HANDLED_STATUSES_def)

text \<open>What the worker leaves alone until it acknowledges.\<close>

lemma execute_and_persist_preserves:
  assumes env: "\<And>p t. p \<in> set (e_polls (se_attempt env)) \<Longrightarrow> I t \<Longrightarrow> I (p_env p t)" and "I w"
    and active: "\<And>t a. I t \<Longrightarrow> I (t\<lparr>w_active := a\<rparr>)"
    and started: "\<And>x t. I t \<Longrightarrow> I (snd (persist_started (se_started_error env) x t))"
    and final: "\<And>x t. I t \<Longrightarrow> I (snd (persist_final (se_final_error env) x t))"
  shows "I (state_of (execute_and_persist fmt reg env job m w))"
proof -
  obtain t a where t: "CancelToken_new (w_active w) = (t, a)" by fastforce
  define w0 where "w0 = w\<lparr>w_active := active_register (m_run_id m) t a\<rparr>"
  let ?ex = "execute_attempt fmt reg (token_in_world t) (Some (persist_started (se_started_error env))) 5
    (se_attempt env) job (m_attempt m) (Some (m_run_id m)) w0"
  have w0: "I w0" using active \<open>I w\<close> by (simp add: w0_def)
  have ex: "I (state_of ?ex)"
    by (rule execute_attempt_preserves [where I = I])
      (simp_all add: env active started [OF w0] w0 token_in_world_def)
  have un: "I (unregister_run r v)" if "I v" for r v using active that by (simp add: unregister_run_def)
  have fin: "I v" if "persist_final (se_final_error env) x u = (r, v)" "I u" for x u v r
    using final [OF that(2), of x] that(1) by simp
  note unfold = execute_and_persist_def t w0_def [symmetric] Let_def
  show ?thesis
  proof (cases ?ex)
    case (Waiting w1)
    with ex show ?thesis by (simp add: unfold)
  next
    case (Done r w1)
    with ex have w1: "I w1" by simp
    show ?thesis
    proof (cases r)
      case (Inl e)
      have "I (state_of (Done (Inl e :: exn + ProcessResult) (unregister_run (m_run_id m) w1)))"
        using un [OF w1] by simp
      with Done Inl w1 un fin show ?thesis
        by (cases e) (auto simp: unfold unrunnable_eq split: prod.splits sum.splits)
    next
      case (Inr res)
      with Done w1 un fin show ?thesis
        by (auto simp: unfold split: prod.splits sum.splits)
    qed
  qed
qed

text \<open>The ways through \<open>worker_process\<close>: an exception before the execution, a delivery that is skipped, and
  the three ends of the execution.\<close>

lemma worker_process_cases:
  obtains (err) e where "worker_process Q fmt reg env dl w = Done (Inl e) w"
  | (skip) res where "worker_process Q fmt reg env dl w = ack_and_return Q (dl_message_id dl) res w"
      "pr_outcome res \<in> {DROPPED, DUPLICATE}"
  | (wait) job v where "execute_and_persist fmt reg env job (dl_message dl) w = Waiting v"
      "worker_process Q fmt reg env dl w = Waiting v"
  | (raised) job e v where "execute_and_persist fmt reg env job (dl_message dl) w = Done (Inl e) v"
      "worker_process Q fmt reg env dl w = Done (Inl e) v"
  | (ran) job res v where "execute_and_persist fmt reg env job (dl_message dl) w = Done (Inr res) v"
      "worker_process Q fmt reg env dl w = ack_and_return Q (dl_message_id dl) res v"
proof (cases "fst (session_scope (se_lookup_error env)
    (\<lambda>d. case job_get (m_job_id (dl_message dl)) d of Inl e \<Rightarrow> Inl e | Inr j \<Rightarrow> Inr (j, d)) (w_db w))")
  case (Inl e)
  then show thesis by (intro err) (simp add: worker_process_def Let_def)
next
  case found: (Inr jo)
  show thesis
  proof (cases jo)
    case None
    with found show thesis
      by (intro skip [of "\<lparr>pr_outcome = DROPPED, pr_execution = None\<rparr>"]) (simp_all add: worker_process_def Let_def)
  next
    case (Some job)
    note found = found [unfolded Some]
    show thesis
    proof (cases "check_duplicate (se_duplicate_error env) (dl_message dl) (w_db w)")
      case (Inl e)
      with found show thesis by (intro err) (simp add: worker_process_def Let_def)
    next
      case dup: (Inr d)
      show thesis
      proof (cases d)
        case (Some p)
        with found dup show thesis
          by (intro skip [of "\<lparr>pr_outcome = DUPLICATE, pr_execution = snd p\<rparr>"])
            (cases p, simp_all add: worker_process_def Let_def)
      next
        case None
        note wp = worker_process_def Let_def found dup [unfolded None]
        show thesis
        proof (cases "execute_and_persist fmt reg env job (dl_message dl) w")
          case (Waiting v)
          then show thesis by (intro wait) (simp_all add: wp)
        next
          case (Done r v)
          then show thesis
            by (cases r) (auto simp: wp intro: raised [of job] ran [of job])
        qed
      qed
    qed
  qed
qed

lemma worker_process_preserves:
  assumes "\<And>p t. p \<in> set (e_polls (se_attempt env)) \<Longrightarrow> I t \<Longrightarrow> I (p_env p t)" and "I w"
    and "\<And>t a. I t \<Longrightarrow> I (t\<lparr>w_active := a\<rparr>)"
    and "\<And>x t. I t \<Longrightarrow> I (snd (persist_started (se_started_error env) x t))"
    and "\<And>x t. I t \<Longrightarrow> I (snd (persist_final (se_final_error env) x t))"
    and "\<And>t r q. I t \<Longrightarrow> tq_ack Q (dl_message_id dl) (w_queue t) = (r, q) \<Longrightarrow> I (t\<lparr>w_queue := q\<rparr>)"
  shows "I (state_of (worker_process Q fmt reg env dl w))"
proof -
  have ack: "I (state_of (ack_and_return Q (dl_message_id dl) res v))" if "I v" for res v
    using assms(6) [OF that] by (auto simp: ack_and_return_def split: prod.splits sum.splits)
  have ex: "I (state_of (execute_and_persist fmt reg env job (dl_message dl) w))" for job
    by (rule execute_and_persist_preserves) (use assms in auto)
  from worker_process_cases [of Q fmt reg env dl w] show ?thesis
  proof cases
    case (ran job res v)
    with ex [of job] show ?thesis by (simp add: ack)
  next
    case (wait job v)
    with ex [of job] show ?thesis by simp
  next
    case (raised job e v)
    with ex [of job] show ?thesis by simp
  qed (use assms(2) ack in auto)
qed

lemma worker_process_acks:
  assumes "worker_process Q fmt reg env dl w = Done (Inr res) w'"
  shows "\<exists>v b q. tq_ack Q (dl_message_id dl) (w_queue v) = (Inr b, q) \<and> w' = v\<lparr>w_queue := q\<rparr>
    \<and> (pr_outcome res \<in> {DROPPED, DUPLICATE} \<and> v = w
       \<or> (\<exists>job. execute_and_persist fmt reg env job (dl_message dl) w = Done (Inr res) v))"
  using assms
  by (auto simp: worker_process_def ack_and_return_def Let_def
      split: sum.splits option.splits progress.splits prod.splits) blast+

lemma check_duplicate_ok:
  "check_duplicate None m d = Inr r \<longleftrightarrow>
     r = (case get_attempt (m_run_id m) (m_attempt m) d of
            Some x \<Rightarrow> if x_status x \<in> HANDLED_STATUSES then Some (lit ''attempt already '' @ status_value (x_status x), Some x)
                      else (case (case m_idempotency_key m of None \<Rightarrow> None | Some k \<Rightarrow> get_run_id k d) of
                              Some r \<Rightarrow> if r \<noteq> m_run_id m then Some (lit ''idempotency key owned by '' @ r, None) else None
                            | None \<Rightarrow> None)
          | None \<Rightarrow> (case (case m_idempotency_key m of None \<Rightarrow> None | Some k \<Rightarrow> get_run_id k d) of
                              Some r \<Rightarrow> if r \<noteq> m_run_id m then Some (lit ''idempotency key owned by '' @ r, None) else None
                            | None \<Rightarrow> None))"
  by (auto simp: check_duplicate_def session_scope_def)

section \<open>A sample delivery\<close>

definition sample_message :: TaskMessage where
  "sample_message = \<lparr>m_job_id = lit ''job_a'', m_run_id = lit ''run_1'', m_attempt = 1, m_idempotency_key = Some demo_key\<rparr>"

definition sample_delivery :: Delivery where
  "sample_delivery = \<lparr>dl_message_id = message_id 1, dl_message = sample_message, dl_consumer = lit ''w1'', dl_delivery_count = 1\<rparr>"

definition sample_world :: "MemoryQueue world" where
  "sample_world = \<lparr>w_db = demo_db,
     w_queue = \<lparr>mq_ready = [], mq_pending = [(message_id 1, \<lparr>pd_message = sample_message, pd_consumer = lit ''w1'',
       pd_delivered_at = 0, pd_delivery_count = 1\<rparr>)], mq_seq = 2\<rparr>,
     w_active = \<lparr>fired = (\<lambda>t. False), next_token = 0, tokens = []\<rparr>, w_buffer = [], w_next_reclaim_at = 0\<rparr>"

definition sample_polls :: "exn + unit \<Rightarrow> MemoryQueue world poll list" where
  "sample_polls r = [\<lparr>p_env = (\<lambda>w. w), p_done = None, p_now = 1\<rparr>, \<lparr>p_env = (\<lambda>w. w), p_done = Some r, p_now = 2\<rparr>]"

definition sample_env :: "MemoryQueue world poll list \<Rightarrow> MemoryQueue step_env" where
  "sample_env polls = \<lparr>se_monotonic = 0, se_monotonic_after = 0, se_queue_clock = 0, se_during = (\<lambda>q. q),
     se_lookup_error = None, se_duplicate_error = None, se_started_error = None, se_final_error = None,
     se_attempt = \<lparr>e_fresh_run_id = [], e_started = utc 5, e_submit_error = None, e_clock = 0, e_polls = polls,
       e_finished = utc 7\<rparr>, se_now = utc 8\<rparr>"

lemma sample_sel [simp]:
  "dl_message sample_delivery = sample_message" "dl_message_id sample_delivery = message_id 1"
  "m_job_id sample_message = lit ''job_a''" "m_run_id sample_message = lit ''run_1''" "m_attempt sample_message = 1"
  "m_idempotency_key sample_message = Some demo_key"
  by (simp_all add: sample_delivery_def sample_message_def)

lemmas worker_eval = worker_process_def execute_and_persist_def execute_attempt_eq ack_and_return_def
  check_duplicate_def session_scope_def job_get_def opt_job_def record_job_roundtrip get_attempt_def exec_find_def
  get_run_id_def CancelToken_new_def active_register_def active_unregister_def unregister_run_def
  persist_started_def persist_final_def upsert_with_logs_def drain_logs_def buffered_def
  exec_upsert_def exec_add_def exec_update_def token_in_world_def token_cancel_def token_is_cancelled_def
  registry_get_def wait_for_def resolve_timeout_seconds_def resolve_retry_policy_def attempt_execution_def
  attempt_result_def outcome_status_def outcome_message_def schedule_retry_def Let_def
  memory_queue_def mq_ack_def sample_world_def sample_env_def sample_polls_def demo_registry_def

lemma valid_sample_message [simp]: "valid_message sample_message"
  by (simp add: valid_message_def TaskMessage_post_init_def sample_message_def)
    (simp add: blank_def lit_def is_space_def demo_key_def)

lemma sample_world_queue [simp]:
  "mq_inv (w_queue sample_world)" "(message_id (Suc 0), sample_message) \<in> set (mq_in_flight (w_queue sample_world))"
  by (auto simp: sample_world_def mq_inv_iff mq_in_flight_def)

lemma sample_world_db [simp]: "w_db sample_world = demo_db"
  by (simp add: sample_world_def)

lemma sample_polls_env [simp]: "p \<in> set (sample_polls r) \<Longrightarrow> p_env p v = v"
  by (auto simp: sample_polls_def)

lemma sample_env_polls [simp]: "e_polls (se_attempt (sample_env ps)) = ps"
  by (simp add: sample_env_def)

lemma sample_finished:
  "\<exists>x w'. worker_process memory_queue (\<lambda>x. []) demo_registry (sample_env (sample_polls (Inr ()))) sample_delivery
     sample_world = Done (Inr \<lparr>pr_outcome = FINISHED, pr_execution = Some x\<rparr>) w'"
  by (simp add: worker_eval)

section \<open>Properties\<close>



text \<open>C2: Until it is acknowledged, a message stays in flight. With the in-memory queue, if other threads do not
  take the message out of the queue, then a worker that crashes or waits during the execution, or that
  fails with an exception at any point (a failing commit included), leaves the message in flight, so that it
  will be delivered again; when processing returns a result, the message is gone from the queue.\<close>

theorem worker_message_until_ack:
  assumes "mq_inv (w_queue w)" and "(dl_message_id dl, dl_message dl) \<in> set (mq_in_flight (w_queue w))"
    and "\<And>p v. p \<in> set (e_polls (se_attempt env)) \<Longrightarrow> mq_inv (w_queue v) \<Longrightarrow>
      (dl_message_id dl, dl_message dl) \<in> set (mq_in_flight (w_queue v)) \<Longrightarrow>
      mq_inv (w_queue (p_env p v)) \<and> (dl_message_id dl, dl_message dl) \<in> set (mq_in_flight (w_queue (p_env p v)))"
  shows "case worker_process memory_queue fmt reg env dl w of
      Waiting w' \<Rightarrow> (dl_message_id dl, dl_message dl) \<in> set (mq_in_flight (w_queue w'))
    | Done (Inl e) w' \<Rightarrow> (dl_message_id dl, dl_message dl) \<in> set (mq_in_flight (w_queue w'))
    | Done (Inr res) w' \<Rightarrow> dl_message_id dl \<notin> fst ` set (mq_in_flight (w_queue w'))"
proof -
  let ?I = "\<lambda>v. mq_inv (w_queue v) \<and> (dl_message_id dl, dl_message dl) \<in> set (mq_in_flight (w_queue v))"
  have ex: "?I (state_of (execute_and_persist fmt reg env job (dl_message dl) w))" for job
    by (rule execute_and_persist_preserves) (use assms in auto)
  have held: "?I v" if "execute_and_persist fmt reg env job (dl_message dl) w = Waiting v
      \<or> execute_and_persist fmt reg env job (dl_message dl) w = Done r v" for job v r
    using ex [of job] that by auto
  have ack: "case ack_and_return memory_queue (dl_message_id dl) res v of
      Waiting w' \<Rightarrow> False | Done (Inl e) w' \<Rightarrow> False
    | Done (Inr r) w' \<Rightarrow> dl_message_id dl \<notin> fst ` set (mq_in_flight (w_queue w'))" if "?I v" for res v
  proof -
    obtain r q where a: "tq_ack memory_queue (dl_message_id dl) (w_queue v) = (Inr r, q)"
      by (simp add: memory_queue_def mq_ack_def)
    from mq.ack_ok [OF _ this] that a show ?thesis
      by (auto simp: ack_and_return_def simp del: fst_mq_in_flight)
  qed
  from worker_process_cases [of memory_queue fmt reg env dl w] show ?thesis
  proof cases
    case (skip res)
    with ack [of w res] assms(1,2) show ?thesis by (auto split: progress.splits sum.splits)
  next
    case (ran job res v)
    with ack [of v res] held [of job v] show ?thesis by (auto split: progress.splits sum.splits)
  next
    case (wait job v)
    with held [of job v] show ?thesis by simp
  next
    case (raised job e v)
    with held [of job v "Inl e"] show ?thesis by simp
  qed (use assms(2) in simp)
qed

theorem worker_message_until_ack_witness:
  "\<exists>w'. worker_process memory_queue (\<lambda>x. []) demo_registry (sample_env []) sample_delivery sample_world = Waiting w'
     \<and> (message_id 1, sample_message) \<in> set (mq_in_flight (w_queue w'))"
proof -
  have "\<exists>w'. worker_process memory_queue (\<lambda>x. []) demo_registry (sample_env []) sample_delivery sample_world = Waiting w'"
    by (simp add: worker_eval)
  with worker_message_until_ack [of sample_world sample_delivery "sample_env []" "\<lambda>x. []" demo_registry]
  show ?thesis by auto
qed

text \<open>C3: Delivering a message again has no effect on the history. Once the row of an attempt has a handled
  status, processing a delivery of that attempt (of a job that still exists) neither runs the handler nor
  writes to the database: it acknowledges the delivery and reports DUPLICATE with the recorded execution.\<close>

theorem worker_duplicate_is_skipped:
  assumes "job_get (m_job_id (dl_message dl)) (w_db w) = Inr (Some job)"
    and "get_attempt (m_run_id (dl_message dl)) (m_attempt (dl_message dl)) (w_db w) = Some x"
    and "x_status x \<in> HANDLED_STATUSES"
    and "se_lookup_error env = None" and "se_duplicate_error env = None"
    and "tq_ack Q (dl_message_id dl) (w_queue w) = (Inr b, q)"
  shows "worker_process Q fmt reg env dl w =
    Done (Inr \<lparr>pr_outcome = DUPLICATE, pr_execution = Some x\<rparr>) (w\<lparr>w_queue := q\<rparr>)"
  using assms
  by (simp add: worker_process_def Let_def session_scope_def check_duplicate_def ack_and_return_def)

definition sample_done_world :: "JobExecution \<Rightarrow> MemoryQueue world" where
  "sample_done_world x = sample_world\<lparr>w_db := demo_db\<lparr>t_executions := [execution_to_record 1 x], exec_seq := 2\<rparr>\<rparr>"

definition sample_row :: JobExecution where
  "sample_row = (new_execution (lit ''job_a'') (lit ''run_1''))\<lparr>x_attempt := 1, x_status := SUCCESS\<rparr>"

theorem worker_duplicate_is_skipped_witness:
  "\<exists>q. worker_process memory_queue (\<lambda>x. []) demo_registry (sample_env (sample_polls (Inr ()))) sample_delivery
     (sample_done_world sample_row) =
     Done (Inr \<lparr>pr_outcome = DUPLICATE, pr_execution = Some sample_row\<rparr>) ((sample_done_world sample_row)\<lparr>w_queue := q\<rparr>)"
proof -
  let ?w = "sample_done_world sample_row"
  have "job_get (lit ''job_a'') (w_db ?w) = Inr (Some demo_job)"
    by (simp add: sample_done_world_def job_get_def opt_job_def record_job_roundtrip)
  moreover have "get_attempt (lit ''run_1'') 1 (w_db ?w) = Some sample_row"
    by (simp add: sample_done_world_def sample_row_def get_attempt_def exec_find_def)
  ultimately show ?thesis
    using worker_duplicate_is_skipped [of sample_delivery ?w demo_job sample_row "sample_env (sample_polls (Inr ()))"
        memory_queue] by (auto simp: sample_row_def HANDLED_STATUSES_def sample_env_def memory_queue_def mq_ack_def)
qed

text \<open>C22: A message whose slot belongs to another run is not executed. If the idempotency key of the message is
  held by a different run, then the worker does not execute it and does not change the database.\<close>

theorem worker_foreign_slot_is_skipped:
  assumes "m_idempotency_key (dl_message dl) = Some k" and "get_run_id k (w_db w) = Some r"
    and "r \<noteq> m_run_id (dl_message dl)"
  shows "w_db (state_of (worker_process Q fmt reg env dl w)) = w_db w
    \<and> w_active (state_of (worker_process Q fmt reg env dl w)) = w_active w"
proof -
  have "\<exists>p. check_duplicate (se_duplicate_error env) (dl_message dl) (w_db w) = Inr (Some p)"
    if "se_duplicate_error env = None"
    unfolding that using assms by (auto simp: check_duplicate_ok split: option.splits)
  moreover have "\<exists>e. check_duplicate (se_duplicate_error env) (dl_message dl) (w_db w) = Inl e"
    if "se_duplicate_error env \<noteq> None"
    using that by (auto simp: check_duplicate_def session_scope_def)
  ultimately have "check_duplicate (se_duplicate_error env) (dl_message dl) (w_db w) \<noteq> Inr None" by fastforce
  then show ?thesis
    by (auto simp: worker_process_def Let_def ack_and_return_def split: sum.splits option.splits prod.splits)
qed

theorem worker_foreign_slot_is_skipped_witness:
  "let w = sample_world\<lparr>w_db := demo_db\<lparr>t_keys := [\<lparr>ir_key = demo_key, ir_job_id = lit ''job_a'', ir_run_id = lit ''run_2'',
       ir_created_at = demo_slot\<rparr>]\<rparr>\<rparr>
   in w_db (state_of (worker_process memory_queue (\<lambda>x. []) demo_registry (sample_env []) sample_delivery w)) = w_db w"
  unfolding Let_def
  by (rule worker_foreign_slot_is_skipped [THEN conjunct1, of _ demo_key _ "lit ''run_2''"])
    (simp_all add: get_run_id_def)

text \<open>The worker's token: firing it is seen, and a new token is not fired.\<close>

lemma token_in_world_laws:
  "tk_is_cancelled (token_in_world t) (tk_cancel (token_in_world t) w)"
  "CancelToken_new (w_active w) = (t, a) \<Longrightarrow> \<not> tk_is_cancelled (token_in_world t) (w\<lparr>w_active := active_register r t a\<rparr>)"
  by (auto simp: token_in_world_def token_cancel_def token_is_cancelled_def CancelToken_new_def active_register_def)

text \<open>A message whose attempt is RUNNING in the database, and whose slot no other run holds, is executed.\<close>

lemma running_is_executed:
  assumes "get_attempt (m_run_id (dl_message dl)) (m_attempt (dl_message dl)) (w_db w) = Some y" and "x_status y = RUNNING"
    and "job_get (m_job_id (dl_message dl)) (w_db w) = Inr (Some job)"
    and "\<And>k r. m_idempotency_key (dl_message dl) = Some k \<Longrightarrow> get_run_id k (w_db w) = Some r \<Longrightarrow> r = m_run_id (dl_message dl)"
    and "se_lookup_error env = None" and "se_duplicate_error env = None"
  shows "worker_process Q fmt reg env dl w =
    (case execute_and_persist fmt reg env job (dl_message dl) w of
       Waiting u \<Rightarrow> Waiting u
     | Done (Inl e) u \<Rightarrow> Done (Inl e) u
     | Done (Inr res) u \<Rightarrow> ack_and_return Q (dl_message_id dl) res u)"
proof -
  have "check_duplicate None (dl_message dl) (w_db w) = Inr None"
    using assms(1,2,4) by (auto simp: check_duplicate_ok HANDLED_STATUSES_def split: option.splits)
  then show ?thesis using assms(3,5,6) by (simp add: worker_process_def Let_def session_scope_def)
qed

text \<open>C21: A crash during the handler is recoverable. If the worker is still executing (or died) after the start was
  recorded, and other threads left the row of this attempt alone, then the database shows the attempt as
  RUNNING; and when the message is delivered again on this database, to any worker, the attempt is executed again and the message is acknowledged only after
  it: provided that the job still exists, that no other run has taken the slot of the message, and that the transactions which read this succeed.\<close>

theorem worker_crash_leaves_running:
  assumes "valid_message (dl_message dl)" and "worker_process Q fmt reg env dl w = Waiting w'"
    and "\<And>p v y. p \<in> set (e_polls (se_attempt env)) \<Longrightarrow>
      get_attempt (m_run_id (dl_message dl)) (m_attempt (dl_message dl)) (w_db v) = Some y \<Longrightarrow> x_status y = RUNNING \<Longrightarrow>
      \<exists>z. get_attempt (m_run_id (dl_message dl)) (m_attempt (dl_message dl)) (w_db (p_env p v)) = Some z
        \<and> x_status z = RUNNING"
  shows "(\<exists>y. get_attempt (m_run_id (dl_message dl)) (m_attempt (dl_message dl)) (w_db w') = Some y \<and> x_status y = RUNNING)
    \<and> (w_db v = w_db w' \<and> dl_message again = dl_message dl \<and> job_get (m_job_id (dl_message dl)) (w_db v) = Inr (Some job)
         \<and> (\<forall>k r. m_idempotency_key (dl_message dl) = Some k \<and> get_run_id k (w_db v) = Some r \<longrightarrow> r = m_run_id (dl_message dl))
         \<and> se_lookup_error env' = None \<and> se_duplicate_error env' = None
       \<longrightarrow> worker_process Q' fmt' reg' env' again v =
         (case execute_and_persist fmt' reg' env' job (dl_message dl) v of
            Waiting u \<Rightarrow> Waiting u
          | Done (Inl e) u \<Rightarrow> Done (Inl e) u
          | Done (Inr res) u \<Rightarrow> ack_and_return Q' (dl_message_id again) res u))"
proof -
  let ?m = "dl_message dl" and ?env = "se_attempt env"
  let ?I = "\<lambda>v. \<exists>y. get_attempt (m_run_id ?m) (m_attempt ?m) (w_db v) = Some y \<and> x_status y = RUNNING"
  obtain t a where t: "CancelToken_new (w_active w) = (t, a)" by fastforce
  define w0 where "w0 = w\<lparr>w_active := active_register (m_run_id ?m) t a\<rparr>"
  from assms(2) obtain job where "execute_and_persist fmt reg env job ?m w = Waiting w'"
    by (auto simp: worker_process_def ack_and_return_def Let_def split: sum.splits option.splits progress.splits prod.splits)
  then have ex: "execute_attempt fmt reg (token_in_world t) (Some (persist_started (se_started_error env))) 5
      ?env job (m_attempt ?m) (Some (m_run_id ?m)) w0 = Waiting w'"
    by (auto simp: execute_and_persist_def t w0_def Let_def split: progress.splits sum.splits exn.splits prod.splits)
  then obtain h w1 where h: "registry_get (j_handler job) reg = Inr h"
    and st: "persist_started (se_started_error env) (attempt_execution job h ?env (m_attempt ?m) (Some (m_run_id ?m)) RUNNING) w0
      = (Inr (), w1)"
    by (auto simp: execute_attempt_eq split: sum.splits prod.splits progress.splits)
  have "?I w1"
    using persist_started_row [OF st] valid_message_run_id [OF assms(1)] by simp
  then have "?I (state_of (execute_attempt fmt reg (token_in_world t) (Some (persist_started (se_started_error env))) 5
      ?env job (m_attempt ?m) (Some (m_run_id ?m)) w0))"
    by (rule execute_attempt_after_start [where f = "persist_started (se_started_error env)" and I = ?I, OF h st, rotated 2])
      (use assms(3) in \<open>auto simp: token_in_world_def\<close>)
  then obtain y where y: "get_attempt (m_run_id ?m) (m_attempt ?m) (w_db w') = Some y" "x_status y = RUNNING" by (auto simp: ex)
  with running_is_executed [of again v y] show ?thesis by (auto cong: progress.case_cong)
qed

text \<open>The first worker dies in the handler; a second one takes the message over and finishes it.\<close>

theorem worker_crash_leaves_running_witness:
  "\<exists>w' y res w''. worker_process memory_queue (\<lambda>x. []) demo_registry (sample_env []) sample_delivery sample_world = Waiting w'
     \<and> get_attempt (lit ''run_1'') 1 (w_db w') = Some y \<and> x_status y = RUNNING
     \<and> worker_process memory_queue (\<lambda>x. []) demo_registry (sample_env (sample_polls (Inr ()))) (sample_delivery\<lparr>dl_consumer := lit ''w2''\<rparr>)
         (sample_world\<lparr>w_db := w_db w'\<rparr>) = Done (Inr res) w''
     \<and> pr_outcome res = FINISHED"
proof -
  have "\<exists>w'. worker_process memory_queue (\<lambda>x. []) demo_registry (sample_env []) sample_delivery sample_world = Waiting w'
      \<and> job_get (lit ''job_a'') (w_db w') = Inr (Some demo_job) \<and> get_run_id demo_key (w_db w') = None
      \<and> (\<exists>res u. execute_and_persist (\<lambda>x. []) demo_registry (sample_env (sample_polls (Inr ()))) demo_job sample_message
           (sample_world\<lparr>w_db := w_db w'\<rparr>) = Done (Inr res) u \<and> pr_outcome res = FINISHED
           \<and> fst (tq_ack memory_queue (message_id 1) (w_queue u)) = Inr True)"
    by (simp add: worker_eval)
  then obtain w' res u where w': "worker_process memory_queue (\<lambda>x. []) demo_registry (sample_env []) sample_delivery sample_world = Waiting w'"
    and job: "job_get (lit ''job_a'') (w_db w') = Inr (Some demo_job)" and key: "get_run_id demo_key (w_db w') = None"
    and ex: "execute_and_persist (\<lambda>x. []) demo_registry (sample_env (sample_polls (Inr ()))) demo_job sample_message
      (sample_world\<lparr>w_db := w_db w'\<rparr>) = Done (Inr res) u" "pr_outcome res = FINISHED"
      "fst (tq_ack memory_queue (message_id 1) (w_queue u)) = Inr True" by blast
  have env: "se_lookup_error (sample_env ps) = None" "se_duplicate_error (sample_env ps) = None" for ps by (simp_all add: sample_env_def)
  from worker_crash_leaves_running [OF _ w', of "sample_world\<lparr>w_db := w_db w'\<rparr>" "sample_delivery\<lparr>dl_consumer := lit ''w2''\<rparr>" demo_job
      "sample_env (sample_polls (Inr ()))" memory_queue "\<lambda>x. []" demo_registry] job key
  have "\<exists>y. get_attempt (lit ''run_1'') 1 (w_db w') = Some y \<and> x_status y = RUNNING"
    "worker_process memory_queue (\<lambda>x. []) demo_registry (sample_env (sample_polls (Inr ()))) (sample_delivery\<lparr>dl_consumer := lit ''w2''\<rparr>)
       (sample_world\<lparr>w_db := w_db w'\<rparr>) = ack_and_return memory_queue (message_id 1) res u"
    by (simp_all add: env ex)
  moreover obtain q where "tq_ack memory_queue (message_id 1) (w_queue u) = (Inr True, q)" using ex(3) by (metis prod.collapse)
  ultimately show ?thesis using w' ex(2) by (auto simp: ack_and_return_def)
qed

end
