(* ===== verification/Heap.thy ===== *)
theory Heap
  imports Prelude
begin

text \<open>
  The \<^verbatim>\<open>heapq\<close> operations the scheduler and the dispatcher use. The locale \<open>priority_queue\<close> states what the
  clients rely on: the first element is a least one, and pushing and popping move exactly one element.
  Inside it, the loop \<^verbatim>\<open>while heap and heap[0] is due: due.append(heappop(heap))\<close> is shown to take out all
  due elements, in order, and nothing else. The entries of both clients are ordered by the pair of their
  trigger time and a sequence number, which is never shared by two entries, so the order of the elements
  that come out does not depend on the layout of the heap, and the model keeps the heap sorted.
\<close>

definition heappush :: "('e \<Rightarrow> 'k::linorder) \<Rightarrow> 'e \<Rightarrow> 'e list \<Rightarrow> 'e list" where
  "heappush key e h = insort_key key e h"

definition heap_first :: "'e list \<Rightarrow> 'e option" where
  "heap_first h = (case h of [] \<Rightarrow> None | e # _ \<Rightarrow> Some e)"

definition heappop :: "'e list \<Rightarrow> 'e list" where
  "heappop h = tl h"

lemma heap_simps [simp]:
  "heap_first [] = None" "heap_first (e # h) = Some e" "heappop (e # h) = h" "heappop [] = []"
  by (simp_all add: heap_first_def heappop_def)

fun pop_while :: "('e \<Rightarrow> bool) \<Rightarrow> 'e list \<Rightarrow> 'e list \<times> 'e list" where
  "pop_while due [] = ([], [])"
| "pop_while due (e # h) =
     (if due e then (let (es, h') = pop_while due h in (e # es, h')) else ([], e # h))"

locale priority_queue =
  fixes key :: "'e \<Rightarrow> 'k::linorder"
    and push :: "'e \<Rightarrow> 'h \<Rightarrow> 'h" and top :: "'h \<Rightarrow> 'e option" and pop :: "'h \<Rightarrow> 'h"
    and elems :: "'h \<Rightarrow> 'e multiset" and h_inv :: "'h \<Rightarrow> bool"
  assumes push_inv: "h_inv h \<Longrightarrow> h_inv (push e h)"
    and push_elems: "h_inv h \<Longrightarrow> elems (push e h) = add_mset e (elems h)"
    and top_None: "h_inv h \<Longrightarrow> top h = None \<longleftrightarrow> elems h = {#}"
    and top_Some: "h_inv h \<Longrightarrow> top h = Some e \<Longrightarrow> e \<in># elems h \<and> (\<forall>x \<in># elems h. key e \<le> key x)"
    and pop_inv: "h_inv h \<Longrightarrow> top h = Some e \<Longrightarrow> h_inv (pop h)"
    and pop_elems: "h_inv h \<Longrightarrow> top h = Some e \<Longrightarrow> elems h = add_mset e (elems (pop h))"
begin

inductive drain :: "('e \<Rightarrow> bool) \<Rightarrow> 'h \<Rightarrow> 'e list \<Rightarrow> 'h \<Rightarrow> bool" for due where
  stop: "top h = None \<or> (top h = Some e \<and> \<not> due e) \<Longrightarrow> drain due h [] h"
| take: "top h = Some e \<Longrightarrow> due e \<Longrightarrow> drain due (pop h) es h' \<Longrightarrow> drain due h (e # es) h'"

lemma drain_inv: "drain due h es h' \<Longrightarrow> h_inv h \<Longrightarrow> h_inv h'"
  by (induction rule: drain.induct) (auto intro: pop_inv)

lemma drain_conserves: "drain due h es h' \<Longrightarrow> h_inv h \<Longrightarrow> elems h = mset es + elems h'"
proof (induction rule: drain.induct)
  case (take h e es h')
  then show ?case using pop_elems [of h e] pop_inv [of h e] by simp
qed simp

lemma drain_due: "drain due h es h' \<Longrightarrow> e \<in> set es \<Longrightarrow> due e"
  by (induction rule: drain.induct) auto

lemma drain_sorted: "drain due h es h' \<Longrightarrow> h_inv h \<Longrightarrow> sorted (map key es)"
proof (induction rule: drain.induct)
  case (take h e es h')
  from take have inv: "h_inv (pop h)" by (auto intro: pop_inv)
  have "key e \<le> key x" if "x \<in> set es" for x
    using that take drain_conserves [OF take.hyps(3) inv] pop_elems [OF take.prems take.hyps(1)]
      top_Some [OF take.prems take.hyps(1)] by auto
  with take inv show ?case by auto
qed simp

text \<open>If being due depends on the key and is downward closed, nothing due is left behind.\<close>

lemma drain_complete:
  assumes "\<And>x y. key x \<le> key y \<Longrightarrow> due y \<Longrightarrow> due x"
  shows "drain due h es h' \<Longrightarrow> h_inv h \<Longrightarrow> x \<in># elems h' \<Longrightarrow> \<not> due x"
proof (induction rule: drain.induct)
  case (stop h e)
  then show ?case using top_None top_Some assms by (metis empty_iff set_mset_empty)
next
  case (take h e es h')
  then show ?case by (auto intro: pop_inv)
qed

end

interpretation sl: priority_queue key "heappush key" heap_first heappop mset "\<lambda>h. sorted (map key h)"
  for key :: "'e \<Rightarrow> 'k::linorder"
proof
  fix h :: "'e list" and e
  show "sorted (map key h) \<Longrightarrow> sorted (map key (heappush key e h))"
    by (simp add: heappush_def sorted_insort_key)
  show "mset (heappush key e h) = add_mset e (mset h)"
    by (induction h) (auto simp: heappush_def)
  show "heap_first h = None \<longleftrightarrow> mset h = {#}"
    by (cases h) (simp_all add: heap_first_def)
  show "sorted (map key h) \<Longrightarrow> heap_first h = Some e \<Longrightarrow> e \<in># mset h \<and> (\<forall>x \<in># mset h. key e \<le> key x)"
    by (cases h) (auto simp: heap_first_def)
  show "sorted (map key h) \<Longrightarrow> heap_first h = Some e \<Longrightarrow> sorted (map key (heappop h))"
    by (cases h) (simp_all add: heap_first_def heappop_def)
  show "heap_first h = Some e \<Longrightarrow> mset h = add_mset e (mset (heappop h))"
    by (cases h) (simp_all add: heap_first_def heappop_def)
qed

lemma pop_while_drain:
  "pop_while due h = (es, h') \<Longrightarrow> sl.drain due h es h'"
proof (induction due h arbitrary: es h' rule: pop_while.induct)
  case (1 due)
  then show ?case by (auto intro: sl.drain.stop)
next
  case (2 due e h)
  then show ?case
    by (auto intro: sl.drain.intros split: if_splits prod.splits)
qed

end
