(* ===== verification/Dispatcher.thy ===== *)
theory Dispatcher
  imports Task_Queue Heap Samples
begin

text \<open>
  The dispatcher (\<^verbatim>\<open>dispatcher.py\<close>) and the callbacks \<^verbatim>\<open>run_dispatch\<close> gives it (\<^verbatim>\<open>cli/queue_commands.py\<close>).

  The dispatcher does not know the database: claiming, releasing and recording go through callbacks. They
  are the record \<open>ports\<close>, functions on an outside state \<open>'s\<close> that may raise. The clock reading of a tick and
  the run ids it draws are inputs; the run id of an entry is keyed by the entry's sequence number. The
  locale \<open>claim_store\<close> states what a claim callback promises, and the dispatcher's behaviour on claimed keys is
  proved from it; the database's idempotency table is its instance.
\<close>

section \<open>State and callbacks\<close>

record Entry =
  en_next_run_at :: datetime
  en_seq :: nat
  en_schedule :: Schedule
  en_job :: Job

record DState =
  d_heap :: "Entry list"
  d_seq :: nat

record 's ports =
  pt_publish :: "TaskMessage \<Rightarrow> 's \<Rightarrow> (exn + pystr) \<times> 's"
  pt_claim :: "(Job \<Rightarrow> pystr \<Rightarrow> pystr \<Rightarrow> 's \<Rightarrow> (exn + bool) \<times> 's) option"
  pt_release :: "(pystr \<Rightarrow> 's \<Rightarrow> (exn + unit) \<times> 's) option"
  pt_on_enqueued :: "(JobExecution \<Rightarrow> 's \<Rightarrow> (exn + unit) \<times> 's) option"

definition Dispatcher_init :: DState where
  "Dispatcher_init = \<lparr>d_heap = [], d_seq = 0\<rparr>"

definition entry_key :: "Entry \<Rightarrow> int \<times> nat" where
  "entry_key e = (instant (en_next_run_at e), en_seq e)"

section \<open>Operations\<close>

definition d_push :: "datetime \<Rightarrow> Schedule \<Rightarrow> Job \<Rightarrow> DState \<Rightarrow> DState" where
  "d_push next_run_at schedule job st =
     st\<lparr>d_heap := heappush entry_key
          \<lparr>en_next_run_at = next_run_at, en_seq = d_seq st, en_schedule = schedule, en_job = job\<rparr> (d_heap st),
        d_seq := Suc (d_seq st)\<rparr>"

definition d_add :: "datetime \<Rightarrow> Job \<Rightarrow> Schedule \<Rightarrow> DState \<Rightarrow> (exn + unit) \<times> DState" where
  "d_add now job schedule st =
     (case compute_next_run schedule now of
        Inl e \<Rightarrow> (Inl e, st)
      | Inr t \<Rightarrow> (Inr (), d_push t schedule job st))"

definition d_peek_next_run_at :: "DState \<Rightarrow> datetime option" where
  "d_peek_next_run_at st = map_option en_next_run_at (heap_first (d_heap st))"

definition d_reschedule :: "Entry \<Rightarrow> datetime \<Rightarrow> DState \<Rightarrow> (exn + unit) \<times> DState" where
  "d_reschedule entry now st =
     (case compute_next_run (en_schedule entry) now of
        Inl e \<Rightarrow> (Inl e, st)
      | Inr t \<Rightarrow> (Inr (), d_push t (en_schedule entry) (en_job entry) st))"

definition release_quietly :: "'s ports \<Rightarrow> pystr \<Rightarrow> 's \<Rightarrow> 's" where
  "release_quietly ports key s = (case pt_release ports of None \<Rightarrow> s | Some f \<Rightarrow> snd (f key s))"

text \<open>The end of \<^verbatim>\<open>_dispatch\<close>: put the entry back with its next trigger and return \<open>result\<close>.\<close>

definition finish_dispatch ::
  "'a \<Rightarrow> Entry \<Rightarrow> datetime \<Rightarrow> DState \<Rightarrow> 's \<Rightarrow> (exn + 'a) \<times> DState \<times> 's" where
  "finish_dispatch result entry now st s =
     (case d_reschedule entry now st of
        (Inl e, st') \<Rightarrow> (Inl e, st', s)
      | (Inr _, st') \<Rightarrow> (Inr result, st', s))"

definition d_publish ::
  "'s ports \<Rightarrow> pystr \<Rightarrow> datetime \<Rightarrow> Entry \<Rightarrow> pystr \<Rightarrow> DState \<Rightarrow> 's
     \<Rightarrow> (exn + JobExecution option) \<times> DState \<times> 's" where
  "d_publish ports run_id now entry key st s =
     (case TaskMessage_post_init \<lparr>m_job_id = j_id (en_job entry), m_run_id = run_id, m_attempt = 1,
             m_idempotency_key = Some key\<rparr> of
        Inl e \<Rightarrow> (Inl e, st, s)
      | Inr message \<Rightarrow>
          (case pt_publish ports message s of
             (Inl _, s1) \<Rightarrow>
               (Inr None, d_push (en_next_run_at entry) (en_schedule entry) (en_job entry) st,
                release_quietly ports key s1)
           | (Inr _, s1) \<Rightarrow>
               (case transition (new_execution (j_id (en_job entry)) run_id) QUEUED of
                  Inl e \<Rightarrow> (Inl e, st, s1)
                | Inr x \<Rightarrow>
                    let x = x\<lparr>x_attempt := 1\<rparr>;
                        s2 = (case pt_on_enqueued ports of None \<Rightarrow> s1 | Some f \<Rightarrow> snd (f x s1))
                    in finish_dispatch (Some x) entry now st s2)))"

definition d_dispatch ::
  "'s ports \<Rightarrow> (nat \<Rightarrow> pystr) \<Rightarrow> datetime \<Rightarrow> Entry \<Rightarrow> DState \<Rightarrow> 's
     \<Rightarrow> (exn + JobExecution option) \<times> DState \<times> 's" where
  "d_dispatch ports run_ids now entry st s =
     (let job = en_job entry; schedule = en_schedule entry in
      if \<not> (s_enabled schedule \<and> j_enabled job) then finish_dispatch None entry now st s
      else case scheduled_key (j_id job) schedule (en_next_run_at entry) of
             Inl e \<Rightarrow> (Inl e, st, s)
           | Inr key \<Rightarrow>
               let run_id = run_ids (en_seq entry) in
               (case pt_claim ports of
                  None \<Rightarrow> d_publish ports run_id now entry key st s
                | Some claim \<Rightarrow>
                    (case claim job run_id key s of
                       (Inl _, s1) \<Rightarrow> finish_dispatch None entry now st s1
                     | (Inr False, s1) \<Rightarrow> finish_dispatch None entry now st s1
                     | (Inr True, s1) \<Rightarrow> d_publish ports run_id now entry key st s1)))"

fun d_dispatch_all ::
  "'s ports \<Rightarrow> (nat \<Rightarrow> pystr) \<Rightarrow> datetime \<Rightarrow> Entry list \<Rightarrow> DState \<Rightarrow> 's
     \<Rightarrow> (exn + JobExecution list) \<times> DState \<times> 's" where
  "d_dispatch_all ports run_ids now [] st s = (Inr [], st, s)"
| "d_dispatch_all ports run_ids now (entry # due) st s =
     (case d_dispatch ports run_ids now entry st s of
        (Inl e, st1, s1) \<Rightarrow> (Inl e, st1, s1)
      | (Inr r, st1, s1) \<Rightarrow>
          (case d_dispatch_all ports run_ids now due st1 s1 of
             (Inl e, st2, s2) \<Rightarrow> (Inl e, st2, s2)
           | (Inr xs, st2, s2) \<Rightarrow> (Inr (case r of None \<Rightarrow> xs | Some x \<Rightarrow> x # xs), st2, s2)))"

definition d_tick ::
  "'s ports \<Rightarrow> (nat \<Rightarrow> pystr) \<Rightarrow> datetime \<Rightarrow> DState \<Rightarrow> 's \<Rightarrow> (exn + JobExecution list) \<times> DState \<times> 's" where
  "d_tick ports run_ids now st s =
     (let (due, rest) = pop_while (\<lambda>e. instant (en_next_run_at e) \<le> instant now) (d_heap st)
      in d_dispatch_all ports run_ids now due (st\<lparr>d_heap := rest\<rparr>) s)"

section \<open>The callbacks of \<^verbatim>\<open>run_dispatch\<close>\<close>

text \<open>The outside state is the database with the queue. The argument says which exception, if any, the
  commit of each transaction raises in this call.\<close>

record dispatch_faults =
  fl_claim :: "pystr \<Rightarrow> exn option"
  fl_release :: "pystr \<Rightarrow> exn option"
  fl_enqueued :: "pystr \<Rightarrow> exn option"

definition db_claim ::
  "dispatch_faults \<Rightarrow> datetime \<Rightarrow> Job \<Rightarrow> pystr \<Rightarrow> pystr \<Rightarrow> db \<times> 'q \<Rightarrow> (exn + bool) \<times> (db \<times> 'q)" where
  "db_claim fl now job run_id key w =
     (let (r, d) = session_scope (fl_claim fl key) (try_claim key (j_id job) run_id now) (fst w) in (r, (d, snd w)))"

definition db_release :: "dispatch_faults \<Rightarrow> pystr \<Rightarrow> db \<times> 'q \<Rightarrow> (exn + unit) \<times> (db \<times> 'q)" where
  "db_release fl key w =
     (let (r, d) = session_scope (fl_release fl key) (key_release key) (fst w)
      in (case r of Inl e \<Rightarrow> Inl e | Inr _ \<Rightarrow> Inr (), (d, snd w)))"

definition db_on_enqueued :: "dispatch_faults \<Rightarrow> JobExecution \<Rightarrow> db \<times> 'q \<Rightarrow> (exn + unit) \<times> (db \<times> 'q)" where
  "db_on_enqueued fl x w =
     (let (r, d) = session_scope (fl_enqueued fl (x_run_id x)) (exec_add x) (fst w)
      in (case r of Inl IntegrityError \<Rightarrow> Inr () | Inl e \<Rightarrow> Inl e | Inr _ \<Rightarrow> Inr (), (d, snd w)))"

definition queue_publish :: "'q TaskQueue \<Rightarrow> TaskMessage \<Rightarrow> db \<times> 'q \<Rightarrow> (exn + pystr) \<times> (db \<times> 'q)" where
  "queue_publish Q m w = (let (r, q) = tq_publish Q m (snd w) in (r, (fst w, q)))"

definition dispatch_ports :: "'q TaskQueue \<Rightarrow> dispatch_faults \<Rightarrow> datetime \<Rightarrow> (db \<times> 'q) ports" where
  "dispatch_ports Q fl now =
     \<lparr>pt_publish = queue_publish Q, pt_claim = Some (db_claim fl now), pt_release = Some (db_release fl),
      pt_on_enqueued = Some (db_on_enqueued fl)\<rparr>"

section \<open>What a claim callback promises\<close>

text \<open>\<open>owner s k\<close> is the run that holds key \<open>k\<close>. A claim wins exactly a free key; a call that raises has
  no effect.\<close>

locale claim_store =
  fixes claim :: "Job \<Rightarrow> pystr \<Rightarrow> pystr \<Rightarrow> 's \<Rightarrow> (exn + bool) \<times> 's"
    and release :: "pystr \<Rightarrow> 's \<Rightarrow> (exn + unit) \<times> 's"
    and owner :: "'s \<Rightarrow> pystr \<Rightarrow> pystr option"
  assumes claim_won: "claim j r k s = (Inr True, s') \<Longrightarrow> owner s k = None \<and> owner s' = (owner s)(k \<mapsto> r)"
    and claim_lost: "claim j r k s = (Inr False, s') \<Longrightarrow> owner s k \<noteq> None \<and> s' = s"
    and claim_error: "claim j r k s = (Inl e, s') \<Longrightarrow> s' = s"
    and release_ok: "release k s = (Inr u, s') \<Longrightarrow> owner s' = (owner s)(k := None)"
    and release_error: "release k s = (Inl e, s') \<Longrightarrow> s' = s"
begin

lemma claim_taken:
  assumes "owner s k \<noteq> None"
  shows "snd (claim j r k s) = s \<and> fst (claim j r k s) \<noteq> Inr True"
proof (cases "claim j r k s")
  case (Pair res s')
  show ?thesis
  proof (cases res)
    case (Inl e)
    with Pair claim_error [of j r k s e s'] show ?thesis by simp
  next
    case (Inr b)
    with Pair assms claim_won [of j r k s s'] claim_lost [of j r k s s'] show ?thesis by (cases b) auto
  qed
qed

text \<open>Of two claims of one key with no release in between, at most one wins.\<close>

lemma claim_once:
  assumes "claim j r k s = (Inr True, s1)" and "owner s2 k = owner s1 k"
  shows "fst (claim j' r' k s2) \<noteq> Inr True"
  using claim_won [OF assms(1)] assms(2) claim_taken [of s2 k j' r'] by simp

end

text \<open>A dispatcher whose claims go through such a store, and whose other callbacks do not touch it.\<close>

locale dispatching = claim_store claim release owner
  for claim :: "Job \<Rightarrow> pystr \<Rightarrow> pystr \<Rightarrow> 's \<Rightarrow> (exn + bool) \<times> 's" and release owner +
  fixes P :: "'s ports"
  assumes ports: "pt_claim P = Some claim" "pt_release P = Some release"
    and publish_owner: "pt_publish P m s = (r, s') \<Longrightarrow> owner s' = owner s"
    and enqueued_owner: "pt_on_enqueued P = Some f \<Longrightarrow> f x s = (u, s') \<Longrightarrow> owner s' = owner s"
begin

lemma d_publish_owner:
  assumes "d_publish P rid now e k st s = (Inr res, st', s')"
  shows "(\<forall>x. res = Some x \<longrightarrow> x_run_id x = rid \<and> x_job_id x = j_id (en_job e) \<and> owner s' = owner s)
    \<and> (res = None \<longrightarrow> owner s' \<in> {owner s, (owner s)(k := None)})"
proof -
  have rel: "owner (release_quietly P k s1) \<in> {owner s1, (owner s1)(k := None)}" for s1
    using release_ok [of k s1] release_error [of k s1] ports(2)
    by (cases "release k s1"; cases "fst (release k s1)") (auto simp: release_quietly_def)
  have enq: "owner (case pt_on_enqueued P of None \<Rightarrow> s1 | Some f \<Rightarrow> snd (f x s1)) = owner s1" for s1 x
    using enqueued_owner by (auto split: option.splits simp: prod.collapse) (metis prod.collapse)
  from assms show ?thesis
    using publish_owner rel enq
    by (auto simp: d_publish_def finish_dispatch_def Let_def d_reschedule_def
        split: sum.splits prod.splits) (metis (no_types, lifting))+
qed

lemma claimed_not_dispatched:
  assumes "scheduled_key (j_id (en_job e)) (en_schedule e) (en_next_run_at e) = Inr k" and "owner s k \<noteq> None"
  shows "d_dispatch P rids now e st s = finish_dispatch None e now st s"
  using assms claim_taken [OF assms(2), of "en_job e" "rids (en_seq e)"] ports(1)
  by (cases "claim (en_job e) (rids (en_seq e)) k s") (auto simp: d_dispatch_def Let_def split: sum.splits bool.splits)

lemma dispatched_owned:
  assumes "d_dispatch P rids now e st s = (Inr (Some x), st', s')"
  obtains k where "scheduled_key (j_id (en_job e)) (en_schedule e) (en_next_run_at e) = Inr k"
    and "owner s k = None" and "owner s' = (owner s)(k \<mapsto> rids (en_seq e))" and "x_run_id x = rids (en_seq e)"
proof -
  from assms ports(1) obtain k s1 where k: "scheduled_key (j_id (en_job e)) (en_schedule e) (en_next_run_at e) = Inr k"
    and c: "claim (en_job e) (rids (en_seq e)) k s = (Inr True, s1)"
    and p: "d_publish P (rids (en_seq e)) now e k st s1 = (Inr (Some x), st', s')"
    by (auto simp: d_dispatch_def Let_def finish_dispatch_def d_reschedule_def
        split: if_splits sum.splits prod.splits bool.splits)
  from claim_won [OF c] d_publish_owner [OF p] k show thesis by (intro that) auto
qed

lemma dispatch_owner_grows:
  assumes "d_dispatch P rids now e st s = (Inr r, st', s')" and "owner s k = Some v"
  shows "owner s' k = Some v"
proof -
  have skip: "finish_dispatch None e now st t = (Inr r, st', s') \<Longrightarrow> s' = t" for t
    by (auto simp: finish_dispatch_def d_reschedule_def split: sum.splits)
  show ?thesis
  proof (cases "s_enabled (en_schedule e) \<and> j_enabled (en_job e)")
    case False
    with assms skip show ?thesis by (auto simp: d_dispatch_def Let_def)
  next
    case True
    with assms(1) obtain k' where k': "scheduled_key (j_id (en_job e)) (en_schedule e) (en_next_run_at e) = Inr k'"
      by (auto simp: d_dispatch_def Let_def split: sum.splits)
    show ?thesis
    proof (cases "owner s k'")
      case (Some r')
      then have "finish_dispatch None e now st s = (Inr r, st', s')"
        using claimed_not_dispatched [OF k'] assms(1) by simp
      with skip assms(2) show ?thesis by blast
    next
      case None
      then have ne: "k \<noteq> k'" using assms(2) by auto
      obtain res s1 where c: "claim (en_job e) (rids (en_seq e)) k' s = (res, s1)" by fastforce
      show ?thesis
      proof (cases res)
        case (Inl exc)
        with True k' c assms ports(1) skip claim_error [of _ _ _ s exc s1] show ?thesis
          by (auto simp: d_dispatch_def Let_def)
      next
        case (Inr b)
        show ?thesis
        proof (cases b)
          case won: True
          with c Inr have w: "owner s1 = (owner s)(k' \<mapsto> rids (en_seq e))" using claim_won by simp
          have "d_publish P (rids (en_seq e)) now e k' st s1 = (Inr r, st', s')"
            using True k' c Inr won assms(1) ports(1) by (simp add: d_dispatch_def Let_def)
          from d_publish_owner [OF this] have "owner s' \<in> {owner s1, (owner s1)(k' := None)}" by auto
          with w ne assms(2) show ?thesis by auto
        next
          case False
          with c Inr have "s1 = s" using claim_lost by simp
          moreover have "finish_dispatch None e now st s1 = (Inr r, st', s')"
            using True k' c Inr False assms(1) ports(1) by (simp add: d_dispatch_def Let_def)
          ultimately show ?thesis using skip assms(2) by blast
        qed
      qed
    qed
  qed
qed

lemma dispatch_all_owner_grows:
  "d_dispatch_all P rids now due st s = (Inr xs, st', s') \<Longrightarrow> owner s k = Some v \<Longrightarrow> owner s' k = Some v"
proof (induction due arbitrary: st s xs)
  case (Cons e due)
  then show ?case
    by (auto split: sum.splits prod.splits dest!: dispatch_owner_grows)
qed simp

text \<open>Every execution a tick returns comes from a due entry whose key was free before the tick and belongs to
  this run after it.\<close>

lemma dispatch_all_owned:
  assumes "d_dispatch_all P rids now due st s = (Inr xs, st', s')" and "x \<in> set xs"
  shows "\<exists>e \<in> set due. \<exists>k. scheduled_key (j_id (en_job e)) (en_schedule e) (en_next_run_at e) = Inr k
    \<and> x_run_id x = rids (en_seq e) \<and> owner s k = None \<and> owner s' k = Some (x_run_id x)"
  using assms
proof (induction due arbitrary: st s xs)
  case Nil
  then show ?case by simp
next
  case (Cons e due)
  from Cons.prems(1) obtain r st1 s1 ys where r: "d_dispatch P rids now e st s = (Inr r, st1, s1)"
    and ys: "d_dispatch_all P rids now due st1 s1 = (Inr ys, st', s')"
    and xs: "xs = (case r of None \<Rightarrow> ys | Some x \<Rightarrow> x # ys)"
    by (auto split: sum.splits prod.splits)
  show ?case
  proof (cases "r = Some x")
    case True
    with r obtain k where k: "scheduled_key (j_id (en_job e)) (en_schedule e) (en_next_run_at e) = Inr k"
      "owner s k = None" "owner s1 = (owner s)(k \<mapsto> rids (en_seq e))" "x_run_id x = rids (en_seq e)"
      by (auto elim!: dispatched_owned)
    from dispatch_all_owner_grows [OF ys, of k "x_run_id x"] k show ?thesis by auto
  next
    case False
    with Cons.prems(2) xs have "x \<in> set ys" by (auto split: option.splits)
    from Cons.IH [OF ys this] obtain e' k where e': "e' \<in> set due"
      "scheduled_key (j_id (en_job e')) (en_schedule e') (en_next_run_at e') = Inr k"
      "x_run_id x = rids (en_seq e')" "owner s1 k = None" "owner s' k = Some (x_run_id x)"
      by blast
    have "owner s k = None"
      using e'(4) dispatch_owner_grows [OF r, of k] by (cases "owner s k") auto
    with e' show ?thesis by auto
  qed
qed

end

section \<open>The idempotency table is a claim store\<close>

definition db_owner :: "db \<times> 'q \<Rightarrow> pystr \<Rightarrow> pystr option" where
  "db_owner w k = get_run_id k (fst w)"

interpretation db_claims: claim_store "db_claim fl now" "db_release fl" db_owner for fl now
proof
  fix j r k e u and s s' :: "db \<times> 'q"
  show "db_claim fl now j r k s = (Inr True, s') \<Longrightarrow> db_owner s k = None \<and> db_owner s' = (db_owner s)(k \<mapsto> r)"
    by (auto simp: db_claim_def db_owner_def fun_eq_iff session_scope_Inr get_run_id_after_claim
        split: prod.splits) (auto simp: try_claim_cases split: if_splits)
  show "db_claim fl now j r k s = (Inr False, s') \<Longrightarrow> db_owner s k \<noteq> None \<and> s' = s"
    by (cases s) (auto simp: db_claim_def db_owner_def session_scope_Inr try_claim_cases split: prod.splits if_splits)
  show "db_claim fl now j r k s = (Inl e, s') \<Longrightarrow> s' = s"
    using session_scope_Inl [of "fl_claim fl k" "try_claim k (j_id j) r now" "fst s" e]
    by (cases s) (auto simp: db_claim_def split: prod.splits)
  show "db_release fl k s = (Inr u, s') \<Longrightarrow> db_owner s' = (db_owner s)(k := None)"
    by (auto simp: db_release_def db_owner_def fun_eq_iff session_scope_Inr get_run_id_after_release
        split: prod.splits sum.splits)
  show "db_release fl k s = (Inl e, s') \<Longrightarrow> s' = s"
    using session_scope_Inl [of "fl_release fl k" "key_release k" "fst s"]
    by (cases s) (auto simp: db_release_def split: prod.splits sum.splits)
qed

lemma db_on_enqueued_keys: "db_on_enqueued fl x w = (u, w') \<Longrightarrow> db_owner w' = db_owner w"
  by (auto simp: db_on_enqueued_def db_owner_def get_run_id_def session_scope_def exec_add_def fun_eq_iff
      split: prod.splits sum.splits option.splits if_splits)

interpretation db_dispatching: dispatching "db_claim fl now" "db_release fl" db_owner "dispatch_ports Q fl now"
  for fl now and Q :: "'q TaskQueue"
proof
  fix f m r u x and s s' :: "db \<times> 'q"
  show "pt_publish (dispatch_ports Q fl now) m s = (r, s') \<Longrightarrow> db_owner s' = db_owner s"
    by (auto simp: dispatch_ports_def queue_publish_def db_owner_def fun_eq_iff split: prod.splits)
  show "pt_on_enqueued (dispatch_ports Q fl now) = Some f \<Longrightarrow> f x s = (u, s') \<Longrightarrow> db_owner s' = db_owner s"
    using db_on_enqueued_keys [of fl x s u s'] by (auto simp: dispatch_ports_def)
qed (simp_all add: dispatch_ports_def)

section \<open>The heap of the dispatcher\<close>

definition entry_pair :: "Entry \<Rightarrow> Job \<times> Schedule" where
  "entry_pair e = (en_job e, en_schedule e)"

definition d_pairs :: "DState \<Rightarrow> (Job \<times> Schedule) multiset" where
  "d_pairs st = image_mset entry_pair (mset (d_heap st))"

definition d_inv :: "DState \<Rightarrow> bool" where
  "d_inv st \<longleftrightarrow> sorted (map entry_key (d_heap st)) \<and> unique_on en_seq (d_heap st)
     \<and> (\<forall>e \<in> set (d_heap st). en_seq e < d_seq st)"

lemma mset_heappush [simp]: "mset (heappush k e h) = add_mset e (mset h)"
  by (induction h) (auto simp: heappush_def)

lemma set_heappush [simp]: "set (heappush k e h) = insert e (set h)"
  by (simp flip: set_mset_mset)

lemma d_push_pairs [simp]: "d_pairs (d_push t sch j st) = add_mset (j, sch) (d_pairs st)"
  by (simp add: d_pairs_def d_push_def entry_pair_def)

lemma d_push_inv: "d_inv st \<Longrightarrow> d_inv (d_push t sch j st)"
proof -
  assume inv: "d_inv st"
  let ?e = "\<lparr>en_next_run_at = t, en_seq = d_seq st, en_schedule = sch, en_job = j\<rparr>"
  have "unique_on en_seq (heappush entry_key ?e (d_heap st)) = unique_on en_seq (?e # d_heap st)"
    by (rule unique_on_mset) simp
  with inv show ?thesis
    by (auto simp: d_inv_def d_push_def less_Suc_eq intro: sl.push_inv)
qed

text \<open>What one dispatch that returns does to the heap: it puts the entry back, with the next trigger of its
  schedule, or with the same trigger when nothing was sent.\<close>

lemma d_dispatch_heap:
  assumes "d_dispatch P rids now e st s = (Inr r, st', s')"
  obtains t where "st' = d_push t (en_schedule e) (en_job e) st"
    and "compute_next_run (en_schedule e) now = Inr t \<or> (t = en_next_run_at e \<and> r = None)"
  using assms
  by (auto simp: d_dispatch_def d_publish_def finish_dispatch_def d_reschedule_def Let_def
      split: if_splits sum.splits prod.splits option.splits bool.splits)

lemma d_dispatch_all_heap:
  "d_dispatch_all P rids now due st s = (Inr xs, st', s') \<Longrightarrow>
     d_pairs st' = image_mset entry_pair (mset due) + d_pairs st \<and> (d_inv st \<longrightarrow> d_inv st')
     \<and> set (d_heap st) \<subseteq> set (d_heap st')"
proof (induction due arbitrary: st s xs)
  case Nil
  then show ?case by simp
next
  case (Cons e due)
  from Cons.prems obtain r st1 s1 ys where r: "d_dispatch P rids now e st s = (Inr r, st1, s1)"
    and ys: "d_dispatch_all P rids now due st1 s1 = (Inr ys, st', s')"
    by (auto split: sum.splits prod.splits)
  from r obtain t where "st1 = d_push t (en_schedule e) (en_job e) st" by (rule d_dispatch_heap)
  with Cons.IH [OF ys] show ?case by (auto simp: entry_pair_def d_push_inv) (auto simp: d_push_def)
qed

lemma pop_while_mset: "pop_while due h = (es, h') \<Longrightarrow> mset h = mset es + mset h'"
  by (induction due h arbitrary: es h' rule: pop_while.induct) (auto split: if_splits prod.splits)

lemma pop_while_inv:
  assumes "pop_while due (d_heap st) = (es, h')" and "d_inv st"
  shows "d_inv (st\<lparr>d_heap := h'\<rparr>)"
proof -
  have m: "mset (d_heap st) = mset es + mset h'" by (rule pop_while_mset [OF assms(1)])
  have "unique_on en_seq (d_heap st) = unique_on en_seq (es @ h')"
    by (rule unique_on_mset) (simp add: m)
  moreover have "set (d_heap st) = set es \<union> set h'"
    using arg_cong [OF m, of set_mset] by simp
  moreover have "sorted (map entry_key h')"
    using sl.drain_inv [OF pop_while_drain [OF assms(1)]] assms(2) by (auto simp: d_inv_def)
  ultimately show ?thesis
    using assms(2) by (auto simp: d_inv_def unique_on_def)
qed

section \<open>Properties\<close>

definition demo_entry :: Entry where
  "demo_entry = \<lparr>en_next_run_at = demo_slot, en_seq = 0, en_schedule = demo_schedule, en_job = demo_job\<rparr>"

definition demo_dispatcher :: DState where
  "demo_dispatcher = \<lparr>d_heap = [demo_entry], d_seq = 1\<rparr>"

definition no_faults :: dispatch_faults where
  "no_faults = \<lparr>fl_claim = (\<lambda>k. None), fl_release = (\<lambda>k. None), fl_enqueued = (\<lambda>k. None)\<rparr>"

lemma demo_entry_sel [simp]:
  "en_next_run_at demo_entry = demo_slot" "en_seq demo_entry = 0" "en_schedule demo_entry = demo_schedule"
  "en_job demo_entry = demo_job"
  by (simp_all add: demo_entry_def)

lemma d_inv_demo [simp]: "d_inv demo_dispatcher"
  by (simp add: d_inv_def demo_dispatcher_def)

text \<open>The message, the claim and the row of one dispatch on the sample database.\<close>

definition demo_message :: TaskMessage where
  "demo_message = \<lparr>m_job_id = lit ''job_a'', m_run_id = lit ''run_1'', m_attempt = 1, m_idempotency_key = Some demo_key\<rparr>"

definition demo_queued :: JobExecution where
  "demo_queued = (new_execution (lit ''job_a'') (lit ''run_1''))\<lparr>x_status := QUEUED, x_attempt := 1\<rparr>"

definition demo_db_dispatched :: db where
  "demo_db_dispatched = demo_db\<lparr>t_keys := [\<lparr>ir_key = demo_key, ir_job_id = lit ''job_a'', ir_run_id = lit ''run_1'',
       ir_created_at = demo_slot\<rparr>],
     t_executions := [execution_to_record 1 demo_queued], exec_seq := 2\<rparr>"

lemma blank_demo [simp]: "\<not> blank (lit ''job_a'')" "\<not> blank (lit ''run_1'')" "\<not> blank demo_key"
  by (simp_all add: blank_def lit_def is_space_def demo_key_def)

lemma demo_dispatch:
  "d_dispatch (dispatch_ports memory_queue no_faults demo_slot) (\<lambda>n. lit ''run_1'') demo_slot demo_entry st
      (demo_db, MemoryQueue_init) =
     (Inr (Some demo_queued), d_push (utc 86405000000) demo_schedule demo_job st,
      (demo_db_dispatched, \<lparr>mq_ready = [(message_id 1, demo_message)], mq_pending = [], mq_seq = 2\<rparr>))"
  by (simp add: d_dispatch_def d_publish_def finish_dispatch_def d_reschedule_def dispatch_ports_def db_claim_def
      db_on_enqueued_def queue_publish_def session_scope_def try_claim_def TaskMessage_post_init_def no_faults_def
      memory_queue_def mq_publish_def MemoryQueue_init_def exec_add_def exec_find_def Let_def
      demo_db_dispatched_def demo_queued_def demo_message_def)

text \<open>C14: A tick of the dispatcher loses no schedule and duplicates none: whatever the callbacks do, if the
  tick returns, the heap holds the same (job, schedule) pairs as before, its order and its sequence
  numbers are intact, and an entry that was not due is still there unchanged.\<close>

theorem dispatcher_tick_keeps_schedules:
  assumes "d_inv st" and "d_tick ports run_ids now st s = (Inr xs, st', s')"
  shows "d_pairs st' = d_pairs st \<and> d_inv st'
    \<and> (\<forall>e \<in> set (d_heap st). instant now < instant (en_next_run_at e) \<longrightarrow> e \<in> set (d_heap st'))"
proof -
  obtain due rest where p: "pop_while (\<lambda>e. instant (en_next_run_at e) \<le> instant now) (d_heap st) = (due, rest)"
    by fastforce
  with assms(2) have "d_dispatch_all ports run_ids now due (st\<lparr>d_heap := rest\<rparr>) s = (Inr xs, st', s')"
    by (simp add: d_tick_def)
  note run = d_dispatch_all_heap [OF this]
  have "e \<in> set rest" if "e \<in> set (d_heap st)" "instant now < instant (en_next_run_at e)" for e
    using that arg_cong [OF pop_while_mset [OF p], of set_mset] sl.drain_due [OF pop_while_drain [OF p]] by fastforce
  with run pop_while_inv [OF p assms(1)] pop_while_mset [OF p] show ?thesis
    by (auto simp: d_pairs_def)
qed

lemma demo_tick:
  "d_tick (dispatch_ports memory_queue no_faults demo_slot) (\<lambda>n. lit ''run_1'') demo_slot demo_dispatcher
      (demo_db, MemoryQueue_init) =
     (Inr [demo_queued], d_push (utc 86405000000) demo_schedule demo_job (demo_dispatcher\<lparr>d_heap := []\<rparr>),
      (demo_db_dispatched, \<lparr>mq_ready = [(message_id 1, demo_message)], mq_pending = [], mq_seq = 2\<rparr>))"
  by (simp add: d_tick_def demo_dispatch) (simp add: demo_dispatcher_def demo_dispatch)

theorem dispatcher_tick_keeps_schedules_witness:
  "d_inv demo_dispatcher \<and> d_pairs (d_push (utc 86405000000) demo_schedule demo_job (demo_dispatcher\<lparr>d_heap := []\<rparr>))
     = d_pairs demo_dispatcher"
  using dispatcher_tick_keeps_schedules [OF d_inv_demo demo_tick] by simp

text \<open>C4: A slot is dispatched at most once. With the callbacks of \<^verbatim>\<open>run_dispatch\<close> and any queue, whatever
  commits fail: every execution a tick returns belongs to a due entry whose idempotency key nobody held
  before the tick and which the run of that execution holds afterwards, and a key that somebody held
  before keeps its holder. So no later or concurrent tick can dispatch the same slot again while the key
  is held.\<close>

theorem dispatcher_tick_claims_slots:
  assumes "d_tick (dispatch_ports Q faults now) run_ids now st (d, q) = (Inr xs, st', (d', q'))"
  shows "(\<forall>x \<in> set xs. \<exists>e \<in> set (d_heap st). \<exists>k. instant (en_next_run_at e) \<le> instant now
      \<and> scheduled_key (j_id (en_job e)) (en_schedule e) (en_next_run_at e) = Inr k
      \<and> x_run_id x = run_ids (en_seq e) \<and> get_run_id k d = None \<and> get_run_id k d' = Some (x_run_id x))
    \<and> (\<forall>k r. get_run_id k d = Some r \<longrightarrow> get_run_id k d' = Some r)"
proof -
  obtain due rest where p: "pop_while (\<lambda>e. instant (en_next_run_at e) \<le> instant now) (d_heap st) = (due, rest)"
    by fastforce
  with assms have run: "d_dispatch_all (dispatch_ports Q faults now) run_ids now due (st\<lparr>d_heap := rest\<rparr>) (d, q) =
      (Inr xs, st', (d', q'))"
    by (simp add: d_tick_def)
  have due: "e \<in> set (d_heap st) \<and> instant (en_next_run_at e) \<le> instant now" if "e \<in> set due" for e
    using that arg_cong [OF pop_while_mset [OF p], of set_mset] sl.drain_due [OF pop_while_drain [OF p]] by auto
  show ?thesis
    using db_dispatching.dispatch_all_owned [OF run] db_dispatching.dispatch_all_owner_grows [OF run] due
    by (simp add: db_owner_def) blast
qed

theorem dispatcher_tick_claims_slots_witness:
  "get_run_id demo_key demo_db = None \<and> get_run_id demo_key demo_db_dispatched = Some (lit ''run_1'')"
proof -
  have "demo_queued \<in> set [demo_queued]" by simp
  with dispatcher_tick_claims_slots [OF demo_tick] show ?thesis
    by (auto simp: demo_dispatcher_def demo_queued_def)
qed

text \<open>With the in-memory queue, a dispatch either sends exactly one message, for attempt 1 of the run that
  now holds the slot's key, at the end of the queue, or changes neither the queue nor the database.\<close>

theorem dispatcher_dispatch_effect:
  assumes "mq_inv q"
    and "d_dispatch (dispatch_ports memory_queue faults now) run_ids now e st (d, q) = (Inr r, st', (d', q'))"
  shows "case r of
      None \<Rightarrow> d' = d \<and> q' = q
    | Some x \<Rightarrow> x_status x = QUEUED \<and> (\<exists>k i.
        mq_ready q' = mq_ready q @ [(i, \<lparr>m_job_id = j_id (en_job e), m_run_id = x_run_id x, m_attempt = 1,
          m_idempotency_key = Some k\<rparr>)]
        \<and> mq_in_flight q' = mq_in_flight q \<and> mq_inv q' \<and> get_run_id k d = None \<and> get_run_id k d' = Some (x_run_id x))"
proof (cases r)
  case None
  have c: "snd (db_claim faults now j rid k w) = w" if "fst (db_claim faults now j rid k w) \<noteq> Inr True"
    for j rid k and w :: "db \<times> MemoryQueue"
    using that db_claims.claim_lost [of faults now j rid k w] db_claims.claim_error [of faults now j rid k w]
    by (cases "db_claim faults now j rid k w"; cases "fst (db_claim faults now j rid k w)") auto
  from assms(2) None show ?thesis
    by (auto simp: d_dispatch_def d_publish_def finish_dispatch_def d_reschedule_def Let_def dispatch_ports_def
        queue_publish_def memory_queue_def mq_publish_def split: if_splits sum.splits prod.splits bool.splits)
      (use c in \<open>metis fst_conv snd_conv prod.inject sum.distinct(1) sum.inject(2)\<close>)+
next
  case (Some x)
  from assms(2) Some obtain k where k: "scheduled_key (j_id (en_job e)) (en_schedule e) (en_next_run_at e) = Inr k"
    "db_owner (d, q) k = None" "db_owner (d', q') = (db_owner (d, q))(k \<mapsto> run_ids (en_seq e))"
    "x_run_id x = run_ids (en_seq e)"
    by (auto elim!: db_dispatching.dispatched_owned)
  let ?m = "\<lparr>m_job_id = j_id (en_job e), m_run_id = x_run_id x, m_attempt = 1, m_idempotency_key = Some k\<rparr>"
  have own: "get_run_id k d = None" "get_run_id k d' = Some (x_run_id x)"
    using k(2,4) fun_cong [OF k(3), of k] by (simp_all add: db_owner_def)
  have "x_status x = QUEUED \<and> q' = snd (mq_publish ?m q)"
    using assms(2) Some k(1,4)
    by (auto simp: d_dispatch_def d_publish_def finish_dispatch_def d_reschedule_def Let_def dispatch_ports_def
        queue_publish_def memory_queue_def mq_publish_def db_claim_def db_on_enqueued_def TaskMessage_post_init_Inr
        split: if_splits sum.splits prod.splits bool.splits exn.splits)
  moreover have "tq_publish memory_queue ?m q = (Inr (message_id (mq_seq q)), snd (mq_publish ?m q))"
    by (simp add: memory_queue_def mq_publish_def)
  from mq.publish_ok [OF assms(1) this] own calculation Some show ?thesis by auto
qed

theorem dispatcher_dispatch_effect_witness:
  "mq_inv MemoryQueue_init \<and> (\<exists>k. get_run_id k demo_db = None \<and> get_run_id k demo_db_dispatched = Some (lit ''run_1''))"
  using dispatcher_dispatch_effect [OF mq_inv_init demo_dispatch] by (auto simp: demo_queued_def)

text \<open>C20: A failed publication loses no trigger. If the queue raises on publishing and the release of the
  key commits, the key is free again, nothing is recorded, and the entry is back in the heap at its original
  slot, so the next tick tries the same slot again.\<close>

theorem dispatcher_publish_failure:
  assumes "s_enabled (en_schedule e)" and "j_enabled (en_job e)"
    and "scheduled_key (j_id (en_job e)) (en_schedule e) (en_next_run_at e) = Inr k"
    and "get_run_id k d = None" and "j_id (en_job e) \<in> jr_id ` set (t_jobs d)"
    and "fl_claim faults k = None" and "fl_release faults k = None"
    and "valid_message \<lparr>m_job_id = j_id (en_job e), m_run_id = run_ids (en_seq e), m_attempt = 1, m_idempotency_key = Some k\<rparr>"
    and "\<And>m. tq_publish Q m q = (Inl exc, q)"
  shows "d_dispatch (dispatch_ports Q faults now) run_ids now e st (d, q) =
    (Inr None, d_push (en_next_run_at e) (en_schedule e) (en_job e) st, (d, q))"
proof -
  let ?row = "\<lparr>ir_key = k, ir_job_id = j_id (en_job e), ir_run_id = run_ids (en_seq e), ir_created_at = now\<rparr>"
  have claim: "db_claim faults now (en_job e) (run_ids (en_seq e)) k (d, q) =
      (Inr True, (d\<lparr>t_keys := t_keys d @ [?row]\<rparr>, q))"
    using assms(4-6) by (simp add: db_claim_def session_scope_def try_claim_cases)
  have "filter (\<lambda>r. ir_key r \<noteq> k) (t_keys d) = t_keys d"
    using assms(4) by (auto simp: get_run_id_None intro!: filter_True)
  then have "db_release faults k (d\<lparr>t_keys := t_keys d @ [?row]\<rparr>, q) = (Inr (), (d, q))"
    using assms(7) by (simp add: db_release_def session_scope_def key_release_def)
  then have "release_quietly (dispatch_ports Q faults now) k (d\<lparr>t_keys := t_keys d @ [?row]\<rparr>, q) = (d, q)"
    by (simp add: release_quietly_def dispatch_ports_def)
  with claim assms(1-3,8,9) show ?thesis
    by (simp add: d_dispatch_def d_publish_def dispatch_ports_def queue_publish_def valid_message_def Let_def)
qed

theorem dispatcher_publish_failure_witness:
  "d_dispatch (dispatch_ports (memory_queue\<lparr>tq_publish := (\<lambda>m q. (Inl (OtherError []), q))\<rparr>) no_faults demo_slot)
     (\<lambda>n. lit ''run_1'') demo_slot demo_entry demo_dispatcher (demo_db, MemoryQueue_init) =
   (Inr None, d_push demo_slot demo_schedule demo_job demo_dispatcher, (demo_db, MemoryQueue_init))"
  using dispatcher_publish_failure [of demo_entry demo_key demo_db no_faults "\<lambda>n. lit ''run_1''"
      "memory_queue\<lparr>tq_publish := (\<lambda>m q. (Inl (OtherError []), q))\<rparr>" MemoryQueue_init "OtherError []" demo_slot demo_dispatcher]
  by (simp add: get_run_id_None no_faults_def valid_message_def TaskMessage_post_init_def)

end
