(* ===== verification/Retry_Sweeper.thy ===== *)
theory Retry_Sweeper
  imports Dispatcher
begin

text \<open>
  The retry sweeper (\<^verbatim>\<open>retry_sweeper.py\<close>): it turns retries whose time has come into queue messages. Several
  sweepers may run at once; between the listing and each claim other processes may change the database and
  the queue, which is the argument \<open>meanwhile\<close>. The record \<open>sweep_faults\<close> gives the exception each commit raises, if
  any.
\<close>

section \<open>The sweep\<close>

record sweep_faults =
  sf_list :: "exn option"
  sf_claim :: "pystr \<Rightarrow> int \<Rightarrow> exn option"
  sf_restore :: "pystr \<Rightarrow> int \<Rightarrow> exn option"

definition retry_label :: "JobExecution \<Rightarrow> pystr" where
  "retry_label x = x_run_id x @ lit ''#'' @ show_int (x_attempt x)"

definition retry_message :: "JobExecution \<Rightarrow> TaskMessage" where
  "retry_message x = \<lparr>m_job_id = x_job_id x, m_run_id = x_run_id x, m_attempt = x_attempt x + 1, m_idempotency_key = None\<rparr>"

text \<open>The body of the \<^verbatim>\<open>try\<close>: building and publishing the message.\<close>

definition publish_retry :: "'q TaskQueue \<Rightarrow> JobExecution \<Rightarrow> 'q \<Rightarrow> (exn + pystr) \<times> 'q" where
  "publish_retry Q x q =
     (case TaskMessage_post_init (retry_message x) of Inl e \<Rightarrow> (Inl e, q) | Inr m \<Rightarrow> tq_publish Q m q)"

fun sweep_each ::
  "'q TaskQueue \<Rightarrow> sweep_faults \<Rightarrow> (JobExecution \<Rightarrow> db \<times> 'q \<Rightarrow> db \<times> 'q) \<Rightarrow> JobExecution list \<Rightarrow> db \<times> 'q
     \<Rightarrow> (exn + pystr list) \<times> (db \<times> 'q)" where
  "sweep_each Q fl meanwhile [] w = (Inr [], w)"
| "sweep_each Q fl meanwhile (x # xs) w =
     (let (d, q) = meanwhile x w in
      case session_scope (sf_claim fl (x_run_id x) (x_attempt x)) (claim_retry (x_run_id x) (x_attempt x)) d of
        (Inl e, d1) \<Rightarrow> (Inl e, (d1, q))
      | (Inr False, d1) \<Rightarrow> sweep_each Q fl meanwhile xs (d1, q)
      | (Inr True, d1) \<Rightarrow>
          (case publish_retry Q x q of
             (Inl _, q1) \<Rightarrow>
               (case session_scope (sf_restore fl (x_run_id x) (x_attempt x))
                       (set_next_retry_at (x_run_id x) (x_attempt x) (x_next_retry_at x)) d1 of
                  (Inl e, d2) \<Rightarrow> (Inl e, (d2, q1))
                | (Inr _, d2) \<Rightarrow> sweep_each Q fl meanwhile xs (d2, q1))
           | (Inr _, q1) \<Rightarrow>
               (case sweep_each Q fl meanwhile xs (d1, q1) of
                  (Inl e, w2) \<Rightarrow> (Inl e, w2)
                | (Inr labels, w2) \<Rightarrow> (Inr (retry_label x # labels), w2))))"

definition sweep_due_retries ::
  "'q TaskQueue \<Rightarrow> sweep_faults \<Rightarrow> (JobExecution \<Rightarrow> db \<times> 'q \<Rightarrow> db \<times> 'q) \<Rightarrow> datetime \<Rightarrow> nat \<Rightarrow> db \<times> 'q
     \<Rightarrow> (exn + pystr list) \<times> (db \<times> 'q)" where
  "sweep_due_retries Q fl meanwhile now limit w =
     (case fst (session_scope (sf_list fl) (\<lambda>d. Inr (list_due_retries now limit d, d)) (fst w)) of
        Inl e \<Rightarrow> (Inl e, w)
      | Inr due \<Rightarrow> sweep_each Q fl meanwhile due w)"

section \<open>Claims on rows\<close>

lemma exec_find_rewrite:
  assumes "\<And>r. exec_key (g r) = exec_key r"
  shows "exec_find r n (d\<lparr>t_executions := map (\<lambda>x. if hit x then g x else x) (t_executions d)\<rparr>) =
    map_option (\<lambda>x. if hit x then g x else x) (exec_find r n d)"
proof -
  have "exec_key (if hit x then g x else x) = exec_key x" for x using assms by simp
  then show ?thesis by (simp add: exec_find_def find_map)
qed

lemma record_clear_retry [simp]:
  "record_to_execution (r\<lparr>er_next_retry_at := v\<rparr>) = (record_to_execution r)\<lparr>x_next_retry_at := v\<rparr>"
  by (simp add: record_to_execution_def)

lemma execution_clear_id: "x_next_retry_at x = None \<Longrightarrow> x\<lparr>x_next_retry_at := None\<rparr> = x"
  by (cases x) simp

text \<open>A claim wins exactly when the attempt has a retry time, and clears it; every other attempt is untouched.\<close>

lemma claim_retry_cases:
  assumes "wf_db d" and "claim_retry r n d = Inr (b, d')"
  shows "b \<longleftrightarrow> (\<exists>x. get_attempt r n d = Some x \<and> x_next_retry_at x \<noteq> None)"
    and "get_attempt r' n' d' = (if (r', n') = (r, n)
        then map_option (\<lambda>x. x\<lparr>x_next_retry_at := None\<rparr>) (get_attempt r n d) else get_attempt r' n' d)"
proof -
  define hit where "hit = (\<lambda>x. exec_key x = (r, n) \<and> er_next_retry_at x \<noteq> None)"
  from assms(2) have b: "b \<longleftrightarrow> length (filter hit (t_executions d)) = 1"
    and d': "d' = d\<lparr>t_executions := map (\<lambda>x. if hit x then x\<lparr>er_next_retry_at := None\<rparr> else x) (t_executions d)\<rparr>"
    by (auto simp: claim_retry_def hit_def Let_def)
  have "filter hit (t_executions d) = filter (\<lambda>x. er_next_retry_at x \<noteq> None) (filter (\<lambda>x. exec_key x = (r, n)) (t_executions d))"
    by (auto simp: hit_def intro: filter_cong)
  also have "filter (\<lambda>x. exec_key x = (r, n)) (t_executions d) = (case exec_find r n d of None \<Rightarrow> [] | Some x \<Rightarrow> [x])"
    using assms(1) by (simp add: filter_unique exec_find_def wf_db_defs)
  finally show "b \<longleftrightarrow> (\<exists>x. get_attempt r n d = Some x \<and> x_next_retry_at x \<noteq> None)"
    by (auto simp: b get_attempt_def split: option.splits)
  have "exec_find r' n' d' = map_option (\<lambda>x. if hit x then x\<lparr>er_next_retry_at := None\<rparr> else x) (exec_find r' n' d)"
    unfolding d' by (rule exec_find_rewrite) simp
  then show "get_attempt r' n' d' = (if (r', n') = (r, n)
      then map_option (\<lambda>x. x\<lparr>x_next_retry_at := None\<rparr>) (get_attempt r n d) else get_attempt r' n' d)"
    by (auto simp: get_attempt_def hit_def execution_clear_id option.map_comp comp_def
        intro!: option.map_cong dest: exec_find_Some)
qed

lemma set_next_retry_at_cases:
  assumes "set_next_retry_at r n v d = Inr (b, d')"
  shows "get_attempt r' n' d' = (if (r', n') = (r, n)
      then map_option (\<lambda>x. x\<lparr>x_next_retry_at := v\<rparr>) (get_attempt r n d) else get_attempt r' n' d)"
proof -
  from assms have d': "d' = d\<lparr>t_executions := map (\<lambda>x. if exec_key x = (r, n) then x\<lparr>er_next_retry_at := v\<rparr> else x)
      (t_executions d)\<rparr>"
    by (auto simp: set_next_retry_at_def Let_def)
  have "exec_find r' n' d' = map_option (\<lambda>x. if exec_key x = (r, n) then x\<lparr>er_next_retry_at := v\<rparr> else x) (exec_find r' n' d)"
    unfolding d' by (rule exec_find_rewrite) simp
  then show ?thesis
    by (auto simp: get_attempt_def option.map_comp comp_def intro!: option.map_cong dest: exec_find_Some)
qed

text \<open>What the listing returns.\<close>

lemma list_due_retries_set:
  assumes "wf_db d" and "x \<in> set (list_due_retries now limit d)"
  shows "get_attempt (x_run_id x) (x_attempt x) d = Some x" and "x_status x = RETRYING"
    and "\<exists>t. x_next_retry_at x = Some t \<and> instant t \<le> instant now"
proof -
  from assms(2) obtain r where r: "r \<in> set (t_executions d)" "is_due now r" "x = record_to_execution r"
    by (auto simp: list_due_retries_def dest!: in_set_takeD)
  have "exec_find (er_run_id r) (er_attempt r) d = Some r"
    using assms(1) r(1) find_unique [of exec_key "t_executions d" r]
    by (simp add: exec_find_def wf_db_defs exec_key_def)
  with r show "get_attempt (x_run_id x) (x_attempt x) d = Some x" by (simp add: get_attempt_def)
  show "x_status x = RETRYING" "\<exists>t. x_next_retry_at x = Some t \<and> instant t \<le> instant now"
    using r(2,3) by (auto simp: is_due_def split: option.splits)
qed

lemma list_due_retries_distinct:
  assumes "wf_db d"
  shows "distinct (map (\<lambda>x. (x_run_id x, x_attempt x)) (list_due_retries now limit d))"
proof -
  let ?k = "\<lambda>r. (case er_next_retry_at r of None \<Rightarrow> 0 | Some t \<Rightarrow> instant t, er_id r)"
  have "distinct (map exec_key (t_executions d))"
    using assms by (simp add: wf_db_defs unique_on_def)
  then have "distinct (map exec_key (sort_key ?k (filter (is_due now) (t_executions d))))"
    by (simp add: distinct_map inj_on_def)
  then have "distinct (map exec_key (take limit (sort_key ?k (filter (is_due now) (t_executions d)))))"
    by (simp add: take_map [symmetric])
  then show ?thesis
    by (simp add: list_due_retries_def comp_def exec_key_def [abs_def])
qed

lemma session_scope_ok [simp]: "t d = Inr (a, d') \<Longrightarrow> session_scope None t d = (Inr a, d')"
  by (simp add: session_scope_def)

definition no_sweep_faults :: sweep_faults where
  "no_sweep_faults = \<lparr>sf_list = None, sf_claim = (\<lambda>r n. None), sf_restore = (\<lambda>r n. None)\<rparr>"

lemma no_sweep_faults_sel [simp]:
  "sf_list no_sweep_faults = None" "sf_claim no_sweep_faults r n = None" "sf_restore no_sweep_faults r n = None"
  by (simp_all add: no_sweep_faults_def)

definition scheduled_row :: "db \<Rightarrow> JobExecution \<Rightarrow> bool" where
  "scheduled_row d x \<longleftrightarrow> get_attempt (x_run_id x) (x_attempt x) d = Some x \<and> x_next_retry_at x \<noteq> None"

text \<open>Winning a claim on a scheduled row.\<close>

lemma claim_scheduled:
  assumes "wf_db d" and "scheduled_row d x"
  obtains d' where "claim_retry (x_run_id x) (x_attempt x) d = Inr (True, d')" and "wf_db d'"
    and "get_attempt (x_run_id x) (x_attempt x) d' = Some (x\<lparr>x_next_retry_at := None\<rparr>)"
    and "\<And>r n. (r, n) \<noteq> (x_run_id x, x_attempt x) \<Longrightarrow> get_attempt r n d' = get_attempt r n d"
proof -
  obtain b d' where c: "claim_retry (x_run_id x) (x_attempt x) d = Inr (b, d')"
    by (simp add: claim_retry_def Let_def)
  note cs = claim_retry_cases [OF assms(1) c]
  have b using cs(1) assms(2) by (auto simp: scheduled_row_def)
  moreover have "wf_db d'" by (rule keeps_wfD [OF claim_retry_keeps_wf assms(1) c])
  ultimately show thesis using c cs(2) assms(2) by (intro that [of d']) (auto simp: scheduled_row_def)
qed

lemma sweep_each_memory:
  assumes "wf_db d" and "mq_inv q" and "distinct (map (\<lambda>x. (x_run_id x, x_attempt x)) xs)"
    and "\<forall>x \<in> set xs. scheduled_row d x \<and> valid_message (retry_message x)"
  shows "\<exists>d' q'. sweep_each memory_queue no_sweep_faults (\<lambda>x w. w) xs (d, q) = (Inr (map retry_label xs), (d', q'))
    \<and> wf_db d' \<and> mq_inv q' \<and> map snd (mq_ready q') = map snd (mq_ready q) @ map retry_message xs
    \<and> mq_in_flight q' = mq_in_flight q
    \<and> (\<forall>r n. get_attempt r n d' = (if (r, n) \<in> (\<lambda>x. (x_run_id x, x_attempt x)) ` set xs
          then map_option (\<lambda>x. x\<lparr>x_next_retry_at := None\<rparr>) (get_attempt r n d) else get_attempt r n d))"
  using assms
proof (induction xs arbitrary: d q)
  case Nil
  then show ?case by simp
next
  case (Cons x xs)
  from Cons.prems have "scheduled_row d x" by simp
  from claim_scheduled [OF Cons.prems(1) this] obtain d1
    where c: "claim_retry (x_run_id x) (x_attempt x) d = Inr (True, d1)" and wf1: "wf_db d1"
    and x1: "get_attempt (x_run_id x) (x_attempt x) d1 = Some (x\<lparr>x_next_retry_at := None\<rparr>)"
    and other: "\<And>r n. (r, n) \<noteq> (x_run_id x, x_attempt x) \<Longrightarrow> get_attempt r n d1 = get_attempt r n d" by metis
  obtain i q1 where p: "tq_publish memory_queue (retry_message x) q = (Inr i, q1)"
    by (simp add: memory_queue_def mq_publish_def)
  note q1 = mq.publish_ok [OF Cons.prems(2) p]
  have "publish_retry memory_queue x q = (Inr i, q1)"
    using Cons.prems(4) p by (simp add: publish_retry_def valid_message_def)
  moreover have "scheduled_row d1 y \<and> valid_message (retry_message y)" if "y \<in> set xs" for y
    using that Cons.prems(3,4) other [of "x_run_id y" "x_attempt y"] by (auto simp: image_iff scheduled_row_def)
  then have "\<forall>y \<in> set xs. scheduled_row d1 y \<and> valid_message (retry_message y)" by blast
  from Cons.IH [OF wf1 _ _ this, of q1] q1 Cons.prems(3) obtain d' q' where
    "sweep_each memory_queue no_sweep_faults (\<lambda>x w. w) xs (d1, q1) = (Inr (map retry_label xs), (d', q'))"
    "wf_db d'" "mq_inv q'" "map snd (mq_ready q') = map snd (mq_ready q1) @ map retry_message xs"
    "mq_in_flight q' = mq_in_flight q1"
    and rows: "\<And>r n. get_attempt r n d' = (if (r, n) \<in> (\<lambda>x. (x_run_id x, x_attempt x)) ` set xs
        then map_option (\<lambda>x. x\<lparr>x_next_retry_at := None\<rparr>) (get_attempt r n d1) else get_attempt r n d1)"
    by auto
  moreover have "get_attempt r n d' = (if (r, n) \<in> (\<lambda>x. (x_run_id x, x_attempt x)) ` set (x # xs)
      then map_option (\<lambda>x. x\<lparr>x_next_retry_at := None\<rparr>) (get_attempt r n d) else get_attempt r n d)" for r n
  proof (cases "(r, n) = (x_run_id x, x_attempt x)")
    case True
    with rows [of r n] x1 Cons.prems(3,4) show ?thesis by (auto simp: scheduled_row_def)
  next
    case False
    with rows [of r n] other [OF False] show ?thesis by auto
  qed
  ultimately show ?case using c q1 by auto
qed

text \<open>A sequence of publications, with what became of each: the queue accepts the message or raises, or it is not valid and never sent.\<close>

inductive publications :: "'q TaskQueue \<Rightarrow> 'q \<Rightarrow> (TaskMessage \<times> bool) list \<Rightarrow> 'q \<Rightarrow> bool" for Q where
  pub_none: "publications Q q [] q"
| pub_accepted: "valid_message m \<Longrightarrow> tq_publish Q m q = (Inr i, q1) \<Longrightarrow> publications Q q1 ms q2 \<Longrightarrow> publications Q q ((m, True) # ms) q2"
| pub_refused: "valid_message m \<Longrightarrow> tq_publish Q m q = (Inl e, q1) \<Longrightarrow> publications Q q1 ms q2 \<Longrightarrow> publications Q q ((m, False) # ms) q2"
| pub_invalid: "\<not> valid_message m \<Longrightarrow> publications Q q ms q2 \<Longrightarrow> publications Q q ((m, False) # ms) q2"

inductive_cases publications_ConsE: "publications Q q (p # ms) q'"

lemma publish_retry_publications:
  assumes "publish_retry Q x q = (r, q1)" and "publications Q q1 ms q2"
  shows "publications Q q ((retry_message x, \<not> isl r) # ms) q2"
proof (cases "valid_message (retry_message x)")
  case True
  with assms(1) have "tq_publish Q (retry_message x) q = (r, q1)" by (simp add: publish_retry_def valid_message_def)
  with True assms(2) show ?thesis by (cases r) (auto intro: pub_accepted pub_refused)
next
  case False
  with assms have "isl r" "q1 = q" by (auto simp: publish_retry_def valid_message_def TaskMessage_post_init_def split: if_splits option.splits)
  with False assms(2) show ?thesis by (auto intro: pub_invalid)
qed

text \<open>Clearing the retry times of some attempts.\<close>

definition cleared :: "JobExecution list \<Rightarrow> db \<Rightarrow> pystr \<Rightarrow> int \<Rightarrow> JobExecution option" where
  "cleared sent d r n =
     (if \<exists>x \<in> set sent. (x_run_id x, x_attempt x) = (r, n)
      then map_option (\<lambda>x. x\<lparr>x_next_retry_at := None\<rparr>) (get_attempt r n d) else get_attempt r n d)"

lemma cleared_cong: "(\<And>r n. get_attempt r n d = get_attempt r n d') \<Longrightarrow> cleared sent d = cleared sent d'"
  by (auto simp: cleared_def fun_eq_iff)

lemma restore_scheduled:
  assumes "wf_db d1" and "scheduled_row d x" and "get_attempt (x_run_id x) (x_attempt x) d1 = Some (x\<lparr>x_next_retry_at := None\<rparr>)"
    and "\<And>r n. (r, n) \<noteq> (x_run_id x, x_attempt x) \<Longrightarrow> get_attempt r n d1 = get_attempt r n d"
  obtains b d2 where "set_next_retry_at (x_run_id x) (x_attempt x) (x_next_retry_at x) d1 = Inr (b, d2)" and "wf_db d2"
    and "\<And>r n. get_attempt r n d2 = get_attempt r n d"
proof -
  obtain b d2 where s: "set_next_retry_at (x_run_id x) (x_attempt x) (x_next_retry_at x) d1 = Inr (b, d2)"
    by (simp add: set_next_retry_at_def Let_def)
  have "get_attempt r n d2 = get_attempt r n d" for r n
    using set_next_retry_at_cases [OF s, of r n] assms(2-4)
    by (cases x) (auto simp: scheduled_row_def split: if_splits)
  with s keeps_wfD [OF set_next_retry_at_keeps_wf assms(1) s] show thesis by (rule that)
qed

text \<open>With a queue that may fail, every listed retry is tried in order, and exactly those the queue accepted are cleared and reported.\<close>

lemma sweep_each_rows:
  assumes "wf_db d" and "distinct (map (\<lambda>x. (x_run_id x, x_attempt x)) xs)" and "\<forall>x \<in> set xs. scheduled_row d x"
  shows "\<exists>ok d' q'. length ok = length xs
    \<and> sweep_each Q no_sweep_faults (\<lambda>x w. w) xs (d, q) = (Inr (map (retry_label \<circ> fst) (filter snd (zip xs ok))), (d', q'))
    \<and> publications Q q (zip (map retry_message xs) ok) q'
    \<and> (\<forall>r n. get_attempt r n d' = cleared (map fst (filter snd (zip xs ok))) d r n)"
  using assms
proof (induction xs arbitrary: d q)
  case Nil
  show ?case by (rule exI [of _ "[]"]) (simp add: cleared_def pub_none)
next
  case (Cons x xs)
  from Cons.prems have row: "scheduled_row d x" by simp
  from claim_scheduled [OF Cons.prems(1) row] obtain d1
    where c: "claim_retry (x_run_id x) (x_attempt x) d = Inr (True, d1)" and wf1: "wf_db d1"
    and x1: "get_attempt (x_run_id x) (x_attempt x) d1 = Some (x\<lparr>x_next_retry_at := None\<rparr>)"
    and other: "\<And>r n. (r, n) \<noteq> (x_run_id x, x_attempt x) \<Longrightarrow> get_attempt r n d1 = get_attempt r n d" by metis
  obtain pr q1 where p: "publish_retry Q x q = (pr, q1)" by fastforce
  have keys: "\<forall>y \<in> set xs. (x_run_id y, x_attempt y) \<noteq> (x_run_id x, x_attempt x)"
    "distinct (map (\<lambda>x. (x_run_id x, x_attempt x)) xs)" using Cons.prems(2) by (auto simp: image_iff)
  show ?case
  proof (cases pr)
    case (Inl e)
    obtain b d2 where s: "set_next_retry_at (x_run_id x) (x_attempt x) (x_next_retry_at x) d1 = Inr (b, d2)" and wf2: "wf_db d2"
      and same: "\<And>r n. get_attempt r n d2 = get_attempt r n d"
      using restore_scheduled [OF wf1 row x1 other] by metis
    have "\<forall>y \<in> set xs. scheduled_row d2 y" using Cons.prems(3) same by (simp add: scheduled_row_def)
    from Cons.IH [OF wf2 keys(2) this, of q1] obtain ok d' q' where "length ok = length xs"
      "sweep_each Q no_sweep_faults (\<lambda>x w. w) xs (d2, q1) = (Inr (map (retry_label \<circ> fst) (filter snd (zip xs ok))), (d', q'))"
      "publications Q q1 (zip (map retry_message xs) ok) q'"
      "\<forall>r n. get_attempt r n d' = cleared (map fst (filter snd (zip xs ok))) d2 r n" by blast
    with c p Inl s same publish_retry_publications [OF p] show ?thesis
      by (intro exI [of _ "False # ok"] exI [of _ d'] exI [of _ q']) (simp add: cleared_cong [of d2 d, OF same])
  next
    case (Inr i)
    have "\<forall>y \<in> set xs. scheduled_row d1 y" using keys(1) Cons.prems(3) other by (simp add: scheduled_row_def)
    from Cons.IH [OF wf1 keys(2) this, of q1] obtain ok d' q' where ok: "length ok = length xs"
      "sweep_each Q no_sweep_faults (\<lambda>x w. w) xs (d1, q1) = (Inr (map (retry_label \<circ> fst) (filter snd (zip xs ok))), (d', q'))"
      "publications Q q1 (zip (map retry_message xs) ok) q'"
      and rows: "\<And>r n. get_attempt r n d' = cleared (map fst (filter snd (zip xs ok))) d1 r n" by blast
    let ?sent = "map fst (filter snd (zip xs ok))"
    have sub: "set ?sent \<subseteq> set xs" by (auto dest: set_zip_leftD)
    have "get_attempt r n d' = cleared (x # ?sent) d r n" for r n
    proof (cases "(r, n) = (x_run_id x, x_attempt x)")
      case True
      with sub keys(1) have "\<not> (\<exists>y \<in> set ?sent. (x_run_id y, x_attempt y) = (r, n))" by blast
      with True rows [of r n] x1 row show ?thesis by (simp add: cleared_def scheduled_row_def)
    next
      case False
      with rows [of r n] other [OF False] show ?thesis by (auto simp: cleared_def)
    qed
    with c p Inr ok publish_retry_publications [OF p] show ?thesis
      by (intro exI [of _ "True # ok"] exI [of _ d'] exI [of _ q']) simp
  qed
qed

section \<open>Properties\<close>

lemma sweep_unfold:
  "sweep_due_retries Q no_sweep_faults meanwhile now limit (d, q) =
     sweep_each Q no_sweep_faults meanwhile (list_due_retries now limit d) (d, q)"
  by (simp add: sweep_due_retries_def session_scope_def)

lemma list_due_scheduled: "wf_db d \<Longrightarrow> \<forall>x \<in> set (list_due_retries now limit d). scheduled_row d x"
  using list_due_retries_set by (fastforce simp: scheduled_row_def)

text \<open>C7: Every due retry is sent exactly once. With the in-memory queue and no competing process, a sweep sends,
  in the order of their retry times, one message for the next attempt of each due execution, with the same
  run id and without an idempotency key; it clears the retry time of exactly these executions and changes no
  other row. (Due executions have identifiers the message class accepts.)\<close>

theorem sweeper_sends_due_retries:
  assumes "wf_db d" and "mq_inv q"
    and "\<forall>x \<in> set (list_due_retries now limit d). valid_message (retry_message x)"
  shows "\<exists>d' q'. sweep_due_retries memory_queue no_sweep_faults (\<lambda>x w. w) now limit (d, q) =
      (Inr (map retry_label (list_due_retries now limit d)), (d', q'))
    \<and> map snd (mq_ready q') = map snd (mq_ready q) @ map retry_message (list_due_retries now limit d)
    \<and> mq_in_flight q' = mq_in_flight q \<and> wf_db d' \<and> mq_inv q'
    \<and> (\<forall>r n. get_attempt r n d' =
        (if \<exists>x \<in> set (list_due_retries now limit d). (x_run_id x, x_attempt x) = (r, n)
         then map_option (\<lambda>x. x\<lparr>x_next_retry_at := None\<rparr>) (get_attempt r n d) else get_attempt r n d))"
proof -
  have "\<forall>x \<in> set (list_due_retries now limit d). scheduled_row d x \<and> valid_message (retry_message x)"
    using list_due_scheduled [OF assms(1)] assms(3) by blast
  from sweep_each_memory [OF assms(1,2) list_due_retries_distinct [OF assms(1)] this] show ?thesis
    unfolding sweep_unfold by (auto simp: image_iff eq_commute) (metis (no_types, lifting))
qed

definition retrying_row :: JobExecution where
  "retrying_row = (new_execution (lit ''job_a'') (lit ''run_1''))
     \<lparr>x_attempt := 1, x_status := RETRYING, x_next_retry_at := Some (utc 3)\<rparr>"

definition retrying_db :: db where
  "retrying_db = demo_db\<lparr>t_executions := [execution_to_record 1 retrying_row], exec_seq := 2\<rparr>"

lemma retrying_db_wf [simp]: "wf_db retrying_db"
proof -
  have "exec_add retrying_row demo_db = Inr ((), retrying_db)"
    by (simp add: exec_add_def exec_find_def retrying_db_def retrying_row_def)
  from keeps_wfD [OF exec_add_keeps_wf wf_demo_db this] show ?thesis .
qed

lemma retrying_due [simp]: "list_due_retries (utc 5) 100 retrying_db = [retrying_row]"
  by (simp add: list_due_retries_def retrying_db_def is_due_def retrying_row_def)

lemma retrying_message [simp]: "valid_message (retry_message retrying_row)"
  by (simp add: valid_message_def TaskMessage_post_init_def retry_message_def retrying_row_def)

theorem sweeper_sends_due_retries_witness:
  "\<exists>d' q'. sweep_due_retries memory_queue no_sweep_faults (\<lambda>x w. w) (utc 5) 100 (retrying_db, MemoryQueue_init) =
      (Inr [retry_label retrying_row], (d', q'))
    \<and> map snd (mq_ready q') = [\<lparr>m_job_id = lit ''job_a'', m_run_id = lit ''run_1'', m_attempt = 2, m_idempotency_key = None\<rparr>]
    \<and> get_attempt (lit ''run_1'') 1 d' = Some (retrying_row\<lparr>x_next_retry_at := None\<rparr>)"
proof -
  have g: "get_attempt (lit ''run_1'') 1 retrying_db = Some retrying_row"
    by (simp add: get_attempt_def exec_find_def retrying_db_def retrying_row_def)
  have k: "x_run_id retrying_row = lit ''run_1''" "x_attempt retrying_row = 1"
    and m: "retry_message retrying_row = \<lparr>m_job_id = lit ''job_a'', m_run_id = lit ''run_1'', m_attempt = 2,
      m_idempotency_key = None\<rparr>"
    by (simp_all add: retrying_row_def retry_message_def)
  obtain d' q' where "sweep_due_retries memory_queue no_sweep_faults (\<lambda>x w. w) (utc 5) 100
      (retrying_db, MemoryQueue_init) = (Inr [retry_label retrying_row], (d', q'))"
    and "map snd (mq_ready q') = map snd (mq_ready MemoryQueue_init) @ [retry_message retrying_row]"
    and "\<forall>r n. get_attempt r n d' = (if (x_run_id retrying_row, x_attempt retrying_row) = (r, n)
      then map_option (\<lambda>x. x\<lparr>x_next_retry_at := None\<rparr>) (get_attempt r n retrying_db) else get_attempt r n retrying_db)"
    using sweeper_sends_due_retries [of retrying_db MemoryQueue_init "utc 5" 100] by auto
  with g k m show ?thesis by (auto simp: MemoryQueue_init_def)
qed

text \<open>C23: A sweep loses no retry, even when the queue fails. On a consistent database, if no commit fails and no other process interferes, a sweep returns,
  whatever the queue does. It has tried to publish the message of every due retry once, in order; it reports exactly those the queue accepted,
  and has cleared the retry times of exactly these. Every other row is as it was: a retry whose publication failed is still scheduled.\<close>

theorem sweeper_loses_no_retry:
  assumes "wf_db d" and "due = list_due_retries now limit d"
  shows "\<exists>ok labels d' q'. sweep_due_retries Q no_sweep_faults (\<lambda>x w. w) now limit (d, q) = (Inr labels, (d', q'))
    \<and> length ok = length due \<and> publications Q q (zip (map retry_message due) ok) q'
    \<and> labels = map (retry_label \<circ> fst) (filter snd (zip due ok))
    \<and> (\<forall>r n. get_attempt r n d' =
        (if \<exists>x. (x, True) \<in> set (zip due ok) \<and> (x_run_id x, x_attempt x) = (r, n)
         then map_option (\<lambda>x. x\<lparr>x_next_retry_at := None\<rparr>) (get_attempt r n d) else get_attempt r n d))"
proof -
  obtain ok d' q' where ok: "length ok = length due"
    "sweep_each Q no_sweep_faults (\<lambda>x w. w) due (d, q) = (Inr (map (retry_label \<circ> fst) (filter snd (zip due ok))), (d', q'))"
    "publications Q q (zip (map retry_message due) ok) q'"
    and rows: "\<And>r n. get_attempt r n d' = cleared (map fst (filter snd (zip due ok))) d r n"
    using sweep_each_rows [OF assms(1) list_due_retries_distinct [OF assms(1)] list_due_scheduled [OF assms(1)], of now limit Q q]
    unfolding assms(2) by blast
  have sent: "(\<exists>x \<in> set (map fst (filter snd (zip due ok))). P x) \<longleftrightarrow> (\<exists>x. (x, True) \<in> set (zip due ok) \<and> P x)" for P
    by force
  show ?thesis
    by (rule exI [of _ ok], rule exI, rule exI [of _ d'], rule exI [of _ q'])
      (use ok rows [unfolded cleared_def sent] in \<open>simp add: sweep_unfold assms(2) [symmetric]\<close>)
qed

text \<open>A queue that accepts nothing, and the in-memory queue.\<close>

theorem sweeper_loses_no_retry_witness:
  "(\<exists>d' q'. sweep_due_retries (memory_queue\<lparr>tq_publish := (\<lambda>m q. (Inl (OtherError []), q))\<rparr>) no_sweep_faults (\<lambda>x w. w)
      (utc 5) 100 (retrying_db, MemoryQueue_init) = (Inr [], (d', q'))
      \<and> get_attempt (lit ''run_1'') 1 d' = get_attempt (lit ''run_1'') 1 retrying_db)
   \<and> (\<exists>d' q'. sweep_due_retries memory_queue no_sweep_faults (\<lambda>x w. w) (utc 5) 100 (retrying_db, MemoryQueue_init)
      = (Inr [retry_label retrying_row], (d', q')))"
proof -
  let ?Q = "memory_queue\<lparr>tq_publish := (\<lambda>m q. (Inl (OtherError []), q))\<rparr>"
  have one: "length ok = length [x] \<Longrightarrow> ok = [hd ok]" for ok :: "bool list" and x :: JobExecution by (cases ok) auto
  obtain ok labels d' q' where fail: "sweep_due_retries ?Q no_sweep_faults (\<lambda>x w. w) (utc 5) 100 (retrying_db, MemoryQueue_init) = (Inr labels, (d', q'))"
    "length ok = length [retrying_row]" "publications ?Q MemoryQueue_init (zip (map retry_message [retrying_row]) ok) q'"
    "labels = map (retry_label \<circ> fst) (filter snd (zip [retrying_row] ok))"
    "\<forall>r n. get_attempt r n d' =
        (if \<exists>x. (x, True) \<in> set (zip [retrying_row] ok) \<and> (x_run_id x, x_attempt x) = (r, n)
         then map_option (\<lambda>x. x\<lparr>x_next_retry_at := None\<rparr>) (get_attempt r n retrying_db) else get_attempt r n retrying_db)"
    using sweeper_loses_no_retry [OF retrying_db_wf retrying_due [symmetric], of ?Q MemoryQueue_init] by blast
  from fail(3) one [OF fail(2)] have "ok = [False]" by (cases ok) (auto elim: publications_ConsE)
  moreover obtain ok2 labels2 d2 q2 where "sweep_due_retries memory_queue no_sweep_faults (\<lambda>x w. w) (utc 5) 100 (retrying_db, MemoryQueue_init) = (Inr labels2, (d2, q2))"
    "length ok2 = length [retrying_row]" "publications memory_queue MemoryQueue_init (zip (map retry_message [retrying_row]) ok2) q2"
    "labels2 = map (retry_label \<circ> fst) (filter snd (zip [retrying_row] ok2))"
    using sweeper_loses_no_retry [OF retrying_db_wf retrying_due [symmetric], of memory_queue MemoryQueue_init] by blast
  moreover from this(3) one [OF this(2)] have "ok2 = [True]"
    by (cases ok2) (auto elim: publications_ConsE simp: memory_queue_def mq_publish_def)
  ultimately show ?thesis using fail(1,4,5) by auto
qed

text \<open>Only one of several sweepers sends a retry: on a consistent database a claim of an attempt wins exactly if
  its retry time is set, and after a winning claim a second claim of the same attempt loses and changes
  nothing.\<close>

theorem claim_retry_exclusive:
  assumes "wf_db d" and "claim_retry r n d = Inr (True, d1)"
  shows "\<exists>x. get_attempt r n d = Some x \<and> x_next_retry_at x \<noteq> None
    \<and> get_attempt r n d1 = Some (x\<lparr>x_next_retry_at := None\<rparr>) \<and> claim_retry r n d1 = Inr (False, d1)"
proof -
  note c = claim_retry_cases [OF assms]
  have wf1: "wf_db d1" by (rule keeps_wfD [OF claim_retry_keeps_wf assms])
  from c(1) obtain x where x: "get_attempt r n d = Some x" "x_next_retry_at x \<noteq> None" by auto
  have x1: "get_attempt r n d1 = Some (x\<lparr>x_next_retry_at := None\<rparr>)" using c(2) [of r n] x by simp
  obtain b d2 where c2: "claim_retry r n d1 = Inr (b, d2)" by (simp add: claim_retry_def Let_def)
  with claim_retry_cases(1) [OF wf1 c2] x1 have "\<not> b" by auto
  moreover have "\<not> (exec_key y = (r, n) \<and> er_next_retry_at y \<noteq> None)" if "y \<in> set (t_executions d1)" for y
    using that x1 find_unique [of exec_key "t_executions d1" y] wf1
    by (auto simp: get_attempt_def exec_find_def wf_db_defs dest!: arg_cong [of _ _ x_next_retry_at])
  then have "map (\<lambda>y. if exec_key y = (r, n) \<and> er_next_retry_at y \<noteq> None then y\<lparr>er_next_retry_at := None\<rparr> else y)
      (t_executions d1) = t_executions d1"
    by (intro map_idI) auto
  then have "d2 = d1" using c2 by (auto simp: claim_retry_def Let_def)
  ultimately show ?thesis using x x1 c2 by auto
qed

theorem claim_retry_exclusive_witness:
  "\<exists>d1. claim_retry (lit ''run_1'') 1 retrying_db = Inr (True, d1)
     \<and> claim_retry (lit ''run_1'') 1 d1 = Inr (False, d1)"
proof -
  have "\<exists>d1. claim_retry (lit ''run_1'') 1 retrying_db = Inr (True, d1)"
    by (simp add: claim_retry_def Let_def retrying_db_def retrying_row_def)
  with claim_retry_exclusive [OF retrying_db_wf] show ?thesis by blast
qed

end
