(* ===== verification/Scheduler.thy ===== *)
theory Scheduler
  imports Dispatcher Executor
begin

text \<open>
  The in-process scheduler (\<^verbatim>\<open>scheduler.py\<close>): the same heap of triggers as the dispatcher's, but a due trigger is
  executed at once, and a failed attempt is put back into the heap as a one-off retry entry that carries the run id and the
  number of the next attempt.

  The scheduler's own state is \<open>SState\<close>. What it shares with the threads of the running handlers is \<open>sworld\<close>: the active
  runs with their tokens and an outside state \<open>'s\<close> for the claim and start callbacks. The inputs of each popped entry (the run
  ids it would draw, the polls of its attempt, the clock reading for its retry) are keyed by the entry's sequence number.
\<close>

section \<open>State and inputs\<close>

record HeapEntry =
  he_next_run_at :: datetime
  he_schedule :: Schedule
  he_job :: Job
  he_attempt_number :: int
  he_run_id :: "pystr option"
  he_seq :: nat

record SState =
  sc_heap :: "HeapEntry list"
  sc_seq :: nat

record 's sworld =
  sw_active :: ActiveRuns
  sw_ext :: 's

record 's trigger_env =
  te_candidate_run_id :: pystr
  te_run_id :: pystr
  te_attempt :: "'s sworld attempt_env"
  te_now :: datetime

record 's callbacks =
  cb_claim :: "(Job \<Rightarrow> pystr \<Rightarrow> pystr \<Rightarrow> 's \<Rightarrow> (exn + bool) \<times> 's) option"
  cb_on_start :: "(JobExecution \<Rightarrow> 's \<Rightarrow> (exn + unit) \<times> 's) option"

definition Scheduler_init :: SState where
  "Scheduler_init = \<lparr>sc_heap = [], sc_seq = 0\<rparr>"

definition heap_entry_key :: "HeapEntry \<Rightarrow> int \<times> nat" where
  "heap_entry_key e = (instant (he_next_run_at e), he_seq e)"

section \<open>Operations\<close>

definition sc_push :: "datetime \<Rightarrow> Schedule \<Rightarrow> Job \<Rightarrow> int \<Rightarrow> pystr option \<Rightarrow> SState \<Rightarrow> SState" where
  "sc_push next_run_at schedule job attempt_number run_id st =
     st\<lparr>sc_heap := heappush heap_entry_key
          \<lparr>he_next_run_at = next_run_at, he_schedule = schedule, he_job = job,
           he_attempt_number = attempt_number, he_run_id = run_id, he_seq = sc_seq st\<rparr> (sc_heap st),
        sc_seq := Suc (sc_seq st)\<rparr>"

definition sc_add :: "datetime \<Rightarrow> Job \<Rightarrow> Schedule \<Rightarrow> SState \<Rightarrow> (exn + unit) \<times> SState" where
  "sc_add now job schedule st =
     (case compute_next_run schedule now of
        Inl e \<Rightarrow> (Inl e, st)
      | Inr t \<Rightarrow> (Inr (), sc_push t schedule job 1 None st))"

definition sc_pop_due :: "datetime \<Rightarrow> SState \<Rightarrow> HeapEntry list \<times> SState" where
  "sc_pop_due now st =
     (let (due, rest) = pop_while (\<lambda>e. instant (he_next_run_at e) \<le> instant now) (sc_heap st)
      in (due, st\<lparr>sc_heap := rest\<rparr>))"

definition sc_peek_next_run_at :: "SState \<Rightarrow> datetime option" where
  "sc_peek_next_run_at st = map_option he_next_run_at (heap_first (sc_heap st))"

text \<open>\<^verbatim>\<open>self._push(compute_next_run(entry.schedule, now), entry.schedule, entry.job)\<close>, then go on with \<open>result\<close>.\<close>

definition sc_regular ::
  "'a \<Rightarrow> HeapEntry \<Rightarrow> datetime \<Rightarrow> SState \<Rightarrow> 'w \<Rightarrow> (SState \<times> 'w, 'a) progress" where
  "sc_regular result entry now st w =
     (case compute_next_run (he_schedule entry) now of
        Inl e \<Rightarrow> Done (Inl e) (st, w)
      | Inr t \<Rightarrow> Done (Inr result) (sc_push t (he_schedule entry) (he_job entry) 1 None st, w))"

definition sw_token :: "token \<Rightarrow> 's sworld token_ops" where
  "sw_token t =
     \<lparr>tk_cancel = (\<lambda>w. w\<lparr>sw_active := token_cancel t (sw_active w)\<rparr>),
      tk_is_cancelled = (\<lambda>w. token_is_cancelled t (sw_active w))\<rparr>"

definition sw_on_start :: "'s callbacks \<Rightarrow> (JobExecution \<Rightarrow> 's sworld \<Rightarrow> (exn + unit) \<times> 's sworld) option" where
  "sw_on_start cb = (case cb_on_start cb of None \<Rightarrow> None
     | Some f \<Rightarrow> Some (\<lambda>x w. let (r, s) = f x (sw_ext w) in (r, w\<lparr>sw_ext := s\<rparr>)))"

text \<open>The retry entry of a failed attempt.\<close>

definition sc_retry ::
  "AttemptResult \<Rightarrow> HeapEntry \<Rightarrow> datetime \<Rightarrow> SState \<Rightarrow> 'w \<Rightarrow> (SState \<times> 'w, JobExecution option) progress" where
  "sc_retry res entry retry_now st w =
     (case delay_for_attempt (ar_retry_policy res) (he_attempt_number entry) of
        Inl e \<Rightarrow> Done (Inl e) (st, w)
      | Inr delay \<Rightarrow>
          (case timedelta_seconds delay of
             Inl e \<Rightarrow> Done (Inl e) (st, w)
           | Inr us \<Rightarrow>
               (case add_timedelta retry_now us of
                  Inl e \<Rightarrow> Done (Inl e) (st, w)
                | Inr retry_at \<Rightarrow>
                    Done (Inr (Some (ar_execution res)))
                      (sc_push retry_at (he_schedule entry) (he_job entry) (he_attempt_number entry + 1)
                         (Some (x_run_id (ar_execution res))) st, w))))"

text \<open>From the registration of the token to the end of the loop body.\<close>

definition sc_execute ::
  "(pyfloat \<Rightarrow> pystr) \<Rightarrow> TaskRegistry \<Rightarrow> 's callbacks \<Rightarrow> 's trigger_env \<Rightarrow> datetime \<Rightarrow> HeapEntry \<Rightarrow> pystr \<Rightarrow> SState
     \<Rightarrow> 's sworld \<Rightarrow> (SState \<times> 's sworld, JobExecution option) progress" where
  "sc_execute fmt reg cb env now entry run_id st w =
     (let (t, a) = CancelToken_new (sw_active w);
          w0 = w\<lparr>sw_active := active_register run_id t a\<rparr>;
          unregister = (\<lambda>w. w\<lparr>sw_active := active_unregister run_id (sw_active w)\<rparr>)
      in case execute_attempt fmt reg (sw_token t) (sw_on_start cb) 5 (te_attempt env) (he_job entry)
                (he_attempt_number entry) (Some run_id) w0 of
           Waiting w1 \<Rightarrow> Waiting (st, w1)
         | Done (Inl _) w1 \<Rightarrow> sc_regular None entry now st (unregister w1)
         | Done (Inr res) w1 \<Rightarrow>
             if ar_should_retry res then sc_retry res entry (te_now env) st (unregister w1)
             else sc_regular (Some (ar_execution res)) entry now st (unregister w1))"

definition sc_trigger ::
  "(pyfloat \<Rightarrow> pystr) \<Rightarrow> TaskRegistry \<Rightarrow> 's callbacks \<Rightarrow> (nat \<Rightarrow> 's trigger_env) \<Rightarrow> datetime \<Rightarrow> HeapEntry \<Rightarrow> SState
     \<Rightarrow> 's sworld \<Rightarrow> (SState \<times> 's sworld, JobExecution option) progress" where
  "sc_trigger fmt reg cb envs now entry st w =
     (let env = envs (he_seq entry) in
      if \<not> (s_enabled (he_schedule entry) \<and> j_enabled (he_job entry)) then sc_regular None entry now st w
      else case (if he_attempt_number entry = 1 then cb_claim cb else None) of
             Some claim \<Rightarrow>
               (case scheduled_key (j_id (he_job entry)) (he_schedule entry) (he_next_run_at entry) of
                  Inl e \<Rightarrow> Done (Inl e) (st, w)
                | Inr key \<Rightarrow>
                    (case claim (he_job entry) (te_candidate_run_id env) key (sw_ext w) of
                       (Inl _, s1) \<Rightarrow> sc_regular None entry now st (w\<lparr>sw_ext := s1\<rparr>)
                     | (Inr False, s1) \<Rightarrow> sc_regular None entry now st (w\<lparr>sw_ext := s1\<rparr>)
                     | (Inr True, s1) \<Rightarrow>
                         sc_execute fmt reg cb env now entry (te_candidate_run_id env) st (w\<lparr>sw_ext := s1\<rparr>)))
           | None \<Rightarrow>
               sc_execute fmt reg cb env now entry
                 (case he_run_id entry of Some r \<Rightarrow> r | None \<Rightarrow> te_run_id env) st w)"

fun sc_trigger_all ::
  "(pyfloat \<Rightarrow> pystr) \<Rightarrow> TaskRegistry \<Rightarrow> 's callbacks \<Rightarrow> (nat \<Rightarrow> 's trigger_env) \<Rightarrow> datetime \<Rightarrow> HeapEntry list
     \<Rightarrow> SState \<times> 's sworld \<Rightarrow> (SState \<times> 's sworld, JobExecution list) progress" where
  "sc_trigger_all fmt reg cb envs now [] s = Done (Inr []) s"
| "sc_trigger_all fmt reg cb envs now (entry # due) s =
     (case sc_trigger fmt reg cb envs now entry (fst s) (snd s) of
        Waiting s1 \<Rightarrow> Waiting s1
      | Done (Inl e) s1 \<Rightarrow> Done (Inl e) s1
      | Done (Inr r) s1 \<Rightarrow>
          (case sc_trigger_all fmt reg cb envs now due s1 of
             Waiting s2 \<Rightarrow> Waiting s2
           | Done (Inl e) s2 \<Rightarrow> Done (Inl e) s2
           | Done (Inr xs) s2 \<Rightarrow> Done (Inr (case r of None \<Rightarrow> xs | Some x \<Rightarrow> x # xs)) s2))"

definition sc_tick ::
  "(pyfloat \<Rightarrow> pystr) \<Rightarrow> TaskRegistry \<Rightarrow> 's callbacks \<Rightarrow> (nat \<Rightarrow> 's trigger_env) \<Rightarrow> datetime \<Rightarrow> SState \<times> 's sworld
     \<Rightarrow> (SState \<times> 's sworld, JobExecution list) progress" where
  "sc_tick fmt reg cb envs now s =
     (let (due, st) = sc_pop_due now (fst s) in sc_trigger_all fmt reg cb envs now due (st, snd s))"

section \<open>Lemmas\<close>

definition sc_pairs :: "SState \<Rightarrow> (Job \<times> Schedule) multiset" where
  "sc_pairs st = image_mset (\<lambda>e. (he_job e, he_schedule e)) (mset (sc_heap st))"

text \<open>An entry is a regular trigger (attempt 1, no run id) or a retry (a later attempt of a given run).\<close>

definition sc_inv :: "SState \<Rightarrow> bool" where
  "sc_inv st \<longleftrightarrow> sorted (map heap_entry_key (sc_heap st)) \<and> unique_on he_seq (sc_heap st)
     \<and> (\<forall>e \<in> set (sc_heap st). he_seq e < sc_seq st \<and> 1 \<le> he_attempt_number e
          \<and> (1 < he_attempt_number e \<longleftrightarrow> he_run_id e \<noteq> None))"

lemma sc_push_pairs [simp]: "sc_pairs (sc_push t sch j n r st) = add_mset (j, sch) (sc_pairs st)"
  by (simp add: sc_pairs_def sc_push_def)

lemma sc_push_inv:
  assumes "sc_inv st" and "1 \<le> n" and "1 < n \<longleftrightarrow> r \<noteq> None"
  shows "sc_inv (sc_push t sch j n r st)"
proof -
  let ?e = "\<lparr>he_next_run_at = t, he_schedule = sch, he_job = j, he_attempt_number = n, he_run_id = r, he_seq = sc_seq st\<rparr>"
  have "unique_on he_seq (heappush heap_entry_key ?e (sc_heap st)) = unique_on he_seq (?e # sc_heap st)"
    by (rule unique_on_mset) simp
  with assms show ?thesis
    by (auto simp: sc_inv_def sc_push_def less_Suc_eq intro: sl.push_inv)
qed

text \<open>The entry a trigger puts back: the next regular trigger, or the retry of the execution it returns.\<close>

definition follow_up :: "HeapEntry \<Rightarrow> datetime \<Rightarrow> JobExecution option \<Rightarrow> datetime \<Rightarrow> int \<Rightarrow> pystr option \<Rightarrow> bool" where
  "follow_up e now r t n rid \<longleftrightarrow>
     (n = 1 \<and> rid = None \<and> compute_next_run (he_schedule e) now = Inr t \<and> (\<forall>x. r = Some x \<longrightarrow> x_status x \<noteq> RETRYING))
     \<or> (\<exists>x m. r = Some x \<and> x_status x = RETRYING \<and> x_attempt x = he_attempt_number e
          \<and> n = x_attempt x + 1 \<and> rid = Some (x_run_id x) \<and> x_max_attempts x = Some m \<and> n \<le> m)"

lemma sc_regular_Done:
  "sc_regular r e now st w = Done (Inr r') s \<Longrightarrow>
     r' = r \<and> (\<exists>t. compute_next_run (he_schedule e) now = Inr t \<and> s = (sc_push t (he_schedule e) (he_job e) 1 None st, w))"
  by (auto simp: sc_regular_def split: sum.splits)

lemma sc_retry_Done:
  "sc_retry res e now st w = Done (Inr r) s \<Longrightarrow>
     r = Some (ar_execution res) \<and> (\<exists>t. s = (sc_push t (he_schedule e) (he_job e) (he_attempt_number e + 1)
       (Some (x_run_id (ar_execution res))) st, w))"
  by (auto simp: sc_retry_def split: sum.splits)

lemma sc_execute_heap:
  assumes "sc_execute fmt reg cb env now e rid st w = Done (Inr r) (st', w')"
  obtains t n rid' where "st' = sc_push t (he_schedule e) (he_job e) n rid' st" and "follow_up e now r t n rid'"
proof -
  obtain tk a where tk: "CancelToken_new (sw_active w) = (tk, a)" by fastforce
  let ?ex = "execute_attempt fmt reg (sw_token tk) (sw_on_start cb) 5 (te_attempt env) (he_job e)
    (he_attempt_number e) (Some rid) (w\<lparr>sw_active := active_register rid tk a\<rparr>)"
  consider (skip) x w1 v where "?ex = Done (Inl x) w1" "sc_regular None e now st v = Done (Inr r) (st', w')"
    | (retry) res w1 v where "?ex = Done (Inr res) w1" "ar_should_retry res" "sc_retry res e (te_now env) st v = Done (Inr r) (st', w')"
    | (final) res w1 v where "?ex = Done (Inr res) w1" "\<not> ar_should_retry res"
        "sc_regular (Some (ar_execution res)) e now st v = Done (Inr r) (st', w')"
    using assms by (auto simp: sc_execute_def tk Let_def split: progress.splits sum.splits if_splits)
  then show thesis
  proof cases
    case skip
    from sc_regular_Done [OF skip(2)] show thesis by (auto intro: that simp: follow_up_def)
  next
    case retry
    from retry(1) obtain h out where res: "res = attempt_result (he_job e) h (te_attempt env) (he_attempt_number e) (Some rid) out"
      by (rule execute_attempt_Done)
    with retry(2) have "outcome_status (resolve_retry_policy (he_job e) h) (he_attempt_number e) out = RETRYING" by simp
    moreover from outcome_status_cases(2) [OF this]
    have "he_attempt_number e + 1 \<le> max_attempts (resolve_retry_policy (he_job e) h)" by simp
    ultimately show thesis
      using sc_retry_Done [OF retry(3)] by (auto intro!: that simp: follow_up_def res)
  next
    case final
    from final(1) obtain h out where "res = attempt_result (he_job e) h (te_attempt env) (he_attempt_number e) (Some rid) out"
      by (rule execute_attempt_Done)
    with final(2) sc_regular_Done [OF final(3)] show thesis by (auto intro!: that simp: follow_up_def)
  qed
qed

lemma sc_trigger_heap:
  assumes "sc_trigger fmt reg cb envs now e st w = Done (Inr r) (st', w')"
  obtains t n rid where "st' = sc_push t (he_schedule e) (he_job e) n rid st" and "follow_up e now r t n rid"
proof -
  consider (skip) v where "sc_regular None e now st v = Done (Inr r) (st', w')"
    | (run) rid v where "sc_execute fmt reg cb (envs (he_seq e)) now e rid st v = Done (Inr r) (st', w')"
    using assms by (auto simp: sc_trigger_def Let_def split: if_splits option.splits sum.splits prod.splits bool.splits)
  then show thesis
  proof cases
    case skip
    from sc_regular_Done [OF skip] show thesis by (auto intro: that simp: follow_up_def)
  next
    case run
    from sc_execute_heap [OF run] show thesis using that by blast
  qed
qed

lemma follow_up_entry:
  assumes "follow_up e now r t n rid" and "1 \<le> he_attempt_number e"
  shows "1 \<le> n" and "1 < n \<longleftrightarrow> rid \<noteq> None"
  using assms by (auto simp: follow_up_def)

definition retry_of :: "JobExecution list \<Rightarrow> HeapEntry \<Rightarrow> bool" where
  "retry_of xs e \<longleftrightarrow> (\<exists>x \<in> set xs. \<exists>m. x_status x = RETRYING \<and> he_run_id e = Some (x_run_id x)
     \<and> he_attempt_number e = x_attempt x + 1 \<and> x_max_attempts x = Some m \<and> he_attempt_number e \<le> m)"

lemma retry_of_mono: "retry_of ys e \<Longrightarrow> set ys \<subseteq> set xs \<Longrightarrow> retry_of xs e"
  by (auto simp: retry_of_def)

text \<open>What the heap holds after a list of due entries was triggered.\<close>

lemma sc_trigger_all_heap:
  assumes "sc_trigger_all fmt reg cb envs now due (st, w) = Done (Inr xs) (st', w')"
    and "\<forall>e \<in> set due. 1 \<le> he_attempt_number e" and "sc_inv st"
  shows "sc_pairs st' = image_mset (\<lambda>e. (he_job e, he_schedule e)) (mset due) + sc_pairs st \<and> sc_inv st'
    \<and> (\<forall>e \<in> set (sc_heap st'). e \<in> set (sc_heap st) \<or> he_attempt_number e = 1
        \<or> retry_of xs e)"
  using assms
proof (induction due arbitrary: st w xs)
  case Nil
  then show ?case by simp
next
  case (Cons d due)
  from Cons.prems(1) obtain r st1 w1 ys where r: "sc_trigger fmt reg cb envs now d st w = Done (Inr r) (st1, w1)"
    and ys: "sc_trigger_all fmt reg cb envs now due (st1, w1) = Done (Inr ys) (st', w')"
    and xs: "xs = (case r of None \<Rightarrow> ys | Some x \<Rightarrow> x # ys)"
    by (auto split: progress.splits sum.splits)
  from sc_trigger_heap [OF r] obtain t n rid where p: "st1 = sc_push t (he_schedule d) (he_job d) n rid st"
    and f: "follow_up d now r t n rid" by blast
  have inv1: "sc_inv st1"
    unfolding p using Cons.prems(2,3) follow_up_entry [OF f] by (intro sc_push_inv) simp_all
  have new: "e \<in> set (sc_heap st) \<or> he_attempt_number e = 1
      \<or> retry_of xs e"
    if "e \<in> set (sc_heap st1)" for e
    using that f xs by (auto simp: p sc_push_def follow_up_def retry_of_def)
  have sub: "set ys \<subseteq> set xs" using xs by (auto split: option.splits)
  from Cons.IH [OF ys _ inv1] Cons.prems(2)
  have IH: "sc_pairs st' = image_mset (\<lambda>e. (he_job e, he_schedule e)) (mset due) + sc_pairs st1" "sc_inv st'"
    "\<forall>e \<in> set (sc_heap st'). e \<in> set (sc_heap st1) \<or> he_attempt_number e = 1 \<or> retry_of ys e" by auto
  from IH(3) new retry_of_mono [OF _ sub]
  have "\<forall>e \<in> set (sc_heap st'). e \<in> set (sc_heap st) \<or> he_attempt_number e = 1 \<or> retry_of xs e" by blast
  with IH(1,2) show ?case by (simp add: p)
qed

lemma sc_pop_due_inv:
  assumes "sc_pop_due now st = (due, st1)" and "sc_inv st"
  shows "sc_inv st1" and "mset (sc_heap st) = mset due + mset (sc_heap st1)"
    and "\<forall>e \<in> set due. instant (he_next_run_at e) \<le> instant now \<and> 1 \<le> he_attempt_number e"
proof -
  from assms(1) obtain rest where p: "pop_while (\<lambda>e. instant (he_next_run_at e) \<le> instant now) (sc_heap st) = (due, rest)"
    and st1: "st1 = st\<lparr>sc_heap := rest\<rparr>" by (auto simp: sc_pop_due_def split: prod.splits)
  have m: "mset (sc_heap st) = mset due + mset rest" by (rule pop_while_mset [OF p])
  have sub: "set (sc_heap st) = set due \<union> set rest" using arg_cong [OF m, of set_mset] by simp
  have "unique_on he_seq (sc_heap st) = unique_on he_seq (due @ rest)" by (rule unique_on_mset) (simp add: m)
  moreover have "sorted (map heap_entry_key rest)"
    using sl.drain_inv [OF pop_while_drain [OF p]] assms(2) by (auto simp: sc_inv_def)
  ultimately show "sc_inv st1" using assms(2) sub by (auto simp: st1 sc_inv_def unique_on_def)
  show "mset (sc_heap st) = mset due + mset (sc_heap st1)" using m by (simp add: st1)
  show "\<forall>e \<in> set due. instant (he_next_run_at e) \<le> instant now \<and> 1 \<le> he_attempt_number e"
    using sl.drain_due [OF pop_while_drain [OF p]] assms(2) sub by (auto simp: sc_inv_def)
qed

section \<open>Properties\<close>

text \<open>A tick of the scheduler never drops a schedule: whatever the handlers, the claim and the start callback do, if
  the tick ends normally then the heap holds the same (job, schedule) pairs as before (a failing job keeps its place, as a
  retry or as its next regular trigger), and every new retry entry continues an execution this tick returned as RETRYING,
  with the same run id, the next attempt number, and within the maximum number of attempts.\<close>

theorem scheduler_tick_keeps_schedules:
  assumes "sc_inv st" and "sc_tick fmt reg cb envs now (st, w) = Done (Inr xs) (st', w')"
  shows "sc_pairs st' = sc_pairs st \<and> sc_inv st'
    \<and> (\<forall>e \<in> set (sc_heap st'). e \<in> set (sc_heap st) \<or> he_attempt_number e = 1
        \<or> (\<exists>x \<in> set xs. \<exists>m. x_status x = RETRYING \<and> he_run_id e = Some (x_run_id x)
             \<and> he_attempt_number e = x_attempt x + 1 \<and> x_max_attempts x = Some m \<and> he_attempt_number e \<le> m))"
proof -
  obtain due st1 where p: "sc_pop_due now st = (due, st1)" by fastforce
  with assms(2) have run: "sc_trigger_all fmt reg cb envs now due (st1, w) = Done (Inr xs) (st', w')"
    by (simp add: sc_tick_def)
  note pop = sc_pop_due_inv [OF p assms(1)]
  have "set (sc_heap st1) \<subseteq> set (sc_heap st)" using arg_cong [OF pop(2), of set_mset] by auto
  with sc_trigger_all_heap [OF run _ pop(1)] pop(2,3) show ?thesis
    by (auto simp: sc_pairs_def retry_of_def)
qed

definition demo_heap_entry :: HeapEntry where
  "demo_heap_entry = \<lparr>he_next_run_at = demo_slot, he_schedule = demo_schedule, he_job = demo_job, he_attempt_number = 1,
     he_run_id = None, he_seq = 0\<rparr>"

definition demo_scheduler :: SState where
  "demo_scheduler = \<lparr>sc_heap = [demo_heap_entry], sc_seq = 1\<rparr>"

definition demo_callbacks :: "nat callbacks" where
  "demo_callbacks = \<lparr>cb_claim = Some (\<lambda>j r k s. (Inr True, s)), cb_on_start = None\<rparr>"

definition demo_sworld :: "nat sworld" where
  "demo_sworld = \<lparr>sw_active = \<lparr>fired = (\<lambda>t. False), next_token = 0, tokens = []\<rparr>, sw_ext = 0\<rparr>"

definition demo_trigger_env :: "nat \<Rightarrow> nat trigger_env" where
  "demo_trigger_env i = \<lparr>te_candidate_run_id = lit ''run_1'', te_run_id = lit ''run_2'', te_attempt = failing_env, te_now = utc 86400000000\<rparr>"

lemma sc_inv_demo [simp]: "sc_inv demo_scheduler"
  by (simp add: sc_inv_def demo_scheduler_def demo_heap_entry_def)

lemma demo_retry_delay: "timedelta_seconds 1 = Inr 1000000"
proof -
  have "round_half_even (1 * 1000000) = 1000000" by code_simp
  then show ?thesis by (simp add: timedelta_seconds_def Let_def)
qed

lemma demo_scheduler_tick:
  "\<exists>x st' w'. sc_tick (\<lambda>x. []) demo_registry demo_callbacks demo_trigger_env demo_slot (demo_scheduler, demo_sworld) =
     Done (Inr [x]) (st', w') \<and> x_status x = RETRYING"
  by (simp add: sc_tick_def sc_pop_due_def demo_scheduler_def demo_heap_entry_def sc_trigger_def sc_execute_def
      demo_callbacks_def demo_trigger_env_def demo_sworld_def CancelToken_new_def execute_attempt_eq registry_get_def
      wait_for_def sw_on_start_def sw_token_def token_is_cancelled_def active_register_def sc_retry_def
      resolve_timeout_seconds_def resolve_retry_policy_def delay_for_attempt_def demo_retry_delay add_timedelta_def
      mk_datetime_def outcome_status_def demo_defs Let_def)

theorem scheduler_tick_keeps_schedules_witness:
  "\<exists>x st' w'. sc_tick (\<lambda>x. []) demo_registry demo_callbacks demo_trigger_env demo_slot (demo_scheduler, demo_sworld) =
     Done (Inr [x]) (st', w') \<and> sc_pairs st' = {#(demo_job, demo_schedule)#}"
proof -
  from demo_scheduler_tick obtain x st' w' where run: "sc_tick (\<lambda>x. []) demo_registry demo_callbacks demo_trigger_env demo_slot
    (demo_scheduler, demo_sworld) = Done (Inr [x]) (st', w')" by blast
  have "sc_pairs demo_scheduler = {#(demo_job, demo_schedule)#}"
    by (simp add: sc_pairs_def demo_scheduler_def demo_heap_entry_def)
  with scheduler_tick_keeps_schedules [OF sc_inv_demo run] run show ?thesis by auto
qed

end
