(* ===== verification/Bootstrap.thy ===== *)
theory Bootstrap
  imports Executor "HOL-Library.Sublist"
begin

text \<open>
  Start-up (\<^verbatim>\<open>bootstrap.py\<close>): the jobs the code defines, their reconciliation with the database, and the
  (job, schedule) pairs a scheduler starts with. A new job draws an id and reads the clock; both are inputs, as functions of
  the handler's name.
\<close>

section \<open>The jobs of the code\<close>

definition EXPLICIT_JOB_DEFINITIONS :: "(pystr \<times> JobType) list" where
  "EXPLICIT_JOB_DEFINITIONS =
     [(lit ''demo.success'', DEMO_SUCCESS), (lit ''demo.failure'', DEMO_FAILURE), (lit ''demo.slow'', DEMO_SLOW)]"

definition auto_job_name :: "pystr \<Rightarrow> pystr" where
  "auto_job_name handler_name = map (\<lambda>c. if c = 46 then 45 else c) handler_name"

text \<open>\<^verbatim>\<open>Job(name=..., job_type=..., handler=...)\<close>: the other fields at their defaults.\<close>

definition new_job :: "pystr \<Rightarrow> JobType \<Rightarrow> pystr \<Rightarrow> pystr \<Rightarrow> datetime \<Rightarrow> exn + Job" where
  "new_job name job_type handler fresh_id now =
     Job_post_init \<lparr>j_name = name, j_job_type = job_type, j_handler = handler, j_id = fresh_id,
       j_timeout_seconds = 30, j_retry_policy = default_retry_policy, j_enabled = True, j_created_at = now\<rparr>"

definition build_job_from_handler :: "RegisteredHandler \<Rightarrow> pystr \<Rightarrow> datetime \<Rightarrow> exn + Job" where
  "build_job_from_handler h fresh_id now =
     (case new_job (auto_job_name (rh_name h)) CUSTOM (rh_name h) fresh_id now of
        Inl e \<Rightarrow> Inl e
      | Inr j \<Rightarrow>
          let j = (case rh_timeout_seconds h of None \<Rightarrow> j | Some t \<Rightarrow> j\<lparr>j_timeout_seconds := t\<rparr>)
          in Inr (case rh_retry_policy h of None \<Rightarrow> j | Some p \<Rightarrow> j\<lparr>j_retry_policy := p\<rparr>))"

fun build_explicit ::
  "(pystr \<Rightarrow> pystr) \<Rightarrow> datetime \<Rightarrow> TaskRegistry \<Rightarrow> (pystr \<times> JobType) list \<Rightarrow> (pystr \<times> Job) list \<Rightarrow> exn + (pystr \<times> Job) list" where
  "build_explicit ids now reg [] jobs = Inr jobs"
| "build_explicit ids now reg ((n, ty) # defs) jobs =
     (if \<not> is_registered n reg then build_explicit ids now reg defs jobs
      else case new_job (auto_job_name n) ty n (ids n) now of
             Inl e \<Rightarrow> Inl e
           | Inr j \<Rightarrow> build_explicit ids now reg defs (AList.update (auto_job_name n) j jobs))"

fun build_auto ::
  "(pystr \<Rightarrow> pystr) \<Rightarrow> datetime \<Rightarrow> TaskRegistry \<Rightarrow> pystr list \<Rightarrow> (pystr \<times> Job) list \<Rightarrow> exn + (pystr \<times> Job) list" where
  "build_auto ids now reg [] jobs = Inr jobs"
| "build_auto ids now reg (n # ns) jobs =
     (if n \<in> fst ` set EXPLICIT_JOB_DEFINITIONS then build_auto ids now reg ns jobs
      else case registry_get n reg of
             Inl e \<Rightarrow> Inl e
           | Inr h \<Rightarrow>
               (case build_job_from_handler h (ids n) now of
                  Inl e \<Rightarrow> Inl e
                | Inr j \<Rightarrow> build_auto ids now reg ns (AList.update (j_name j) j jobs)))"

definition build_jobs :: "(pystr \<Rightarrow> pystr) \<Rightarrow> datetime \<Rightarrow> TaskRegistry \<Rightarrow> exn + (pystr \<times> Job) list" where
  "build_jobs ids now reg =
     (case build_explicit ids now reg EXPLICIT_JOB_DEFINITIONS [] of
        Inl e \<Rightarrow> Inl e
      | Inr jobs \<Rightarrow> build_auto ids now reg (list_names reg) jobs)"

section \<open>Reconciliation with the database\<close>

definition adopt :: "Job \<Rightarrow> Job \<Rightarrow> Job" where
  "adopt existing code = existing\<lparr>j_job_type := j_job_type code, j_handler := j_handler code,
     j_timeout_seconds := j_timeout_seconds code, j_retry_policy := j_retry_policy code\<rparr>"

fun sync_each :: "(pystr \<times> Job) list \<Rightarrow> (pystr \<times> Job) list txn" where
  "sync_each [] d = Inr ([], d)"
| "sync_each ((name, code_job) # desired) d =
     (case job_get_by_name name d of
        Inl e \<Rightarrow> Inl e
      | Inr existing \<Rightarrow>
          (case (case existing of
                   None \<Rightarrow> (case job_add code_job d of Inl e \<Rightarrow> Inl e | Inr (_, d1) \<Rightarrow> Inr (code_job, d1))
                 | Some x \<Rightarrow>
                     (case job_update (adopt x code_job) d of Inl e \<Rightarrow> Inl e | Inr (_, d1) \<Rightarrow> Inr (adopt x code_job, d1))) of
             Inl e \<Rightarrow> Inl e
           | Inr (j, d1) \<Rightarrow>
               (case sync_each desired d1 of
                  Inl e \<Rightarrow> Inl e
                | Inr (synced, d2) \<Rightarrow> Inr ((name, j) # synced, d2))))"

definition sync_jobs_to_db :: "(pystr \<Rightarrow> pystr) \<Rightarrow> datetime \<Rightarrow> TaskRegistry \<Rightarrow> (pystr \<times> Job) list txn" where
  "sync_jobs_to_db ids now reg d =
     (case build_jobs ids now reg of Inl e \<Rightarrow> Inl e | Inr desired \<Rightarrow> sync_each desired d)"

definition load_active_schedules :: "db \<Rightarrow> exn + (Job \<times> Schedule) list" where
  "load_active_schedules d =
     (case job_list_all d of
        Inl e \<Rightarrow> Inl e
      | Inr jobs \<Rightarrow>
          (case mapM (\<lambda>j. case schedule_list_by_job (j_id j) d of
                         Inl e \<Rightarrow> Inl e
                       | Inr ss \<Rightarrow> Inr (map (\<lambda>s. (j, s)) (filter s_enabled ss)))
                  (filter j_enabled jobs) of
             Inl e \<Rightarrow> Inl e
           | Inr pss \<Rightarrow> Inr (concat pss)))"

section \<open>Lemmas\<close>

lemma build_explicit_distinct:
  "build_explicit ids now reg defs jobs = Inr js \<Longrightarrow> distinct (map fst jobs) \<Longrightarrow> distinct (map fst js)"
  by (induction ids now reg defs jobs arbitrary: js rule: build_explicit.induct)
    (auto split: if_splits sum.splits simp: AList.distinct_update)

lemma build_auto_distinct:
  "build_auto ids now reg ns jobs = Inr js \<Longrightarrow> distinct (map fst jobs) \<Longrightarrow> distinct (map fst js)"
  by (induction ids now reg ns jobs arbitrary: js rule: build_auto.induct)
    (auto split: if_splits sum.splits simp: AList.distinct_update)

lemma build_jobs_distinct: "build_jobs ids now reg = Inr js \<Longrightarrow> distinct (map fst js)"
  by (auto simp: build_jobs_def split: sum.splits dest!: build_explicit_distinct build_auto_distinct)

text \<open>The name of a built job is its key.\<close>

lemma new_job_sel: "new_job n ty h i t = Inr j \<Longrightarrow> j_name j = n \<and> j_handler j = h \<and> j_id j = i \<and> j_job_type j = ty"
  by (auto simp: new_job_def Job_post_init_def split: if_splits)

lemma build_explicit_all:
  "build_explicit ids now reg defs jobs = Inr js \<Longrightarrow> \<forall>q \<in> set jobs. P q \<Longrightarrow>
     (\<And>n ty j. (n, ty) \<in> set defs \<Longrightarrow> new_job (auto_job_name n) ty n (ids n) now = Inr j \<Longrightarrow> P (auto_job_name n, j)) \<Longrightarrow>
     \<forall>q \<in> set js. P q"
proof (induction ids now reg defs jobs arbitrary: js rule: build_explicit.induct)
  case (2 ids now reg n ty defs jobs)
  have upd: "\<forall>q \<in> set (AList.update (auto_job_name n) j jobs). P q" if "P (auto_job_name n, j)" for j
    using that 2(4) alist_update_set [of "auto_job_name n" j jobs] by blast
  show ?case
  proof (cases "is_registered n reg")
    case True
    with 2(3) obtain j where j: "new_job (auto_job_name n) ty n (ids n) now = Inr j"
      "build_explicit ids now reg defs (AList.update (auto_job_name n) j jobs) = Inr js"
      by (auto split: sum.splits)
    then show ?thesis
      using True 2(5) by (intro 2(2) [OF _ j(1) j(2) upd]) auto
  next
    case False
    with 2(3) have "build_explicit ids now reg defs jobs = Inr js" by simp
    from 2(1) [OF False this 2(4)] 2(5) show ?thesis by auto
  qed
qed simp

lemma build_auto_all:
  "build_auto ids now reg ns jobs = Inr js \<Longrightarrow> \<forall>q \<in> set jobs. P q \<Longrightarrow>
     (\<And>n h j. n \<in> set ns \<Longrightarrow> registry_get n reg = Inr h \<Longrightarrow> build_job_from_handler h (ids n) now = Inr j \<Longrightarrow> P (j_name j, j)) \<Longrightarrow>
     \<forall>q \<in> set js. P q"
proof (induction ns arbitrary: jobs)
  case (Cons n ns)
  show ?case
  proof (cases "n \<in> fst ` set EXPLICIT_JOB_DEFINITIONS")
    case True
    with Cons.prems(1) have "build_auto ids now reg ns jobs = Inr js" by simp
    from Cons.IH [OF this Cons.prems(2)] Cons.prems(3) show ?thesis by auto
  next
    case False
    with Cons.prems(1) obtain h j where j: "registry_get n reg = Inr h" "build_job_from_handler h (ids n) now = Inr j"
      "build_auto ids now reg ns (AList.update (j_name j) j jobs) = Inr js"
      by (auto split: sum.splits)
    have "P (j_name j, j)" using Cons.prems(3) j by auto
    then have "\<forall>q \<in> set (AList.update (j_name j) j jobs). P q"
      using Cons.prems(2) alist_update_set [of "j_name j" j jobs] by blast
    from Cons.IH [OF j(3) this] Cons.prems(3) show ?thesis by auto
  qed
qed simp

lemma registry_getD: "registry_get n reg = Inr h \<Longrightarrow> (n, h) \<in> set reg"
  by (auto simp: registry_get_def split: option.splits dest: map_of_SomeD)

lemma build_jobs_all:
  assumes "build_jobs ids now reg = Inr js"
    and "\<And>n ty j. new_job (auto_job_name n) ty n (ids n) now = Inr j \<Longrightarrow> P (auto_job_name n, j)"
    and "\<And>n h j. (n, h) \<in> set reg \<Longrightarrow> build_job_from_handler h (ids n) now = Inr j \<Longrightarrow> P (j_name j, j)"
  shows "\<forall>q \<in> set js. P q"
proof -
  from assms(1) obtain jobs where e: "build_explicit ids now reg EXPLICIT_JOB_DEFINITIONS [] = Inr jobs"
    and a: "build_auto ids now reg (list_names reg) jobs = Inr js"
    by (auto simp: build_jobs_def split: sum.splits)
  have "\<forall>q \<in> set jobs. P q"
    by (rule build_explicit_all [OF e], simp, rule assms(2))
  show ?thesis
    by (rule build_auto_all [OF a \<open>\<forall>q \<in> set jobs. P q\<close>], rule assms(3), rule registry_getD)
qed

lemma build_jobs_names: "build_jobs ids now reg = Inr js \<Longrightarrow> (n, j) \<in> set js \<Longrightarrow> j_name j = n"
  using build_jobs_all [of ids now reg js "\<lambda>(n, j). j_name j = n"] by (auto dest: new_job_sel)

text \<open>The two halves of a row: what the database owns and what the code owns.\<close>

definition runtime_part :: "JobRecord \<Rightarrow> pystr \<times> pystr \<times> bool \<times> datetime" where
  "runtime_part r = (jr_id r, jr_name r, jr_enabled r, jr_created_at r)"

definition code_part :: "JobRecord \<Rightarrow> JobType \<times> pystr \<times> pyfloat \<times> int \<times> BackoffStrategy \<times> pyfloat \<times> pyfloat" where
  "code_part r = (jr_job_type r, jr_handler r, jr_timeout_seconds r, jr_retry_max_attempts r, jr_retry_backoff r,
     jr_retry_base_delay_seconds r, jr_retry_max_delay_seconds r)"

lemma row_parts_eq: "r = r' \<longleftrightarrow> runtime_part r = runtime_part r' \<and> code_part r = code_part r'"
  for r r' :: JobRecord
  by (cases r, cases r') (auto simp: runtime_part_def code_part_def)

lemma record_to_job_sel:
  "record_to_job r = Inr j \<Longrightarrow> j_id j = jr_id r \<and> j_name j = jr_name r \<and> j_enabled j = jr_enabled r \<and> j_created_at j = jr_created_at r"
  by (auto simp: record_to_job_def Job_post_init_def split: sum.splits if_splits)

text \<open>One step of the reconciliation, in terms of the rows.\<close>

definition sync_one :: "pystr \<Rightarrow> Job \<Rightarrow> Job txn" where
  "sync_one name code_job d =
     (case job_get_by_name name d of
        Inl e \<Rightarrow> Inl e
      | Inr None \<Rightarrow> (case job_add code_job d of Inl e \<Rightarrow> Inl e | Inr (_, d1) \<Rightarrow> Inr (code_job, d1))
      | Inr (Some x) \<Rightarrow>
          (case job_update (adopt x code_job) d of Inl e \<Rightarrow> Inl e | Inr (_, d1) \<Rightarrow> Inr (adopt x code_job, d1)))"

lemma sync_each_Cons:
  "sync_each ((name, code_job) # desired) d =
     (case sync_one name code_job d of
        Inl e \<Rightarrow> Inl e
      | Inr (j, d1) \<Rightarrow> (case sync_each desired d1 of Inl e \<Rightarrow> Inl e | Inr (synced, d2) \<Rightarrow> Inr ((name, j) # synced, d2)))"
  by (simp add: sync_one_def split: sum.split option.split)

definition synced_rows :: "pystr \<Rightarrow> Job \<Rightarrow> JobRecord list \<Rightarrow> JobRecord list \<Rightarrow> bool" where
  "synced_rows name code rs rs' \<longleftrightarrow>
     prefix (map runtime_part rs) (map runtime_part rs')
     \<and> jr_name ` set rs' = insert name (jr_name ` set rs)
     \<and> (\<exists>r \<in> set rs'. jr_name r = name \<and> code_part r = code_part (job_to_record code))
     \<and> (\<forall>r. jr_name r \<noteq> name \<longrightarrow> (r \<in> set rs' \<longleftrightarrow> r \<in> set rs))
     \<and> unique_on jr_id rs' \<and> unique_on jr_name rs'"

lemma synced_rows_update:
  assumes "unique_on jr_id rs" "unique_on jr_name rs" "r \<in> set rs" "jr_name r = name" "j_name x = name"
    "j_id x = jr_id r" "j_enabled x = jr_enabled r" "code_part (job_to_record x) = code_part (job_to_record code)"
  shows "synced_rows name code rs (update_first (\<lambda>r. jr_id r = j_id x) (\<lambda>r. update_job_record r x) rs)"
proof -
  let ?f = "\<lambda>r. update_job_record r x"
  have upd: "runtime_part (?f r) = runtime_part r" "code_part (?f r) = code_part (job_to_record code)"
    using assms by (auto simp: runtime_part_def code_part_def update_job_record_def job_to_record_def)
  have only: "r' = r" if "r' \<in> set rs" "jr_id r' = j_id x" for r'
    using that assms unique_onD [of jr_id rs r' r] by simp
  have run: "map runtime_part (update_first (\<lambda>r. jr_id r = j_id x) ?f rs) = map runtime_part rs"
    using only upd(1) by (induction rs) auto
  have set: "set (update_first (\<lambda>r. jr_id r = j_id x) ?f rs) = insert (?f r) (set rs - {r})"
    using assms by (subst set_update_first_unique [where k = jr_id and x = r]) auto
  have other: "jr_name r' \<noteq> name" if "r' \<in> set rs" "r' \<noteq> r" for r'
    using that assms unique_onD [of jr_name rs r' r] by auto
  have k: "map jr_id (update_first (\<lambda>r. jr_id r = j_id x) ?f rs) = map jr_id rs"
    "map jr_name (update_first (\<lambda>r. jr_id r = j_id x) ?f rs) = map jr_name rs"
    using run by (auto simp: runtime_part_def list_eq_iff_nth_eq)
  then have "jr_name ` set (update_first (\<lambda>r. jr_id r = j_id x) ?f rs) = insert name (jr_name ` set rs)"
    using assms(3,4) by (metis image_eqI insert_absorb set_map)
  moreover have "jr_name (?f r) = name" using assms by simp
  ultimately show ?thesis
    unfolding synced_rows_def using run upd other k assms(1,2,4)
    by (auto simp: set elim: unique_on_map)
qed

lemma sync_one_rows:
  assumes "sync_one name code d = Inr (j, d1)" "unique_on jr_id (t_jobs d)" "unique_on jr_name (t_jobs d)"
    and name: "j_name code = name"
  shows "synced_rows name code (t_jobs d) (t_jobs d1)"
proof (cases "find (\<lambda>r. jr_name r = name) (t_jobs d)")
  case None
  then have "job_add code d = Inr ((), d1)"
    using assms(1) by (auto simp: sync_one_def job_get_by_name_def opt_job_def split: sum.splits)
  then have new: "t_jobs d1 = t_jobs d @ [job_to_record code]"
    "\<forall>r \<in> set (t_jobs d). jr_id r \<noteq> j_id code \<and> jr_name r \<noteq> name"
    using name by (auto simp: job_add_def list_ex_iff split: if_splits)
  then show ?thesis
    using assms(2-) by (auto simp: synced_rows_def)
next
  case (Some r)
  then obtain x where x: "record_to_job r = Inr x" "job_update (adopt x code) d = Inr ((), d1)"
    using assms(1) by (auto simp: sync_one_def job_get_by_name_def opt_job_def split: sum.splits)
  then have "t_jobs d1 = update_first (\<lambda>r. jr_id r = j_id (adopt x code)) (\<lambda>r. update_job_record r (adopt x code)) (t_jobs d)"
    by (auto simp: job_update_def split: if_splits)
  moreover have "code_part (job_to_record (adopt x code)) = code_part (job_to_record code)"
    by (simp add: code_part_def job_to_record_def adopt_def)
  moreover have "j_name (adopt x code) = name" "j_id (adopt x code) = jr_id r" "j_enabled (adopt x code) = jr_enabled r"
    using find_Some_in [OF Some] record_to_job_sel [OF x(1)] by (simp_all add: adopt_def)
  ultimately show ?thesis
    using find_Some_in [OF Some] assms(2,3) synced_rows_update [of "t_jobs d" r name "adopt x code" code] by simp
qed

lemma sync_each_rows:
  "sync_each desired d = Inr (synced, d') \<Longrightarrow> unique_on jr_id (t_jobs d) \<Longrightarrow> unique_on jr_name (t_jobs d) \<Longrightarrow>
     distinct (map fst desired) \<Longrightarrow> \<forall>(n, j) \<in> set desired. j_name j = n \<Longrightarrow>
     prefix (map runtime_part (t_jobs d)) (map runtime_part (t_jobs d'))
     \<and> jr_name ` set (t_jobs d') = jr_name ` set (t_jobs d) \<union> fst ` set desired
     \<and> (\<forall>(n, j) \<in> set desired. \<exists>r \<in> set (t_jobs d'). jr_name r = n \<and> code_part r = code_part (job_to_record j))
     \<and> (\<forall>r. jr_name r \<notin> fst ` set desired \<longrightarrow> (r \<in> set (t_jobs d') \<longleftrightarrow> r \<in> set (t_jobs d)))
     \<and> unique_on jr_id (t_jobs d') \<and> unique_on jr_name (t_jobs d')"
proof (induction desired arbitrary: d synced)
  case (Cons p desired)
  obtain name code where p: "p = (name, code)" by force
  from Cons.prems(1) obtain j d1 synced1 where one: "sync_one name code d = Inr (j, d1)"
    and rest: "sync_each desired d1 = Inr (synced1, d')"
    by (auto simp: p sync_each_Cons simp del: sync_each.simps split: sum.splits prod.splits)
  have rows: "synced_rows name code (t_jobs d) (t_jobs d1)"
    using Cons.prems by (intro sync_one_rows [OF one]) (auto simp: p)
  note IH = Cons.IH [OF rest]
  have step: "prefix (map runtime_part (t_jobs d1)) (map runtime_part (t_jobs d'))"
    "jr_name ` set (t_jobs d') = jr_name ` set (t_jobs d1) \<union> fst ` set desired"
    "\<forall>(n, j) \<in> set desired. \<exists>r \<in> set (t_jobs d'). jr_name r = n \<and> code_part r = code_part (job_to_record j)"
    "\<forall>r. jr_name r \<notin> fst ` set desired \<longrightarrow> (r \<in> set (t_jobs d') \<longleftrightarrow> r \<in> set (t_jobs d1))"
    "unique_on jr_id (t_jobs d')" "unique_on jr_name (t_jobs d')"
    using IH rows Cons.prems(4,5) by (auto simp: synced_rows_def)
  from rows obtain r where r: "r \<in> set (t_jobs d1)" "jr_name r = name" "code_part r = code_part (job_to_record code)"
    by (auto simp: synced_rows_def)
  then have "r \<in> set (t_jobs d')"
    using step(4) Cons.prems(4) by (auto simp: p)
  with r have here: "\<exists>r \<in> set (t_jobs d'). jr_name r = name \<and> code_part r = code_part (job_to_record code)" by blast
  have "prefix (map runtime_part (t_jobs d)) (map runtime_part (t_jobs d'))"
    using rows step(1) by (auto simp: synced_rows_def intro: prefix_order.trans)
  with step here rows show ?case
    by (auto simp: p synced_rows_def)
qed simp

text \<open>The jobs that come back are what the database then holds under their names.\<close>

lemma build_jobs_keys:
  assumes "build_jobs ids now reg = Inr desired"
  shows "distinct (map fst desired)" "\<forall>(n, j) \<in> set desired. j_name j = n"
  using build_jobs_distinct [OF assms] build_jobs_names [OF assms] by auto

lemma sync_rows:
  assumes "wf_db d" and "sync_jobs_to_db ids now reg d = Inr (synced, d')"
  shows "prefix (map runtime_part (t_jobs d)) (map runtime_part (t_jobs d'))
    \<and> (\<exists>desired. build_jobs ids now reg = Inr desired
         \<and> jr_name ` set (t_jobs d') = jr_name ` set (t_jobs d) \<union> fst ` set desired
         \<and> (\<forall>n j. (n, j) \<in> set desired \<longrightarrow>
               (\<exists>r \<in> set (t_jobs d'). jr_name r = n \<and> code_part r = code_part (job_to_record j)))
         \<and> (\<forall>r. jr_name r \<notin> fst ` set desired \<longrightarrow> (r \<in> set (t_jobs d') \<longleftrightarrow> r \<in> set (t_jobs d))))"
proof -
  from assms(2) obtain desired where des: "build_jobs ids now reg = Inr desired" "sync_each desired d = Inr (synced, d')"
    by (auto simp: sync_jobs_to_db_def split: sum.splits)
  have "unique_on jr_id (t_jobs d)" "unique_on jr_name (t_jobs d)"
    using assms(1) by (auto simp: wf_db_defs)
  from sync_each_rows [OF des(2) this build_jobs_keys [OF des(1)]] des(1) show ?thesis by auto
qed

text \<open>
  C26: Reconciliation at start-up (\<^verbatim>\<open>sync_jobs_to_db\<close>). No row is lost or reordered: the id, name, enabled flag and creation
  time of every job already stored stay as they were, and new rows come after them. Afterwards each job the code defines has
  a row with the code's type, handler, timeout and retry policy; rows of jobs the code does not define are untouched, and no
  other name appears.
\<close>

theorem sync_jobs_keeps_runtime_state:
  assumes "wf_db d" and "sync_jobs_to_db ids now reg d = Inr (synced, d')"
  shows "prefix (map runtime_part (t_jobs d)) (map runtime_part (t_jobs d'))
    \<and> (\<exists>desired. build_jobs ids now reg = Inr desired
         \<and> jr_name ` set (t_jobs d') = jr_name ` set (t_jobs d) \<union> fst ` set desired
         \<and> (\<forall>n j. (n, j) \<in> set desired \<longrightarrow>
               (\<exists>r \<in> set (t_jobs d'). jr_name r = n \<and> code_part r = code_part (job_to_record j)))
         \<and> (\<forall>r. jr_name r \<notin> fst ` set desired \<longrightarrow> (r \<in> set (t_jobs d') \<longleftrightarrow> r \<in> set (t_jobs d))))"
  by (rule sync_rows [OF assms])

lemma job_update_ok:
  assumes "wf_db d" "r \<in> set (t_jobs d)" "jr_id r = j_id j" "jr_name r = j_name j"
  shows "\<exists>d'. job_update j d = Inr ((), d')"
proof -
  have "find (\<lambda>r. jr_id r = j_id j) (t_jobs d) \<noteq> None"
    using assms by (auto simp: find_None)
  moreover have "jr_id r' = j_id j" if "r' \<in> set (t_jobs d)" "jr_name r' = j_name j" for r'
    using that assms unique_onD [of jr_name "t_jobs d" r' r] by (simp add: wf_db_def wf_jobs_def)
  then have "\<not> list_ex (\<lambda>r. jr_id r \<noteq> j_id j \<and> jr_name r = j_name j) (t_jobs d)"
    by (auto simp: list_ex_iff)
  ultimately show ?thesis by (simp add: job_update_def)
qed

lemma valid_adopt: "valid_job x \<Longrightarrow> valid_job c \<Longrightarrow> valid_job (adopt x c)"
  by (auto simp: valid_job_def adopt_def)

lemma sync_one_ok:
  assumes wf: "wf_db d" and valid: "valid_job code" "j_name code = name" and fresh: "j_id code \<notin> jr_id ` set (t_jobs d)"
  shows "\<exists>j d1. sync_one name code d = Inr (j, d1) \<and> wf_db d1 \<and> jr_id ` set (t_jobs d1) \<subseteq> insert (j_id code) (jr_id ` set (t_jobs d))"
proof (cases "find (\<lambda>r. jr_name r = name) (t_jobs d)")
  case None
  then have "job_add code d = Inr ((), d\<lparr>t_jobs := t_jobs d @ [job_to_record code]\<rparr>)"
    using valid fresh by (auto simp: job_add_def list_ex_iff find_None image_iff)
  moreover from keeps_wfD [OF job_add_keeps_wf [OF valid(1)] wf this]
  have "wf_db (d\<lparr>t_jobs := t_jobs d @ [job_to_record code]\<rparr>)" .
  ultimately show ?thesis
    using None by (auto simp: sync_one_def job_get_by_name_def opt_job_def)
next
  case (Some r)
  from find_Some_in [OF Some] wf obtain x where r: "r \<in> set (t_jobs d)" "jr_name r = name" and x: "record_to_job r = Inr x"
    by (auto simp: wf_db_defs valid_job_row_def)
  have sel: "j_id (adopt x code) = jr_id r" "j_name (adopt x code) = name"
    using record_to_job_sel [OF x] r by (simp_all add: adopt_def)
  then obtain d1 where d1: "job_update (adopt x code) d = Inr ((), d1)"
    using job_update_ok [OF wf r(1), of "adopt x code"] r by auto
  have "wf_db d1"
    using keeps_wfD [OF job_update_keeps_wf wf d1] valid_adopt record_to_job_valid [OF x] valid(1) by blast
  moreover have "t_jobs d1 = update_first (\<lambda>r. jr_id r = j_id (adopt x code)) (\<lambda>r. update_job_record r (adopt x code)) (t_jobs d)"
    using d1 by (auto simp: job_update_def split: if_splits)
  then have "jr_id ` set (t_jobs d1) = jr_id ` set (t_jobs d)" by (simp only: jr_id_update_first)
  ultimately show ?thesis
    using Some x d1 by (auto simp: sync_one_def job_get_by_name_def opt_job_def)
qed

lemma sync_each_ok:
  "wf_db d \<Longrightarrow> \<forall>(n, j) \<in> set desired. j_name j = n \<and> valid_job j \<and> j_id j \<notin> jr_id ` set (t_jobs d) \<Longrightarrow>
     distinct (map (j_id \<circ> snd) desired) \<Longrightarrow>
     \<exists>synced d'. sync_each desired d = Inr (synced, d') \<and> map fst synced = map fst desired \<and> wf_db d'"
proof (induction desired arbitrary: d)
  case (Cons p desired)
  obtain name code where p: "p = (name, code)" by force
  obtain j d1 where one: "sync_one name code d = Inr (j, d1)" "wf_db d1"
    "jr_id ` set (t_jobs d1) \<subseteq> insert (j_id code) (jr_id ` set (t_jobs d))"
    using sync_one_ok [OF Cons.prems(1), of code name] Cons.prems(2) by (auto simp: p)
  have "\<forall>(n, j) \<in> set desired. j_name j = n \<and> valid_job j \<and> j_id j \<notin> jr_id ` set (t_jobs d1)"
  proof clarify
    fix n c
    assume c: "(n, c) \<in> set desired"
    then have "j_name c = n" "valid_job c" "j_id c \<notin> jr_id ` set (t_jobs d)" "j_id c \<noteq> j_id code"
      using Cons.prems(2,3) by (auto simp: p image_iff)
    with one(3) show "j_name c = n \<and> valid_job c \<and> j_id c \<notin> jr_id ` set (t_jobs d1)" by blast
  qed
  with Cons.IH [OF one(2)] Cons.prems(3) obtain synced d' where
    "sync_each desired d1 = Inr (synced, d')" "map fst synced = map fst desired" "wf_db d'" by auto
  with one(1) show ?case
    by (simp add: p sync_each_Cons del: sync_each.simps)
qed simp

text \<open>What the decorator guarantees of a registry, and what it does not check.\<close>

definition sound_registry :: "TaskRegistry \<Rightarrow> bool" where
  "sound_registry reg \<longleftrightarrow> (\<forall>(n, h) \<in> set reg. rh_name h = n \<and> (\<forall>q. rh_retry_policy h = Some q \<longrightarrow> valid_policy q))"

definition positive_timeouts :: "TaskRegistry \<Rightarrow> bool" where
  "positive_timeouts reg \<longleftrightarrow> (\<forall>(n, h) \<in> set reg. \<forall>t. rh_timeout_seconds h = Some t \<longrightarrow> 0 < t)"

lemma job_decorator_sound:
  assumes "job_decorator n desc t a b bd md f reg = Inr reg'" "sound_registry reg"
  shows "sound_registry reg'"
proof -
  let ?q = "\<lparr>max_attempts = a, backoff = b, base_delay_seconds = bd, max_delay_seconds = md\<rparr>"
  let ?h = "\<lparr>rh_name = n, rh_func = f, rh_description = desc, rh_timeout_seconds = Some t, rh_retry_policy = Some ?q\<rparr>"
  have "reg' = AList.update n ?h reg" "valid_policy ?q"
    using assms(1) by (auto simp: job_decorator_def registry_register_def split: if_splits sum.splits)
  moreover have "\<forall>(n, h) \<in> insert (n, ?h) (set reg). rh_name h = n \<and> (\<forall>q. rh_retry_policy h = Some q \<longrightarrow> valid_policy q)"
    using assms(2) calculation(2) by (simp add: sound_registry_def)
  ultimately show ?thesis
    using alist_update_set [of n ?h reg] unfolding sound_registry_def by blast
qed

lemma blank_auto_job_name [simp]: "blank (auto_job_name n) = blank n"
  unfolding blank_def auto_job_name_def by (induction n) (auto simp: is_space_def)

lemma new_job_ok: "\<not> blank n \<Longrightarrow> \<exists>j. new_job n ty h i now = Inr j"
  by (simp add: new_job_def Job_post_init_def)

lemma new_job_valid: "new_job n ty h i now = Inr j \<Longrightarrow> valid_job j"
  by (auto simp: new_job_def Job_post_init_def valid_job_def split: if_splits)

definition built_ok :: "(pystr \<Rightarrow> pystr) \<Rightarrow> pystr \<times> Job \<Rightarrow> bool" where
  "built_ok ids p \<longleftrightarrow> j_name (snd p) = fst p \<and> fst p = auto_job_name (j_handler (snd p))
     \<and> j_id (snd p) = ids (j_handler (snd p)) \<and> valid_job (snd p)"

lemma build_from_handler_ok:
  assumes "build_job_from_handler h (ids n) now = Inr j" "(n, h) \<in> set reg" "sound_registry reg" "positive_timeouts reg"
  shows "built_ok ids (j_name j, j)"
proof -
  from assms(1) obtain j0 where j0: "new_job (auto_job_name (rh_name h)) CUSTOM (rh_name h) (ids n) now = Inr j0"
    by (auto simp: build_job_from_handler_def split: sum.splits)
  with assms show ?thesis
    using new_job_sel [OF j0] new_job_valid [OF j0]
    by (auto simp: build_job_from_handler_def built_ok_def sound_registry_def positive_timeouts_def valid_job_def Let_def
        split: option.splits)
qed

lemma build_jobs_built_ok:
  assumes "build_jobs ids now reg = Inr desired" "sound_registry reg" "positive_timeouts reg"
  shows "\<forall>q \<in> set desired. built_ok ids q"
proof (rule build_jobs_all [OF assms(1)])
  fix n ty j
  assume "new_job (auto_job_name n) ty n (ids n) now = Inr j"
  then show "built_ok ids (auto_job_name n, j)"
    by (simp add: built_ok_def new_job_sel new_job_valid)
qed (rule build_from_handler_ok [OF _ _ assms(2,3)])

lemma build_explicit_total:
  "\<forall>(n, ty) \<in> set defs. \<not> blank n \<Longrightarrow> \<exists>js. build_explicit ids now reg defs jobs = Inr js"
proof (induction defs arbitrary: jobs)
  case (Cons q defs)
  obtain n ty where q: "q = (n, ty)" by force
  obtain j where "new_job (auto_job_name n) ty n (ids n) now = Inr j"
    using new_job_ok [of "auto_job_name n" ty n "ids n" now] Cons.prems by (auto simp: q)
  with Cons show ?case by (simp add: q)
qed simp

lemma build_auto_total:
  "sound_registry reg \<Longrightarrow> \<forall>n \<in> set ns. map_of reg n \<noteq> None \<and> \<not> blank n \<Longrightarrow> \<exists>js. build_auto ids now reg ns jobs = Inr js"
proof (induction ns arbitrary: jobs)
  case (Cons n ns)
  then obtain h where h: "map_of reg n = Some h" by auto
  then have "rh_name h = n" using Cons.prems(1) by (auto simp: sound_registry_def dest: map_of_SomeD)
  moreover obtain j where "new_job (auto_job_name n) CUSTOM n (ids n) now = Inr j"
    using new_job_ok [of "auto_job_name n" CUSTOM n "ids n" now] Cons.prems(2) by auto
  ultimately show ?case
    using h Cons by (simp add: registry_get_def build_job_from_handler_def Let_def)
qed simp

lemma build_jobs_total:
  assumes "sound_registry reg" "\<forall>n \<in> fst ` set reg. \<not> blank n"
  shows "\<exists>js. build_jobs ids now reg = Inr js"
proof -
  have "\<forall>(n, ty) \<in> set EXPLICIT_JOB_DEFINITIONS. \<not> blank n"
    by (simp add: EXPLICIT_JOB_DEFINITIONS_def blank_def lit_def is_space_def)
  then obtain jobs where "build_explicit ids now reg EXPLICIT_JOB_DEFINITIONS [] = Inr jobs"
    using build_explicit_total by blast
  then show ?thesis
    using build_auto_total [OF assms(1), of "list_names reg"] assms(2)
    by (auto simp: build_jobs_def list_names_def map_of_eq_None_iff)
qed

lemma build_jobs_ids_distinct:
  assumes "distinct (map fst desired)" "\<forall>q \<in> set desired. built_ok ids q" "inj ids"
  shows "distinct (map (j_id \<circ> snd) desired)"
  using assms
proof (induction desired)
  case (Cons q desired)
  have "j_id (snd q') \<noteq> j_id (snd q)" if "q' \<in> set desired" for q'
  proof
    assume "j_id (snd q') = j_id (snd q)"
    with that Cons.prems(2) have "ids (j_handler (snd q')) = ids (j_handler (snd q))"
      by (simp add: built_ok_def)
    with Cons.prems(2) that have "fst q' = fst q"
      by (simp add: built_ok_def inj_eq [OF Cons.prems(3)])
    with that Cons.prems(1) show False by (auto simp: image_iff)
  qed
  then have "j_id (snd q) \<notin> (j_id \<circ> snd) ` set desired" by force
  with Cons show ?case by simp
qed simp

lemma sync_succeeds:
  assumes "wf_db d" and "sound_registry reg" and "positive_timeouts reg" and "\<forall>n \<in> fst ` set reg. \<not> blank n"
    and "inj ids" and "range ids \<inter> jr_id ` set (t_jobs d) = {}"
  shows "\<exists>desired synced d'. build_jobs ids now reg = Inr desired \<and> sync_jobs_to_db ids now reg d = Inr (synced, d')
           \<and> map fst synced = map fst desired \<and> wf_db d'"
proof -
  obtain desired where des: "build_jobs ids now reg = Inr desired"
    using build_jobs_total assms(2,4) by blast
  note ok = build_jobs_built_ok [OF des assms(2,3)]
  have "\<forall>(n, j) \<in> set desired. j_name j = n \<and> valid_job j \<and> j_id j \<notin> jr_id ` set (t_jobs d)"
    using ok assms(6) by (fastforce simp: built_ok_def)
  from sync_each_ok [OF assms(1) this build_jobs_ids_distinct [OF build_jobs_keys(1) [OF des] ok assms(5)]] des
  show ?thesis by (auto simp: sync_jobs_to_db_def)
qed

text \<open>
  Start-up goes through. If the handlers came from the decorator, their names are not blank, their timeouts are
  positive and the new ids are distinct and unused, then reconciliation returns a job for exactly the names the code defines
  and the database satisfies the schema constraints afterwards.
\<close>

theorem sync_jobs_succeeds:
  assumes "wf_db d" and "sound_registry reg" and "positive_timeouts reg" and "\<forall>n \<in> fst ` set reg. \<not> blank n"
    and "inj ids" and "range ids \<inter> jr_id ` set (t_jobs d) = {}"
  shows "\<exists>desired synced d'. build_jobs ids now reg = Inr desired \<and> sync_jobs_to_db ids now reg d = Inr (synced, d')
           \<and> map fst synced = map fst desired \<and> wf_db d'"
  using assms by (rule sync_succeeds)

text \<open>A registry with one handler, for the name of the job already stored.\<close>

definition sample_registry :: "pyfloat \<Rightarrow> TaskRegistry" where
  "sample_registry t = [(lit ''demo'', \<lparr>rh_name = lit ''demo'', rh_func = 7, rh_description = [],
     rh_timeout_seconds = Some t, rh_retry_policy = None\<rparr>)]"

definition sample_ids :: "pystr \<Rightarrow> pystr" where
  "sample_ids n = lit ''new_'' @ n"

lemma auto_job_name_demo: "auto_job_name (lit ''demo'') = lit ''demo''"
  by (simp add: auto_job_name_def lit_def)

lemma sample_explicit: "n \<in> fst ` set EXPLICIT_JOB_DEFINITIONS \<Longrightarrow> \<not> is_registered n (sample_registry t)"
  by (auto simp: EXPLICIT_JOB_DEFINITIONS_def is_registered_def sample_registry_def)

lemma sample_build:
  "build_jobs sample_ids (utc 5) (sample_registry t) =
     Inr [(lit ''demo'', \<lparr>j_name = lit ''demo'', j_job_type = CUSTOM, j_handler = lit ''demo'', j_id = lit ''new_demo'',
       j_timeout_seconds = t, j_retry_policy = default_retry_policy, j_enabled = True, j_created_at = utc 5\<rparr>)]"
proof -
  have "\<not> blank (lit ''demo'')" by (simp add: blank_def lit_def is_space_def)
  moreover have "lit ''demo'' \<notin> fst ` set EXPLICIT_JOB_DEFINITIONS" by (simp add: EXPLICIT_JOB_DEFINITIONS_def)
  ultimately show ?thesis
    by (simp add: build_jobs_def EXPLICIT_JOB_DEFINITIONS_def is_registered_def sample_registry_def list_names_def
        registry_get_def build_job_from_handler_def new_job_def Job_post_init_def auto_job_name_demo sample_ids_def
        flip: lit_append)
qed

lemma sample_sync:
  "sync_jobs_to_db sample_ids (utc 5) (sample_registry t) demo_db =
     Inr ([(lit ''demo'', demo_job\<lparr>j_timeout_seconds := t\<rparr>)],
          demo_db\<lparr>t_jobs := [job_to_record (demo_job\<lparr>j_timeout_seconds := t\<rparr>)]\<rparr>)"
  by (simp add: sync_jobs_to_db_def sample_build job_get_by_name_def opt_job_def record_job_roundtrip)
    (simp add: adopt_def job_update_def demo_job_def job_to_record_def update_job_record_def)

text \<open>A row the mapper rejects stops every later reconciliation of its name.\<close>

lemma bad_row_blocks_sync:
  "r \<in> set (t_jobs d) \<Longrightarrow> record_to_job r = Inl e \<Longrightarrow> unique_on jr_id (t_jobs d) \<Longrightarrow> unique_on jr_name (t_jobs d) \<Longrightarrow>
     distinct (map fst desired) \<Longrightarrow> \<forall>(n, j) \<in> set desired. j_name j = n \<Longrightarrow> jr_name r \<in> fst ` set desired \<Longrightarrow>
     \<exists>e. sync_each desired d = Inl e"
proof (induction desired arbitrary: d)
  case (Cons q desired)
  obtain name code where q: "q = (name, code)" by force
  show ?case
  proof (cases "jr_name r = name")
    case True
    then have "find (\<lambda>r. jr_name r = name) (t_jobs d) = Some r"
      using find_unique [OF Cons.prems(4,1)] by simp
    then have "job_get_by_name name d = Inl e"
      using Cons.prems(2) by (simp add: job_get_by_name_def opt_job_def)
    then show ?thesis by (simp add: q)
  next
    case False
    show ?thesis
    proof (cases "sync_one name code d")
      case (Inr res)
      then obtain j d1 where one: "sync_one name code d = Inr (j, d1)" by (cases res) auto
      have rows: "synced_rows name code (t_jobs d) (t_jobs d1)"
        using Cons.prems by (intro sync_one_rows [OF one]) (auto simp: q)
      have "\<exists>e. sync_each desired d1 = Inl e"
        using rows Cons.prems False by (intro Cons.IH) (auto simp: synced_rows_def q)
      with one show ?thesis by (auto simp: q sync_each_Cons simp del: sync_each.simps)
    qed (auto simp: q sync_each_Cons simp del: sync_each.simps)
  qed
qed simp

lemma nonpositive_timeout_row:
  "code_part r = code_part (job_to_record j) \<Longrightarrow> j_timeout_seconds j \<le> 0 \<Longrightarrow> \<exists>e. record_to_job r = Inl e"
  by (auto simp: code_part_def job_to_record_def record_to_job_def Job_post_init_def split: sum.splits)

text \<open>
  The timeout a handler declares is written to the database unchecked. If the code defines a job with a timeout of zero
  or less, reconciliation accepts it; from then on listing the jobs raises, and so does every later reconciliation in which
  the code defines that name, whatever its timeout is by then.
\<close>

theorem sync_accepts_bad_timeout:
  assumes "wf_db d" and "build_jobs ids now reg = Inr desired" and "(n, j) \<in> set desired" and "j_timeout_seconds j \<le> 0"
    and "sync_jobs_to_db ids now reg d = Inr (synced, d')"
  shows "(\<exists>e. job_list_all d' = Inl e) \<and> (\<exists>e. load_active_schedules d' = Inl e)
    \<and> (\<forall>ids2 now2 reg2 desired2. build_jobs ids2 now2 reg2 = Inr desired2 \<longrightarrow> n \<in> fst ` set desired2 \<longrightarrow>
         (\<exists>e. sync_jobs_to_db ids2 now2 reg2 d' = Inl e))"
proof -
  have u: "unique_on jr_id (t_jobs d)" "unique_on jr_name (t_jobs d)"
    using assms(1) by (auto simp: wf_db_defs)
  have "sync_each desired d = Inr (synced, d')"
    using assms(2,5) by (simp add: sync_jobs_to_db_def)
  note rows = sync_each_rows [OF this u build_jobs_keys [OF assms(2)]]
  from rows assms(3) obtain r where r: "r \<in> set (t_jobs d')" "jr_name r = n" "code_part r = code_part (job_to_record j)"
    by blast
  from nonpositive_timeout_row [OF r(3) assms(4)] obtain e where e: "record_to_job r = Inl e" by blast
  have all: "\<exists>e. job_list_all d' = Inl e"
    unfolding job_list_all_def using r(1) e by (intro mapM_Inl) (auto simp: jobs_ordered_def)
  have "\<exists>e. sync_jobs_to_db ids2 now2 reg2 d' = Inl e"
    if "build_jobs ids2 now2 reg2 = Inr desired2" "n \<in> fst ` set desired2" for ids2 now2 reg2 desired2
    using bad_row_blocks_sync [OF r(1) e _ _ build_jobs_keys [OF that(1)]] rows that r(2)
    by (auto simp: sync_jobs_to_db_def)
  with all show ?thesis by (auto simp: load_active_schedules_def)
qed

lemma record_to_schedule_sel: "record_to_schedule r = Inr s \<Longrightarrow> s_enabled s = sr_enabled r"
  by (auto simp: record_to_schedule_def Schedule_post_init_def split: if_splits option.splits ScheduleType.splits)

lemma schedule_list_by_job_total:
  assumes "wf_db d"
  shows "\<exists>ss. schedule_list_by_job i d = Inr ss \<and> set ss = {s. \<exists>r \<in> set (t_schedules d). sr_job_id r = i \<and> record_to_schedule r = Inr s}"
  using mapM_total [of "filter (\<lambda>r. sr_job_id r = i) (t_schedules d)" record_to_schedule] assms
  by (auto simp: schedule_list_by_job_def wf_db_def wf_schedules_def valid_schedule_row_def)

lemma job_list_all_total:
  assumes "wf_db d"
  shows "\<exists>js. job_list_all d = Inr js \<and> set js = {j. \<exists>r \<in> set (t_jobs d). record_to_job r = Inr j}"
  using mapM_total [of "jobs_ordered (t_jobs d)" record_to_job] assms
  by (auto simp: job_list_all_def jobs_ordered_def wf_db_def wf_jobs_def valid_job_row_def)

text \<open>
  \<^verbatim>\<open>load_active_schedules\<close> returns exactly the pairs of an enabled job and one of its enabled schedules: each pair
  comes from two stored rows, and every such pair of rows is there.
\<close>

theorem load_active_schedules_pairs:
  assumes "wf_db d"
  shows "\<exists>pairs. load_active_schedules d = Inr pairs
    \<and> set pairs = {(j, s). \<exists>jr \<in> set (t_jobs d). \<exists>sr \<in> set (t_schedules d).
         record_to_job jr = Inr j \<and> record_to_schedule sr = Inr s \<and> sr_job_id sr = jr_id jr \<and> jr_enabled jr \<and> sr_enabled sr}"
proof -
  obtain js where js: "job_list_all d = Inr js" "set js = {j. \<exists>r \<in> set (t_jobs d). record_to_job r = Inr j}"
    using job_list_all_total [OF assms] by blast
  let ?f = "\<lambda>j. case schedule_list_by_job (j_id j) d of
      Inl e \<Rightarrow> (Inl e :: exn + (Job \<times> Schedule) list) | Inr ss \<Rightarrow> Inr (map (\<lambda>s. (j, s)) (filter s_enabled ss))"
  have f: "\<exists>ss. ?f j = Inr (map (\<lambda>s. (j, s)) ss)
      \<and> set ss = {s. \<exists>r \<in> set (t_schedules d). sr_job_id r = j_id j \<and> record_to_schedule r = Inr s \<and> sr_enabled r}" for j
  proof -
    obtain ss where ss: "schedule_list_by_job (j_id j) d = Inr ss"
      "set ss = {s. \<exists>r \<in> set (t_schedules d). sr_job_id r = j_id j \<and> record_to_schedule r = Inr s}"
      using schedule_list_by_job_total [OF assms] by blast
    have "set (filter s_enabled ss) =
        {s. \<exists>r \<in> set (t_schedules d). sr_job_id r = j_id j \<and> record_to_schedule r = Inr s \<and> sr_enabled r}"
      by (auto simp: ss(2) dest: record_to_schedule_sel)
    then show ?thesis by (intro exI [of _ "filter s_enabled ss"]) (simp add: ss(1))
  qed
  then obtain F where F: "?f j = Inr (map (\<lambda>s. (j, s)) (F j))"
      "set (F j) = {s. \<exists>r \<in> set (t_schedules d). sr_job_id r = j_id j \<and> record_to_schedule r = Inr s \<and> sr_enabled r}" for j
    by metis
  have "\<forall>j \<in> set (filter j_enabled js). \<exists>y. ?f j = Inr y" by (simp only: F(1)) blast
  then obtain pss where pss: "mapM ?f (filter j_enabled js) = Inr pss" "set pss = {y. \<exists>j \<in> set (filter j_enabled js). ?f j = Inr y}"
    using mapM_total [of "filter j_enabled js" ?f] by blast
  have mem: "(j, s) \<in> set (concat pss) \<longleftrightarrow> j \<in> set js \<and> j_enabled j
      \<and> (\<exists>r \<in> set (t_schedules d). sr_job_id r = j_id j \<and> record_to_schedule r = Inr s \<and> sr_enabled r)" for j s
    unfolding set_concat pss(2) F(1) using F(2) by (auto intro!: exI [of _ "map (Pair j) (F j)"] imageI)
  have "(j, s) \<in> set (concat pss) \<longleftrightarrow> (\<exists>jr \<in> set (t_jobs d). \<exists>sr \<in> set (t_schedules d).
      record_to_job jr = Inr j \<and> record_to_schedule sr = Inr s \<and> sr_job_id sr = jr_id jr \<and> jr_enabled jr \<and> sr_enabled sr)" for j s
    unfolding mem js(2) mem_Collect_eq by (metis record_to_job_sel)
  then have "set (concat pss) = {(j, s). \<exists>jr \<in> set (t_jobs d). \<exists>sr \<in> set (t_schedules d).
      record_to_job jr = Inr j \<and> record_to_schedule sr = Inr s \<and> sr_job_id sr = jr_id jr \<and> jr_enabled jr \<and> sr_enabled sr}"
    by (intro set_eqI) (simp only: mem_Collect_eq split_paired_all prod.case)
  with js(1) pss(1) show ?thesis by (simp add: load_active_schedules_def)
qed

theorem sync_jobs_keeps_runtime_state_witness:
  "(lit ''job_a'', lit ''demo'', True, utc 0) \<in>
     runtime_part ` set (t_jobs (demo_db\<lparr>t_jobs := [job_to_record (demo_job\<lparr>j_timeout_seconds := 20\<rparr>)]\<rparr>))"
  using sync_jobs_keeps_runtime_state [OF wf_demo_db sample_sync [of 20]]
  by (auto simp: runtime_part_def demo_job_def job_to_record_def)

theorem sync_jobs_succeeds_witness:
  "\<exists>desired synced d'. build_jobs sample_ids (utc 5) (sample_registry 20) = Inr desired
     \<and> sync_jobs_to_db sample_ids (utc 5) (sample_registry 20) demo_db = Inr (synced, d')
     \<and> map fst synced = map fst desired \<and> wf_db d'"
proof (rule sync_jobs_succeeds [OF wf_demo_db])
  show "\<forall>n \<in> fst ` set (sample_registry 20). \<not> blank n"
    by (simp add: sample_registry_def blank_def lit_def is_space_def)
  show "range sample_ids \<inter> jr_id ` set (t_jobs demo_db) = {}"
    by (auto simp: sample_ids_def lit_def)
qed (auto simp: sound_registry_def positive_timeouts_def sample_registry_def sample_ids_def inj_def)

theorem sync_accepts_bad_timeout_witness:
  "\<exists>d'. sync_jobs_to_db sample_ids (utc 5) (sample_registry 0) demo_db = Inr ([(lit ''demo'', demo_job\<lparr>j_timeout_seconds := 0\<rparr>)], d')
     \<and> (\<exists>e. job_list_all d' = Inl e) \<and> (\<exists>e. sync_jobs_to_db sample_ids (utc 5) (sample_registry 20) d' = Inl e)"
  using sync_accepts_bad_timeout [OF wf_demo_db sample_build _ _ sample_sync, of "lit ''demo''" _ 0] sample_build [of 20]
  by (auto simp: sample_sync)

theorem load_active_schedules_pairs_witness:
  "\<exists>pairs. load_active_schedules (demo_db\<lparr>t_schedules := [schedule_to_record demo_schedule]\<rparr>) = Inr pairs
     \<and> set pairs = {(demo_job, demo_schedule)}"
proof -
  have add: "schedule_add demo_schedule demo_db = Inr ((), demo_db\<lparr>t_schedules := [schedule_to_record demo_schedule]\<rparr>)"
    by (simp add: schedule_add_def) (simp add: demo_schedule_def)
  from load_active_schedules_pairs [OF keeps_wfD [OF schedule_add_keeps_wf [OF valid_demo_schedule] wf_demo_db add]]
  show ?thesis
    by (auto simp: record_job_roundtrip record_schedule_roundtrip)
      (simp_all add: demo_schedule_def schedule_to_record_def demo_job_def job_to_record_def)
qed

end
