(* ===== verification/Invariants.thy ===== *)
theory Invariants
  imports Worker Retry_Sweeper Recovery Scheduler Bootstrap
begin

text \<open>
  Invariants of the database. The locale \<open>db_invariant\<close> states once what a property of the database has to survive, the
  elementary transactions of the repositories; inside it the property is carried through everything the processes of the
  platform do. The consistency of the tables is one instance, that no recorded attempt ever disappears is another.
\<close>

definition keeps :: "(db \<Rightarrow> bool) \<Rightarrow> 'a txn \<Rightarrow> bool" where
  "keeps I t \<longleftrightarrow> (\<forall>d a d'. I d \<longrightarrow> t d = Inr (a, d') \<longrightarrow> I d')"

lemma keepsI: "(\<And>d a d'. I d \<Longrightarrow> t d = Inr (a, d') \<Longrightarrow> I d') \<Longrightarrow> keeps I t"
  by (auto simp: keeps_def)

lemma keepsD: "keeps I t \<Longrightarrow> I d \<Longrightarrow> t d = Inr (a, d') \<Longrightarrow> I d'"
  by (auto simp: keeps_def)

lemma session_scope_keeps: "keeps I t \<Longrightarrow> I d \<Longrightarrow> I (snd (session_scope f t d))"
  by (auto simp: session_scope_def keeps_def split: sum.splits option.splits)

lemma session_scope_keeps_eq: "keeps I t \<Longrightarrow> session_scope f t d = (r, d') \<Longrightarrow> I d \<Longrightarrow> I d'"
  using session_scope_keeps [of I t d f] by simp

lemma keeps_read: "keeps I (\<lambda>d. Inr (f d, d))"
  by (auto simp: keeps_def)

lemma keeps_wf_eq: "keeps wf_db t = keeps_wf t"
  by (simp add: keeps_def keeps_wf_def)

section \<open>What the callbacks keep, the loops keep\<close>

definition ports_keep :: "('s \<Rightarrow> bool) \<Rightarrow> 's ports \<Rightarrow> bool" where
  "ports_keep P ports \<longleftrightarrow>
     (\<forall>m s. P s \<longrightarrow> P (snd (pt_publish ports m s)))
     \<and> (\<forall>f j r k s. pt_claim ports = Some f \<longrightarrow> P s \<longrightarrow> P (snd (f j r k s)))
     \<and> (\<forall>f k s. pt_release ports = Some f \<longrightarrow> P s \<longrightarrow> P (snd (f k s)))
     \<and> (\<forall>f x s. pt_on_enqueued ports = Some f \<longrightarrow> P s \<longrightarrow> P (snd (f x s)))"

lemma finish_dispatch_state [simp]: "snd (snd (finish_dispatch r e now st s)) = s"
  by (auto simp: finish_dispatch_def split: prod.splits sum.splits)

lemma ports_keepD:
  assumes "ports_keep P ports" "P s"
  shows "pt_publish ports m s = (r, s') \<Longrightarrow> P s'" and "pt_claim ports = Some f \<Longrightarrow> f j i k s = (b, s') \<Longrightarrow> P s'"
    and "P (release_quietly ports k s)" and "pt_on_enqueued ports = Some g \<Longrightarrow> P (snd (g x s))"
proof -
  note P = assms [unfolded ports_keep_def]
  show "pt_publish ports m s = (r, s') \<Longrightarrow> P s'" using P by (metis snd_conv)
  show "pt_claim ports = Some f \<Longrightarrow> f j i k s = (b, s') \<Longrightarrow> P s'" using P by (metis snd_conv)
  show "P (release_quietly ports k s)" using P by (simp add: release_quietly_def split: option.split)
  show "pt_on_enqueued ports = Some g \<Longrightarrow> P (snd (g x s))" using P by simp
qed

lemma d_publish_keeps:
  assumes "ports_keep P ports" "P s"
  shows "P (snd (snd (d_publish ports run_id now e key st s)))"
proof -
  note keep = ports_keepD [OF assms(1)]
  show ?thesis
    using assms(2) keep(1) [OF assms(2)] by (auto simp: d_publish_def Let_def split: sum.splits prod.splits option.splits intro: keep(3,4))
qed

lemma d_dispatch_keeps:
  assumes "ports_keep P ports" "P s"
  shows "P (snd (snd (d_dispatch ports ids now e st s)))"
  using assms(2) ports_keepD(2) [OF assms] d_publish_keeps [OF assms(1)]
  by (auto simp: d_dispatch_def Let_def split: sum.splits prod.splits option.splits bool.splits)

lemma d_dispatch_all_keeps:
  assumes "ports_keep P ports" "P s"
  shows "P (snd (snd (d_dispatch_all ports ids now es st s)))"
  using assms(2)
proof (induction es arbitrary: st s)
  case (Cons e es)
  obtain r st1 s1 where d: "d_dispatch ports ids now e st s = (r, st1, s1)" by (metis prod_cases3)
  with d_dispatch_keeps [OF assms(1) Cons.prems, of ids now e st] have "P s1" by simp
  from Cons.IH [OF this, of st1] show ?case using \<open>P s1\<close> by (auto simp: d split: sum.splits prod.splits)
qed simp

lemma d_tick_keeps: "ports_keep P ports \<Longrightarrow> P s \<Longrightarrow> P (snd (snd (d_tick ports ids now st s)))"
  by (auto simp: d_tick_def d_dispatch_all_keeps split: prod.splits)

section \<open>Invariants of the database\<close>

locale db_invariant =
  fixes I :: "db \<Rightarrow> bool"
  assumes job_add_keeps: "valid_job j \<Longrightarrow> keeps I (job_add j)"
    and job_update_keeps: "valid_job j \<Longrightarrow> keeps I (job_update j)"
    and schedule_add_keeps: "valid_schedule sch \<Longrightarrow> keeps I (schedule_add sch)"
    and exec_add_keeps: "keeps I (exec_add x)"
    and exec_update_keeps: "keeps I (exec_update x)"
    and mark_cancel_requested_keeps: "keeps I (mark_cancel_requested r n)"
    and claim_retry_keeps: "keeps I (claim_retry r n)"
    and set_next_retry_at_keeps: "keeps I (set_next_retry_at r n v)"
    and log_add_many_keeps: "keeps I (log_add_many ls)"
    and try_claim_keeps: "keeps I (try_claim k i r now)"
    and key_release_keeps: "keeps I (key_release k)"
begin

lemma exec_upsert_keeps: "keeps I (exec_upsert x)"
  using exec_add_keeps exec_update_keeps unfolding exec_upsert_def keeps_def by metis

lemma upsert_with_logs_keeps: "keeps I (upsert_with_logs x logs)"
proof (rule keepsI)
  fix d a d'
  assume d: "I d" and run: "upsert_with_logs x logs d = Inr (a, d')"
  then obtain b d1 where u: "exec_upsert x d = Inr (b, d1)" by (auto simp: upsert_with_logs_def split: sum.splits)
  from keepsD [OF exec_upsert_keeps d u] have "I d1" .
  with run u keepsD [OF log_add_many_keeps [of logs], of d1] show "I d'" by (auto simp: upsert_with_logs_def split: if_splits)
qed

lemma update_each_keeps: "keeps I (update_each change xs)"
proof (induction xs)
  case Nil
  then show ?case by (simp add: keeps_def)
next
  case (Cons x xs)
  show ?case
  proof (rule keepsI)
    fix d a d'
    assume wf: "I d" and run: "update_each change (x # xs) d = Inr (a, d')"
    then obtain y b d1 c where y: "exec_update y d = Inr (b, d1)" and rest: "update_each change xs d1 = Inr (c, d')"
      by (auto split: sum.splits)
    from keepsD [OF exec_update_keeps wf y] have "I d1" .
    from keepsD [OF Cons this rest] show "I d'" .
  qed
qed

lemma release_each_keeps: "keeps I (release_each ks)"
proof (induction ks)
  case Nil
  then show ?case by (simp add: keeps_def)
next
  case (Cons k ks)
  show ?case
  proof (rule keepsI)
    fix d a d'
    assume wf: "I d" and run: "release_each (k # ks) d = Inr (a, d')"
    then obtain b d1 where k: "key_release k d = Inr (b, d1)" and rest: "release_each ks d1 = Inr (a, d')"
      by (auto split: sum.splits)
    from keepsD [OF key_release_keeps wf k] have "I d1" .
    from keepsD [OF Cons this rest] show "I d'" .
  qed
qed

lemma recover_interrupted_keeps: "keeps I (recover_interrupted clock)"
proof (rule keepsI)
  fix d a d'
  assume wf: "I d" and run: "recover_interrupted clock d = Inr (a, d')"
  then obtain l1 d1 l2 d2 where 1: "update_each (interrupt clock) (list_by_status RUNNING d) d = Inr (l1, d1)"
    and 2: "update_each (\<lambda>x. transition x RECOVERABLE) (list_dangling_retries d1) d1 = Inr (l2, d2)"
    and 3: "release_each (list_orphan_keys d2) d2 = Inr ((), d')"
    by (auto simp: recover_interrupted_def Let_def split: sum.splits)
  show "I d'"
    using keepsD [OF release_each_keeps keepsD [OF update_each_keeps keepsD [OF update_each_keeps wf 1] 2] 3] .
qed

lemma request_cancel_keeps: "keeps I (request_cancel now run_id)"
proof (rule keepsI)
  fix d a d'
  assume wf: "I d" and run: "request_cancel now run_id d = Inr (a, d')"
  then consider "d' = d" | n b where "mark_cancel_requested run_id n d = Inr (b, d')" | y b where "exec_update y d = Inr (b, d')"
    by (auto simp: request_cancel_def Let_def split: if_splits sum.splits)
  then show "I d'"
    using wf keepsD [OF mark_cancel_requested_keeps wf] keepsD [OF exec_update_keeps wf] by cases auto
qed

lemma sync_one_keeps: "valid_job code \<Longrightarrow> keeps I (sync_one name code)"
proof (rule keepsI)
  fix d j d1
  assume valid: "valid_job code" and wf: "I d" and run: "sync_one name code d = Inr (j, d1)"
  show "I d1"
  proof (cases "find (\<lambda>r. jr_name r = name) (t_jobs d)")
    case None
    with run have "job_add code d = Inr ((), d1)"
      by (auto simp: sync_one_def job_get_by_name_def opt_job_def split: sum.splits)
    from keepsD [OF job_add_keeps [OF valid] wf this] show ?thesis .
  next
    case (Some r)
    with run obtain x where x: "record_to_job r = Inr x" "job_update (adopt x code) d = Inr ((), d1)"
      by (auto simp: sync_one_def job_get_by_name_def opt_job_def split: sum.splits)
    have "valid_job (adopt x code)" using valid_adopt record_to_job_valid [OF x(1)] valid by blast
    from keepsD [OF job_update_keeps [OF this] wf x(2)] show ?thesis .
  qed
qed

lemma sync_each_keeps: "\<forall>(n, j) \<in> set desired. valid_job j \<Longrightarrow> keeps I (sync_each desired)"
proof (induction desired)
  case Nil
  then show ?case by (simp add: keeps_def)
next
  case (Cons q desired)
  obtain name code where q: "q = (name, code)" by force
  show ?case
  proof (rule keepsI)
    fix d a d'
    assume wf: "I d" and run: "sync_each (q # desired) d = Inr (a, d')"
    then obtain j d1 b where 1: "sync_one name code d = Inr (j, d1)" and 2: "sync_each desired d1 = Inr (b, d')"
      by (auto simp: q sync_each_Cons simp del: sync_each.simps split: sum.splits prod.splits)
    have "valid_job code" "keeps I (sync_each desired)" using Cons by (auto simp: q)
    from keepsD [OF this(2) keepsD [OF sync_one_keeps [OF this(1)] wf 1] 2] show "I d'" .
  qed
qed

lemma sync_jobs_keeps:
  assumes "sound_registry reg" "positive_timeouts reg"
  shows "keeps I (sync_jobs_to_db ids now reg)"
proof (rule keepsI)
  fix d a d'
  assume wf: "I d" and run: "sync_jobs_to_db ids now reg d = Inr (a, d')"
  then obtain desired where des: "build_jobs ids now reg = Inr desired" "sync_each desired d = Inr (a, d')"
    by (auto simp: sync_jobs_to_db_def split: sum.splits)
  have "\<forall>(n, j) \<in> set desired. valid_job j"
    using build_jobs_built_ok [OF des(1) assms] by (auto simp: built_ok_def)
  from keepsD [OF sync_each_keeps [OF this] wf des(2)] show "I d'" .
qed

text \<open>The dispatcher.\<close>

lemma dispatch_ports_keep: "ports_keep (\<lambda>w. I (fst w)) (dispatch_ports Q fl now)"
  using session_scope_keeps_eq [OF try_claim_keeps] session_scope_keeps_eq [OF key_release_keeps] session_scope_keeps_eq [OF exec_add_keeps]
  by (auto simp: ports_keep_def dispatch_ports_def queue_publish_def db_claim_def db_release_def db_on_enqueued_def Let_def
      split: prod.splits)

lemma dispatcher_tick_keeps: "I d \<Longrightarrow> I (fst (snd (snd (d_tick (dispatch_ports Q fl now) ids t st (d, q)))))"
  using d_tick_keeps [OF dispatch_ports_keep, of "(d, q)"] by simp

text \<open>The retry sweeper.\<close>

lemma sweep_each_keeps:
  assumes "\<And>x w. I (fst w) \<Longrightarrow> I (fst (meanwhile x w))" and "I (fst w)"
  shows "I (fst (snd (sweep_each Q fl meanwhile xs w)))"
  using assms(2)
proof (induction xs arbitrary: w)
  case (Cons x xs)
  obtain d q where m: "meanwhile x w = (d, q)" by fastforce
  with assms(1) [OF Cons.prems, of x] have d: "I d" by simp
  obtain r d1 where c: "session_scope (sf_claim fl (x_run_id x) (x_attempt x)) (claim_retry (x_run_id x) (x_attempt x)) d = (r, d1)" by fastforce
  with session_scope_keeps_eq [OF claim_retry_keeps c d] have d1: "I d1" by simp
  obtain u q1 where q1: "publish_retry Q x q = (u, q1)" by fastforce
  obtain v d2 where b: "session_scope (sf_restore fl (x_run_id x) (x_attempt x))
      (set_next_retry_at (x_run_id x) (x_attempt x) (x_next_retry_at x)) d1 = (v, d2)" by fastforce
  with session_scope_keeps_eq [OF set_next_retry_at_keeps b d1] have d2: "I d2" by simp
  show ?case
    using d1 d2 Cons.IH [of "(d1, q)"] Cons.IH [of "(d1, q1)"] Cons.IH [of "(d2, q1)"]
    by (auto simp: m c q1 b split: prod.splits sum.splits bool.splits)
qed simp

lemma sweep_due_retries_keeps:
  "(\<And>x w. I (fst w) \<Longrightarrow> I (fst (meanwhile x w))) \<Longrightarrow> I (fst w) \<Longrightarrow> I (fst (snd (sweep_due_retries Q fl meanwhile now limit w)))"
  by (auto simp: sweep_due_retries_def sweep_each_keeps split: sum.splits)

text \<open>The worker.\<close>

lemma persist_keeps:
  "I (w_db w) \<Longrightarrow> I (w_db (snd (persist_started f x w)))" "I (w_db w) \<Longrightarrow> I (w_db (snd (persist_final f x w)))"
  using session_scope_keeps_eq [OF exec_upsert_keeps] session_scope_keeps_eq [OF upsert_with_logs_keeps]
  by (auto simp: persist_started_def persist_final_def split: prod.splits)

lemma worker_process_keeps:
  assumes "\<And>p v. p \<in> set (e_polls (se_attempt env)) \<Longrightarrow> I (w_db v) \<Longrightarrow> I (w_db (p_env p v))" and "I (w_db w)"
  shows "I (w_db (state_of (worker_process Q fmt reg env dl w)))"
  by (rule worker_process_preserves [where I = "\<lambda>v. I (w_db v)"]) (use assms in \<open>auto simp: persist_keeps\<close>)

lemma run_once_keeps:
  assumes "\<And>p v. p \<in> set (e_polls (se_attempt env)) \<Longrightarrow> I (w_db v) \<Longrightarrow> I (w_db (p_env p v))" and "I (w_db w)"
  shows "I (w_db (state_of (run_once Q wk fmt reg env block w)))"
proof -
  obtain r w1 where n: "next_delivery Q wk env block w = (r, w1)" by fastforce
  then have "w_db w1 = w_db w"
    by (auto simp: next_delivery_def Let_def split: option.splits if_splits prod.splits sum.splits list.splits)
  then have w1: "I (w_db w1)" using assms(2) by simp
  show ?thesis
  proof (cases "\<exists>dl. r = Inr (Some dl)")
    case True
    then obtain dl where "r = Inr (Some dl)" by blast
    with worker_process_keeps [OF assms(1) w1, of env Q fmt reg dl] show ?thesis
      by (auto simp: run_once_def n split: progress.splits sum.splits)
  next
    case False
    with w1 show ?thesis by (auto simp: run_once_def n split: sum.splits option.splits)
  qed
qed

end

section \<open>Instances\<close>

interpretation wf: db_invariant wf_db
  by unfold_locales (auto simp: keeps_wf_eq)

text \<open>The attempts recorded in the database.\<close>

definition recorded :: "db \<Rightarrow> (pystr \<times> int) set" where
  "recorded d = exec_key ` set (t_executions d)"

lemma rewritten_keys [simp]:
  "exec_key ` set (update_first P (\<lambda>r. update_execution_record r x) rs) = exec_key ` set rs"
  "exec_key ` set (update_first P (\<lambda>r. r\<lparr>er_cancel_requested := b\<rparr>) rs) = exec_key ` set rs"
  by (simp_all add: exec_key_def update_execution_record_def flip: set_map)

lemma cleared_keys: "exec_key ` set (map (\<lambda>r. if P r then r\<lparr>er_next_retry_at := v\<rparr> else r) rs) = exec_key ` set rs"
  by (induction rs) (auto simp: exec_key_def)

lemma recorded_executions: "recorded (d\<lparr>t_executions := rs\<rparr>) = exec_key ` set rs"
  by (simp add: recorded_def)

lemma same_recorded: "(\<And>d a d'. t d = Inr (a, d') \<Longrightarrow> recorded d' = recorded d) \<Longrightarrow> keeps (\<lambda>d. h \<subseteq> recorded d) t"
  by (auto simp: keeps_def)

interpretation history: db_invariant "\<lambda>d. h \<subseteq> recorded d" for h
proof unfold_locales
  fix x r n v
  show "keeps (\<lambda>d. h \<subseteq> recorded d) (exec_add x)"
    by (rule keepsI) (auto simp: exec_add_def recorded_def split: if_splits)
  show "keeps (\<lambda>d. h \<subseteq> recorded d) (exec_update x)"
    by (rule same_recorded) (simp add: exec_update_def split: if_splits, clarify, simp add: recorded_def)
  show "keeps (\<lambda>d. h \<subseteq> recorded d) (mark_cancel_requested r n)"
    by (rule same_recorded) (simp add: mark_cancel_requested_def split: if_splits, clarify, simp add: recorded_def)
  show "keeps (\<lambda>d. h \<subseteq> recorded d) (claim_retry r n)"
    by (rule same_recorded) (simp only: claim_retry_def Let_def, clarify, simp only: recorded_executions cleared_keys, simp only: recorded_def)
  show "keeps (\<lambda>d. h \<subseteq> recorded d) (set_next_retry_at r n v)"
    by (rule same_recorded) (simp only: set_next_retry_at_def Let_def, clarify, simp only: recorded_executions cleared_keys, simp only: recorded_def)
qed (rule same_recorded; auto simp: job_add_def job_update_def schedule_add_def log_add_many_def try_claim_def key_release_def
    recorded_def Let_def split: if_splits)+

end
