(* ===== verification/Local_Run.thy ===== *)
theory Local_Run
  imports Invariants
begin

text \<open>
  Runs in the calling process: the part the command line (\<^verbatim>\<open>run\<close>, \<^verbatim>\<open>resume\<close>) and the REST API (\<^verbatim>\<open>POST /jobs/{id}/run\<close>)
  share. The state \<open>local\<close> is the database, the buffered log lines and the private cancel token that \<^verbatim>\<open>execute_attempt\<close> makes
  when it is given none.
\<close>

record local =
  lo_db :: db
  lo_buffer :: log_buffer
  lo_fired :: bool

definition local_token :: "local token_ops" where
  "local_token = \<lparr>tk_cancel = (\<lambda>s. s\<lparr>lo_fired := True\<rparr>), tk_is_cancelled = lo_fired\<rparr>"

definition run_local ::
  "(pyfloat \<Rightarrow> pystr) \<Rightarrow> TaskRegistry \<Rightarrow> local attempt_env \<Rightarrow> Job \<Rightarrow> int \<Rightarrow> pystr option \<Rightarrow> local \<Rightarrow> (local, AttemptResult) progress" where
  "run_local fmt reg env job attempt run_id s =
     execute_attempt fmt reg local_token None 5 env job attempt run_id (s\<lparr>lo_fired := False\<rparr>)"

lemma execute_attempt_None:
  "execute_attempt fmt reg tok None grace env job n rid s = execute_attempt fmt reg tok (Some (\<lambda>x s. (Inr (), s))) grace env job n rid s"
  by (simp only: execute_attempt_def option.case)

lemma run_local_preserves:
  assumes "\<And>p t. p \<in> set (e_polls env) \<Longrightarrow> I (lo_db t) \<Longrightarrow> I (lo_db (p_env p t))" and "I (lo_db s)"
  shows "I (lo_db (state_of (run_local fmt reg env job n rid s)))"
  unfolding run_local_def execute_attempt_None
  by (rule execute_attempt_preserves [where I = "\<lambda>t. I (lo_db t)"]) (use assms in \<open>auto simp: local_token_def\<close>)

section \<open>Runs\<close>

text \<open>What other processes do to the database while the handler runs keeps the invariant.\<close>

definition polls_keep :: "(db \<Rightarrow> bool) \<Rightarrow> local attempt_env \<Rightarrow> bool" where
  "polls_keep I env \<longleftrightarrow> (\<forall>p \<in> set (e_polls env). \<forall>t. I (lo_db t) \<longrightarrow> I (lo_db (p_env p t)))"

lemma run_local_Done:
  assumes "run_local fmt reg env job n rid s = Done (Inr res) s1"
  shows "\<exists>h out. res = attempt_result job h env n rid out"
  using assms unfolding run_local_def by (elim execute_attempt_Done) blast

lemma attempt_result_fresh [simp]: "x_run_id (ar_execution (attempt_result job h env n None out)) = e_fresh_run_id env"
  by (simp add: attempt_result_def attempt_execution_def Let_def)

lemma due_has_retry_time:
  assumes "wf_db d" "get_attempt r n d = Some y" "x_next_retry_at y = None" "x \<in> set (list_due_retries now limit d)"
  shows "(x_run_id x, x_attempt x) \<noteq> (r, n)"
  using list_due_retries_set [OF assms(1,4)] assms(2,3) by auto

text \<open>A run whose handler fails.\<close>

definition sample_local :: local where
  "sample_local = \<lparr>lo_db = demo_db, lo_buffer = [], lo_fired = False\<rparr>"

abbreviation sample_result :: AttemptResult where
  "sample_result \<equiv> attempt_result demo_job (snd (hd demo_registry)) (failing_env :: local attempt_env) 1 None (Inl (OtherError (lit ''boom'')))"

lemma sample_run_local: "run_local (\<lambda>x. []) demo_registry failing_env demo_job 1 None sample_local = Done (Inr sample_result) sample_local"
  by (simp add: run_local_def execute_attempt_eq registry_get_def wait_for_def demo_defs resolve_timeout_seconds_def Let_def
      local_token_def sample_local_def)

lemma sample_status: "x_status (ar_execution sample_result) = RETRYING"
  by (simp add: outcome_status_def resolve_retry_policy_def demo_defs)

end
