(* ===== verification/Cli.thy ===== *)
theory Cli
  imports Local_Run
begin

text \<open>
  The command line (\<^verbatim>\<open>cli/main.py\<close>): every command starts with the reconciliation of the jobs and then reads or changes the
  database in transactions of its own. What a command prints is left out; its exit code is modelled. The inputs of one
  invocation are in \<open>cli_env\<close>: ids and clock readings, what each commit raises, and the attempt a command executes. Python's
  \<^verbatim>\<open>int\<close> on strings is the parameter \<open>ce_int\<close>.
\<close>

section \<open>Commands\<close>

datatype command =
    CmdList
  | CmdHistory "pystr option" "JobStatus option" int int
  | CmdLogs pystr "int option"
  | CmdRecover
  | CmdCancelRun pystr
  | CmdResume pystr
  | CmdSchedule pystr "pyfloat + pystr"
  | CmdShow pystr
  | CmdRun pystr
  | CmdCancel pystr

record cli_env =
  ce_ids :: "pystr \<Rightarrow> pystr"
  ce_now :: datetime
  ce_clock :: "JobExecution \<Rightarrow> datetime"
  ce_schedule_id :: pystr
  ce_fresh_run_id :: pystr
  ce_int :: "pystr \<Rightarrow> exn + int"
  ce_sync_error :: "exn option"
  ce_error :: "exn option"
  ce_persist_error :: "exn option"
  ce_attempt :: "local attempt_env"

definition persist_execution :: "exn option \<Rightarrow> JobExecution \<Rightarrow> local \<Rightarrow> (exn + unit) \<times> local" where
  "persist_execution commit_error x s =
     (let (logs, b) = drain_logs (x_run_id x) (x_attempt x) (lo_buffer s);
          (r, d) = session_scope commit_error (upsert_with_logs x logs) (lo_db s)
      in (r, s\<lparr>lo_buffer := b, lo_db := d\<rparr>))"

text \<open>\<^verbatim>\<open>value.partition(":")\<close> without the separator, and \<^verbatim>\<open>time(hour, minute)\<close>.\<close>

definition partition_colon :: "pystr \<Rightarrow> pystr \<times> pystr" where
  "partition_colon v = (takeWhile (\<lambda>c. c \<noteq> 58) v, tl (dropWhile (\<lambda>c. c \<noteq> 58) v))"

definition parse_daily :: "(pystr \<Rightarrow> exn + int) \<Rightarrow> pystr \<Rightarrow> exn + int" where
  "parse_daily to_int v =
     (let (hour_str, minute_str) = partition_colon v in
      case to_int hour_str of
        Inl e \<Rightarrow> Inl e
      | Inr h \<Rightarrow>
          (case to_int minute_str of
             Inl e \<Rightarrow> Inl e
           | Inr m \<Rightarrow>
               if 0 \<le> h \<and> h \<le> 23
               then (if 0 \<le> m \<and> m \<le> 59 then Inr ((h * 3600 + m * 60) * us_per_second)
                     else Inl (ValueError (lit ''minute must be in 0..59'')))
               else Inl (ValueError (lit ''hour must be in 0..23''))))"

text \<open>A transaction whose result is the exit code.\<close>

definition in_session :: "exn option \<Rightarrow> 'a txn \<Rightarrow> ('a \<Rightarrow> int) \<Rightarrow> local \<Rightarrow> (local, int) progress" where
  "in_session commit_error t code s =
     (case session_scope commit_error t (lo_db s) of
        (Inl e, d) \<Rightarrow> Done (Inl e) (s\<lparr>lo_db := d\<rparr>)
      | (Inr a, d) \<Rightarrow> Done (Inr (code a)) (s\<lparr>lo_db := d\<rparr>))"

definition read_txn :: "(db \<Rightarrow> exn + 'a) \<Rightarrow> 'a txn" where
  "read_txn f d = (case f d of Inl e \<Rightarrow> Inl e | Inr a \<Rightarrow> Inr (a, d))"

definition cli_history :: "cli_env \<Rightarrow> (pystr \<times> Job) list \<Rightarrow> pystr option \<Rightarrow> JobStatus option \<Rightarrow> int \<Rightarrow> int \<Rightarrow> local \<Rightarrow> (local, int) progress" where
  "cli_history env jobs name st page page_size s =
     (case (case name of None \<Rightarrow> Some None | Some n \<Rightarrow> map_option (Some \<circ> j_id) (map_of jobs n)) of
        None \<Rightarrow> Done (Inr 1) s
      | Some job_id \<Rightarrow> in_session (ce_error env) (read_txn (exec_list_paginated job_id st None None page page_size)) (\<lambda>_. 0) s)"

definition cli_logs :: "cli_env \<Rightarrow> pystr \<Rightarrow> int option \<Rightarrow> local \<Rightarrow> (local, int) progress" where
  "cli_logs env run_id attempt s =
     in_session (ce_error env) (read_txn (log_list_by_run run_id attempt 1 1000)) (\<lambda>p. if pg_items p = [] then 1 else 0) s"

definition cli_recover :: "cli_env \<Rightarrow> local \<Rightarrow> (local, int) progress" where
  "cli_recover env s = in_session (ce_error env) (recover_interrupted (ce_clock env)) (\<lambda>_. 0) s"

definition cli_cancel_run :: "cli_env \<Rightarrow> pystr \<Rightarrow> local \<Rightarrow> (local, int) progress" where
  "cli_cancel_run env run_id s =
     in_session (ce_error env) (request_cancel (ce_now env) run_id) (\<lambda>r. if r \<in> {CO_REQUESTED, CO_CANCELED} then 0 else 1) s"

text \<open>Persist the execution of a command and turn its status into the exit code.\<close>

definition finish_run :: "cli_env \<Rightarrow> JobExecution \<Rightarrow> local \<Rightarrow> (local, int) progress" where
  "finish_run env x s =
     (case persist_execution (ce_persist_error env) x s of
        (Inl e, s1) \<Rightarrow> Done (Inl e) s1
      | (Inr _, s1) \<Rightarrow> Done (Inr (if x_status x = SUCCESS then 0 else 1)) s1)"

definition cli_resume ::
  "(pyfloat \<Rightarrow> pystr) \<Rightarrow> TaskRegistry \<Rightarrow> cli_env \<Rightarrow> (pystr \<times> Job) list \<Rightarrow> pystr \<Rightarrow> local \<Rightarrow> (local, int) progress" where
  "cli_resume fmt reg env jobs run_id s =
     (case session_scope (ce_error env) (read_txn (\<lambda>d. Inr (exec_list_by_run run_id d))) (lo_db s) of
        (Inl e, _) \<Rightarrow> Done (Inl e) s
      | (Inr attempts, _) \<Rightarrow>
          if attempts = [] then Done (Inr 1) s
          else
            let prev = last attempts in
            if x_status prev \<noteq> RECOVERABLE then Done (Inr 1) s
            else
              (case find (\<lambda>j. j_id j = x_job_id prev) (map snd jobs) of
                 None \<Rightarrow> Done (Inr 1) s
               | Some target \<Rightarrow>
                   (case run_local fmt reg (ce_attempt env) target (x_attempt prev + 1) (Some run_id) s of
                      Waiting s1 \<Rightarrow> Waiting s1
                    | Done (Inl e) s1 \<Rightarrow> Done (Inl e) s1
                    | Done (Inr res) s1 \<Rightarrow> finish_run env (ar_execution res) s1)))"

definition cli_schedule :: "cli_env \<Rightarrow> (pystr \<times> Job) list \<Rightarrow> pystr \<Rightarrow> pyfloat + pystr \<Rightarrow> local \<Rightarrow> (local, int) progress" where
  "cli_schedule env jobs name rule s =
     (case map_of jobs name of
        None \<Rightarrow> Done (Inr 1) s
      | Some job \<Rightarrow>
          (case (case rule of
                   Inl interval \<Rightarrow>
                     Schedule_post_init \<lparr>s_job_id = j_id job, s_schedule_type = INTERVAL, s_id = ce_schedule_id env,
                       s_interval_seconds = Some interval, s_time_of_day = None, s_enabled = True\<rparr>
                 | Inr daily \<Rightarrow>
                     (case parse_daily (ce_int env) daily of
                        Inl e \<Rightarrow> Inl e
                      | Inr tod \<Rightarrow>
                          Schedule_post_init \<lparr>s_job_id = j_id job, s_schedule_type = DAILY, s_id = ce_schedule_id env,
                            s_interval_seconds = None, s_time_of_day = Some tod, s_enabled = True\<rparr>)) of
             Inl e \<Rightarrow> Done (Inl e) s
           | Inr sch \<Rightarrow> in_session (ce_error env) (schedule_add sch) (\<lambda>_. 0) s))"

definition cli_show :: "TaskRegistry \<Rightarrow> (pystr \<times> Job) list \<Rightarrow> pystr \<Rightarrow> local \<Rightarrow> (local, int) progress" where
  "cli_show reg jobs name s =
     (case map_of jobs name of
        None \<Rightarrow> Done (Inr 1) s
      | Some job \<Rightarrow> (case registry_get (j_handler job) reg of Inl e \<Rightarrow> Done (Inl e) s | Inr h \<Rightarrow> Done (Inr 0) s))"

definition cli_run ::
  "(pyfloat \<Rightarrow> pystr) \<Rightarrow> TaskRegistry \<Rightarrow> cli_env \<Rightarrow> (pystr \<times> Job) list \<Rightarrow> pystr \<Rightarrow> local \<Rightarrow> (local, int) progress" where
  "cli_run fmt reg env jobs name s =
     (case map_of jobs name of
        None \<Rightarrow> Done (Inr 1) s
      | Some job \<Rightarrow>
          (case run_local fmt reg (ce_attempt env) job 1 None s of
             Waiting s1 \<Rightarrow> Waiting s1
           | Done (Inl e) s1 \<Rightarrow> Done (Inl e) s1
           | Done (Inr res) s1 \<Rightarrow> finish_run env (ar_execution res) s1))"

definition cli_cancel :: "cli_env \<Rightarrow> (pystr \<times> Job) list \<Rightarrow> pystr \<Rightarrow> local \<Rightarrow> (local, int) progress" where
  "cli_cancel env jobs name s =
     (case map_of jobs name of
        None \<Rightarrow> Done (Inr 1) s
      | Some job \<Rightarrow>
          (case cancel_before_start job (ce_fresh_run_id env) (ce_now env) of
             Inl e \<Rightarrow> Done (Inl e) s
           | Inr x \<Rightarrow>
               (case persist_execution (ce_persist_error env) x s of
                  (Inl e, s1) \<Rightarrow> Done (Inl e) s1
                | (Inr _, s1) \<Rightarrow> Done (Inr 0) s1)))"

definition cli_command ::
  "(pyfloat \<Rightarrow> pystr) \<Rightarrow> TaskRegistry \<Rightarrow> cli_env \<Rightarrow> (pystr \<times> Job) list \<Rightarrow> command \<Rightarrow> local \<Rightarrow> (local, int) progress" where
  "cli_command fmt reg env jobs cmd s =
     (case cmd of
        CmdList \<Rightarrow> Done (Inr 0) s
      | CmdHistory name st page page_size \<Rightarrow> cli_history env jobs name st page page_size s
      | CmdLogs run_id attempt \<Rightarrow> cli_logs env run_id attempt s
      | CmdRecover \<Rightarrow> cli_recover env s
      | CmdCancelRun run_id \<Rightarrow> cli_cancel_run env run_id s
      | CmdResume run_id \<Rightarrow> cli_resume fmt reg env jobs run_id s
      | CmdSchedule name rule \<Rightarrow> cli_schedule env jobs name rule s
      | CmdShow name \<Rightarrow> cli_show reg jobs name s
      | CmdRun name \<Rightarrow> cli_run fmt reg env jobs name s
      | CmdCancel name \<Rightarrow> cli_cancel env jobs name s)"

definition cli_main :: "(pyfloat \<Rightarrow> pystr) \<Rightarrow> TaskRegistry \<Rightarrow> cli_env \<Rightarrow> command \<Rightarrow> local \<Rightarrow> (local, int) progress" where
  "cli_main fmt reg env cmd s =
     (case session_scope (ce_sync_error env) (sync_jobs_to_db (ce_ids env) (ce_now env) reg) (lo_db s) of
        (Inl e, d) \<Rightarrow> Done (Inl e) (s\<lparr>lo_db := d\<rparr>)
      | (Inr jobs, d) \<Rightarrow> cli_command fmt reg env jobs cmd (s\<lparr>lo_db := d\<rparr>))"

section \<open>Invariants\<close>

lemma parse_daily_bounds: "parse_daily f v = Inr t \<Longrightarrow> 0 \<le> t \<and> t < us_per_day"
  by (auto simp: parse_daily_def split: sum.splits prod.splits if_splits)

lemma schedule_post_init_valid:
  "Schedule_post_init s = Inr s' \<Longrightarrow> (\<forall>t. s_time_of_day s = Some t \<longrightarrow> 0 \<le> t \<and> t < us_per_day) \<Longrightarrow> valid_schedule s'"
  by (auto simp: valid_schedule_def Schedule_post_init_def split: if_splits option.splits ScheduleType.splits)

context db_invariant
begin

lemma read_txn_keeps [intro]: "keeps I (read_txn f)"
  by (auto simp: keeps_def read_txn_def split: sum.splits)

lemma in_session_keeps: "keeps I t \<Longrightarrow> I (lo_db s) \<Longrightarrow> I (lo_db (state_of (in_session f t c s)))"
  using session_scope_keeps [of I t "lo_db s" f]
  by (auto simp: in_session_def split: prod.splits sum.splits)

lemma persist_execution_keeps: "I (lo_db s) \<Longrightarrow> I (lo_db (snd (persist_execution f x s)))"
  using session_scope_keeps [OF upsert_with_logs_keeps, of "lo_db s" f x]
  by (auto simp: persist_execution_def split: prod.splits) (metis snd_conv)

lemma finish_run_keeps: "I (lo_db s) \<Longrightarrow> I (lo_db (state_of (finish_run env x s)))"
  using persist_execution_keeps [of s "ce_persist_error env" x]
  by (auto simp: finish_run_def split: prod.splits sum.splits)

lemma cli_run_local_keeps:
  assumes polls: "polls_keep I (ce_attempt env)" and I: "I (lo_db s)"
  shows "I (lo_db (state_of (case run_local fmt reg (ce_attempt env) job n rid s of
      Waiting s1 \<Rightarrow> Waiting s1 | Done (Inl e) s1 \<Rightarrow> Done (Inl e) s1 | Done (Inr res) s1 \<Rightarrow> finish_run env (ar_execution res) s1)))"
proof -
  have "I (lo_db (state_of (run_local fmt reg (ce_attempt env) job n rid s)))"
    by (rule run_local_preserves) (use polls I in \<open>auto simp: polls_keep_def\<close>)
  then show ?thesis by (auto simp: finish_run_keeps split: progress.splits sum.splits)
qed

lemma cli_command_keeps:
  assumes polls: "polls_keep I (ce_attempt env)" and I: "I (lo_db s)"
  shows "I (lo_db (state_of (cli_command fmt reg env jobs cmd s)))"
proof (cases cmd)
  case (CmdHistory n st page size)
  with I show ?thesis
    by (auto simp: cli_command_def cli_history_def intro!: in_session_keeps split: option.splits)
next
  case (CmdResume r)
  with I cli_run_local_keeps [OF polls I, of fmt reg] show ?thesis
    by (auto simp: cli_command_def cli_resume_def Let_def split: prod.splits sum.splits option.splits)
next
  case (CmdSchedule n rule)
  with I show ?thesis
    by (auto simp: cli_command_def cli_schedule_def intro!: in_session_keeps schedule_add_keeps
        dest!: schedule_post_init_valid dest: parse_daily_bounds split: option.splits sum.splits)
next
  case (CmdCancel n)
  with I persist_execution_keeps [OF I, of "ce_persist_error env"] show ?thesis
    by (auto simp: cli_command_def cli_cancel_def split: option.splits sum.splits prod.splits) (metis snd_conv)+
next
  case (CmdRun n)
  with I cli_run_local_keeps [OF polls I, of fmt reg] show ?thesis
    by (auto simp: cli_command_def cli_run_def split: option.splits)
qed (use I in \<open>auto simp: cli_command_def cli_logs_def cli_recover_def cli_cancel_run_def cli_show_def
      intro!: in_session_keeps recover_interrupted_keeps request_cancel_keeps split: option.splits sum.splits\<close>)

lemma cli_main_keeps:
  assumes "sound_registry reg" "positive_timeouts reg" "I (lo_db s)"
    and "polls_keep I (ce_attempt env)"
  shows "I (lo_db (state_of (cli_main fmt reg env cmd s)))"
proof -
  obtain r d where sync: "session_scope (ce_sync_error env) (sync_jobs_to_db (ce_ids env) (ce_now env) reg) (lo_db s) = (r, d)" by force
  then have "I d"
    using session_scope_keeps [OF sync_jobs_keeps [OF assms(1,2)] assms(3), of "ce_sync_error env" "ce_ids env" "ce_now env"] by simp
  then show ?thesis
    using cli_command_keeps [OF assms(4), of "s\<lparr>lo_db := d\<rparr>"] by (auto simp: cli_main_def sync split: sum.splits)
qed

end

section \<open>What a command records\<close>

lemma persist_execution_row:
  assumes "persist_execution f x s = (Inr u, s')"
  shows "\<exists>y. get_attempt (x_run_id x) (x_attempt x) (lo_db s') = Some y \<and> x_status y = x_status x \<and> x_next_retry_at y = x_next_retry_at x"
  using assms by (auto simp: persist_execution_def session_scope_Inr split: prod.splits dest!: upsert_with_logs_row)

lemma finish_run_row:
  assumes "finish_run env x s = Done (Inr code) s'" and "wf_db (lo_db s)" and "x_next_retry_at x = None"
  shows "code = (if x_status x = SUCCESS then 0 else 1)"
    and "\<exists>y. get_attempt (x_run_id x) (x_attempt x) (lo_db s') = Some y \<and> x_status y = x_status x"
    and "\<forall>now limit. (x_run_id x, x_attempt x) \<notin> (\<lambda>y. (x_run_id y, x_attempt y)) ` set (list_due_retries now limit (lo_db s'))"
proof -
  from assms(1) obtain u where p: "persist_execution (ce_persist_error env) x s = (Inr u, s')"
    and c: "code = (if x_status x = SUCCESS then 0 else 1)"
    by (auto simp: finish_run_def split: prod.splits sum.splits)
  from persist_execution_row [OF p] obtain y where y: "get_attempt (x_run_id x) (x_attempt x) (lo_db s') = Some y"
    "x_status y = x_status x" "x_next_retry_at y = None" using assms(3) by auto
  have "wf_db (lo_db s')" using wf.persist_execution_keeps [OF assms(2), of "ce_persist_error env" x] p by simp
  note due = due_has_retry_time [OF this y(1,3)]
  show "code = (if x_status x = SUCCESS then 0 else 1)" by (fact c)
  show "\<exists>y. get_attempt (x_run_id x) (x_attempt x) (lo_db s') = Some y \<and> x_status y = x_status x" using y by blast
  show "\<forall>now limit. (x_run_id x, x_attempt x) \<notin> (\<lambda>y. (x_run_id y, x_attempt y)) ` set (list_due_retries now limit (lo_db s'))"
    using due by (auto simp del: prod.inject) metis
qed

text \<open>C19: \<^verbatim>\<open>run\<close> on a known job that ends normally leaves a row of attempt 1 of the new run behind, with a final status or
  RETRYING, and exits with 0 exactly when the status is SUCCESS. The row is never among the retries that are due: nobody
  schedules the next attempt, so a failed attempt that the retry policy would repeat is left as RETRYING until a recovery.\<close>

theorem cli_run_recorded:
  assumes "wf_db (lo_db s)" and "polls_keep wf_db (ce_attempt env)" and "map_of jobs name = Some job"
    and "cli_run fmt reg env jobs name s = Done (Inr code) s'"
  shows "\<exists>y. get_attempt (e_fresh_run_id (ce_attempt env)) 1 (lo_db s') = Some y
      \<and> x_status y \<in> {SUCCESS, CANCELED, FAILED, RETRYING} \<and> (code = 0 \<longleftrightarrow> x_status y = SUCCESS)
      \<and> (\<forall>now limit. (e_fresh_run_id (ce_attempt env), 1)
          \<notin> (\<lambda>y. (x_run_id y, x_attempt y)) ` set (list_due_retries now limit (lo_db s')))"
proof -
  from assms(3,4) obtain res s1 where run: "run_local fmt reg (ce_attempt env) job 1 None s = Done (Inr res) s1"
    and fin: "finish_run env (ar_execution res) s1 = Done (Inr code) s'"
    by (auto simp: cli_run_def split: progress.splits sum.splits)
  have "wf_db (lo_db s1)"
    using run_local_preserves [of "ce_attempt env" wf_db s fmt reg job 1 None] assms(1,2) run by (auto simp: polls_keep_def)
  moreover obtain h out where res: "res = attempt_result job h (ce_attempt env) 1 None out" using run_local_Done [OF run] by blast
  ultimately show "\<exists>y. get_attempt (e_fresh_run_id (ce_attempt env)) 1 (lo_db s') = Some y
      \<and> x_status y \<in> {SUCCESS, CANCELED, FAILED, RETRYING} \<and> (code = 0 \<longleftrightarrow> x_status y = SUCCESS)
      \<and> (\<forall>now limit. (e_fresh_run_id (ce_attempt env), 1)
          \<notin> (\<lambda>y. (x_run_id y, x_attempt y)) ` set (list_due_retries now limit (lo_db s')))"
    using finish_run_row [OF fin] outcome_status_cases(1) [of "resolve_retry_policy job h" 1 out] by auto
qed

text \<open>The environment of a command whose handler fails.\<close>

definition sample_cli_env :: cli_env where
  "sample_cli_env = \<lparr>ce_ids = (\<lambda>n. n), ce_now = utc 0, ce_clock = (\<lambda>x. utc 0), ce_schedule_id = lit ''sch_c'',
     ce_fresh_run_id = lit ''run_c'', ce_int = (\<lambda>v. Inl (ValueError v)), ce_sync_error = None, ce_error = None,
     ce_persist_error = None, ce_attempt = failing_env\<rparr>"

lemma sample_persist:
  "persist_execution None (ar_execution sample_result) sample_local =
    (Inr (), sample_local\<lparr>lo_db := demo_db\<lparr>t_executions := [execution_to_record 1 (ar_execution sample_result)], exec_seq := 2\<rparr>\<rparr>)"
  by (simp add: persist_execution_def sample_local_def drain_logs_def buffered_def upsert_with_logs_def session_scope_def
      exec_upsert_def exec_add_def get_attempt_def exec_find_def Let_def)

lemma sample_cli_run:
  "cli_run (\<lambda>x. []) demo_registry sample_cli_env [(lit ''demo'', demo_job)] (lit ''demo'') sample_local =
     Done (Inr 1) (snd (persist_execution None (ar_execution sample_result) sample_local))"
  by (simp add: cli_run_def sample_cli_env_def sample_run_local finish_run_def sample_persist sample_status del: attempt_result_sel)

theorem cli_run_recorded_witness:
  "\<exists>y s'. cli_run (\<lambda>x. []) demo_registry sample_cli_env [(lit ''demo'', demo_job)] (lit ''demo'') sample_local = Done (Inr 1) s'
    \<and> get_attempt (lit ''run_1'') 1 (lo_db s') = Some y \<and> x_status y \<noteq> SUCCESS
    \<and> (lit ''run_1'', 1) \<notin> (\<lambda>y. (x_run_id y, x_attempt y)) ` set (list_due_retries (utc 100) 5 (lo_db s'))"
proof -
  have "polls_keep wf_db (ce_attempt sample_cli_env)" "e_fresh_run_id (ce_attempt sample_cli_env) = lit ''run_1''"
    by (auto simp: polls_keep_def sample_cli_env_def failing_env_def)
  then show ?thesis
    using cli_run_recorded [OF _ _ _ sample_cli_run, of demo_job] sample_cli_run by (fastforce simp: sample_local_def)
qed

end
