(* ===== verification/Metrics.thy ===== *)
theory Metrics
  imports Task_Queue Executor
begin

text \<open>
  The metrics snapshot (\<^verbatim>\<open>metrics.py\<close>). A dictionary with a key for
  every \<^verbatim>\<open>JobStatus\<close> is a function of the status; the other dictionaries are association lists. Durations, their sums and the
  figures derived from them are rounded to a double at every operation, as Python does (\<open>Rounding\<close>); the sum adds the durations in the order of the rows.
\<close>

section \<open>The snapshot\<close>

record JobMetrics =
  jm_job :: pystr
  jm_status_counts :: "JobStatus \<Rightarrow> int"
  jm_retry_attempts :: int
  jm_duration_count :: int
  jm_duration_sum :: pyfloat
  jm_duration_max :: pyfloat

definition success_count :: "JobMetrics \<Rightarrow> int" where
  "success_count m = jm_status_counts m SUCCESS"

definition failed_count :: "JobMetrics \<Rightarrow> int" where
  "failed_count m = jm_status_counts m FAILED"

definition success_rate :: "JobMetrics \<Rightarrow> pyfloat option" where
  "success_rate m =
     (let finished = success_count m + failed_count m
      in if finished \<noteq> 0 then Some (float_round (of_int (success_count m) / of_int finished)) else None)"

definition failure_rate :: "JobMetrics \<Rightarrow> pyfloat option" where
  "failure_rate m =
     (let finished = success_count m + failed_count m
      in if finished \<noteq> 0 then Some (float_round (of_int (failed_count m) / of_int finished)) else None)"

definition avg_duration_seconds :: "JobMetrics \<Rightarrow> pyfloat option" where
  "avg_duration_seconds m =
     (if jm_duration_count m \<noteq> 0 then Some (float_round (jm_duration_sum m / float_round (of_int (jm_duration_count m)))) else None)"

record MetricsSnapshot =
  ms_generated_at :: datetime
  ms_window :: "int option"
  ms_jobs :: "JobMetrics list"
  ms_queue_depth :: "int option"
  ms_queue_pending :: "int option"

definition ms_get :: "pystr \<Rightarrow> MetricsSnapshot \<Rightarrow> JobMetrics option" where
  "ms_get job s = find (\<lambda>j. jm_job j = job) (ms_jobs s)"

text \<open>The queue is given with its state; reading it changes nothing, and an exception of either read gives two \<^verbatim>\<open>None\<close>.\<close>

definition read_queue_stats :: "('q TaskQueue \<times> 'q) option \<Rightarrow> int option \<times> int option" where
  "read_queue_stats queue =
     (case queue of
        None \<Rightarrow> (None, None)
      | Some (Q, q) \<Rightarrow>
          (case tq_depth Q q of
             Inl _ \<Rightarrow> (None, None)
           | Inr depth \<Rightarrow> (case tq_pending_count Q q of Inl _ \<Rightarrow> (None, None) | Inr pending \<Rightarrow> (Some depth, Some pending))))"

fun fill_statuses ::
  "(pystr \<times> JobStatus \<times> int) list \<Rightarrow> (pystr \<times> (JobStatus \<Rightarrow> int)) list \<Rightarrow> (pystr \<times> (JobStatus \<Rightarrow> int)) list" where
  "fill_statuses [] statuses = statuses"
| "fill_statuses ((job, st, n) # rows) statuses =
     fill_statuses rows (AList.update job ((dict_get job (\<lambda>_. 0) statuses)(st := n)) statuses)"

record duration_acc =
  da_count :: "(pystr \<times> int) list"
  da_sum :: "(pystr \<times> pyfloat) list"
  da_max :: "(pystr \<times> pyfloat) list"

definition add_duration :: "pystr \<times> pyfloat \<Rightarrow> duration_acc \<Rightarrow> duration_acc" where
  "add_duration = (\<lambda>(job, seconds) a.
     \<lparr>da_count = AList.update job (dict_get job 0 (da_count a) + 1) (da_count a),
      da_sum = AList.update job (float_round (dict_get job 0 (da_sum a) + seconds)) (da_sum a),
      da_max = AList.update job (max (dict_get job seconds (da_max a)) seconds) (da_max a)\<rparr>)"

definition sum_durations :: "(pystr \<times> pyfloat) list \<Rightarrow> duration_acc" where
  "sum_durations rows = fold add_duration rows \<lparr>da_count = [], da_sum = [], da_max = []\<rparr>"

definition metrics_of ::
  "(pystr \<times> (JobStatus \<Rightarrow> int)) list \<Rightarrow> (pystr \<times> int) list \<Rightarrow> duration_acc \<Rightarrow> pystr \<Rightarrow> JobMetrics" where
  "metrics_of statuses retries durations name =
     \<lparr>jm_job = name, jm_status_counts = dict_get name (\<lambda>_. 0) statuses, jm_retry_attempts = dict_get name 0 retries,
      jm_duration_count = dict_get name 0 (da_count durations), jm_duration_sum = dict_get name 0 (da_sum durations),
      jm_duration_max = dict_get name 0 (da_max durations)\<rparr>"

definition job_metrics :: "datetime option \<Rightarrow> db \<Rightarrow> JobMetrics list" where
  "job_metrics since d =
     (let statuses = fill_statuses (count_by_job_and_status since d) [];
          retries = count_retry_attempts_by_job since d;
          durations = sum_durations (list_durations since d);
          names = sort (remdups (map fst statuses @ map fst retries @ map fst (da_count durations)))
      in map (metrics_of statuses retries durations) names)"

definition collect_metrics ::
  "('q TaskQueue \<times> 'q) option \<Rightarrow> int option \<Rightarrow> datetime \<Rightarrow> db \<Rightarrow> exn + MetricsSnapshot" where
  "collect_metrics queue window generated_at d =
     (if (case window of None \<Rightarrow> False | Some w \<Rightarrow> w \<le> 0) then Inl (ValueError (lit ''window must be > 0''))
      else
        case (case window of
                None \<Rightarrow> Inr None
              | Some w \<Rightarrow> (case add_timedelta generated_at (- w) of Inl e \<Rightarrow> Inl e | Inr t \<Rightarrow> Inr (Some t))) of
          Inl e \<Rightarrow> Inl e
        | Inr since \<Rightarrow>
            (let (depth, pending) = read_queue_stats queue
             in Inr \<lparr>ms_generated_at = generated_at, ms_window = window, ms_jobs = job_metrics since d,
                     ms_queue_depth = depth, ms_queue_pending = pending\<rparr>))"

section \<open>What the snapshot counts\<close>

text \<open>The attempts of a job in the window: its rows of the execution table, in their order.\<close>

definition in_window :: "datetime option \<Rightarrow> ExecutionRecord \<Rightarrow> bool" where
  "in_window since r \<longleftrightarrow> (\<forall>s. since = Some s \<longrightarrow> (\<exists>t. er_started_at r = Some t \<and> instant s \<le> instant t))"

definition attempts_of :: "datetime option \<Rightarrow> pystr \<Rightarrow> db \<Rightarrow> ExecutionRecord list" where
  "attempts_of since name d =
     [r. r \<leftarrow> t_executions d, in_window since r, j \<leftarrow> t_jobs d, jr_id j = er_job_id r \<and> jr_name j = name]"

text \<open>The exact durations in seconds of its finished attempts: those that ended in SUCCESS or FAILED, with both times.\<close>

definition finished_duration :: "ExecutionRecord \<Rightarrow> rat option" where
  "finished_duration r =
     (case (er_started_at r, er_finished_at r) of
        (Some s, Some f) \<Rightarrow>
          if er_status r = SUCCESS \<or> er_status r = FAILED then Some (of_int (instant f - instant s) / 10 ^ 6) else None
      | _ \<Rightarrow> None)"

definition exact_durations :: "datetime option \<Rightarrow> pystr \<Rightarrow> db \<Rightarrow> rat list" where
  "exact_durations since name d = List.map_filter finished_duration (attempts_of since name d)"

definition durations_of :: "datetime option \<Rightarrow> pystr \<Rightarrow> db \<Rightarrow> pyfloat list" where
  "durations_of since name d = map float_round (exact_durations since name d)"

lemma in_window_started: "in_window since r = started_since since r"
  by (auto simp: in_window_def started_since_def split: option.splits)

lemma attempts_of_joined:
  "attempts_of since name d = map snd (filter (\<lambda>(n, r). n = name \<and> started_since since r) (joined d))"
proof -
  have "concat (map (\<lambda>j. if jr_id j = er_job_id r \<and> jr_name j = name then [r] else []) js)
      = map snd (filter (\<lambda>(n, r). n = name) (map (\<lambda>j. (jr_name j, r)) (filter (\<lambda>j. jr_id j = er_job_id r) js)))"
    for r and js :: "JobRecord list"
    by (induction js) auto
  then show ?thesis
    by (simp add: attempts_of_def joined_def in_window_started filter_concat map_concat comp_def)
      (intro arg_cong [of _ _ concat] map_cong refl, auto simp: filter_map comp_def)
qed

lemma list_durations_of:
  "map snd (filter (\<lambda>(n, t). n = name) (list_durations since d)) = durations_of since name d"
proof -
  let ?row = "\<lambda>(n, r). case (er_started_at r, er_finished_at r) of
         (Some s, Some f) \<Rightarrow>
           if er_status r \<in> {SUCCESS, FAILED} \<and> started_since since r
           then [(n, float_round (of_int (instant f - instant s) / 1000000))] else []
       | _ \<Rightarrow> []"
  have row: "map snd (filter (\<lambda>(n, t). n = name) (?row (n, r))) =
      (if n = name \<and> started_since since r then map float_round (case finished_duration r of None \<Rightarrow> [] | Some t \<Rightarrow> [t]) else [])" for n r
    by (auto simp: finished_duration_def split: option.splits)
  have "map snd (filter (\<lambda>(n, t). n = name) (concat (map ?row ps)))
     = map float_round (List.map_filter finished_duration (map snd (filter (\<lambda>(n, r). n = name \<and> started_since since r) ps)))" for ps
  proof (induction ps)
    case (Cons p ps)
    obtain n r where p: "p = (n, r)" by fastforce
    show ?case
      using Cons row [of n r] by (auto simp: p split: option.splits if_splits)
  qed simp
  then show ?thesis
    by (simp add: list_durations_def durations_of_def exact_durations_def attempts_of_joined)
qed

lemma fill_statuses_get:
  "distinct (map (\<lambda>(n, s, c). (n, s)) rows) \<Longrightarrow>
     dict_get name (\<lambda>_. 0) (fill_statuses rows m) st
       = (case find (\<lambda>(n, s, c). n = name \<and> s = st) rows of
            None \<Rightarrow> dict_get name (\<lambda>_. 0) m st | Some (n, s, c) \<Rightarrow> c)"
proof (induction rows m rule: fill_statuses.induct)
  case (2 job s n rows m)
  then have "find (\<lambda>(n, t, c). n = job \<and> t = s) rows = None"
    by (auto simp: find_None image_iff)
  with 2 show ?case
    by (auto simp: dict_get_update split: option.splits)
qed simp

lemma fill_statuses_dom: "fst ` set (fill_statuses rows m) = fst ` set rows \<union> fst ` set m"
  by (induction rows m rule: fill_statuses.induct) auto

lemma count_rows_distinct:
  "distinct (map (\<lambda>(n, s, c). (n, s)) (count_by_job_and_status since d))"
  by (simp add: count_by_job_and_status_def Let_def comp_def case_prod_unfold)

lemma count_rows_find:
  "(case find (\<lambda>(n, s, c). n = name \<and> s = st) (count_by_job_and_status since d) of None \<Rightarrow> 0 | Some (n, s, c) \<Rightarrow> c)
     = int (length (filter (\<lambda>r. er_status r = st) (attempts_of since name d)))"
proof -
  let ?rows = "map (\<lambda>(n, r). (n, er_status r)) (filter (\<lambda>(n, r). started_since since r) (joined d))"
  have cnt: "count_list ?rows (name, st) = length (filter (\<lambda>r. er_status r = st) (attempts_of since name d))"
    by (simp add: count_list_filter attempts_of_joined filter_map comp_def case_prod_unfold conj_ac)
  let ?es = "count_by_job_and_status since d"
  have mem: "(n, s, c) \<in> set ?es \<longleftrightarrow> (n, s) \<in> set ?rows \<and> c = int (count_list ?rows (n, s))" for n s c
    by (auto simp: count_by_job_and_status_def Let_def)
  show ?thesis
  proof (cases "find (\<lambda>(n, s, c). n = name \<and> s = st) ?es")
    case None
    then have "(name, st) \<notin> set ?rows"
      using mem [of name st] by (fastforce simp: find_None)
    with None cnt show ?thesis by (simp add: count_notin)
  next
    case (Some e)
    with find_Some_in [OF Some] mem cnt show ?thesis by (cases e) auto
  qed
qed

lemma count_rows_names: "fst ` set (count_by_job_and_status since d) = {n. attempts_of since n d \<noteq> []}"
  by (force simp: count_by_job_and_status_def Let_def attempts_of_joined filter_empty_conv image_iff)

lemma retry_rows:
  "dict_get name 0 (count_retry_attempts_by_job since d)
     = int (length (filter (\<lambda>r. er_attempt r > 1) (attempts_of since name d)))"
proof -
  let ?names = "map fst (filter (\<lambda>(n, r). er_attempt r > 1 \<and> started_since since r) (joined d))"
  have cnt: "count_list ?names name = length (filter (\<lambda>r. er_attempt r > 1) (attempts_of since name d))"
    by (simp add: count_list_filter attempts_of_joined filter_map comp_def case_prod_unfold conj_ac)
  show ?thesis
    unfolding cnt [symmetric] by (simp add: count_retry_attempts_by_job_def Let_def dict_get_def map_of_tabulate count_notin)
qed

lemma retry_names: "fst ` set (count_retry_attempts_by_job since d) \<subseteq> {n. attempts_of since n d \<noteq> []}"
  by (force simp: count_retry_attempts_by_job_def Let_def attempts_of_joined filter_empty_conv)

lemma add_duration_sel:
  "da_count (add_duration (n, t) a) = AList.update n (dict_get n 0 (da_count a) + 1) (da_count a)"
  "da_sum (add_duration (n, t) a) = AList.update n (float_round (dict_get n 0 (da_sum a) + t)) (da_sum a)"
  "da_max (add_duration (n, t) a) = AList.update n (max (dict_get n t (da_max a)) t) (da_max a)"
  by (simp_all add: add_duration_def)

lemma fold_duration_count:
  "dict_get name 0 (da_count (fold add_duration rows a)) = dict_get name 0 (da_count a) + int (length (filter (\<lambda>(n, t). n = name) rows))"
  by (induction rows arbitrary: a) (auto simp: add_duration_sel dict_get_update)

text \<open>The sum of floats, from left to right.\<close>

definition float_sum :: "pyfloat \<Rightarrow> pyfloat list \<Rightarrow> pyfloat" where
  "float_sum = foldl (\<lambda>total t. float_round (total + t))"

lemma fold_duration_sum:
  "dict_get name 0 (da_sum (fold add_duration rows a)) = float_sum (dict_get name 0 (da_sum a)) (map snd (filter (\<lambda>(n, t). n = name) rows))"
  by (induction rows arbitrary: a) (auto simp: add_duration_sel dict_get_update float_sum_def)

lemma fold_duration_max:
  "map_of (da_max (fold add_duration rows a)) name =
     (case map snd (filter (\<lambda>(n, t). n = name) rows) of
        [] \<Rightarrow> map_of (da_max a) name
      | t # ts \<Rightarrow> Some (fold max (t # ts) (dict_get name t (da_max a))))"
proof (induction rows arbitrary: a)
  case (Cons p rows)
  obtain n t where p: "p = (n, t)" by force
  show ?case
    by (cases "n = name") (auto simp: p Cons.IH add_duration_sel dict_get_update update_conv' max.commute split: list.splits)
qed simp

lemma fold_max_Max: "fold max ts t = Max (set (t # ts))" for t :: pyfloat
  by (rule Max.set_eq_fold [symmetric])

lemma fold_duration_dom: "fst ` set (da_count (fold add_duration rows a)) = fst ` set rows \<union> fst ` set (da_count a)"
proof (induction rows arbitrary: a)
  case (Cons p rows)
  then show ?case by (cases p) (simp add: add_duration_sel)
qed simp

lemma sum_durations_get:
  "dict_get name 0 (da_count (sum_durations (list_durations since d))) = int (length (durations_of since name d))"
  "dict_get name 0 (da_sum (sum_durations (list_durations since d))) = float_sum 0 (durations_of since name d)"
  "dict_get name 0 (da_max (sum_durations (list_durations since d)))
     = (if durations_of since name d = [] then 0 else Max (set (durations_of since name d)))"
proof -
  show "dict_get name 0 (da_count (sum_durations (list_durations since d))) = int (length (durations_of since name d))"
    "dict_get name 0 (da_sum (sum_durations (list_durations since d))) = float_sum 0 (durations_of since name d)"
    by (simp_all add: sum_durations_def fold_duration_count fold_duration_sum flip: list_durations_of)
  have "map_of (da_max (sum_durations (list_durations since d))) name =
      (case durations_of since name d of [] \<Rightarrow> None | t # ts \<Rightarrow> Some (fold max (t # ts) t))"
    by (simp add: sum_durations_def fold_duration_max list_durations_of cong: list.case_cong)
  then show "dict_get name 0 (da_max (sum_durations (list_durations since d)))
     = (if durations_of since name d = [] then 0 else Max (set (durations_of since name d)))"
    by (cases "durations_of since name d") (simp_all add: dict_get_def fold_max_Max del: fold_simps set_simps)
qed

lemma duration_names: "fst ` set (da_count (sum_durations (list_durations since d))) \<subseteq> {n. attempts_of since n d \<noteq> []}"
proof
  fix n
  assume "n \<in> fst ` set (da_count (sum_durations (list_durations since d)))"
  then obtain t where "(n, t) \<in> set (list_durations since d)"
    by (auto simp: sum_durations_def fold_duration_dom)
  then obtain r where "(n, r) \<in> set (joined d)" "started_since since r"
    by (auto simp: list_durations_def split: option.splits if_splits)
  then show "n \<in> {n. attempts_of since n d \<noteq> []}"
    by (auto simp: attempts_of_joined filter_empty_conv)
qed

text \<open>The entry of a job, counted directly from the rows.\<close>

definition counted :: "datetime option \<Rightarrow> db \<Rightarrow> JobMetrics \<Rightarrow> bool" where
  "counted since d m \<longleftrightarrow>
     (\<forall>st. jm_status_counts m st = int (length (filter (\<lambda>r. er_status r = st) (attempts_of since (jm_job m) d))))
     \<and> jm_retry_attempts m = int (length (filter (\<lambda>r. er_attempt r > 1) (attempts_of since (jm_job m) d)))
     \<and> jm_duration_count m = int (length (durations_of since (jm_job m) d))
     \<and> jm_duration_sum m = float_sum 0 (durations_of since (jm_job m) d)
     \<and> jm_duration_max m = (if durations_of since (jm_job m) d = [] then 0 else Max (set (durations_of since (jm_job m) d)))"

lemma job_metrics_counted: "m \<in> set (job_metrics since d) \<Longrightarrow> counted since d m"
proof -
  assume "m \<in> set (job_metrics since d)"
  then obtain n where m: "m = metrics_of (fill_statuses (count_by_job_and_status since d) []) (count_retry_attempts_by_job since d)
      (sum_durations (list_durations since d)) n"
    by (auto simp: job_metrics_def Let_def)
  show ?thesis
    unfolding counted_def m metrics_of_def
    using fill_statuses_get [OF count_rows_distinct [of since d], of n "[]"] count_rows_find [of n _ since d]
    by (simp add: retry_rows sum_durations_get cong: option.case_cong)
qed

lemma job_metrics_names:
  "set (map jm_job (job_metrics since d)) = {n. attempts_of since n d \<noteq> []}"
  "sorted (map jm_job (job_metrics since d))" "distinct (map jm_job (job_metrics since d))"
proof -
  have "map jm_job (map (metrics_of a b c) ns) = ns" for a b c ns
    by (induction ns) (simp_all add: metrics_of_def)
  then show "set (map jm_job (job_metrics since d)) = {n. attempts_of since n d \<noteq> []}"
    "sorted (map jm_job (job_metrics since d))" "distinct (map jm_job (job_metrics since d))"
    using retry_names [of since d] duration_names [of since d]
    by (auto simp: job_metrics_def Let_def fill_statuses_dom count_rows_names simp del: map_map)
qed

definition window_start :: "int option \<Rightarrow> datetime \<Rightarrow> datetime option" where
  "window_start window now = map_option (\<lambda>w. Datetime (wall now - w) (tzinfo now)) window"

lemma collect_metrics_jobs:
  "collect_metrics queue window now d = Inr snap \<Longrightarrow> ms_jobs snap = job_metrics (window_start window now) d"
  by (auto simp: collect_metrics_def window_start_def add_timedelta_def mk_datetime_def
      split: if_splits option.splits sum.splits prod.splits)

text \<open>
  C35: What a snapshot counts (\<^verbatim>\<open>collect_metrics\<close>). It lists, sorted and once each, exactly the jobs with an attempt in the
  window, and for each of them the number of attempts per status, of retries and of finished attempts, and the sum and the
  maximum of their durations, all counted directly from the rows of the window.
\<close>

theorem collect_metrics_counts:
  assumes "collect_metrics queue window now d = Inr snap"
  shows "set (map jm_job (ms_jobs snap)) = {n. attempts_of (window_start window now) n d \<noteq> []}
    \<and> sorted (map jm_job (ms_jobs snap)) \<and> distinct (map jm_job (ms_jobs snap))
    \<and> (\<forall>m \<in> set (ms_jobs snap). counted (window_start window now) d m)"
  using job_metrics_names job_metrics_counted by (simp only: collect_metrics_jobs [OF assms]) blast

lemma counted_nonneg: "counted since d m \<Longrightarrow> 0 \<le> success_count m \<and> 0 \<le> failed_count m"
  by (simp add: counted_def success_count_def failed_count_def)

lemma rate_bounds:
  assumes "0 \<le> a" and "0 \<le> b" and "a + b \<noteq> 0"
  shows "0 \<le> float_round (of_int a / of_int (a + b)) \<and> float_round (of_int a / of_int (a + b)) \<le> 1
    \<and> \<bar>float_round (of_int a / of_int (a + b)) - of_int a / of_int (a + b)\<bar> \<le> float_eps
    \<and> (float_round (of_int a / of_int (a + b)) = 0 \<longleftrightarrow> a = 0)
    \<and> (a + b < 2 ^ 53 \<longrightarrow> (float_round (of_int a / of_int (a + b)) = 1 \<longleftrightarrow> b = 0))"
proof -
  let ?x = "of_int a / of_int (a + b) :: rat"
  have ab: "(0 :: rat) < of_int (a + b)" using assms by simp
  have x: "0 \<le> ?x" "?x \<le> 1" using assms ab by (simp_all add: field_simps)
  have "\<bar>float_round ?x - ?x\<bar> \<le> float_eps * \<bar>?x\<bar>" by (rule float_round_error)
  also have "\<dots> \<le> float_eps" using mult_left_mono [OF x(2), of float_eps] x(1) by (simp only: abs_of_nonneg float_eps_bounds mult_1_right)
  finally have err: "\<bar>float_round ?x - ?x\<bar> \<le> float_eps" .
  have zero: "float_round ?x = 0 \<longleftrightarrow> a = 0"
  proof (cases "a = 0")
    case False
    then have "0 < ?x" using assms ab by (simp add: zero_less_divide_iff del: of_int_add)
    with float_round_pos [OF this] False show ?thesis by simp
  qed simp
  have "float_round ?x = 1 \<longleftrightarrow> b = 0" if "a + b < 2 ^ 53"
  proof (cases "b = 0")
    case True
    then show ?thesis using assms float_round_int [of 1] by simp
  next
    case False
    with float_round_less_1 [of a "a + b"] assms that show ?thesis by auto
  qed
  with err zero x show ?thesis using float_round_nonneg float_round_le_1 by blast
qed

text \<open>One more rounding of a value that is already off by the error of \<open>k\<close> roundings.\<close>

lemma round_compose:
  assumes "\<bar>x - y\<bar> \<le> ((1 + float_eps) ^ k - 1) * A" and "\<bar>y\<bar> \<le> A"
  shows "\<bar>float_round x - y\<bar> \<le> ((1 + float_eps) ^ (k + 1) - 1) * A"
proof -
  define c :: rat where "c = (1 + float_eps) ^ k"
  have "\<bar>x\<bar> \<le> c * A" using assms by (simp add: c_def algebra_simps)
  then have "float_eps * \<bar>x\<bar> \<le> float_eps * (c * A)" by (rule mult_left_mono) simp
  then have "\<bar>float_round x - y\<bar> \<le> float_eps * (c * A) + (c - 1) * A"
    using assms(1) float_round_error [of x] unfolding c_def by linarith
  also have "\<dots> = ((1 + float_eps) ^ (k + 1) - 1) * A" by (simp add: c_def algebra_simps)
  finally show ?thesis .
qed

lemma power_error_mono: "j \<le> k \<Longrightarrow> 0 \<le> A \<Longrightarrow> ((1 + float_eps) ^ j - 1) * A \<le> ((1 + float_eps) ^ k - 1) * (A :: rat)"
  by (intro mult_right_mono diff_right_mono power_increasing) auto

lemma float_sum_error:
  assumes "\<And>t. \<bar>g t - t\<bar> \<le> ((1 + float_eps) ^ j - 1) * \<bar>t\<bar>"
  shows "\<bar>float_sum 0 (map g ts) - sum_list ts\<bar> \<le> ((1 + float_eps) ^ (length ts + j) - 1) * sum_list (map abs ts)"
proof (induction ts rule: rev_induct)
  case Nil
  then show ?case by (simp add: float_sum_def)
next
  case (snoc t ts)
  let ?c = "(1 + float_eps) ^ (length ts + j) - 1 :: rat" and ?A = "sum_list (map abs ts)"
  have "\<bar>g t - t\<bar> \<le> ?c * \<bar>t\<bar>"
    using assms [of t] power_error_mono [of j "length ts + j" "\<bar>t\<bar>"] by linarith
  with snoc have "\<bar>float_sum 0 (map g ts) + g t - (sum_list ts + t)\<bar> \<le> ?c * (?A + \<bar>t\<bar>)"
    unfolding distrib_left by linarith
  moreover have "\<bar>sum_list ts + t\<bar> \<le> ?A + \<bar>t\<bar>" using sum_list_abs [of ts] by linarith
  ultimately have "\<bar>float_round (float_sum 0 (map g ts) + g t) - (sum_list ts + t)\<bar>
      \<le> ((1 + float_eps) ^ (length ts + j + 1) - 1) * (?A + \<bar>t\<bar>)"
    by (rule round_compose)
  then show ?case by (simp add: float_sum_def)
qed

lemma average_error:
  assumes "\<And>t. \<bar>g t - t\<bar> \<le> ((1 + float_eps) ^ j - 1) * \<bar>t\<bar>" and "0 < n" and "n = int (length ts)"
  shows "\<bar>float_round (float_sum 0 (map g ts) / of_int n) - sum_list ts / of_int n\<bar>
    \<le> ((1 + float_eps) ^ (length ts + j + 1) - 1) * (sum_list (map abs ts) / of_int n)"
proof (rule round_compose)
  have n: "(0 :: rat) < of_int n" using assms(2) by simp
  have "\<bar>float_sum 0 (map g ts) / of_int n - sum_list ts / of_int n\<bar> = \<bar>float_sum 0 (map g ts) - sum_list ts\<bar> / of_int n"
    using n by (simp flip: diff_divide_distrib)
  also have "\<dots> \<le> ((1 + float_eps) ^ (length ts + j) - 1) * sum_list (map abs ts) / of_int n"
    using float_sum_error [of g j ts, OF assms(1)] n by (intro divide_right_mono) auto
  finally show "\<bar>float_sum 0 (map g ts) / of_int n - sum_list ts / of_int n\<bar>
      \<le> ((1 + float_eps) ^ (length ts + j) - 1) * (sum_list (map abs ts) / of_int n)" by simp
  show "\<bar>sum_list ts / of_int n\<bar> \<le> sum_list (map abs ts) / of_int n"
    using n sum_list_abs [of ts] by (simp add: divide_right_mono)
qed

lemma sum_list_le_Max: "ts \<noteq> [] \<Longrightarrow> sum_list ts \<le> of_int (int (length ts)) * Max (set ts)" for ts :: "pyfloat list"
  using sum_list_mono [of ts id "\<lambda>_. Max (set ts)"] by (simp add: sum_list_triv)

lemma average_le_max:
  assumes "ts \<noteq> []" and "\<forall>t \<in> set ts. 0 \<le> t"
  shows "float_round (float_sum 0 ts / of_int (int (length ts))) \<le> (1 + float_eps) ^ (length ts + 1) * Max (set ts)"
proof -
  let ?n = "of_int (int (length ts)) :: rat" and ?c = "(1 + float_eps) ^ (length ts + 1) :: rat"
  have n: "0 < ?n" using assms(1) by simp
  have abs: "map abs ts = ts" using assms(2) by (intro map_idI) auto
  have "\<bar>float_round (float_sum 0 (map (\<lambda>t. t) ts) / ?n) - sum_list ts / ?n\<bar> \<le> (?c - 1) * (sum_list ts / ?n)"
    using average_error [of "\<lambda>t. t" 0 "int (length ts)" ts] assms(1) abs by simp
  then have "float_round (float_sum 0 ts / ?n) \<le> ?c * (sum_list ts / ?n)" by (simp add: algebra_simps)
  also have "\<dots> \<le> ?c * Max (set ts)"
    using sum_list_le_Max [OF assms(1)] n by (intro mult_left_mono) (simp_all add: pos_divide_le_eq mult.commute)
  finally show ?thesis .
qed

text \<open>
  C36: The derived figures of a snapshot are accurate. With \<open>a\<close> attempts of the job in the window that ended in \<^verbatim>\<open>SUCCESS\<close> and \<open>b\<close> in \<^verbatim>\<open>FAILED\<close>, both
  rates are missing if there are none; otherwise they lie between 0 and 1, differ from \<open>a / (a + b)\<close> and \<open>b / (a + b)\<close> by at most \<open>float_eps\<close>, which is \<open>1 / 2 ^ 53\<close>, are 0 exactly if
  nothing succeeded or failed, and (for fewer than \<open>2 ^ 53\<close> attempts) 1 exactly if nothing failed or succeeded. The average duration is missing exactly if no
  attempt has a duration; otherwise it differs from the exact mean of the \<open>n\<close> durations by at most the error of \<open>n + 2\<close> roundings, and if no duration is
  negative it exceeds the maximum by at most the error of \<open>n + 1\<close> roundings.
\<close>

theorem metrics_rates_bounded:
  assumes "collect_metrics queue window now d = Inr snap" and "m \<in> set (ms_jobs snap)"
    and "attempts = attempts_of (window_start window now) (jm_job m) d" and "ds = exact_durations (window_start window now) (jm_job m) d"
    and "a = int (length (filter (\<lambda>r. er_status r = SUCCESS) attempts))" and "b = int (length (filter (\<lambda>r. er_status r = FAILED) attempts))"
  shows "(if a + b = 0 then success_rate m = None \<and> failure_rate m = None
      else \<exists>s f. success_rate m = Some s \<and> failure_rate m = Some f \<and> 0 \<le> s \<and> s \<le> 1 \<and> 0 \<le> f \<and> f \<le> 1
        \<and> \<bar>s - of_int a / of_int (a + b)\<bar> \<le> float_eps \<and> \<bar>f - of_int b / of_int (a + b)\<bar> \<le> float_eps
        \<and> (s = 0 \<longleftrightarrow> a = 0) \<and> (f = 0 \<longleftrightarrow> b = 0) \<and> (a + b < 2 ^ 53 \<longrightarrow> (s = 1 \<longleftrightarrow> b = 0) \<and> (f = 1 \<longleftrightarrow> a = 0)))
    \<and> (case avg_duration_seconds m of
         None \<Rightarrow> ds = []
       | Some v \<Rightarrow> ds \<noteq> [] \<and> (length ds < 2 ^ 53 \<longrightarrow>
           \<bar>v - sum_list ds / of_int (int (length ds))\<bar>
             \<le> ((1 + float_eps) ^ (length ds + 2) - 1) * (sum_list (map abs ds) / of_int (int (length ds)))
           \<and> ((\<forall>t \<in> set ds. 0 \<le> t) \<longrightarrow> v \<le> (1 + float_eps) ^ (length ds + 1) * jm_duration_max m)))"
proof
  have c: "counted (window_start window now) d m"
    using assms(1,2) job_metrics_counted by (simp add: collect_metrics_jobs [OF assms(1)])
  have ab: "success_count m = a" "failed_count m = b" "0 \<le> a" "0 \<le> b"
    using c assms(3,5,6) by (simp_all add: counted_def success_count_def failed_count_def)
  show "if a + b = 0 then success_rate m = None \<and> failure_rate m = None
      else \<exists>s f. success_rate m = Some s \<and> failure_rate m = Some f \<and> 0 \<le> s \<and> s \<le> 1 \<and> 0 \<le> f \<and> f \<le> 1
        \<and> \<bar>s - of_int a / of_int (a + b)\<bar> \<le> float_eps \<and> \<bar>f - of_int b / of_int (a + b)\<bar> \<le> float_eps
        \<and> (s = 0 \<longleftrightarrow> a = 0) \<and> (f = 0 \<longleftrightarrow> b = 0) \<and> (a + b < 2 ^ 53 \<longrightarrow> (s = 1 \<longleftrightarrow> b = 0) \<and> (f = 1 \<longleftrightarrow> a = 0))"
    using rate_bounds [OF ab(3,4)] rate_bounds [OF ab(4,3)]
    by (auto simp: success_rate_def failure_rate_def Let_def ab add.commute [of b a] simp del: of_int_add)
  let ?ts = "map float_round ds" and ?n = "int (length ds)"
  have dur: "jm_duration_count m = ?n" "jm_duration_sum m = float_sum 0 ?ts"
    "jm_duration_max m = (if ds = [] then 0 else Max (set ?ts))"
    using c assms(4) by (auto simp: counted_def durations_of_def)
  show "case avg_duration_seconds m of
         None \<Rightarrow> ds = []
       | Some v \<Rightarrow> ds \<noteq> [] \<and> (length ds < 2 ^ 53 \<longrightarrow>
           \<bar>v - sum_list ds / of_int (int (length ds))\<bar>
             \<le> ((1 + float_eps) ^ (length ds + 2) - 1) * (sum_list (map abs ds) / of_int (int (length ds)))
           \<and> ((\<forall>t \<in> set ds. 0 \<le> t) \<longrightarrow> v \<le> (1 + float_eps) ^ (length ds + 1) * jm_duration_max m))"
  proof (cases "ds = []")
    case False
    have n: "float_round (of_int ?n) = of_int ?n" if "length ds < 2 ^ 53"
      using that by (intro float_round_int) (simp add: less_2_cases flip: of_nat_less_iff)
    have one: "\<bar>float_round t - t\<bar> \<le> ((1 + float_eps) ^ 1 - 1) * \<bar>t\<bar>" for t
      using float_round_error [of t] by simp
    from average_error [of float_round 1 ?n ds, OF one] False
    have err: "\<bar>float_round (float_sum 0 ?ts / of_int ?n) - sum_list ds / of_int ?n\<bar>
        \<le> ((1 + float_eps) ^ (length ds + 2) - 1) * (sum_list (map abs ds) / of_int ?n)"
      by (simp add: numeral_2_eq_2)
    have "float_round (float_sum 0 ?ts / of_int ?n) \<le> (1 + float_eps) ^ (length ds + 1) * Max (set ?ts)" if "\<forall>t \<in> set ds. 0 \<le> t"
      using average_le_max [of ?ts] that False float_round_nonneg by simp
    with err n False show ?thesis by (simp add: avg_duration_seconds_def dur)
  qed (simp add: avg_duration_seconds_def dur)
qed

text \<open>The excess is real: the average of three times a tenth is above their maximum.\<close>

lemma average_above_maximum:
  "float_round (1 / 10) < float_round (float_sum 0 [float_round (1 / 10), float_round (1 / 10), float_round (1 / 10)] / 3)"
  by code_simp

text \<open>A database with a failed attempt of two seconds and its successful retry of one second.\<close>

definition sample_attempt :: "int \<Rightarrow> JobStatus \<Rightarrow> int \<Rightarrow> int \<Rightarrow> JobExecution" where
  "sample_attempt n st t0 t1 =
     \<lparr>x_job_id = lit ''job_a'', x_run_id = lit ''run_m'', x_status = st, x_attempt = n, x_started_at = Some (utc t0),
      x_finished_at = Some (utc t1), x_error_message = None, x_timeout_seconds = None, x_max_attempts = None,
      x_cancel_requested = False, x_next_retry_at = None\<rparr>"

definition metrics_db :: db where
  "metrics_db = demo_db\<lparr>t_executions := [execution_to_record 1 (sample_attempt 1 FAILED 0 2000000),
     execution_to_record 2 (sample_attempt 2 SUCCESS 3000000 4000000)]\<rparr>"

lemma metrics_db_joined:
  "joined metrics_db = map (\<lambda>r. (lit ''demo'', r)) (t_executions metrics_db)"
  by (simp add: joined_def metrics_db_def sample_attempt_def)

lemma metrics_db_collect:
  "\<exists>snap. collect_metrics (None :: (nat TaskQueue \<times> nat) option) None (utc 5000000) metrics_db = Inr snap
     \<and> ms_jobs snap = job_metrics None metrics_db"
  by (simp add: collect_metrics_def read_queue_stats_def)

lemma metrics_db_attempts: "attempts_of None (lit ''demo'') metrics_db = t_executions metrics_db"
  by (simp add: attempts_of_joined metrics_db_joined started_since_def) (simp add: metrics_db_def)

theorem collect_metrics_counts_witness:
  "\<exists>snap m. collect_metrics (None :: (nat TaskQueue \<times> nat) option) None (utc 5000000) metrics_db = Inr snap
     \<and> m \<in> set (ms_jobs snap) \<and> jm_job m = lit ''demo'' \<and> jm_status_counts m SUCCESS = 1 \<and> jm_status_counts m FAILED = 1
     \<and> jm_retry_attempts m = 1"
proof -
  obtain snap where snap: "collect_metrics (None :: (nat TaskQueue \<times> nat) option) None (utc 5000000) metrics_db = Inr snap"
    using metrics_db_collect by blast
  have w: "window_start None (utc 5000000) = None" by (simp add: window_start_def)
  note facts = collect_metrics_counts [OF snap, unfolded w]
  have "lit ''demo'' \<in> set (map jm_job (ms_jobs snap))"
    using facts by (simp add: metrics_db_attempts) (simp add: metrics_db_def)
  then obtain m where m: "m \<in> set (ms_jobs snap)" "jm_job m = lit ''demo''" by auto
  with facts have "counted None metrics_db m" by blast
  then have "jm_status_counts m SUCCESS = 1 \<and> jm_status_counts m FAILED = 1 \<and> jm_retry_attempts m = 1"
    by (simp add: counted_def m(2) metrics_db_attempts) (simp add: metrics_db_def sample_attempt_def)
  with snap m show ?thesis by blast
qed

theorem metrics_rates_bounded_witness:
  "\<exists>snap m s v. collect_metrics (None :: (nat TaskQueue \<times> nat) option) None (utc 5000000) metrics_db = Inr snap
     \<and> m \<in> set (ms_jobs snap) \<and> success_rate m = Some s \<and> \<bar>s - 1 / 2\<bar> \<le> float_eps
     \<and> avg_duration_seconds m = Some v \<and> \<bar>v - 3 / 2\<bar> \<le> ((1 + float_eps) ^ 4 - 1) * (3 / 2)"
proof -
  obtain snap where snap: "collect_metrics (None :: (nat TaskQueue \<times> nat) option) None (utc 5000000) metrics_db = Inr snap"
    "ms_jobs snap = job_metrics None metrics_db"
    using metrics_db_collect by blast
  have "lit ''demo'' \<in> set (map jm_job (ms_jobs snap))"
    unfolding snap(2) job_metrics_names by (simp add: metrics_db_attempts) (simp add: metrics_db_def)
  then obtain m where m: "m \<in> set (ms_jobs snap)" "jm_job m = lit ''demo''" by auto
  have "attempts_of (window_start None (utc 5000000)) (jm_job m) metrics_db = t_executions metrics_db"
    by (simp add: window_start_def m(2) metrics_db_attempts)
  moreover have "exact_durations (window_start None (utc 5000000)) (jm_job m) metrics_db = [2, 1]"
    by (simp add: window_start_def m(2) exact_durations_def metrics_db_attempts)
      (simp add: metrics_db_def sample_attempt_def finished_duration_def execution_to_record_def)
  moreover have "(1 + float_eps) ^ 4 = (1 + float_eps) * ((1 + float_eps) * ((1 + float_eps) * (1 + float_eps)))"
    by (simp add: eval_nat_numeral)
  ultimately have facts: "\<exists>s. success_rate m = Some s \<and> \<bar>s - 1 / 2\<bar> \<le> float_eps"
    "case avg_duration_seconds m of None \<Rightarrow> False | Some v \<Rightarrow> \<bar>v - 3 / 2\<bar> \<le> ((1 + float_eps) ^ (2 + 2) - 1) * (3 / 2)"
    using metrics_rates_bounded [OF snap(1) m(1), of "t_executions metrics_db" "[2, 1]" 1 1]
    by (auto simp: metrics_db_def sample_attempt_def split: option.splits)
  then show ?thesis using snap(1) m(1) by (auto split: option.splits)
qed

end
