(* ===== verification/Alerts.thy ===== *)
theory Alerts
  imports Metrics Bootstrap
begin

text \<open>
  Alerts (\<^verbatim>\<open>alerts.py\<close>): the thresholds, one evaluation over the database and the queue, the tracker that reports
  changes only, and the check that the \<^verbatim>\<open>alerts\<close> command repeats (\<^verbatim>\<open>cli/alert_commands.py\<close>). Python's \<^verbatim>\<open>int\<close> and \<^verbatim>\<open>float\<close>
  on strings are parameters of \<open>from_env\<close>.
\<close>

section \<open>Rules\<close>

datatype Severity = WARNING | CRITICAL

record AlertRules =
  ru_consecutive_failures :: int
  ru_timeout_count :: int
  ru_timeout_window :: int
  ru_queue_depth :: int

definition default_rules :: AlertRules where
  "default_rules = \<lparr>ru_consecutive_failures = 3, ru_timeout_count = 3, ru_timeout_window = 3600 * us_per_second,
     ru_queue_depth = 100\<rparr>"

definition AlertRules_post_init :: "AlertRules \<Rightarrow> exn + AlertRules" where
  "AlertRules_post_init r =
     (if ru_consecutive_failures r < 1 then Inl (ValueError (lit ''consecutive_failures must be >= 1''))
      else if ru_timeout_count r < 1 then Inl (ValueError (lit ''timeout_count must be >= 1''))
      else if ru_timeout_window r \<le> 0 then Inl (ValueError (lit ''timeout_window must be > 0''))
      else if ru_queue_depth r < 1 then Inl (ValueError (lit ''queue_depth must be >= 1''))
      else Inr r)"

definition ENV_PREFIX :: pystr where
  "ENV_PREFIX = lit ''TASK_PLATFORM_ALERT_''"

definition from_env ::
  "(pystr \<Rightarrow> exn + int) \<Rightarrow> (pystr \<Rightarrow> exn + pyfloat) \<Rightarrow> (pystr \<Rightarrow> pystr option) \<Rightarrow> exn + AlertRules" where
  "from_env parse_int parse_float env =
     (let d = default_rules in
      case env_get parse_int env (ENV_PREFIX @ lit ''CONSECUTIVE_FAILURES'') (ru_consecutive_failures d) of
        Inl e \<Rightarrow> Inl e
      | Inr failures \<Rightarrow>
          (case env_get parse_int env (ENV_PREFIX @ lit ''TIMEOUT_COUNT'') (ru_timeout_count d) of
             Inl e \<Rightarrow> Inl e
           | Inr timeouts \<Rightarrow>
               (case env_get parse_float env (ENV_PREFIX @ lit ''TIMEOUT_WINDOW_SECONDS'') (of_int (ru_timeout_window d) / 1000000) of
                  Inl e \<Rightarrow> Inl e
                | Inr seconds \<Rightarrow>
                    (case timedelta_seconds seconds of
                       Inl e \<Rightarrow> Inl e
                     | Inr window \<Rightarrow>
                         (case env_get parse_int env (ENV_PREFIX @ lit ''QUEUE_DEPTH'') (ru_queue_depth d) of
                            Inl e \<Rightarrow> Inl e
                          | Inr depth \<Rightarrow>
                              AlertRules_post_init
                                \<lparr>ru_consecutive_failures = failures, ru_timeout_count = timeouts,
                                 ru_timeout_window = window, ru_queue_depth = depth\<rparr>)))))"

section \<open>Evaluation\<close>

definition RULE_CONSECUTIVE_FAILURES :: pystr where
  "RULE_CONSECUTIVE_FAILURES = lit ''consecutive_failures''"

definition RULE_TIMEOUTS :: pystr where
  "RULE_TIMEOUTS = lit ''timeouts''"

definition RULE_QUEUE_BACKLOG :: pystr where
  "RULE_QUEUE_BACKLOG = lit ''queue_backlog''"

definition FAILURE_LOOKBACK :: int where
  "FAILURE_LOOKBACK = 50"

record Alert =
  al_rule :: pystr
  al_subject :: pystr
  al_severity :: Severity
  al_message :: pystr
  al_value :: int
  al_threshold :: int

definition alert_key :: "Alert \<Rightarrow> pystr" where
  "alert_key a = al_rule a @ lit '':'' @ al_subject a"

fun streak :: "JobStatus list \<Rightarrow> int" where
  "streak [] = 0"
| "streak (st # sts) = (if st \<noteq> FAILED then 0 else 1 + streak sts)"

definition failure_alert :: "pystr \<Rightarrow> int \<Rightarrow> int \<Rightarrow> Alert" where
  "failure_alert name n threshold =
     \<lparr>al_rule = RULE_CONSECUTIVE_FAILURES, al_subject = name, al_severity = CRITICAL,
      al_message = [0x4EFB, 0x52A1] @ lit '' '' @ name @ lit '' '' @ [0x5DF2, 0x8FDE, 0x7EED, 0x5931, 0x8D25] @ lit '' ''
        @ show_int n @ lit '' '' @ [0x6B21],
      al_value = n, al_threshold = threshold\<rparr>"

definition timeout_alert :: "pystr \<Rightarrow> int \<Rightarrow> int \<Rightarrow> int \<Rightarrow> Alert" where
  "timeout_alert name window_seconds n threshold =
     \<lparr>al_rule = RULE_TIMEOUTS, al_subject = name, al_severity = WARNING,
      al_message = [0x4EFB, 0x52A1] @ lit '' '' @ name @ lit '' '' @ [0x5728, 0x6700, 0x8FD1] @ lit '' ''
        @ show_int window_seconds @ lit '' '' @ [0x79D2, 0x5185, 0x8D85, 0x65F6] @ lit '' '' @ show_int n @ lit '' '' @ [0x6B21],
      al_value = n, al_threshold = threshold\<rparr>"

definition backlog_alert :: "pystr \<Rightarrow> int \<Rightarrow> int \<Rightarrow> Alert" where
  "backlog_alert name n threshold =
     \<lparr>al_rule = RULE_QUEUE_BACKLOG, al_subject = name, al_severity = WARNING,
      al_message = [0x961F, 0x5217] @ lit '' '' @ name @ lit '' '' @ [0x79EF, 0x538B] @ lit '' '' @ show_int n @ lit '' ''
        @ [0x6761, 0x6D88, 0x606F, 0x672A, 0x6D88, 0x8D39],
      al_value = n, al_threshold = threshold\<rparr>"

definition failure_alerts :: "AlertRules \<Rightarrow> Job list \<Rightarrow> db \<Rightarrow> Alert list" where
  "failure_alerts r jobs d =
     (let lookback = max FAILURE_LOOKBACK (ru_consecutive_failures r)
      in concat (map (\<lambda>j.
           let n = streak (recent_final_statuses (j_id j) (nat lookback) d)
           in if n \<ge> ru_consecutive_failures r then [failure_alert (j_name j) n (ru_consecutive_failures r)] else []) jobs))"

text \<open>\<^verbatim>\<open>int(td.total_seconds())\<close> drops the fraction.\<close>

definition whole_seconds :: "int \<Rightarrow> int" where
  "whole_seconds us = (if us < 0 then - (- us div us_per_second) else us div us_per_second)"

definition timeout_alerts :: "AlertRules \<Rightarrow> Job list \<Rightarrow> datetime \<Rightarrow> db \<Rightarrow> Alert list" where
  "timeout_alerts r jobs since d =
     (let timeouts = count_timeouts_by_job TIMEOUT_ERROR_PREFIX since d
      in concat (map (\<lambda>name.
           let n = dict_get name 0 timeouts
           in if name \<in> j_name ` set jobs \<and> n \<ge> ru_timeout_count r
              then [timeout_alert name (whole_seconds (ru_timeout_window r)) n (ru_timeout_count r)] else [])
           (sort (map fst timeouts))))"

definition backlog_alerts :: "AlertRules \<Rightarrow> ('q TaskQueue \<times> 'q) option \<Rightarrow> pystr \<Rightarrow> Alert list" where
  "backlog_alerts r queue queue_name =
     (case queue of
        None \<Rightarrow> []
      | Some _ \<Rightarrow>
          (case fst (read_queue_stats queue) of
             None \<Rightarrow> []
           | Some depth \<Rightarrow> if depth \<ge> ru_queue_depth r then [backlog_alert queue_name depth (ru_queue_depth r)] else []))"

definition evaluate_alerts ::
  "('q TaskQueue \<times> 'q) option \<Rightarrow> AlertRules option \<Rightarrow> pystr \<Rightarrow> datetime \<Rightarrow> db \<Rightarrow> exn + Alert list" where
  "evaluate_alerts queue rules queue_name now d =
     (let r = (case rules of Some r \<Rightarrow> r | None \<Rightarrow> default_rules) in
      case job_list_all d of
        Inl e \<Rightarrow> Inl e
      | Inr js \<Rightarrow>
          let jobs = filter j_enabled js in
          case add_timedelta now (- ru_timeout_window r) of
            Inl e \<Rightarrow> Inl e
          | Inr since \<Rightarrow> Inr (failure_alerts r jobs d @ timeout_alerts r jobs since d @ backlog_alerts r queue queue_name))"

section \<open>The tracker\<close>

type_synonym AlertTracker = "(pystr \<times> Alert) list"

definition AlertTracker_init :: AlertTracker where
  "AlertTracker_init = []"

definition alerts_by_key :: "Alert list \<Rightarrow> (pystr \<times> Alert) list" where
  "alerts_by_key alerts = fold (\<lambda>a m. AList.update (alert_key a) a m) alerts []"

definition tracker_update :: "Alert list \<Rightarrow> AlertTracker \<Rightarrow> (Alert list \<times> Alert list) \<times> AlertTracker" where
  "tracker_update alerts active =
     (let current = alerts_by_key alerts;
          fired = map snd (filter (\<lambda>(k, a). k \<notin> fst ` set active) current);
          resolved = map snd (filter (\<lambda>(k, a). k \<notin> fst ` set current) active)
      in ((fired, resolved), current))"

text \<open>The level and the text of the log line.\<close>

definition log_alert :: "bool \<Rightarrow> Alert \<Rightarrow> pystr \<times> pystr" where
  "log_alert resolved a =
     (if resolved then (lit ''INFO'', lit ''alert resolved: '' @ al_message a)
      else (case al_severity a of CRITICAL \<Rightarrow> lit ''ERROR'' | WARNING \<Rightarrow> lit ''WARNING'', lit ''alert firing: '' @ al_message a))"

definition alerts_check ::
  "exn option \<Rightarrow> ('q TaskQueue \<times> 'q) option \<Rightarrow> AlertRules \<Rightarrow> pystr \<Rightarrow> datetime \<Rightarrow> db \<Rightarrow> AlertTracker
     \<Rightarrow> (exn + Alert list) \<times> (pystr \<times> pystr) list \<times> AlertTracker" where
  "alerts_check commit_error queue rules queue_name now d tracker =
     (case session_scope commit_error (\<lambda>d. case evaluate_alerts queue (Some rules) queue_name now d of
             Inl e \<Rightarrow> Inl e | Inr alerts \<Rightarrow> Inr (alerts, d)) d of
        (Inl e, _) \<Rightarrow> (Inl e, [], tracker)
      | (Inr alerts, _) \<Rightarrow>
          (let ((fired, resolved), tracker') = tracker_update alerts tracker
           in (Inr alerts, map (log_alert False) fired @ map (log_alert True) resolved, tracker')))"

section \<open>Which alerts fire\<close>

definition final_history :: "pystr \<Rightarrow> db \<Rightarrow> JobStatus list" where
  "final_history job_id d = map er_status (rev (sort_key er_id
     (filter (\<lambda>r. er_job_id r = job_id \<and> er_status r \<in> {SUCCESS, FAILED}) (t_executions d))))"

lemma recent_is_history: "recent_final_statuses i k d = take k (final_history i d)"
  by (simp add: recent_final_statuses_def final_history_def take_map)

lemma streak_nonneg [simp]: "0 \<le> streak xs"
  by (induction xs) auto

lemma streak_ge:
  "int n \<le> streak xs \<longleftrightarrow> n \<le> length xs \<and> (\<forall>x \<in> set (take n xs). x = FAILED)"
proof (induction xs arbitrary: n)
  case (Cons x xs)
  show ?case
  proof (cases n)
    case 0
    then show ?thesis using streak_nonneg [of "x # xs"] by (simp del: streak.simps)
  next
    case (Suc k)
    then show ?thesis using Cons [of k] by auto
  qed
qed auto

lemma streak_take: "n \<le> k \<Longrightarrow> int n \<le> streak (take k xs) \<longleftrightarrow> int n \<le> streak xs"
  by (auto simp: streak_ge min_def)

definition timed_out_attempts :: "pystr \<Rightarrow> datetime \<Rightarrow> db \<Rightarrow> ExecutionRecord list" where
  "timed_out_attempts name since d =
     filter (\<lambda>r. case er_error_message r of None \<Rightarrow> False | Some m \<Rightarrow> like_prefix TIMEOUT_ERROR_PREFIX m)
       (attempts_of (Some since) name d)"

lemma timeouts_get:
  "dict_get name 0 (count_timeouts_by_job TIMEOUT_ERROR_PREFIX since d) = int (length (timed_out_attempts name since d))"
proof -
  let ?names = "map fst (filter (\<lambda>(n, r). (case er_error_message r of None \<Rightarrow> False | Some m \<Rightarrow> like_prefix TIMEOUT_ERROR_PREFIX m)
            \<and> started_since (Some since) r) (joined d))"
  have cnt: "count_list ?names name = length (timed_out_attempts name since d)"
    by (simp add: count_list_filter timed_out_attempts_def attempts_of_joined filter_map comp_def case_prod_unfold conj_ac)
  show ?thesis
    unfolding cnt [symmetric] by (simp add: count_timeouts_by_job_def Let_def dict_get_def map_of_tabulate count_notin)
qed

lemma timeouts_names:
  "name \<in> fst ` set (count_timeouts_by_job TIMEOUT_ERROR_PREFIX since d) \<longleftrightarrow> timed_out_attempts name since d \<noteq> []"
  by (force simp: count_timeouts_by_job_def Let_def timed_out_attempts_def attempts_of_joined filter_empty_conv image_iff)

lemma rules_distinct [simp]:
  "RULE_CONSECUTIVE_FAILURES \<noteq> RULE_TIMEOUTS" "RULE_CONSECUTIVE_FAILURES \<noteq> RULE_QUEUE_BACKLOG" "RULE_TIMEOUTS \<noteq> RULE_QUEUE_BACKLOG"
  "RULE_TIMEOUTS \<noteq> RULE_CONSECUTIVE_FAILURES" "RULE_QUEUE_BACKLOG \<noteq> RULE_CONSECUTIVE_FAILURES" "RULE_QUEUE_BACKLOG \<noteq> RULE_TIMEOUTS"
  by (simp_all add: RULE_CONSECUTIVE_FAILURES_def RULE_TIMEOUTS_def RULE_QUEUE_BACKLOG_def)

lemma alert_sel [simp]:
  "al_rule (failure_alert n v t) = RULE_CONSECUTIVE_FAILURES" "al_subject (failure_alert n v t) = n"
  "al_rule (timeout_alert n w v t) = RULE_TIMEOUTS" "al_subject (timeout_alert n w v t) = n"
  "al_rule (backlog_alert n v t) = RULE_QUEUE_BACKLOG" "al_subject (backlog_alert n v t) = n"
  by (simp_all add: failure_alert_def timeout_alert_def backlog_alert_def)

lemma failure_alerts_iff:
  assumes "1 \<le> ru_consecutive_failures r"
  shows "a \<in> set (failure_alerts r jobs d) \<longleftrightarrow>
    (\<exists>j \<in> set jobs. a = failure_alert (j_name j) (streak (take (nat (max FAILURE_LOOKBACK (ru_consecutive_failures r)))
          (final_history (j_id j) d))) (ru_consecutive_failures r)
       \<and> ru_consecutive_failures r \<le> streak (final_history (j_id j) d))"
proof -
  let ?n = "nat (ru_consecutive_failures r)"
  have "ru_consecutive_failures r \<le> streak (take (nat (max FAILURE_LOOKBACK (ru_consecutive_failures r))) xs)
      \<longleftrightarrow> ru_consecutive_failures r \<le> streak xs" for xs
    using streak_take [of ?n "nat (max FAILURE_LOOKBACK (ru_consecutive_failures r))" xs] assms by simp
  then show ?thesis
    by (auto simp: failure_alerts_def Let_def recent_is_history)
qed

lemma timeout_alerts_iff:
  assumes "1 \<le> ru_timeout_count r"
  shows "a \<in> set (timeout_alerts r jobs since d) \<longleftrightarrow>
    (\<exists>j \<in> set jobs. a = timeout_alert (j_name j) (whole_seconds (ru_timeout_window r))
          (int (length (timed_out_attempts (j_name j) since d))) (ru_timeout_count r)
       \<and> ru_timeout_count r \<le> int (length (timed_out_attempts (j_name j) since d)))"
  using assms
  by (force simp: timeout_alerts_def Let_def timeouts_get timeouts_names)

definition enabled_named :: "pystr \<Rightarrow> pystr \<Rightarrow> db \<Rightarrow> bool" where
  "enabled_named i n d \<longleftrightarrow> (\<exists>r \<in> set (t_jobs d). jr_id r = i \<and> jr_name r = n \<and> jr_enabled r)"

lemma enabled_jobs_iff:
  assumes "wf_db d" "job_list_all d = Inr js"
  shows "(\<exists>j \<in> set (filter j_enabled js). j_id j = i \<and> j_name j = n) \<longleftrightarrow> enabled_named i n d"
proof -
  from job_list_all_total [OF assms(1)] assms(2) have js: "set js = {j. \<exists>r \<in> set (t_jobs d). record_to_job r = Inr j}" by auto
  show ?thesis
  proof
    assume "\<exists>j \<in> set (filter j_enabled js). j_id j = i \<and> j_name j = n"
    then obtain j r where "r \<in> set (t_jobs d)" "record_to_job r = Inr j" "j_enabled j" "j_id j = i" "j_name j = n"
      by (auto simp: js)
    then show "enabled_named i n d" using record_to_job_sel [of r j] by (auto simp: enabled_named_def)
  next
    assume "enabled_named i n d"
    then obtain r where r: "r \<in> set (t_jobs d)" "jr_id r = i" "jr_name r = n" "jr_enabled r"
      by (auto simp: enabled_named_def)
    with assms(1) obtain j where j: "record_to_job r = Inr j" by (auto simp: wf_db_def wf_jobs_def valid_job_row_def)
    with r have "j \<in> set (filter j_enabled js)" "j_id j = i" "j_name j = n"
      using record_to_job_sel [OF j] by (auto simp: js)
    then show "\<exists>j \<in> set (filter j_enabled js). j_id j = i \<and> j_name j = n" by blast
  qed
qed

text \<open>
  C33: Which alerts an evaluation returns. A consecutive-failure alert fires for a name exactly if an enabled job of that
  name has at least the threshold of final results, the latest of which, up to the threshold, all are \<^verbatim>\<open>FAILED\<close> (the limited
  look-back changes nothing); a timeout alert exactly if an enabled job of that name has at least the threshold of
  timed-out attempts in the window; a backlog alert exactly if the queue could be read and holds at least the threshold.
\<close>

theorem evaluate_alerts_exact:
  assumes "wf_db d" and "AlertRules_post_init r = Inr r" and "evaluate_alerts queue (Some r) queue_name now d = Inr alerts"
  shows "((\<exists>a \<in> set alerts. al_rule a = RULE_CONSECUTIVE_FAILURES \<and> al_subject a = n) \<longleftrightarrow>
       (\<exists>i. enabled_named i n d \<and> ru_consecutive_failures r \<le> int (length (final_history i d))
          \<and> (\<forall>st \<in> set (take (nat (ru_consecutive_failures r)) (final_history i d)). st = FAILED)))
    \<and> ((\<exists>a \<in> set alerts. al_rule a = RULE_TIMEOUTS \<and> al_subject a = n) \<longleftrightarrow>
       (\<exists>i. enabled_named i n d) \<and> ru_timeout_count r
          \<le> int (length (timed_out_attempts n (Datetime (wall now - ru_timeout_window r) (tzinfo now)) d)))
    \<and> ((\<exists>a \<in> set alerts. al_rule a = RULE_QUEUE_BACKLOG \<and> al_subject a = n) \<longleftrightarrow>
       n = queue_name \<and> (\<exists>depth. fst (read_queue_stats queue) = Some depth \<and> ru_queue_depth r \<le> depth))"
proof -
  let ?since = "Datetime (wall now - ru_timeout_window r) (tzinfo now)"
  have r: "1 \<le> ru_consecutive_failures r" "1 \<le> ru_timeout_count r"
    using assms(2) by (auto simp: AlertRules_post_init_def split: if_splits)
  from assms(3) obtain js where js: "job_list_all d = Inr js"
    and alerts: "alerts = failure_alerts r (filter j_enabled js) d @ timeout_alerts r (filter j_enabled js) ?since d
      @ backlog_alerts r queue queue_name"
    by (auto simp: evaluate_alerts_def Let_def add_timedelta_def mk_datetime_def split: sum.splits if_splits)
  note jobs = enabled_jobs_iff [OF assms(1) js]
  have rules: "a \<in> set (failure_alerts r (filter j_enabled js) d) \<Longrightarrow> al_rule a = RULE_CONSECUTIVE_FAILURES"
    "a \<in> set (timeout_alerts r (filter j_enabled js) ?since d) \<Longrightarrow> al_rule a = RULE_TIMEOUTS"
    "a \<in> set (backlog_alerts r queue queue_name) \<Longrightarrow> al_rule a = RULE_QUEUE_BACKLOG" for a
    using r by (auto simp: failure_alerts_iff timeout_alerts_iff backlog_alerts_def split: option.splits if_splits)
  have fail: "ru_consecutive_failures r \<le> streak xs \<longleftrightarrow>
      ru_consecutive_failures r \<le> int (length xs) \<and> (\<forall>st \<in> set (take (nat (ru_consecutive_failures r)) xs). st = FAILED)" for xs
    using streak_ge [of "nat (ru_consecutive_failures r)" xs] r(1) by (simp add: nat_le_iff)
  have "(\<exists>a \<in> set alerts. al_rule a = RULE_CONSECUTIVE_FAILURES \<and> al_subject a = n) \<longleftrightarrow>
      (\<exists>a \<in> set (failure_alerts r (filter j_enabled js) d). al_subject a = n)"
    unfolding alerts set_append bex_Un using rules rules_distinct by metis
  also have "\<dots> \<longleftrightarrow> (\<exists>i. (\<exists>j \<in> set (filter j_enabled js). j_id j = i \<and> j_name j = n) \<and> ru_consecutive_failures r \<le> streak (final_history i d))"
    unfolding Bex_def failure_alerts_iff [OF r(1)] by (auto, blast)
  finally have 1: "(\<exists>a \<in> set alerts. al_rule a = RULE_CONSECUTIVE_FAILURES \<and> al_subject a = n) \<longleftrightarrow>
      (\<exists>i. enabled_named i n d \<and> ru_consecutive_failures r \<le> streak (final_history i d))"
    by (simp only: jobs)
  have "(\<exists>a \<in> set alerts. al_rule a = RULE_TIMEOUTS \<and> al_subject a = n) \<longleftrightarrow>
      (\<exists>a \<in> set (timeout_alerts r (filter j_enabled js) ?since d). al_subject a = n)"
    unfolding alerts set_append bex_Un using rules rules_distinct by metis
  also have "\<dots> \<longleftrightarrow> (\<exists>i. (\<exists>j \<in> set (filter j_enabled js). j_id j = i \<and> j_name j = n)) \<and> ru_timeout_count r \<le> int (length (timed_out_attempts n ?since d))"
    unfolding Bex_def timeout_alerts_iff [OF r(2)] by auto
  finally have 2: "(\<exists>a \<in> set alerts. al_rule a = RULE_TIMEOUTS \<and> al_subject a = n) \<longleftrightarrow>
      (\<exists>i. enabled_named i n d) \<and> ru_timeout_count r \<le> int (length (timed_out_attempts n ?since d))"
    by (simp only: jobs)
  have "(\<exists>a \<in> set alerts. al_rule a = RULE_QUEUE_BACKLOG \<and> al_subject a = n) \<longleftrightarrow>
      (\<exists>a \<in> set (backlog_alerts r queue queue_name). al_subject a = n)"
    unfolding alerts set_append bex_Un using rules rules_distinct by metis
  also have "\<dots> \<longleftrightarrow> n = queue_name \<and> (\<exists>depth. fst (read_queue_stats queue) = Some depth \<and> ru_queue_depth r \<le> depth)"
    by (cases queue; cases "fst (read_queue_stats queue)") (auto simp: backlog_alerts_def read_queue_stats_def [of None])
  finally show ?thesis using 1 2 by (simp only: fail)
qed

text \<open>The tracker over a sequence of evaluations.\<close>

fun tracker_run :: "Alert list list \<Rightarrow> AlertTracker \<Rightarrow> (Alert list \<times> Alert list) list \<times> AlertTracker" where
  "tracker_run [] t = ([], t)"
| "tracker_run (as # ass) t =
     (let (rep, t1) = tracker_update as t; (reps, t2) = tracker_run ass t1 in (rep # reps, t2))"

definition reported :: "pystr \<Rightarrow> Alert list list \<Rightarrow> int" where
  "reported k ls = int (length (filter (\<lambda>a. alert_key a = k) (concat ls)))"

definition keyed :: "(pystr \<times> Alert) list \<Rightarrow> bool" where
  "keyed t \<longleftrightarrow> distinct (map fst t) \<and> (\<forall>(k, a) \<in> set t. alert_key a = k)"

lemma keyed_update: "keyed t \<Longrightarrow> keyed (AList.update (alert_key a) a t)"
  using alist_update_set [of "alert_key a" a t] by (auto simp: keyed_def distinct_update)

lemma alerts_by_key_fold:
  "keyed m \<Longrightarrow> keyed (fold (\<lambda>a m. AList.update (alert_key a) a m) as m)
     \<and> fst ` set (fold (\<lambda>a m. AList.update (alert_key a) a m) as m) = alert_key ` set as \<union> fst ` set m"
  by (induction as arbitrary: m) (auto simp: keyed_update)

lemma alerts_by_key_props: "keyed (alerts_by_key as)" "fst ` set (alerts_by_key as) = alert_key ` set as"
  using alerts_by_key_fold [of "[]" as] by (simp_all add: alerts_by_key_def keyed_def)

lemma keyed_count:
  "keyed t \<Longrightarrow> length (filter (\<lambda>a. alert_key a = k) (map snd (filter (\<lambda>(k, a). P k) t)))
     = (if k \<in> fst ` set t \<and> P k then 1 else 0)"
proof (induction t)
  case (Cons p t)
  obtain k' a where p: "p = (k', a)" by force
  from Cons.prems have t: "keyed t" "alert_key a = k'" "k' \<notin> fst ` set t" by (auto simp: keyed_def p)
  from Cons.IH [OF t(1)] t show ?case by (auto simp: p)
qed simp

lemma tracker_run_balance:
  "keyed t \<Longrightarrow> tracker_run ass t = (reps, t') \<Longrightarrow>
     reported k (map fst reps) - reported k (map snd reps) + (if k \<in> fst ` set t then 1 else 0)
       = (if k \<in> fst ` set t' then 1 else 0)"
proof (induction ass arbitrary: t reps)
  case (Cons as ass)
  obtain fired resolved t1 where u: "tracker_update as t = ((fired, resolved), t1)"
    by (cases "tracker_update as t") auto
  obtain reps1 where rest: "tracker_run ass t1 = (reps1, t')" and reps: "reps = (fired, resolved) # reps1"
    using Cons.prems(2) by (auto simp: u split: prod.splits)
  have t1: "t1 = alerts_by_key as" "fired = map snd (filter (\<lambda>(k, a). k \<notin> fst ` set t) t1)"
    "resolved = map snd (filter (\<lambda>(k, a). k \<notin> fst ` set t1) t)"
    using u by (auto simp: tracker_update_def Let_def)
  have k1: "keyed t1" using t1(1) alerts_by_key_props by simp
  have "int (length (filter (\<lambda>a. alert_key a = k) fired)) - int (length (filter (\<lambda>a. alert_key a = k) resolved))
      + (if k \<in> fst ` set t then 1 else 0) = (if k \<in> fst ` set t1 then 1 else 0)"
    unfolding t1(2,3) keyed_count [OF k1] keyed_count [OF Cons.prems(1)] by auto
  with Cons.IH [OF k1 rest] show ?case by (auto simp: reps reported_def)
qed (auto simp: reported_def)

lemma tracker_run_last: "tracker_run (ass @ [as]) t = (reps, t') \<Longrightarrow> t' = alerts_by_key as"
  by (induction ass arbitrary: t reps) (auto simp: tracker_update_def Let_def split: prod.splits)

text \<open>
  C34: The tracker reports changes only. Over any sequence of evaluations from the start, an alert key has been reported as
  fired exactly once more than as resolved if it is firing in the last evaluation, and equally often if it is not: no key
  is reported as fired twice without having been resolved in between, and none is resolved that had not fired.
\<close>

theorem tracker_reports_changes:
  "case tracker_run (ass @ [alerts]) AlertTracker_init of
     (reps, t) \<Rightarrow> reported k (map fst reps) - reported k (map snd reps) = (if k \<in> alert_key ` set alerts then 1 else 0)"
proof -
  obtain reps t where run: "tracker_run (ass @ [alerts]) AlertTracker_init = (reps, t)" by force
  from tracker_run_balance [OF _ run, of k] have
    "reported k (map fst reps) - reported k (map snd reps) = (if k \<in> fst ` set t then 1 else 0)"
    by (simp add: AlertTracker_init_def keyed_def)
  then show ?thesis
    by (simp add: run tracker_run_last [OF run] alerts_by_key_props)
qed

definition failing_db :: db where
  "failing_db = demo_db\<lparr>t_executions := [execution_to_record 1 (sample_attempt 1 FAILED 0 2000000)], exec_seq := 2\<rparr>"

lemma wf_failing_db: "wf_db failing_db"
proof -
  have "exec_add (sample_attempt 1 FAILED 0 2000000) demo_db = Inr ((), failing_db)"
    by (simp add: exec_add_def exec_find_def failing_db_def sample_attempt_def)
  from keeps_wfD [OF exec_add_keeps_wf wf_demo_db this] show ?thesis .
qed

theorem evaluate_alerts_exact_witness:
  "\<exists>alerts. evaluate_alerts (None :: (nat TaskQueue \<times> nat) option) (Some (default_rules\<lparr>ru_consecutive_failures := 1\<rparr>)) [] (utc 7200000000) failing_db
       = Inr alerts \<and> (\<exists>a \<in> set alerts. al_rule a = RULE_CONSECUTIVE_FAILURES \<and> al_subject a = lit ''demo'')"
proof -
  let ?r = "default_rules\<lparr>ru_consecutive_failures := 1\<rparr>"
  have r: "AlertRules_post_init ?r = Inr ?r" by (simp add: AlertRules_post_init_def default_rules_def)
  have "job_list_all failing_db = Inr [demo_job]"
    by (simp add: job_list_all_def jobs_ordered_def failing_db_def record_job_roundtrip)
  then obtain alerts where ev: "evaluate_alerts (None :: (nat TaskQueue \<times> nat) option) (Some ?r) [] (utc 7200000000) failing_db = Inr alerts"
    by (simp add: evaluate_alerts_def Let_def default_rules_def add_timedelta_def mk_datetime_def)
  have h: "final_history (lit ''job_a'') failing_db = [FAILED]"
    by (simp add: final_history_def failing_db_def sample_attempt_def)
  have "enabled_named (lit ''job_a'') (lit ''demo'') failing_db"
    by (simp add: enabled_named_def failing_db_def) (simp add: job_to_record_def)
  with evaluate_alerts_exact [OF wf_failing_db r ev, of "lit ''demo''"] h
  have "\<exists>a \<in> set alerts. al_rule a = RULE_CONSECUTIVE_FAILURES \<and> al_subject a = lit ''demo''"
    by (auto intro!: exI [of _ "lit ''job_a''"])
  with ev show ?thesis by blast
qed

end
