(* ===== verification/Processes.thy ===== *)
theory Processes
  imports Cli Alerts
begin

text \<open>
  The processes that keep running: the fault-tolerant loop (\<^verbatim>\<open>runtime.py\<close>), the commands \<^verbatim>\<open>dispatch\<close> and \<^verbatim>\<open>worker\<close>
  (\<^verbatim>\<open>cli/queue_commands.py\<close>), \<^verbatim>\<open>alerts\<close> (\<^verbatim>\<open>cli/alert_commands.py\<close>) and \<^verbatim>\<open>serve\<close> (\<^verbatim>\<open>cli/main.py\<close> with \<^verbatim>\<open>Scheduler.run_forever\<close>). A loop runs over the
  list of its turns; each turn carries what the process reads in it (clock, faults, what other threads do) and whether the stop
  event is set when the loop looks. A list that ends before the loop does leaves the process running (\<open>Waiting\<close>).
\<close>

section \<open>The loop\<close>

record 'i turn =
  tn_stop :: bool
  tn_input :: 'i

text \<open>The first result is the list of pauses the loop has asked for.\<close>

fun run_loop ::
  "('i \<Rightarrow> 's \<Rightarrow> ('s, 'a) progress) \<Rightarrow> pyfloat \<Rightarrow> pyfloat \<Rightarrow> 'i turn list \<Rightarrow> 's \<Rightarrow> pyfloat list \<times> ('s, unit) progress" where
  "run_loop step interval error_backoff [] s = ([], Waiting s)"
| "run_loop step interval error_backoff (t # ts) s =
     (if tn_stop t then ([], Done (Inr ()) s)
      else case step (tn_input t) s of
             Waiting s1 \<Rightarrow> ([], Waiting s1)
           | Done (Inl e) s1 \<Rightarrow>
               (let (ws, p) = run_loop step interval error_backoff ts s1 in (error_backoff # ws, p))
           | Done (Inr a) s1 \<Rightarrow>
               (let (ws, p) = run_loop step interval error_backoff ts s1 in (interval # ws, p)))"

definition exit_code :: "('s, unit) progress \<Rightarrow> ('s, int) progress" where
  "exit_code p = (case p of Waiting s \<Rightarrow> Waiting s | Done (Inl e) s \<Rightarrow> Done (Inl e) s | Done (Inr _) s \<Rightarrow> Done (Inr 0) s)"

section \<open>Dispatcher process\<close>

text \<open>\<^verbatim>\<open>_open_queue\<close>: a connection error gives no queue; \<open>refused\<close> recognises it.\<close>

definition open_queue :: "(exn \<Rightarrow> bool) \<Rightarrow> exn + 'q \<Rightarrow> exn + 'q option" where
  "open_queue refused built = (case built of Inl e \<Rightarrow> if refused e then Inr None else Inl e | Inr q \<Rightarrow> Inr (Some q))"

record 'q dispatch_input =
  di_faults :: dispatch_faults
  di_claim_now :: datetime
  di_run_ids :: "nat \<Rightarrow> pystr"
  di_now :: datetime
  di_sweep_faults :: sweep_faults
  di_meanwhile :: "JobExecution \<Rightarrow> db \<times> 'q \<Rightarrow> db \<times> 'q"
  di_sweep_now :: datetime

definition dispatch_step :: "'q TaskQueue \<Rightarrow> 'q dispatch_input \<Rightarrow> DState \<times> db \<times> 'q \<Rightarrow> (DState \<times> db \<times> 'q, unit) progress" where
  "dispatch_step Q i s =
     (case d_tick (dispatch_ports Q (di_faults i) (di_claim_now i)) (di_run_ids i) (di_now i) (fst s) (snd s) of
        (Inl e, s1) \<Rightarrow> Done (Inl e) s1
      | (Inr _, st, w) \<Rightarrow>
          (case sweep_due_retries Q (di_sweep_faults i) (di_meanwhile i) (di_sweep_now i) 100 w of
             (Inl e, w1) \<Rightarrow> Done (Inl e) (st, w1)
           | (Inr _, w1) \<Rightarrow> Done (Inr ()) (st, w1)))"

fun add_pairs :: "(Job \<Rightarrow> Schedule \<Rightarrow> 'h \<Rightarrow> (exn + unit) \<times> 'h) \<Rightarrow> (Job \<times> Schedule) list \<Rightarrow> 'h \<Rightarrow> (exn + unit) \<times> 'h" where
  "add_pairs add [] h = (Inr (), h)"
| "add_pairs add ((j, sch) # ps) h = (case add j sch h of (Inl e, h1) \<Rightarrow> (Inl e, h1) | (Inr _, h1) \<Rightarrow> add_pairs add ps h1)"

record dispatch_start =
  ds_load_error :: "exn option"
  ds_refused :: "exn \<Rightarrow> bool"
  ds_queue_error :: "exn option"
  ds_now :: "Job \<Rightarrow> Schedule \<Rightarrow> datetime"

definition run_dispatch ::
  "'q TaskQueue \<Rightarrow> dispatch_start \<Rightarrow> pyfloat \<Rightarrow> 'q dispatch_input turn list \<Rightarrow> db \<times> 'q \<Rightarrow> (DState \<times> db \<times> 'q, int) progress" where
  "run_dispatch Q env poll_interval turns w =
     (case fst (session_scope (ds_load_error env) (read_txn load_active_schedules) (fst w)) of
        Inl e \<Rightarrow> Done (Inl e) (Dispatcher_init, w)
      | Inr pairs \<Rightarrow>
          if pairs = [] then Done (Inr 1) (Dispatcher_init, w)
          else
            (case open_queue (ds_refused env) (case ds_queue_error env of None \<Rightarrow> Inr () | Some e \<Rightarrow> Inl e) of
               Inl e \<Rightarrow> Done (Inl e) (Dispatcher_init, w)
             | Inr None \<Rightarrow> Done (Inr 1) (Dispatcher_init, w)
             | Inr (Some _) \<Rightarrow>
                 (case add_pairs (\<lambda>j sch. d_add (ds_now env j sch) j sch) pairs Dispatcher_init of
                    (Inl e, st) \<Rightarrow> Done (Inl e) (st, w)
                  | (Inr _, st) \<Rightarrow> exit_code (snd (run_loop (dispatch_step Q) poll_interval 1 turns (st, w))))))"

section \<open>Worker process\<close>

definition worker_options :: "pyfloat \<Rightarrow> pyfloat option \<Rightarrow> pyfloat option \<times> pyfloat option" where
  "worker_options stale_after heartbeat_interval =
     (let stale = (if stale_after > 0 then Some stale_after else None)
      in (stale, case heartbeat_interval of Some h \<Rightarrow> Some h | None \<Rightarrow> map_option (\<lambda>x. x / 3) stale))"

definition run_worker ::
  "'q TaskQueue \<Rightarrow> (pyfloat \<Rightarrow> pystr) \<Rightarrow> TaskRegistry \<Rightarrow> exn + 'q option \<Rightarrow> pystr \<Rightarrow> pyfloat \<Rightarrow> pyfloat \<Rightarrow> pyfloat option
     \<Rightarrow> 'q step_env turn list \<Rightarrow> 'q world \<Rightarrow> ('q world, int) progress" where
  "run_worker Q fmt reg queue name block_seconds stale_after heartbeat_interval turns w =
     (let (stale, heartbeat) = worker_options stale_after heartbeat_interval in
      case queue of
        Inl e \<Rightarrow> Done (Inl e) w
      | Inr None \<Rightarrow> Done (Inr 1) w
      | Inr (Some _) \<Rightarrow>
          (case Worker_init name stale 5 heartbeat of
             Inl (ValueError m) \<Rightarrow> Done (Inr 1) w
           | Inl e \<Rightarrow> Done (Inl e) w
           | Inr wk \<Rightarrow> exit_code (snd (run_loop (\<lambda>env. run_once Q wk fmt reg env block_seconds) 0 1 turns w))))"

section \<open>Alert process\<close>

record 'q alert_input =
  ai_error :: "exn option"
  ai_queue :: "('q TaskQueue \<times> 'q) option"
  ai_now :: datetime
  ai_db :: db

definition alert_step :: "AlertRules \<Rightarrow> pystr \<Rightarrow> 'q alert_input \<Rightarrow> AlertTracker \<Rightarrow> (AlertTracker, Alert list) progress" where
  "alert_step rules queue_name i tracker =
     (case alerts_check (ai_error i) (ai_queue i) rules queue_name (ai_now i) (ai_db i) tracker of
        (r, logs, tracker') \<Rightarrow> Done r tracker')"

definition run_alerts ::
  "exn + AlertRules \<Rightarrow> exn + unit option \<Rightarrow> pystr \<Rightarrow> pyfloat option \<Rightarrow> 'q alert_input turn list \<Rightarrow> (AlertTracker, int) progress" where
  "run_alerts rules queue queue_name watch turns =
     (if (case watch of None \<Rightarrow> False | Some x \<Rightarrow> x \<le> 0) then Done (Inr 1) AlertTracker_init
      else case rules of
        Inl (ValueError m) \<Rightarrow> Done (Inr 1) AlertTracker_init
      | Inl e \<Rightarrow> Done (Inl e) AlertTracker_init
      | Inr ru \<Rightarrow>
          (case queue of
             Inl e \<Rightarrow> Done (Inl e) AlertTracker_init
           | Inr None \<Rightarrow> Done (Inr 1) AlertTracker_init
           | Inr (Some _) \<Rightarrow>
               (case watch of
                  Some interval \<Rightarrow> exit_code (snd (run_loop (alert_step ru queue_name) interval 1 turns AlertTracker_init))
                | None \<Rightarrow>
                    (case turns of
                       [] \<Rightarrow> Waiting AlertTracker_init
                     | t # _ \<Rightarrow>
                         (case alert_step ru queue_name (tn_input t) AlertTracker_init of
                            Waiting s \<Rightarrow> Waiting s
                          | Done (Inl e) s \<Rightarrow> Done (Inl e) s
                          | Done (Inr alerts) s \<Rightarrow> Done (Inr (if alerts = [] then 0 else 1)) s)))))"

section \<open>Scheduler process\<close>

record serve_input =
  si_now :: datetime
  si_claim_now :: datetime
  si_claim_error :: "pystr \<Rightarrow> exn option"
  si_start_error :: "pystr \<Rightarrow> exn option"
  si_persist_error :: "pystr \<Rightarrow> exn option"
  si_triggers :: "nat \<Rightarrow> local trigger_env"

definition serve_callbacks :: "serve_input \<Rightarrow> local callbacks" where
  "serve_callbacks i =
     \<lparr>cb_claim = Some (\<lambda>job run_id key s.
        let (r, d) = session_scope (si_claim_error i key) (try_claim key (j_id job) run_id (si_claim_now i)) (lo_db s) in (r, s\<lparr>lo_db := d\<rparr>)),
      cb_on_start = Some (\<lambda>x s.
        let (r, d) = session_scope (si_start_error i (x_run_id x)) (exec_add x) (lo_db s) in (r, s\<lparr>lo_db := d\<rparr>))\<rparr>"

fun persist_all :: "(pystr \<Rightarrow> exn option) \<Rightarrow> JobExecution list \<Rightarrow> local \<Rightarrow> (exn + unit) \<times> local" where
  "persist_all fault [] s = (Inr (), s)"
| "persist_all fault (x # xs) s =
     (case persist_execution (fault (x_run_id x)) x s of (Inl e, s1) \<Rightarrow> (Inl e, s1) | (Inr _, s1) \<Rightarrow> persist_all fault xs s1)"

text \<open>One turn of \<^verbatim>\<open>run_forever\<close>: the tick and its callback.\<close>

definition serve_step :: "(pyfloat \<Rightarrow> pystr) \<Rightarrow> TaskRegistry \<Rightarrow> serve_input \<Rightarrow> SState \<times> local sworld \<Rightarrow> (SState \<times> local sworld, unit) progress" where
  "serve_step fmt reg i s =
     (case sc_tick fmt reg (serve_callbacks i) (si_triggers i) (si_now i) s of
        Waiting s1 \<Rightarrow> Waiting s1
      | Done (Inl e) s1 \<Rightarrow> Done (Inl e) s1
      | Done (Inr xs) s1 \<Rightarrow>
          (let (r, l) = persist_all (si_persist_error i) xs (sw_ext (snd s1)) in Done r (fst s1, (snd s1)\<lparr>sw_ext := l\<rparr>)))"

text \<open>Unlike in \<^verbatim>\<open>run_loop\<close>, an exception ends the loop.\<close>

fun run_forever :: "('i \<Rightarrow> 's \<Rightarrow> ('s, unit) progress) \<Rightarrow> 'i turn list \<Rightarrow> 's \<Rightarrow> ('s, unit) progress" where
  "run_forever step [] s = Waiting s"
| "run_forever step (t # ts) s =
     (if tn_stop t then Done (Inr ()) s
      else case step (tn_input t) s of
             Waiting s1 \<Rightarrow> Waiting s1
           | Done (Inl e) s1 \<Rightarrow> Done (Inl e) s1
           | Done (Inr _) s1 \<Rightarrow> run_forever step ts s1)"

definition cli_serve ::
  "(pyfloat \<Rightarrow> pystr) \<Rightarrow> TaskRegistry \<Rightarrow> exn option \<Rightarrow> (Job \<Rightarrow> Schedule \<Rightarrow> datetime) \<Rightarrow> serve_input turn list \<Rightarrow> local sworld
     \<Rightarrow> (SState \<times> local sworld, int) progress" where
  "cli_serve fmt reg load_error nows turns w =
     (case fst (session_scope load_error (read_txn load_active_schedules) (lo_db (sw_ext w))) of
        Inl e \<Rightarrow> Done (Inl e) (Scheduler_init, w)
      | Inr pairs \<Rightarrow>
          if pairs = [] then Done (Inr 1) (Scheduler_init, w)
          else (case add_pairs (\<lambda>j sch. sc_add (nows j sch) j sch) pairs Scheduler_init of
                  (Inl e, st) \<Rightarrow> Done (Inl e) (st, w)
                | (Inr _, st) \<Rightarrow> exit_code (run_forever (serve_step fmt reg) turns (st, w))))"

section \<open>Loops\<close>

lemma run_loop_preserves:
  assumes "\<And>t s. t \<in> set ts \<Longrightarrow> P s \<Longrightarrow> P (state_of (step (tn_input t) s))" and "P s"
  shows "P (state_of (snd (run_loop step iv bo ts s)))"
  using assms
proof (induction ts arbitrary: s)
  case (Cons t ts)
  have IH: "P s' \<Longrightarrow> P (state_of (snd (run_loop step iv bo ts s')))" for s' by (rule Cons.IH) (use Cons.prems in auto)
  have "P (state_of (step (tn_input t) s))" using Cons.prems by simp
  then show ?case using IH Cons.prems(2) by (auto simp: split_beta Let_def split: progress.splits sum.splits)
qed simp

lemma run_forever_preserves:
  assumes "\<And>t s. t \<in> set ts \<Longrightarrow> P s \<Longrightarrow> P (state_of (step (tn_input t) s))" and "P s"
  shows "P (state_of (run_forever step ts s))"
  using assms
proof (induction ts arbitrary: s)
  case (Cons t ts)
  have IH: "P s' \<Longrightarrow> P (state_of (run_forever step ts s'))" for s' by (rule Cons.IH) (use Cons.prems in auto)
  have "P (state_of (step (tn_input t) s))" using Cons.prems by simp
  then show ?case using IH Cons.prems(2) by (auto split: progress.splits sum.splits)
qed simp

lemma exit_code_state [simp]: "state_of (exit_code p) = state_of p"
  by (auto simp: exit_code_def split: progress.splits sum.splits)

text \<open>The state after a sequence of steps that all return.\<close>

fun run_steps :: "('i \<Rightarrow> 's \<Rightarrow> ('s, 'a) progress) \<Rightarrow> 'i turn list \<Rightarrow> 's \<Rightarrow> 's" where
  "run_steps step [] s = s"
| "run_steps step (t # ts) s = run_steps step ts (state_of (step (tn_input t) s))"

lemma run_loop_runs:
  assumes "\<And>i s. \<exists>r s'. step i s = Done r s'" and "\<forall>t \<in> set ts. \<not> tn_stop t" and "tn_stop t"
  shows "snd (run_loop step iv bo (ts @ t # us) s) = Done (Inr ()) (run_steps step ts s)
    \<and> length (fst (run_loop step iv bo (ts @ t # us) s)) = length ts"
  using assms(2)
proof (induction ts arbitrary: s)
  case Nil
  then show ?case using assms(3) by simp
next
  case (Cons u ts)
  obtain r s' where "step (tn_input u) s = Done r s'" using assms(1) by blast
  with Cons show ?case by (auto simp: split_beta Let_def split: sum.splits)
qed

text \<open>The heartbeat that \<^verbatim>\<open>worker\<close> derives from \<^verbatim>\<open>--stale-after\<close> is always accepted.\<close>

lemma worker_options_valid:
  assumes "worker_options stale_after None = (stale, heartbeat)"
  shows "\<exists>wk. Worker_init name stale r heartbeat = Inr wk"
  using assms by (auto simp: worker_options_def Let_def Worker_init_def split: if_splits)

section \<open>Invariants\<close>

text \<open>A tick of the scheduler changes the outside state only through its callbacks and the polls of the attempts it runs.\<close>

definition callbacks_keep :: "('s \<Rightarrow> bool) \<Rightarrow> 's callbacks \<Rightarrow> bool" where
  "callbacks_keep P cb \<longleftrightarrow>
     (\<forall>f j r k s. cb_claim cb = Some f \<longrightarrow> P s \<longrightarrow> P (snd (f j r k s))) \<and> (\<forall>f x s. cb_on_start cb = Some f \<longrightarrow> P s \<longrightarrow> P (snd (f x s)))"

definition trigger_polls_keep :: "('s \<Rightarrow> bool) \<Rightarrow> 's trigger_env \<Rightarrow> bool" where
  "trigger_polls_keep P env \<longleftrightarrow> (\<forall>p \<in> set (e_polls (te_attempt env)). \<forall>w. P (sw_ext w) \<longrightarrow> P (sw_ext (p_env p w)))"

lemma sc_regular_keeps [simp]: "snd (state_of (sc_regular r e now st w)) = w"
  by (auto simp: sc_regular_def split: sum.splits)

lemma sc_retry_keeps [simp]: "snd (state_of (sc_retry res e now st w)) = w"
  by (auto simp: sc_retry_def split: sum.splits)

lemma sc_execute_keeps:
  assumes "callbacks_keep P cb" "trigger_polls_keep P env" "P (sw_ext w)"
  shows "P (sw_ext (snd (state_of (sc_execute fmt reg cb env now e r st w))))"
proof -
  obtain t a where t: "CancelToken_new (sw_active w) = (t, a)" by fastforce
  define w0 where "w0 = w\<lparr>sw_active := active_register r t a\<rparr>"
  let ?cb = "case sw_on_start cb of None \<Rightarrow> (\<lambda>x s. (Inr (), s)) | Some f \<Rightarrow> f"
  let ?ex = "execute_attempt fmt reg (sw_token t) (sw_on_start cb) 5 (te_attempt env) (he_job e) (he_attempt_number e) (Some r) w0"
  have ex: "?ex = execute_attempt fmt reg (sw_token t) (Some ?cb) 5 (te_attempt env) (he_job e) (he_attempt_number e) (Some r) w0"
    using execute_attempt_None by (cases "sw_on_start cb") auto
  have "P (sw_ext (state_of ?ex))"
    unfolding ex
  proof (rule execute_attempt_preserves [where I = "\<lambda>w. P (sw_ext w)"])
    show "P (sw_ext (snd (?cb x w0)))" for x
      using assms(1,3) by (auto simp: sw_on_start_def callbacks_keep_def w0_def Let_def split: option.splits prod.splits) (metis snd_conv)
  qed (use assms in \<open>auto simp: trigger_polls_keep_def sw_token_def w0_def\<close>)
  then show ?thesis
    by (auto simp: sc_execute_def t w0_def [symmetric] split: progress.splits sum.splits)
qed

lemma sc_trigger_keeps:
  assumes "callbacks_keep P cb" "\<And>n. trigger_polls_keep P (envs n)" "P (sw_ext w)"
  shows "P (sw_ext (snd (state_of (sc_trigger fmt reg cb envs now e st w))))"
proof -
  have "P s" if "cb_claim cb = Some f" "f j r k (sw_ext w) = (b, s)" for f j r k b s
    using assms(1,3) that unfolding callbacks_keep_def by (metis snd_conv)
  with assms(3) show ?thesis
    by (auto simp: sc_trigger_def Let_def split: option.splits sum.splits prod.splits bool.splits
        intro!: sc_execute_keeps [OF assms(1,2)])
qed

lemma sc_trigger_all_keeps:
  assumes "callbacks_keep P cb" "\<And>n. trigger_polls_keep P (envs n)" "P (sw_ext (snd s))"
  shows "P (sw_ext (snd (state_of (sc_trigger_all fmt reg cb envs now es s))))"
  using assms(3)
proof (induction es arbitrary: s)
  case (Cons e es)
  have "P (sw_ext (snd (state_of (sc_trigger fmt reg cb envs now e (fst s) (snd s)))))"
    using sc_trigger_keeps [OF assms(1,2) Cons.prems] .
  with Cons.IH show ?case by (auto split: progress.splits sum.splits) (metis state_of.simps snd_conv)+
qed simp

lemma sc_tick_keeps:
  assumes "callbacks_keep P cb" "\<And>n. trigger_polls_keep P (envs n)" "P (sw_ext (snd s))"
  shows "P (sw_ext (snd (state_of (sc_tick fmt reg cb envs now s))))"
  using sc_trigger_all_keeps [OF assms(1,2)] assms(3) by (auto simp: sc_tick_def split: prod.splits)

context db_invariant
begin

lemma dispatch_step_keeps:
  assumes "\<And>x w. I (fst w) \<Longrightarrow> I (fst (di_meanwhile i x w))" and "I d"
  shows "I (fst (snd (state_of (dispatch_step Q i (st, d, q)))))"
proof -
  obtain r st1 w where tick: "d_tick (dispatch_ports Q (di_faults i) (di_claim_now i)) (di_run_ids i) (di_now i) st (d, q) = (r, st1, w)"
    by (metis prod_cases3)
  with dispatcher_tick_keeps [OF assms(2), of Q "di_faults i" "di_claim_now i" "di_run_ids i" "di_now i" st q] have "I (fst w)" by simp
  moreover from this have "I (fst (snd (sweep_due_retries Q (di_sweep_faults i) (di_meanwhile i) (di_sweep_now i) 100 w)))"
    using assms(1) by (intro sweep_due_retries_keeps)
  ultimately show ?thesis
    by (auto simp: dispatch_step_def tick split: sum.splits prod.splits)
qed

lemma serve_callbacks_keep: "callbacks_keep (\<lambda>l. I (lo_db l)) (serve_callbacks i)"
  using session_scope_keeps_eq [OF try_claim_keeps] session_scope_keeps_eq [OF exec_add_keeps]
  by (auto simp: callbacks_keep_def serve_callbacks_def Let_def split: prod.splits)

lemma persist_all_keeps: "I (lo_db s) \<Longrightarrow> I (lo_db (snd (persist_all fault xs s)))"
proof (induction xs arbitrary: s)
  case (Cons x xs)
  obtain r s1 where "persist_execution (fault (x_run_id x)) x s = (r, s1)" by fastforce
  with persist_execution_keeps [OF Cons.prems, of "fault (x_run_id x)" x] Cons.IH [of s1] show ?case by (auto split: sum.splits)
qed simp

lemma serve_step_keeps:
  assumes "\<And>n. trigger_polls_keep (\<lambda>l. I (lo_db l)) (si_triggers i n)" and "I (lo_db (sw_ext (snd s)))"
  shows "I (lo_db (sw_ext (snd (state_of (serve_step fmt reg i s)))))"
proof -
  have "I (lo_db (sw_ext (snd (state_of (sc_tick fmt reg (serve_callbacks i) (si_triggers i) (si_now i) s)))))"
    by (rule sc_tick_keeps [where P = "\<lambda>l. I (lo_db l)"]) (use assms serve_callbacks_keep in auto)
  with persist_all_keeps show ?thesis
    by (auto simp: serve_step_def split_beta Let_def split: progress.splits sum.splits)
qed

end

end
