(* ===== verification/Api_Schemas.thy ===== *)
theory Api_Schemas
  imports Local_Run Metrics Alerts
begin

text \<open>
  The request and response models of the REST API (\<^verbatim>\<open>api/schemas.py\<close>) and its error format (\<^verbatim>\<open>api/errors.py\<close>). Pydantic is not
  modelled: a request arrives with values of the declared types, and what the field declarations and validators of the models
  demand of them is written out. How pydantic strips a string is the parameter \<open>trim\<close>; the details of a validation error,
  which pydantic words, are left out.
\<close>

section \<open>Responses\<close>

record RetryPolicySchema =
  rps_max_attempts :: int
  rps_backoff :: BackoffStrategy
  rps_base_delay_seconds :: pyfloat
  rps_max_delay_seconds :: pyfloat

record JobResponse =
  jo_id :: pystr
  jo_name :: pystr
  jo_job_type :: JobType
  jo_handler :: pystr
  jo_timeout_seconds :: pyfloat
  jo_retry_policy :: RetryPolicySchema
  jo_enabled :: bool
  jo_created_at :: datetime

definition job_response :: "Job \<Rightarrow> JobResponse" where
  "job_response j =
     \<lparr>jo_id = j_id j, jo_name = j_name j, jo_job_type = j_job_type j, jo_handler = j_handler j,
      jo_timeout_seconds = j_timeout_seconds j,
      jo_retry_policy = \<lparr>rps_max_attempts = max_attempts (j_retry_policy j), rps_backoff = backoff (j_retry_policy j),
        rps_base_delay_seconds = base_delay_seconds (j_retry_policy j), rps_max_delay_seconds = max_delay_seconds (j_retry_policy j)\<rparr>,
      jo_enabled = j_enabled j, jo_created_at = j_created_at j\<rparr>"

record 'a PageResponse =
  pr_items :: "'a list"
  pr_total :: int
  pr_page :: int
  pr_page_size :: int
  pr_total_pages :: int

definition page_response :: "('a \<Rightarrow> 'b) \<Rightarrow> 'a Page \<Rightarrow> 'b PageResponse" where
  "page_response f p =
     \<lparr>pr_items = map f (pg_items p), pr_total = pg_total p, pr_page = pg_page p, pr_page_size = pg_page_size p,
      pr_total_pages = total_pages p\<rparr>"

record ExecutionResponse =
  eo_run_id :: pystr
  eo_job_id :: pystr
  eo_attempt :: int
  eo_status :: JobStatus
  eo_started_at :: "datetime option"
  eo_finished_at :: "datetime option"
  eo_duration_seconds :: pyfloat
  eo_error_message :: "pystr option"
  eo_timeout_seconds :: "pyfloat option"
  eo_max_attempts :: "int option"
  eo_cancel_requested :: bool

definition execution_response :: "JobExecution \<Rightarrow> ExecutionResponse" where
  "execution_response x =
     \<lparr>eo_run_id = x_run_id x, eo_job_id = x_job_id x, eo_attempt = x_attempt x, eo_status = x_status x,
      eo_started_at = x_started_at x, eo_finished_at = x_finished_at x, eo_duration_seconds = duration_seconds x,
      eo_error_message = x_error_message x, eo_timeout_seconds = x_timeout_seconds x, eo_max_attempts = x_max_attempts x,
      eo_cancel_requested = x_cancel_requested x\<rparr>"

record RunDetailResponse =
  rd_run_id :: pystr
  rd_job_id :: pystr
  rd_status :: JobStatus
  rd_attempts :: "ExecutionResponse list"

record JobLogResponse =
  lg_run_id :: pystr
  lg_attempt :: int
  lg_level :: pystr
  lg_message :: pystr
  lg_created_at :: datetime

definition log_response :: "JobLog \<Rightarrow> JobLogResponse" where
  "log_response l =
     \<lparr>lg_run_id = l_run_id l, lg_attempt = l_attempt l, lg_level = l_level l, lg_message = l_message l, lg_created_at = l_created_at l\<rparr>"

record JobMetricsResponse =
  mr_job :: pystr
  mr_status_counts :: "JobStatus \<Rightarrow> int"
  mr_retry_attempts :: int
  mr_success_rate :: "pyfloat option"
  mr_failure_rate :: "pyfloat option"
  mr_avg_duration_seconds :: "pyfloat option"
  mr_max_duration_seconds :: pyfloat

definition metrics_response :: "JobMetrics \<Rightarrow> JobMetricsResponse" where
  "metrics_response m =
     \<lparr>mr_job = jm_job m, mr_status_counts = jm_status_counts m, mr_retry_attempts = jm_retry_attempts m,
      mr_success_rate = success_rate m, mr_failure_rate = failure_rate m,
      mr_avg_duration_seconds = avg_duration_seconds m, mr_max_duration_seconds = jm_duration_max m\<rparr>"

record MetricsResponse =
  mo_generated_at :: datetime
  mo_window_seconds :: "pyfloat option"
  mo_jobs :: "JobMetricsResponse list"
  mo_depth :: "int option"
  mo_pending :: "int option"

datatype body =
    JobBody JobResponse
  | JobsBody "JobResponse PageResponse"
  | ExecutionBody ExecutionResponse
  | ExecutionsBody "ExecutionResponse PageResponse"
  | RunBody RunDetailResponse
  | LogsBody "JobLogResponse PageResponse"
  | CancelBody pystr CancelOutcome
  | MetricsBody MetricsResponse
  | TextBody pystr
  | AlertsBody datetime "Alert list"
  | HealthBody pystr pystr
  | ErrorBody pystr pystr
  | NoBody

record response =
  rs_status :: int
  rs_body :: body

section \<open>Errors\<close>

datatype api_exn = ApiError int pystr pystr | RequestValidationError | HTTPException int pystr | Unhandled exn

definition HTTP_CODES :: "(int \<times> pystr) list" where
  "HTTP_CODES = [(404, lit ''not_found''), (405, lit ''method_not_allowed''), (503, lit ''service_unavailable'')]"

definition error_response :: "api_exn \<Rightarrow> response" where
  "error_response e =
     (case e of
        ApiError st code message \<Rightarrow> \<lparr>rs_status = st, rs_body = ErrorBody code message\<rparr>
      | RequestValidationError \<Rightarrow>
          \<lparr>rs_status = 422, rs_body = ErrorBody (lit ''validation_error'') [0x8BF7, 0x6C42, 0x53C2, 0x6570, 0x4E0D, 0x5408, 0x6CD5]\<rparr>
      | HTTPException st detail \<Rightarrow>
          \<lparr>rs_status = st,
           rs_body = ErrorBody (case map_of HTTP_CODES st of Some c \<Rightarrow> c | None \<Rightarrow> lit ''http_error'') detail\<rparr>
      | Unhandled x \<Rightarrow>
          \<lparr>rs_status = 500, rs_body = ErrorBody (lit ''internal_error'') [0x670D, 0x52A1, 0x5185, 0x90E8, 0x9519, 0x8BEF]\<rparr>)"

section \<open>Requests\<close>

text \<open>Payloads as they arrive: an absent field is \<open>None\<close>.\<close>

record RetryPolicyIn =
  ri_max_attempts :: "int option"
  ri_backoff :: "BackoffStrategy option"
  ri_base_delay_seconds :: "pyfloat option"
  ri_max_delay_seconds :: "pyfloat option"

definition or_default :: "'a \<Rightarrow> 'a option \<Rightarrow> 'a" where
  "or_default d v = (case v of None \<Rightarrow> d | Some a \<Rightarrow> a)"

definition validate_retry_policy :: "RetryPolicyIn \<Rightarrow> api_exn + RetryPolicy" where
  "validate_retry_policy p =
     (let n = or_default 3 (ri_max_attempts p); b = or_default FIXED (ri_backoff p);
          base = or_default 1 (ri_base_delay_seconds p); most = or_default 60 (ri_max_delay_seconds p)
      in if 1 \<le> n \<and> n \<le> 20 \<and> 0 \<le> base \<and> 0 \<le> most \<and> \<not> most < base
         then Inr \<lparr>max_attempts = n, backoff = b, base_delay_seconds = base, max_delay_seconds = most\<rparr>
         else Inl RequestValidationError)"

definition validate_name :: "(pystr \<Rightarrow> pystr) \<Rightarrow> pystr \<Rightarrow> api_exn + pystr" where
  "validate_name trim v =
     (let name = trim v in if 1 \<le> length name \<and> length name \<le> 128 then Inr name else Inl RequestValidationError)"

record JobCreateIn =
  ci_name :: pystr
  ci_handler :: pystr
  ci_job_type :: "JobType option"
  ci_timeout_seconds :: "pyfloat option"
  ci_retry_policy :: "RetryPolicyIn option"
  ci_enabled :: "bool option"

record JobCreate =
  jc_name :: pystr
  jc_handler :: pystr
  jc_job_type :: JobType
  jc_timeout_seconds :: pyfloat
  jc_retry_policy :: RetryPolicy
  jc_enabled :: bool

definition empty_policy :: RetryPolicyIn where
  "empty_policy = \<lparr>ri_max_attempts = None, ri_backoff = None, ri_base_delay_seconds = None, ri_max_delay_seconds = None\<rparr>"

definition validate_create :: "(pystr \<Rightarrow> pystr) \<Rightarrow> JobCreateIn \<Rightarrow> api_exn + JobCreate" where
  "validate_create trim p =
     (case validate_name trim (ci_name p) of
        Inl e \<Rightarrow> Inl e
      | Inr name \<Rightarrow>
          (case validate_retry_policy (or_default empty_policy (ci_retry_policy p)) of
             Inl e \<Rightarrow> Inl e
           | Inr policy \<Rightarrow>
               let timeout = or_default 30 (ci_timeout_seconds p) in
               if 1 \<le> length (ci_handler p) \<and> length (ci_handler p) \<le> 128 \<and> 0 < timeout
               then Inr \<lparr>jc_name = name, jc_handler = ci_handler p, jc_job_type = or_default CUSTOM (ci_job_type p),
                         jc_timeout_seconds = timeout, jc_retry_policy = policy, jc_enabled = or_default True (ci_enabled p)\<rparr>
               else Inl RequestValidationError))"

text \<open>In an update, \<open>None\<close> is an absent field and \<open>Some None\<close> an explicit null.\<close>

record JobUpdateIn =
  ui_name :: "pystr option option"
  ui_timeout_seconds :: "pyfloat option option"
  ui_retry_policy :: "RetryPolicyIn option option"
  ui_enabled :: "bool option option"

record JobUpdate =
  ju_name :: "pystr option"
  ju_timeout_seconds :: "pyfloat option"
  ju_retry_policy :: "RetryPolicy option"
  ju_enabled :: "bool option"

definition validate_field :: "('a \<Rightarrow> api_exn + 'b) \<Rightarrow> 'a option option \<Rightarrow> api_exn + 'b option" where
  "validate_field f v =
     (case v of None \<Rightarrow> Inr None | Some None \<Rightarrow> Inl RequestValidationError
      | Some (Some a) \<Rightarrow> (case f a of Inl e \<Rightarrow> Inl e | Inr b \<Rightarrow> Inr (Some b)))"

definition validate_update :: "(pystr \<Rightarrow> pystr) \<Rightarrow> JobUpdateIn \<Rightarrow> api_exn + JobUpdate" where
  "validate_update trim p =
     (case validate_field (validate_name trim) (ui_name p) of
        Inl e \<Rightarrow> Inl e
      | Inr name \<Rightarrow>
     (case validate_field (\<lambda>t. if 0 < t then Inr t else Inl RequestValidationError) (ui_timeout_seconds p) of
        Inl e \<Rightarrow> Inl e
      | Inr timeout \<Rightarrow>
     (case validate_field validate_retry_policy (ui_retry_policy p) of
        Inl e \<Rightarrow> Inl e
      | Inr policy \<Rightarrow>
     (case validate_field Inr (ui_enabled p) of
        Inl e \<Rightarrow> Inl e
      | Inr enabled \<Rightarrow>
          if name = None \<and> timeout = None \<and> policy = None \<and> enabled = None then Inl RequestValidationError
          else Inr \<lparr>ju_name = name, ju_timeout_seconds = timeout, ju_retry_policy = policy, ju_enabled = enabled\<rparr>))))"

text \<open>\<^verbatim>\<open>Query(ge=..., le=...)\<close> on the page parameters.\<close>

definition validate_page :: "int \<Rightarrow> int \<Rightarrow> int \<Rightarrow> api_exn + unit" where
  "validate_page most page page_size =
     (if 1 \<le> page \<and> 1 \<le> page_size \<and> page_size \<le> most then Inr () else Inl RequestValidationError)"

section \<open>What validation guarantees\<close>

lemma validate_retry_policy_valid: "validate_retry_policy p = Inr q \<Longrightarrow> valid_policy q \<and> max_attempts q \<le> 20"
  by (auto simp: validate_retry_policy_def Let_def valid_policy_iff split: if_splits)

lemma validate_name_bounds: "validate_name trim v = Inr n \<Longrightarrow> n = trim v \<and> n \<noteq> [] \<and> length n \<le> 128"
  by (auto simp: validate_name_def Let_def split: if_splits)

lemma validate_field_Some: "validate_field f v = Inr (Some b) \<Longrightarrow> \<exists>a. v = Some (Some a) \<and> f a = Inr b"
  by (auto simp: validate_field_def split: option.splits sum.splits)

lemma validate_create_valid:
  assumes "validate_create trim p = Inr c"
  shows "jc_name c = trim (ci_name p)" "jc_name c \<noteq> []" "0 < jc_timeout_seconds c" "valid_policy (jc_retry_policy c)"
  using assms by (auto simp: validate_create_def Let_def split: sum.splits if_splits
      dest!: validate_name_bounds validate_retry_policy_valid)

lemma validate_update_valid:
  assumes "validate_update trim p = Inr u"
  shows "ju_name u = Some n \<Longrightarrow> \<exists>v. n = trim v \<and> n \<noteq> []" "ju_timeout_seconds u = Some t \<Longrightarrow> 0 < t"
    "ju_retry_policy u = Some q \<Longrightarrow> valid_policy q"
  using assms by (auto simp: validate_update_def split: sum.splits if_splits
      dest!: validate_field_Some validate_name_bounds dest: validate_retry_policy_valid)

lemma error_response_status:
  "rs_status (error_response e) \<ge> 400 \<longleftrightarrow> (case e of ApiError st _ _ \<Rightarrow> st \<ge> 400 | HTTPException st _ \<Rightarrow> st \<ge> 400 | _ \<Rightarrow> True)"
  by (cases e) (auto simp: error_response_def)

end
