(* ===== verification/Prometheus.thy ===== *)
theory Prometheus
  imports Metrics
begin

text \<open>
  The Prometheus text form of a snapshot (\<^verbatim>\<open>prometheus.py\<close>). The text is built line by line as in
  \<^verbatim>\<open>render_prometheus\<close>; \<open>read_quoted\<close> is how a scraper reads a quoted label value, and \<open>lines_of\<close> how it cuts the text
  into lines.
\<close>

section \<open>Rendering\<close>

definition replace_char :: "nat \<Rightarrow> pystr \<Rightarrow> pystr \<Rightarrow> pystr" where
  "replace_char c r s = concat (map (\<lambda>x. if x = c then r else [x]) s)"

definition escape :: "pystr \<Rightarrow> pystr" where
  "escape v = replace_char 10 [92, 110] (replace_char 34 [92, 34] (replace_char 92 [92, 92] v))"

fun join_with :: "pystr \<Rightarrow> pystr list \<Rightarrow> pystr" where
  "join_with sep [] = []"
| "join_with sep [s] = s"
| "join_with sep (s # t # ss) = s @ sep @ join_with sep (t # ss)"

definition labels :: "(pystr \<times> pystr) list \<Rightarrow> pystr" where
  "labels ls = lit ''{'' @ join_with (lit '','') (map (\<lambda>(k, v). k @ [61, 34] @ escape v @ [34]) ls) @ lit ''}''"

text \<open>\<^verbatim>\<open>f"{x:.6f}"\<close>\<close>

definition fixed6 :: "pyfloat \<Rightarrow> pystr" where
  "fixed6 x =
     (let n = nat (round_half_even (\<bar>x\<bar> * 1000000))
      in (if x < 0 then [45] else []) @ show_nat (n div 1000000) @ [46] @ pad 6 (n mod 1000000))"

definition COUNTER_STATUSES :: "JobStatus list" where
  "COUNTER_STATUSES = [SUCCESS, FAILED, CANCELED, RETRYING]"

definition ACTIVE_STATUSES :: "JobStatus list" where
  "ACTIVE_STATUSES = filter (\<lambda>s. s \<notin> set COUNTER_STATUSES) all_statuses"

definition prom_header :: "pystr \<Rightarrow> pystr \<Rightarrow> pystr \<Rightarrow> pystr list" where
  "prom_header name help_text metric_type =
     [lit ''# HELP '' @ name @ lit '' '' @ help_text, lit ''# TYPE '' @ name @ lit '' '' @ metric_type]"

definition sample :: "pystr \<Rightarrow> (pystr \<times> pystr) list \<Rightarrow> pystr \<Rightarrow> pystr" where
  "sample name ls value = name @ labels ls @ lit '' '' @ value"

definition status_samples :: "pystr \<Rightarrow> JobStatus list \<Rightarrow> JobMetrics list \<Rightarrow> pystr list" where
  "status_samples name sts js =
     concat (map (\<lambda>j. map (\<lambda>st.
       sample name [(lit ''job'', jm_job j), (lit ''status'', status_value st)] (show_int (jm_status_counts j st))) sts) js)"

definition prom_lines :: "MetricsSnapshot \<Rightarrow> pystr \<Rightarrow> pystr list" where
  "prom_lines s queue_name =
     prom_header (lit ''job_execution_total'') (lit ''Execution attempts by terminal status.'') (lit ''counter'')
     @ status_samples (lit ''job_execution_total'') COUNTER_STATUSES (ms_jobs s)
     @ prom_header (lit ''job_executions_active'') (lit ''Execution attempts not yet finished.'') (lit ''gauge'')
     @ status_samples (lit ''job_executions_active'') ACTIVE_STATUSES (ms_jobs s)
     @ prom_header (lit ''job_retry_total'') (lit ''Retry attempts actually executed (attempt > 1).'') (lit ''counter'')
     @ map (\<lambda>j. sample (lit ''job_retry_total'') [(lit ''job'', jm_job j)] (show_int (jm_retry_attempts j))) (ms_jobs s)
     @ prom_header (lit ''job_duration_seconds'') (lit ''Duration of finished (SUCCESS/FAILED) attempts.'') (lit ''summary'')
     @ concat (map (\<lambda>j.
         [sample (lit ''job_duration_seconds_sum'') [(lit ''job'', jm_job j)] (fixed6 (jm_duration_sum j)),
          sample (lit ''job_duration_seconds_count'') [(lit ''job'', jm_job j)] (show_int (jm_duration_count j))]) (ms_jobs s))
     @ prom_header (lit ''job_duration_seconds_max'') (lit ''Longest finished attempt.'') (lit ''gauge'')
     @ map (\<lambda>j. sample (lit ''job_duration_seconds_max'') [(lit ''job'', jm_job j)] (fixed6 (jm_duration_max j))) (ms_jobs s)
     @ (case (ms_queue_depth s, ms_queue_pending s) of
          (Some depth, Some pending) \<Rightarrow>
            prom_header (lit ''queue_depth'') (lit ''Messages not yet consumed.'') (lit ''gauge'')
            @ [sample (lit ''queue_depth'') [(lit ''queue'', queue_name)] (show_int depth)]
            @ prom_header (lit ''queue_pending'') (lit ''Messages consumed but not yet acked.'') (lit ''gauge'')
            @ [sample (lit ''queue_pending'') [(lit ''queue'', queue_name)] (show_int pending)]
        | _ \<Rightarrow> [])"

definition render_prometheus :: "MetricsSnapshot \<Rightarrow> pystr \<Rightarrow> pystr" where
  "render_prometheus s queue_name = join_with [10] (prom_lines s queue_name) @ [10]"

section \<open>Reading it back\<close>

fun read_quoted :: "pystr \<Rightarrow> (pystr \<times> pystr) option" where
  "read_quoted [] = None"
| "read_quoted (c # s) =
     (if c = 34 then Some ([], s)
      else if c = 92 then
        (case s of
           [] \<Rightarrow> None
         | e # t \<Rightarrow> map_option (\<lambda>(v, rest). ((if e = 110 then 10 else e) # v, rest)) (read_quoted t))
      else map_option (\<lambda>(v, rest). (c # v, rest)) (read_quoted s))"

definition lines_of :: "pystr \<Rightarrow> pystr list" where
  "lines_of t = (case rev (foldr (\<lambda>c ls. if c = 10 then [] # ls else (c # hd ls) # tl ls) t [[]]) of
     [] \<Rightarrow> [] | l # ls \<Rightarrow> rev ls)"

definition esc_char :: "nat \<Rightarrow> pystr" where
  "esc_char c = (if c = 92 then [92, 92] else if c = 34 then [92, 34] else if c = 10 then [92, 110] else [c])"

lemma replace_char_append [simp]: "replace_char c r (s @ t) = replace_char c r s @ replace_char c r t"
  by (simp add: replace_char_def)

lemma escape_concat: "escape s = concat (map esc_char s)"
proof (induction s)
  case (Cons c s)
  have "escape (c # s) = escape [c] @ escape s"
    by (simp add: escape_def flip: replace_char_append)
  moreover have "escape [c] = esc_char c"
    by (simp add: escape_def esc_char_def replace_char_def)
  ultimately show ?case using Cons by simp
qed (simp add: escape_def replace_char_def)

lemma read_escape: "read_quoted (escape v @ 34 # rest) = Some (v, rest)"
  unfolding escape_concat by (induction v) (auto simp: esc_char_def)

lemma escape_no_newline [simp]: "10 \<notin> set (escape v)"
  by (auto simp: escape_concat esc_char_def split: if_splits)

text \<open>
  A label value survives the text format: a scraper that reads the quoted form of any job or queue name gets the name
  back and stops at the closing quote, whatever quotes, backslashes and newlines the name has; the quoted form is one line.
\<close>

theorem prometheus_label_roundtrip:
  "read_quoted (escape v @ [34] @ rest) = Some (v, rest) \<and> 10 \<notin> set (escape v)"
  by (simp add: read_escape)

lemma foldr_lines:
  "10 \<notin> set l \<Longrightarrow> ls \<noteq> [] \<Longrightarrow> foldr (\<lambda>c ls. if c = 10 then [] # ls else (c # hd ls) # tl ls) l ls = (l @ hd ls) # tl ls"
  by (induction l) auto

lemma lines_of_foldr:
  "\<forall>l \<in> set ls. 10 \<notin> set l \<Longrightarrow>
     foldr (\<lambda>c ls. if c = 10 then [] # ls else (c # hd ls) # tl ls) (concat (map (\<lambda>l. l @ [10]) ls)) [[]] = ls @ [[]]"
  by (induction ls) (auto simp: foldr_lines)

lemma lines_of_terminated: "\<forall>l \<in> set ls. 10 \<notin> set l \<Longrightarrow> lines_of (concat (map (\<lambda>l. l @ [10]) ls)) = ls"
  by (simp add: lines_of_def lines_of_foldr)

lemma join_with_terminated: "ls \<noteq> [] \<Longrightarrow> join_with [10] ls @ [10] = concat (map (\<lambda>l. l @ [10]) ls)"
  by (induction "[10] :: pystr" ls rule: join_with.induct) auto

lemma set_join_with: "set (join_with sep ss) \<subseteq> set sep \<union> (\<Union>s \<in> set ss. set s)"
  by (induction sep ss rule: join_with.induct) auto

definition one_line :: "pystr \<Rightarrow> bool" where
  "one_line s \<longleftrightarrow> 10 \<notin> set s"

lemma one_line_append [simp]: "one_line (s @ t) \<longleftrightarrow> one_line s \<and> one_line t"
  by (simp add: one_line_def)

lemma one_line_digits: "list_all is_digit s \<Longrightarrow> one_line s"
  by (auto simp: one_line_def list_all_iff is_digit_def)

lemma one_line_numbers [simp]: "one_line (show_nat n)" "one_line (show_int i)" "one_line (pad w n)" "one_line (fixed6 x)"
proof -
  show nat: "one_line (show_nat n)" for n by (rule one_line_digits [OF show_nat_digits])
  show pad: "one_line (pad w n)" for w n by (rule one_line_digits [OF pad_digits])
  show "one_line (show_int i)" using nat by (simp add: show_int_def) (simp add: one_line_def)
  show "one_line (fixed6 x)" using nat pad by (simp add: fixed6_def Let_def) (simp add: one_line_def)
qed

lemma one_line_status [simp]: "one_line (status_value st)"
  by (cases st) (simp_all add: one_line_def lit_def)

lemma one_line_labels: "\<forall>(k, v) \<in> set ls. one_line k \<Longrightarrow> one_line (labels ls)"
  using set_join_with [of "lit '',''" "map (\<lambda>(k, v). k @ [61, 34] @ escape v @ [34]) ls"]
  by (auto simp: labels_def one_line_def lit_def)

lemma one_line_sample:
  "one_line name \<Longrightarrow> one_line value \<Longrightarrow> \<forall>(k, v) \<in> set ls. one_line k \<Longrightarrow> one_line (sample name ls value)"
  by (simp add: sample_def one_line_labels) (simp add: one_line_def lit_def)

lemma one_line_header: "one_line n \<Longrightarrow> one_line h \<Longrightarrow> one_line t \<Longrightarrow> \<forall>l \<in> set (prom_header n h t). one_line l"
  by (simp add: prom_header_def) (simp add: one_line_def lit_def)

lemma one_line_status_samples: "one_line n \<Longrightarrow> \<forall>l \<in> set (status_samples n sts js). one_line l"
  by (auto simp: status_samples_def intro!: one_line_sample) (simp_all add: one_line_def lit_def)

lemma one_line_prom_lines: "\<forall>l \<in> set (prom_lines s q). one_line l"
proof -
  have names: "one_line (lit ''job'')" "one_line (lit ''queue'')" "one_line (lit ''job_execution_total'')"
    "one_line (lit ''job_executions_active'')" "one_line (lit ''job_retry_total'')" "one_line (lit ''job_duration_seconds'')"
    "one_line (lit ''job_duration_seconds_sum'')" "one_line (lit ''job_duration_seconds_count'')"
    "one_line (lit ''job_duration_seconds_max'')" "one_line (lit ''queue_depth'')" "one_line (lit ''queue_pending'')"
    "one_line (lit ''counter'')" "one_line (lit ''gauge'')" "one_line (lit ''summary'')"
    "one_line (lit ''Execution attempts by terminal status.'')" "one_line (lit ''Execution attempts not yet finished.'')"
    "one_line (lit ''Retry attempts actually executed (attempt > 1).'')"
    "one_line (lit ''Duration of finished (SUCCESS/FAILED) attempts.'')" "one_line (lit ''Longest finished attempt.'')"
    "one_line (lit ''Messages not yet consumed.'')" "one_line (lit ''Messages consumed but not yet acked.'')"
    by (simp_all add: one_line_def lit_def)
  show ?thesis
    unfolding prom_lines_def set_append ball_Un
  proof (intro conjI one_line_header one_line_status_samples names)
    show "\<forall>l \<in> set (case (ms_queue_depth s, ms_queue_pending s) of
          (Some depth, Some pending) \<Rightarrow>
            prom_header (lit ''queue_depth'') (lit ''Messages not yet consumed.'') (lit ''gauge'')
            @ [sample (lit ''queue_depth'') [(lit ''queue'', q)] (show_int depth)]
            @ prom_header (lit ''queue_pending'') (lit ''Messages consumed but not yet acked.'') (lit ''gauge'')
            @ [sample (lit ''queue_pending'') [(lit ''queue'', q)] (show_int pending)]
        | _ \<Rightarrow> []). one_line l"
      by (cases "ms_queue_depth s"; cases "ms_queue_pending s")
        (simp_all add: ball_Un names one_line_sample, intro conjI one_line_header names)
  qed (simp_all add: names one_line_sample)
qed

text \<open>
  C37: The rendered text is line oriented whatever the job names are: cutting it at the newlines gives back exactly the
  lines \<^verbatim>\<open>render_prometheus\<close> appended, so that a name with a newline can neither break a sample nor inject one.
\<close>

theorem prometheus_text_lines: "lines_of (render_prometheus s q) = prom_lines s q"
proof -
  have "prom_lines s q \<noteq> []" by (simp add: prom_lines_def prom_header_def)
  then show ?thesis
    using one_line_prom_lines [of s q]
    by (simp add: render_prometheus_def join_with_terminated one_line_def lines_of_terminated)
qed

end
