(* ===== verification/Api.thy ===== *)
theory Api
  imports Api_Schemas Prometheus
begin

text \<open>
  The REST API (\<^verbatim>\<open>api/deps.py\<close>, \<^verbatim>\<open>api/errors.py\<close>, \<^verbatim>\<open>api/routers/\<close>). A handler works in the transaction of its request and returns
  a response or raises; \<open>api_scope\<close> is the \<^verbatim>\<open>session_scope\<close> around it together with the exception handlers. What the client sees
  when the commit itself fails is decided by the framework and is the parameter \<open>late\<close>. The application state is \<open>api_app\<close>,
  the inputs of one request (ids, clock, faults, the attempt it runs) are \<open>api_env\<close>.
\<close>

section \<open>Application and request\<close>

record 'q api_app =
  ap_registry :: TaskRegistry
  ap_queue :: "('q TaskQueue \<times> 'q) option"
  ap_rules :: AlertRules
  ap_stream :: pystr
  ap_trim :: "pystr \<Rightarrow> pystr"
  ap_fmt :: "pyfloat \<Rightarrow> pystr"
  ap_late :: "response \<Rightarrow> exn \<Rightarrow> response"

record api_env =
  ae_job_id :: pystr
  ae_now :: datetime
  ae_answered :: datetime
  ae_db_down :: bool
  ae_commit_error :: "exn option"
  ae_attempt :: "local attempt_env"

datatype request =
    ListJobs "bool option" int int
  | CreateJob JobCreateIn
  | GetJob pystr
  | UpdateJob pystr JobUpdateIn
  | DeleteJob pystr
  | PauseJob pystr
  | ResumeJob pystr
  | ListExecutions "pystr option" "JobStatus option" "datetime option" "datetime option" int int
  | GetRun pystr
  | GetRunLogs pystr "int option" int int
  | CancelRun pystr
  | GetMetrics "pyfloat option"
  | PrometheusMetrics
  | ListAlerts
  | Health

type_synonym handler = "db \<Rightarrow> api_exn + (response \<times> db)"

definition api_scope :: "(response \<Rightarrow> exn \<Rightarrow> response) \<Rightarrow> exn option \<Rightarrow> handler \<Rightarrow> db \<Rightarrow> response \<times> db" where
  "api_scope late commit_error h d =
     (case h d of
        Inl e \<Rightarrow> (error_response e, d)
      | Inr (r, d') \<Rightarrow> (case commit_error of None \<Rightarrow> (r, d') | Some e \<Rightarrow> (late r e, d)))"

definition ok :: "int \<Rightarrow> body \<Rightarrow> db \<Rightarrow> api_exn + (response \<times> db)" where
  "ok st b d = Inr (\<lparr>rs_status = st, rs_body = b\<rparr>, d)"

text \<open>An exception of the layers below that no clause of the handler catches.\<close>

definition raising :: "exn + 'a \<Rightarrow> ('a \<Rightarrow> api_exn + 'b) \<Rightarrow> api_exn + 'b" where
  "raising r f = (case r of Inl e \<Rightarrow> Inl (Unhandled e) | Inr a \<Rightarrow> f a)"

section \<open>Jobs\<close>

definition name_conflict :: "pystr \<Rightarrow> api_exn" where
  "name_conflict name = ApiError 409 (lit ''job_name_conflict'')
     ([0x4EFB, 0x52A1, 0x540D, 0x79F0, 0x5DF2, 0x5B58, 0x5728] @ lit '': '' @ name)"

definition job_not_found :: "pystr \<Rightarrow> api_exn" where
  "job_not_found job_id = ApiError 404 (lit ''job_not_found'') ([0x4EFB, 0x52A1, 0x4E0D, 0x5B58, 0x5728] @ lit '': '' @ job_id)"

definition handler_not_registered :: "int \<Rightarrow> pystr \<Rightarrow> api_exn" where
  "handler_not_registered st h = ApiError st (lit ''handler_not_registered'') (lit ''handler '' @ [0x672A, 0x6CE8, 0x518C] @ lit '': '' @ h)"

definition get_or_404 :: "pystr \<Rightarrow> db \<Rightarrow> api_exn + Job" where
  "get_or_404 job_id d = raising (job_get job_id d) (\<lambda>j. case j of None \<Rightarrow> Inl (job_not_found job_id) | Some j \<Rightarrow> Inr j)"

definition list_jobs :: "bool option \<Rightarrow> int \<Rightarrow> int \<Rightarrow> handler" where
  "list_jobs enabled page page_size d =
     raising (job_list_paginated enabled page page_size d) (\<lambda>p. ok 200 (JobsBody (page_response job_response p)) d)"

definition requested_job :: "pystr \<Rightarrow> datetime \<Rightarrow> JobCreate \<Rightarrow> RetryPolicy \<Rightarrow> Job" where
  "requested_job fresh_id now payload policy =
     \<lparr>j_name = jc_name payload, j_job_type = jc_job_type payload, j_handler = jc_handler payload, j_id = fresh_id,
      j_timeout_seconds = jc_timeout_seconds payload, j_retry_policy = policy, j_enabled = jc_enabled payload, j_created_at = now\<rparr>"

definition create_job :: "TaskRegistry \<Rightarrow> pystr \<Rightarrow> datetime \<Rightarrow> JobCreate \<Rightarrow> handler" where
  "create_job reg fresh_id now payload d =
     (if \<not> is_registered (jc_handler payload) reg then Inl (handler_not_registered 422 (jc_handler payload))
      else raising (job_get_by_name (jc_name payload) d) (\<lambda>found.
        if found \<noteq> None then Inl (name_conflict (jc_name payload))
        else raising (RetryPolicy_post_init (jc_retry_policy payload)) (\<lambda>policy.
          raising (Job_post_init (requested_job fresh_id now payload policy)) (\<lambda>job.
            case job_add job d of
              Inl IntegrityError \<Rightarrow> Inl (name_conflict (jc_name payload))
            | Inl e \<Rightarrow> Inl (Unhandled e)
            | Inr (_, d') \<Rightarrow> ok 201 (JobBody (job_response job)) d'))))"

definition get_job :: "pystr \<Rightarrow> handler" where
  "get_job job_id d = (case get_or_404 job_id d of Inl e \<Rightarrow> Inl e | Inr j \<Rightarrow> ok 200 (JobBody (job_response j)) d)"

text \<open>The fields present in the payload, after the check of a new name. The dump of a nested policy leaves out its absent fields;
  the constructor then fills in the defaults, which are those of the schema.\<close>

definition apply_changes :: "JobUpdate \<Rightarrow> RetryPolicy \<Rightarrow> Job \<Rightarrow> Job" where
  "apply_changes u policy j =
     j\<lparr>j_name := or_default (j_name j) (ju_name u), j_timeout_seconds := or_default (j_timeout_seconds j) (ju_timeout_seconds u),
       j_retry_policy := policy, j_enabled := or_default (j_enabled j) (ju_enabled u)\<rparr>"

definition update_job :: "pystr \<Rightarrow> JobUpdate \<Rightarrow> handler" where
  "update_job job_id u d =
     (case get_or_404 job_id d of
        Inl e \<Rightarrow> Inl e
      | Inr job \<Rightarrow>
          raising (case ju_name u of
                     Some n \<Rightarrow> if n \<noteq> j_name job then job_get_by_name n d else Inr None
                   | None \<Rightarrow> Inr None) (\<lambda>found.
            if found \<noteq> None then Inl (name_conflict (or_default (j_name job) (ju_name u)))
            else raising (case ju_retry_policy u of None \<Rightarrow> Inr (j_retry_policy job) | Some p \<Rightarrow> RetryPolicy_post_init p) (\<lambda>policy.
              let job' = apply_changes u policy job in
              case job_update job' d of
                Inl IntegrityError \<Rightarrow> Inl (name_conflict (j_name job'))
              | Inl e \<Rightarrow> Inl (Unhandled e)
              | Inr (_, d') \<Rightarrow> ok 200 (JobBody (job_response job')) d')))"

definition delete_job :: "pystr \<Rightarrow> handler" where
  "delete_job job_id d =
     raising (job_delete job_id d) (\<lambda>(found, d'). if \<not> found then Inl (job_not_found job_id) else ok 204 NoBody d')"

definition set_enabled :: "bool \<Rightarrow> pystr \<Rightarrow> handler" where
  "set_enabled enabled job_id d =
     (case get_or_404 job_id d of
        Inl e \<Rightarrow> Inl e
      | Inr job \<Rightarrow> raising (job_update (job\<lparr>j_enabled := enabled\<rparr>) d) (\<lambda>(_, d'). ok 200 (JobBody (job_response (job\<lparr>j_enabled := enabled\<rparr>))) d'))"

text \<open>The end of \<^verbatim>\<open>run_job\<close>, in the transaction of the request.\<close>

definition record_run :: "JobExecution \<Rightarrow> JobLog list \<Rightarrow> handler" where
  "record_run x logs d =
     raising (exec_add x d) (\<lambda>(_, d1).
       raising (if logs \<noteq> [] then log_add_many logs d1 else Inr ((), d1)) (\<lambda>(_, d2). ok 201 (ExecutionBody (execution_response x)) d2))"

definition run_job :: "'q api_app \<Rightarrow> api_env \<Rightarrow> pystr \<Rightarrow> local \<Rightarrow> (local, response) progress" where
  "run_job app env job_id s =
     (case get_or_404 job_id (lo_db s) of
        Inl e \<Rightarrow> Done (Inr (error_response e)) s
      | Inr job \<Rightarrow>
          (case run_local (ap_fmt app) (ap_registry app) (ae_attempt env) job 1 None s of
             Waiting s1 \<Rightarrow> Waiting s1
           | Done (Inl (JobNotRegisteredError n)) s1 \<Rightarrow> Done (Inr (error_response (handler_not_registered 409 (j_handler job)))) s1
           | Done (Inl e) s1 \<Rightarrow> Done (Inr (error_response (Unhandled e))) s1
           | Done (Inr res) s1 \<Rightarrow>
               (let x = ar_execution res;
                    (logs, b) = drain_logs (x_run_id x) (x_attempt x) (lo_buffer s1);
                    (r, d) = api_scope (ap_late app) (ae_commit_error env) (record_run x logs) (lo_db s1)
                in Done (Inr r) (s1\<lparr>lo_buffer := b, lo_db := d\<rparr>))))"

section \<open>Executions\<close>

definition require_aware :: "pystr \<Rightarrow> datetime option \<Rightarrow> api_exn + datetime option" where
  "require_aware name v =
     (case v of
        Some t \<Rightarrow> if tzinfo t = None
                  then Inl (ApiError 422 (lit ''validation_error'')
                         (name @ [0x20, 0x5FC5, 0x987B, 0x5E26, 0x65F6, 0x533A, 0xFF0C, 0x4F8B, 0x5982] @ lit '' 2026-10-01T00:00:00Z''))
                  else Inr v
      | None \<Rightarrow> Inr None)"

definition list_executions ::
  "pystr option \<Rightarrow> JobStatus option \<Rightarrow> datetime option \<Rightarrow> datetime option \<Rightarrow> int \<Rightarrow> int \<Rightarrow> handler" where
  "list_executions job_id st started_after started_before page page_size d =
     (case require_aware (lit ''started_after'') started_after of
        Inl e \<Rightarrow> Inl e
      | Inr after \<Rightarrow>
          (case require_aware (lit ''started_before'') started_before of
             Inl e \<Rightarrow> Inl e
           | Inr before \<Rightarrow>
               raising (exec_list_paginated job_id st after before page page_size d) (\<lambda>p.
                 ok 200 (ExecutionsBody (page_response execution_response p)) d)))"

definition run_not_found :: "pystr \<Rightarrow> api_exn" where
  "run_not_found run_id = ApiError 404 (lit ''run_not_found'')
     ([0x8FD0, 0x884C, 0x8BB0, 0x5F55, 0x4E0D, 0x5B58, 0x5728] @ lit '': '' @ run_id)"

definition get_run :: "pystr \<Rightarrow> handler" where
  "get_run run_id d =
     (let attempts = exec_list_by_run run_id d in
      if attempts = [] then Inl (run_not_found run_id)
      else ok 200 (RunBody \<lparr>rd_run_id = run_id, rd_job_id = x_job_id (last attempts), rd_status = x_status (last attempts),
             rd_attempts = map execution_response attempts\<rparr>) d)"

definition get_run_logs :: "pystr \<Rightarrow> int option \<Rightarrow> int \<Rightarrow> int \<Rightarrow> handler" where
  "get_run_logs run_id attempt page page_size d =
     (if exec_list_by_run run_id d = [] then Inl (run_not_found run_id)
      else raising (log_list_by_run run_id attempt page page_size d) (\<lambda>p. ok 200 (LogsBody (page_response log_response p)) d))"

definition cancel_run :: "datetime \<Rightarrow> pystr \<Rightarrow> handler" where
  "cancel_run now run_id d =
     raising (request_cancel now run_id d) (\<lambda>(outcome, d').
       case outcome of
         CO_NOT_FOUND \<Rightarrow> Inl (run_not_found run_id)
       | CO_ALREADY_FINISHED \<Rightarrow> Inl (ApiError 409 (lit ''run_already_finished'') ([0x8FD0, 0x884C, 0x5DF2, 0x7ED3, 0x675F] @ lit '': '' @ run_id))
       | CO_NOT_CANCELLABLE \<Rightarrow>
           Inl (ApiError 409 (lit ''run_not_cancellable'') ([0x5F53, 0x524D, 0x72B6, 0x6001, 0x4E0D, 0x53EF, 0x53D6, 0x6D88] @ lit '': '' @ run_id))
       | _ \<Rightarrow> ok 200 (CancelBody run_id outcome) d')"

section \<open>Metrics, alerts and health\<close>

definition get_metrics :: "('q TaskQueue \<times> 'q) option \<Rightarrow> datetime \<Rightarrow> pyfloat option \<Rightarrow> handler" where
  "get_metrics queue now window_seconds d =
     raising (case window_seconds of None \<Rightarrow> Inr None | Some w \<Rightarrow> map_sum id Some (timedelta_seconds w)) (\<lambda>window.
       raising (collect_metrics queue window now d) (\<lambda>s.
         ok 200 (MetricsBody \<lparr>mo_generated_at = ms_generated_at s, mo_window_seconds = window_seconds,
                  mo_jobs = map metrics_response (ms_jobs s), mo_depth = ms_queue_depth s, mo_pending = ms_queue_pending s\<rparr>) d))"

definition prometheus_metrics :: "('q TaskQueue \<times> 'q) option \<Rightarrow> pystr \<Rightarrow> datetime \<Rightarrow> handler" where
  "prometheus_metrics queue stream now d =
     raising (collect_metrics queue None now d) (\<lambda>s. ok 200 (TextBody (render_prometheus s stream)) d)"

definition list_alerts :: "('q TaskQueue \<times> 'q) option \<Rightarrow> AlertRules \<Rightarrow> pystr \<Rightarrow> datetime \<Rightarrow> datetime \<Rightarrow> handler" where
  "list_alerts queue rules stream now generated_at d =
     raising (evaluate_alerts queue (Some rules) stream now d) (\<lambda>alerts. ok 200 (AlertsBody generated_at alerts) d)"

definition health :: "bool \<Rightarrow> handler" where
  "health db_down d =
     (if db_down then Inl (HTTPException 503 (lit ''database unavailable'')) else ok 200 (HealthBody (lit ''ok'') (lit ''ok'')) d)"

section \<open>Requests\<close>

definition checked :: "api_exn + 'a \<Rightarrow> ('a \<Rightarrow> handler) \<Rightarrow> handler" where
  "checked v h d = (case v of Inl e \<Rightarrow> Inl e | Inr a \<Rightarrow> h a d)"

definition api_handler :: "'q api_app \<Rightarrow> api_env \<Rightarrow> request \<Rightarrow> handler" where
  "api_handler app env req =
     (case req of
        ListJobs enabled page page_size \<Rightarrow> checked (validate_page 100 page page_size) (\<lambda>_. list_jobs enabled page page_size)
      | CreateJob p \<Rightarrow> checked (validate_create (ap_trim app) p) (create_job (ap_registry app) (ae_job_id env) (ae_now env))
      | GetJob job_id \<Rightarrow> get_job job_id
      | UpdateJob job_id p \<Rightarrow> checked (validate_update (ap_trim app) p) (update_job job_id)
      | DeleteJob job_id \<Rightarrow> delete_job job_id
      | PauseJob job_id \<Rightarrow> set_enabled False job_id
      | ResumeJob job_id \<Rightarrow> set_enabled True job_id
      | ListExecutions job_id st t0 t1 page page_size \<Rightarrow>
          checked (validate_page 100 page page_size) (\<lambda>_. list_executions job_id st t0 t1 page page_size)
      | GetRun run_id \<Rightarrow> get_run run_id
      | GetRunLogs run_id attempt page page_size \<Rightarrow>
          checked (if (case attempt of None \<Rightarrow> True | Some a \<Rightarrow> 1 \<le> a) then validate_page 1000 page page_size else Inl RequestValidationError)
            (\<lambda>_. get_run_logs run_id attempt page page_size)
      | CancelRun run_id \<Rightarrow> cancel_run (ae_now env) run_id
      | GetMetrics w \<Rightarrow>
          checked (if (case w of None \<Rightarrow> True | Some x \<Rightarrow> 0 < x \<and> x \<le> 315360000) then Inr () else Inl RequestValidationError)
            (\<lambda>_. get_metrics (ap_queue app) (ae_now env) w)
      | PrometheusMetrics \<Rightarrow> prometheus_metrics (ap_queue app) (ap_stream app) (ae_now env)
      | ListAlerts \<Rightarrow> list_alerts (ap_queue app) (ap_rules app) (ap_stream app) (ae_now env) (ae_answered env)
      | Health \<Rightarrow> health (ae_db_down env))"

definition api_request :: "'q api_app \<Rightarrow> api_env \<Rightarrow> request \<Rightarrow> db \<Rightarrow> response \<times> db" where
  "api_request app env req d = api_scope (ap_late app) (ae_commit_error env) (api_handler app env req) d"

text \<open>The start of the application (\<^verbatim>\<open>api/app.py\<close>): the reconciliation of the jobs, and the queue for the metrics, if it is asked for
  and can be built. \<open>normalise\<close> is \<^verbatim>\<open>strip().lower()\<close>.\<close>

definition api_startup :: "'q api_app \<Rightarrow> exn option \<Rightarrow> (pystr \<Rightarrow> pystr) \<Rightarrow> datetime \<Rightarrow> db \<Rightarrow> (exn + (pystr \<times> Job) list) \<times> db" where
  "api_startup app commit_error ids now d = session_scope commit_error (sync_jobs_to_db ids now (ap_registry app)) d"

definition build_metrics_queue :: "(pystr \<Rightarrow> pystr) \<Rightarrow> pystr option \<Rightarrow> exn + 'q \<Rightarrow> 'q option" where
  "build_metrics_queue normalise setting built =
     (if normalise (or_default [] setting) \<notin> {lit ''1'', lit ''true'', lit ''yes''} then None
      else case built of Inl e \<Rightarrow> None | Inr q \<Rightarrow> Some q)"

section \<open>Errors change nothing\<close>

text \<open>A handler never answers with an error status of its own accord, and what it raises has an error status.\<close>

definition well_behaved :: "handler \<Rightarrow> bool" where
  "well_behaved h \<longleftrightarrow>
     (\<forall>d. case h d of Inl e \<Rightarrow> 400 \<le> rs_status (error_response e) | Inr (r, d') \<Rightarrow> rs_status r < 400)"

lemma ok_eq [simp]: "ok st b d = Inr (\<lparr>rs_status = st, rs_body = b\<rparr>, d)"
  by (simp add: ok_def)

lemma raising_eq [simp]: "raising (Inl e) f = Inl (Unhandled e)" "raising (Inr a) f = f a"
  by (simp_all add: raising_def)

lemma error_status [simp]:
  "rs_status (error_response (ApiError st c m)) = st" "rs_status (error_response RequestValidationError) = 422"
  "rs_status (error_response (HTTPException st m)) = st" "rs_status (error_response (Unhandled e)) = 500"
  by (simp_all add: error_response_def)

lemmas api_errors = name_conflict_def job_not_found_def handler_not_registered_def run_not_found_def raising_def

lemma get_or_404_Inl: "get_or_404 i d = Inl e \<Longrightarrow> 400 \<le> rs_status (error_response e)"
  by (auto simp: get_or_404_def api_errors split: sum.splits option.splits)

lemma validate_Inl:
  "validate_page m p n = Inl e \<Longrightarrow> e = RequestValidationError"
  "validate_create f c = Inl e \<Longrightarrow> e = RequestValidationError"
  "validate_update f u = Inl e \<Longrightarrow> e = RequestValidationError"
  by (auto simp: validate_page_def validate_create_def validate_update_def validate_field_def validate_name_def
      validate_retry_policy_def Let_def split: if_splits sum.splits option.splits)

lemma handlers_well_behaved:
  "well_behaved (list_jobs b p n)" "well_behaved (create_job reg i t c)" "well_behaved (get_job i)"
  "well_behaved (update_job i u)" "well_behaved (delete_job i)" "well_behaved (set_enabled en i)"
  "well_behaved (record_run x logs)"
  "well_behaved (list_executions j st t0 t1 p n)" "well_behaved (get_run r)" "well_behaved (get_run_logs r a p n)"
  "well_behaved (cancel_run t r)" "well_behaved (get_metrics q t w)" "well_behaved (prometheus_metrics q k t)"
  "well_behaved (list_alerts q ru k t g)" "well_behaved (health down)"
  subgoal by (auto simp: well_behaved_def list_jobs_def api_errors split: sum.splits)
  subgoal by (auto simp: well_behaved_def create_job_def api_errors split: sum.splits exn.splits)
  subgoal by (auto simp: well_behaved_def get_job_def get_or_404_Inl split: sum.splits)
  subgoal by (auto simp: well_behaved_def update_job_def get_or_404_Inl Let_def api_errors split: sum.splits exn.splits)
  subgoal by (auto simp: well_behaved_def delete_job_def api_errors split: sum.splits)
  subgoal by (auto simp: well_behaved_def set_enabled_def get_or_404_Inl api_errors split: sum.splits)
  subgoal by (auto simp: well_behaved_def record_run_def api_errors split: sum.splits)
  subgoal by (auto simp: well_behaved_def list_executions_def require_aware_def api_errors split: sum.splits option.splits if_splits)
  subgoal by (auto simp: well_behaved_def get_run_def api_errors Let_def)
  subgoal by (auto simp: well_behaved_def get_run_logs_def api_errors split: sum.splits)
  subgoal by (auto simp: well_behaved_def cancel_run_def api_errors split: sum.splits CancelOutcome.splits)
  subgoal by (auto simp: well_behaved_def get_metrics_def api_errors split: sum.splits)
  subgoal by (auto simp: well_behaved_def prometheus_metrics_def api_errors split: sum.splits)
  subgoal by (auto simp: well_behaved_def list_alerts_def api_errors split: sum.splits)
  subgoal by (auto simp: well_behaved_def health_def api_errors)
  done

lemma checked_well_behaved:
  assumes "\<And>e. v = Inl e \<Longrightarrow> e = RequestValidationError" and "\<And>a. v = Inr a \<Longrightarrow> well_behaved (h a)"
  shows "well_behaved (checked v h)"
  using assms by (cases v) (auto simp: well_behaved_def checked_def error_response_def)

lemma api_handler_well_behaved: "well_behaved (api_handler app env req)"
  by (cases req) (auto simp: api_handler_def handlers_well_behaved split: if_splits
      intro!: checked_well_behaved dest: validate_Inl)

lemma api_scope_error:
  assumes "well_behaved h" and "api_scope late f h d = (r, d')" and "400 \<le> rs_status r"
  shows "d' = d"
proof -
  have "case h d of Inl e \<Rightarrow> 400 \<le> rs_status (error_response e) | Inr (r, d') \<Rightarrow> rs_status r < 400"
    using assms(1) by (simp add: well_behaved_def)
  with assms(2,3) show ?thesis by (auto simp: api_scope_def split: sum.splits option.splits)
qed

section \<open>Invariants\<close>

text \<open>The one kind of input the API is not ready for: pydantic and Python disagree on what white space is, so the new name in an
  update may be more than white space for the schema and blank for the constructor of \<^verbatim>\<open>Job\<close>
  (\<open>api_rename_to_blank\<close> below shows what then happens).\<close>

definition plain_rename :: "(pystr \<Rightarrow> pystr) \<Rightarrow> request \<Rightarrow> bool" where
  "plain_rename trim req =
     (case req of
        UpdateJob i p \<Rightarrow> (case ui_name p of Some (Some v) \<Rightarrow> trim v = [] \<or> \<not> blank (trim v) | _ \<Rightarrow> True)
      | _ \<Rightarrow> True)"

lemma readers_same_db:
  "list_jobs b p n d = Inr (r, d') \<Longrightarrow> d' = d" "get_job i d = Inr (r, d') \<Longrightarrow> d' = d"
  "list_executions j st t0 t1 p n d = Inr (r, d') \<Longrightarrow> d' = d" "get_run k d = Inr (r, d') \<Longrightarrow> d' = d"
  "get_run_logs k a p n d = Inr (r, d') \<Longrightarrow> d' = d" "get_metrics q t w d = Inr (r, d') \<Longrightarrow> d' = d"
  "prometheus_metrics q k t d = Inr (r, d') \<Longrightarrow> d' = d" "list_alerts q ru k t g d = Inr (r, d') \<Longrightarrow> d' = d"
  "health down d = Inr (r, d') \<Longrightarrow> d' = d"
  by (auto simp: list_jobs_def get_job_def list_executions_def get_run_def get_run_logs_def get_metrics_def
      prometheus_metrics_def list_alerts_def health_def raising_def Let_def split: sum.splits if_splits)

lemma get_or_404_Inr: "get_or_404 i d = Inr j \<Longrightarrow> job_get i d = Inr (Some j) \<and> valid_job j \<and> j_id j = i"
  by (auto simp: get_or_404_def raising_def job_get_def opt_job_def find_Some_iff split: sum.splits option.splits
      dest!: record_to_job_valid)

lemma create_job_Inr:
  assumes "create_job reg i t c d = Inr (r, d')"
  obtains j where "j = requested_job i t c (jc_retry_policy c)" "valid_job j" "job_add j d = Inr ((), d')"
    "r = \<lparr>rs_status = 201, rs_body = JobBody (job_response j)\<rparr>"
  using assms by (auto simp: create_job_def raising_def Job_post_init_def valid_job_def requested_job_def split: if_splits sum.splits exn.splits)

lemma update_job_Inr:
  assumes "update_job i u d = Inr (r, d')" and "\<And>n. ju_name u = Some n \<Longrightarrow> \<not> blank n"
    and "\<And>t. ju_timeout_seconds u = Some t \<Longrightarrow> 0 < t"
  obtains j0 j where "job_get i d = Inr (Some j0)" "j_id j = j_id j0" "j_created_at j = j_created_at j0" "j_id j0 = i" "valid_job j"
    "job_update j d = Inr ((), d')" "r = \<lparr>rs_status = 200, rs_body = JobBody (job_response j)\<rparr>"
proof -
  from assms(1) obtain j0 policy where j0: "get_or_404 i d = Inr j0"
    and policy: "(case ju_retry_policy u of None \<Rightarrow> Inr (j_retry_policy j0) | Some p \<Rightarrow> RetryPolicy_post_init p) = Inr policy"
    and upd: "job_update (apply_changes u policy j0) d = Inr ((), d')"
    and r: "r = \<lparr>rs_status = 200, rs_body = JobBody (job_response (apply_changes u policy j0))\<rparr>"
    by (auto simp: update_job_def raising_def Let_def split: if_splits sum.splits exn.splits)
  from get_or_404_Inr [OF j0] have "valid_job j0" by simp
  with policy have "valid_job (apply_changes u policy j0)"
    by (auto simp: apply_changes_def valid_job_def or_default_def assms(2,3) split: option.splits)
  with get_or_404_Inr [OF j0] upd r that [of j0 "apply_changes u policy j0"] show thesis by (auto simp: apply_changes_def)
qed

lemma set_enabled_Inr:
  assumes "set_enabled b i d = Inr (r, d')"
  obtains j0 j where "job_get i d = Inr (Some j0)" "j_id j = j_id j0" "j_created_at j = j_created_at j0" "j_id j0 = i" "valid_job j"
    "job_update j d = Inr ((), d')" "r = \<lparr>rs_status = 200, rs_body = JobBody (job_response j)\<rparr>"
proof -
  from assms obtain j0 where j0: "get_or_404 i d = Inr j0" and upd: "job_update (j0\<lparr>j_enabled := b\<rparr>) d = Inr ((), d')"
    and r: "r = \<lparr>rs_status = 200, rs_body = JobBody (job_response (j0\<lparr>j_enabled := b\<rparr>))\<rparr>"
    by (auto simp: set_enabled_def raising_def split: sum.splits)
  with get_or_404_Inr [OF j0] that [of j0 "j0\<lparr>j_enabled := b\<rparr>"] show thesis by (auto simp: valid_job_def)
qed

lemma validated_names:
  "plain_rename trim (UpdateJob i p) \<Longrightarrow> validate_update trim p = Inr u \<Longrightarrow> ju_name u = Some n \<Longrightarrow> \<not> blank n"
  by (auto simp: plain_rename_def validate_update_def validate_name_def Let_def split: sum.splits if_splits option.splits
      dest!: validate_field_Some)

definition handler_keeps :: "(db \<Rightarrow> bool) \<Rightarrow> handler \<Rightarrow> bool" where
  "handler_keeps I h \<longleftrightarrow> (\<forall>d r d'. I d \<longrightarrow> h d = Inr (r, d') \<longrightarrow> I d')"

lemma handler_keepsI: "(\<And>d r d'. I d \<Longrightarrow> h d = Inr (r, d') \<Longrightarrow> I d') \<Longrightarrow> handler_keeps I h"
  by (auto simp: handler_keeps_def)

lemma handler_same_db: "(\<And>d r d'. h d = Inr (r, d') \<Longrightarrow> d' = d) \<Longrightarrow> handler_keeps I h"
  by (auto simp: handler_keeps_def)

lemma checked_keeps: "(\<And>a. v = Inr a \<Longrightarrow> handler_keeps I (h a)) \<Longrightarrow> handler_keeps I (checked v h)"
  by (cases v) (auto simp: handler_keeps_def checked_def)

lemma readers_keep:
  "handler_keeps I (list_jobs b p n)" "handler_keeps I (get_job i)" "handler_keeps I (list_executions j st t0 t1 p n)"
  "handler_keeps I (get_run k)" "handler_keeps I (get_run_logs k a p n)" "handler_keeps I (get_metrics q t w)"
  "handler_keeps I (prometheus_metrics q k t)" "handler_keeps I (list_alerts q ru k t g)" "handler_keeps I (health down)"
  by (rule handler_same_db, erule readers_same_db)+

lemma api_scope_keeps: "handler_keeps I h \<Longrightarrow> I d \<Longrightarrow> I (snd (api_scope late f h d))"
  by (auto simp: handler_keeps_def api_scope_def split: sum.splits option.splits)

context db_invariant
begin

lemma writers_keep:
  "handler_keeps I (create_job reg i t c)"
  "\<lbrakk>\<And>n. ju_name u = Some n \<Longrightarrow> \<not> blank n; \<And>t. ju_timeout_seconds u = Some t \<Longrightarrow> 0 < t\<rbrakk> \<Longrightarrow> handler_keeps I (update_job i u)"
  "handler_keeps I (set_enabled b i)" "keeps I (job_delete i) \<Longrightarrow> handler_keeps I (delete_job i)" "handler_keeps I (cancel_run t k)"
  "handler_keeps I (record_run x logs)"
  subgoal by (rule handler_keepsI, elim create_job_Inr) (auto dest: keepsD [OF job_add_keeps])
  subgoal by (rule handler_keepsI, elim update_job_Inr) (auto dest: keepsD [OF job_update_keeps])
  subgoal by (rule handler_keepsI, elim set_enabled_Inr) (auto dest: keepsD [OF job_update_keeps])
  subgoal by (rule handler_keepsI)
      (auto simp: delete_job_def raising_def split: sum.splits if_splits dest: keepsD)
  subgoal by (rule handler_keepsI)
      (auto simp: cancel_run_def raising_def split: sum.splits CancelOutcome.splits dest: keepsD [OF request_cancel_keeps])
  subgoal by (rule handler_keepsI)
      (auto simp: record_run_def raising_def split: sum.splits if_splits
        intro: keepsD [OF exec_add_keeps] keepsD [OF log_add_many_keeps keepsD [OF exec_add_keeps]])
  done

text \<open>Deleting a job is the one request that an invariant need not survive by the laws of the locale.\<close>

lemma api_handler_keeps:
  assumes "plain_rename (ap_trim app) req" and "\<And>i. req = DeleteJob i \<Longrightarrow> keeps I (job_delete i)"
  shows "handler_keeps I (api_handler app env req)"
proof (cases req)
  case (DeleteJob i)
  then show ?thesis by (simp add: api_handler_def writers_keep(4) assms(2))
next
  case (UpdateJob i p)
  have "handler_keeps I (update_job i u)" if u: "validate_update (ap_trim app) p = Inr u" for u
  proof (rule writers_keep(2))
    show "\<not> blank n" if "ju_name u = Some n" for n using validated_names [OF _ u that] assms(1) UpdateJob by blast
    show "0 < t" if "ju_timeout_seconds u = Some t" for t using validate_update_valid(2) [OF u that] .
  qed
  then have "handler_keeps I (checked (validate_update (ap_trim app) p) (update_job i))" by (rule checked_keeps)
  then show ?thesis by (simp add: UpdateJob api_handler_def)
qed (auto simp: api_handler_def intro!: checked_keeps writers_keep(1,3,5) readers_keep)

lemma api_request_keeps:
  assumes "plain_rename (ap_trim app) req" and "\<And>i. req = DeleteJob i \<Longrightarrow> keeps I (job_delete i)" and "I d"
  shows "I (snd (api_request app env req d))"
  unfolding api_request_def by (rule api_scope_keeps [OF api_handler_keeps [OF assms(1,2)] assms(3)])

lemma run_job_keeps:
  assumes "polls_keep I (ae_attempt env)" and "I (lo_db s)"
  shows "I (lo_db (state_of (run_job app env i s)))"
proof (cases "get_or_404 i (lo_db s)")
  case (Inl e)
  with assms(2) show ?thesis by (simp add: run_job_def)
next
  case (Inr job)
  have run: "I (lo_db (state_of (run_local (ap_fmt app) (ap_registry app) (ae_attempt env) job 1 None s)))"
    by (rule run_local_preserves) (use assms in \<open>auto simp: polls_keep_def\<close>)
  moreover have "I d \<Longrightarrow> I (snd (api_scope late f (record_run x logs) d))" for late f x logs d
    by (rule api_scope_keeps [OF writers_keep(6)])
  ultimately show ?thesis
    by (auto simp: run_job_def Inr split_beta Let_def split: progress.splits sum.splits exn.splits)
qed

end

section \<open>Properties\<close>

text \<open>C12: An error response changes nothing: when a request is answered with a status of 400 or more, whether from validation,
  a business error, an unexpected exception or a failing commit, the database is the one before the request.\<close>

theorem api_error_unchanged:
  assumes "api_request app env req d = (r, d')" and "400 \<le> rs_status r"
  shows "d' = d"
  using api_scope_error [OF api_handler_well_behaved] assms unfolding api_request_def by blast

lemma job_add_get:
  assumes "job_add j d = Inr (u, d')" and "valid_job j"
  shows "job_get (j_id j) d' = Inr (Some j)"
  using assms by (auto simp: job_add_def job_get_def opt_job_def find_append list_ex_iff find_None_iff record_job_roundtrip
      split: if_splits option.splits) (auto simp: job_to_record_def find_Some_iff)

lemma update_record_get:
  "valid_job j \<Longrightarrow> j_id j = jr_id r \<Longrightarrow> j_created_at j = jr_created_at r \<Longrightarrow> record_to_job (update_job_record r j) = Inr j"
  by (cases j) (simp add: record_to_job_def update_job_record_def valid_job_def Job_post_init_def)

lemma job_update_get:
  assumes "job_get i d = Inr (Some j0)" and "job_update j d = Inr (u, d')" and "j_id j = i" and "j_created_at j = j_created_at j0"
    and "valid_job j"
  shows "job_get i d' = Inr (Some j)"
proof -
  from assms(1) obtain r where r: "find (\<lambda>r. jr_id r = i) (t_jobs d) = Some r" "record_to_job r = Inr j0"
    by (auto simp: job_get_def opt_job_def split: option.splits sum.splits)
  have "jr_id r = i" using r(1) by (auto simp: find_Some_iff)
  moreover have "jr_created_at r = j_created_at j0"
    using r(2) by (auto simp: record_to_job_def Job_post_init_def split: sum.splits if_splits)
  moreover have "t_jobs d' = update_first (\<lambda>r. jr_id r = i) (\<lambda>r. update_job_record r j) (t_jobs d)"
    using assms(2,3) by (auto simp: job_update_def split: if_splits)
  ultimately show ?thesis
    using r(1) assms(3-5) by (simp add: job_get_def opt_job_def find_update_first_same update_job_record_def
        update_record_get [unfolded update_job_record_def])
qed

lemma api_handler_job_stored:
  assumes "plain_rename (ap_trim app) req" and "api_handler app env req d = Inr (r, d')" and "rs_body r = JobBody b"
  shows "\<exists>j. job_get (jo_id b) d' = Inr (Some j) \<and> b = job_response j"
proof -
  have id: "jo_id (job_response j) = j_id j" for j by (simp add: job_response_def)
  show ?thesis
  proof (cases req)
    case (CreateJob p)
    with assms(2) obtain c where c: "create_job (ap_registry app) (ae_job_id env) (ae_now env) c d = Inr (r, d')"
      by (auto simp: api_handler_def checked_def split: sum.splits)
    show ?thesis by (rule create_job_Inr [OF c]) (use assms(3) in \<open>auto simp: id dest: job_add_get\<close>)
  next
    case (UpdateJob i p)
    with assms(2) obtain u where v: "validate_update (ap_trim app) p = Inr u" and u: "update_job i u d = Inr (r, d')"
      by (auto simp: api_handler_def checked_def split: sum.splits)
    show ?thesis
      by (rule update_job_Inr [OF u])
        (use assms(3) in \<open>auto simp: id dest: job_update_get validated_names [OF assms(1) [unfolded UpdateJob] v] validate_update_valid(2) [OF v]\<close>)
  next
    case (GetJob i)
    with assms(2,3) show ?thesis
      by (auto simp: api_handler_def get_job_def id split: sum.splits dest!: get_or_404_Inr)
  next
    case (PauseJob i)
    with assms(2) have e: "set_enabled False i d = Inr (r, d')" by (simp add: api_handler_def)
    show ?thesis by (rule set_enabled_Inr [OF e]) (use assms(3) in \<open>auto simp: id dest: job_update_get\<close>)
  next
    case (ResumeJob i)
    with assms(2) have e: "set_enabled True i d = Inr (r, d')" by (simp add: api_handler_def)
    show ?thesis by (rule set_enabled_Inr [OF e]) (use assms(3) in \<open>auto simp: id dest: job_update_get\<close>)
  qed (use assms(2,3) in \<open>auto simp: api_handler_def checked_def raising_def Let_def list_jobs_def delete_job_def list_executions_def
      get_run_def get_run_logs_def cancel_run_def get_metrics_def prometheus_metrics_def list_alerts_def health_def
      split: sum.splits if_splits CancelOutcome.splits\<close>)
qed

text \<open>C13: What the API says about a job is what it stored. When a request is answered with a job, whether it created, changed,
  paused, resumed or only fetched it, and its commit succeeds (and no update set a name that only the schema takes for more than
  white space), fetching that job's id next is answered with the same job.\<close>

theorem api_job_roundtrip:
  assumes "plain_rename (ap_trim app) req" and "ae_commit_error env = None" and "ae_commit_error env' = None"
    and "api_request app env req d = (r, d')" and "rs_body r = JobBody b"
  shows "api_request app env' (GetJob (jo_id b)) d' = (\<lparr>rs_status = 200, rs_body = JobBody b\<rparr>, d')"
proof -
  from assms(2,4,5) have h: "api_handler app env req d = Inr (r, d')"
    by (auto simp: api_request_def api_scope_def error_response_def split: sum.splits api_exn.splits)
  from api_handler_job_stored [OF assms(1) h assms(5)] obtain j where
    "job_get (jo_id b) d' = Inr (Some j)" "b = job_response j" by blast
  with assms(3) show ?thesis
    by (simp add: api_request_def api_scope_def api_handler_def get_job_def get_or_404_def)
qed

section \<open>Sample requests\<close>

definition sample_app :: "unit api_app" where
  "sample_app = \<lparr>ap_registry = demo_registry, ap_queue = None, ap_rules = default_rules, ap_stream = lit ''jobs'',
     ap_trim = (\<lambda>v. if blank v then [] else v), ap_fmt = (\<lambda>x. []), ap_late = (\<lambda>r e. error_response (Unhandled e))\<rparr>"

definition sample_api_env :: api_env where
  "sample_api_env = \<lparr>ae_job_id = lit ''job_n'', ae_now = utc 9, ae_answered = utc 9, ae_db_down = False, ae_commit_error = None, ae_attempt = failing_env\<rparr>"

theorem api_error_unchanged_witness:
  "\<exists>r. api_request sample_app sample_api_env (DeleteJob (lit ''job_z'')) demo_db = (r, demo_db) \<and> rs_status r = 404"
proof -
  obtain r d' where eq: "api_request sample_app sample_api_env (DeleteJob (lit ''job_z'')) demo_db = (r, d')" by fastforce
  moreover from eq have "rs_status r = 404"
    by (auto simp: api_request_def api_handler_def api_scope_def delete_job_def job_delete_def job_not_found_def sample_api_env_def
        job_to_record_def)
  ultimately show ?thesis using api_error_unchanged [OF eq] by simp
qed

lemma sample_request [simp]: "plain_rename trim (PauseJob i)" "ae_commit_error sample_api_env = None"
  by (auto simp: plain_rename_def sample_api_env_def)

theorem api_job_roundtrip_witness:
  "\<exists>d'. api_request sample_app sample_api_env (PauseJob (lit ''job_a'')) demo_db
      = (\<lparr>rs_status = 200, rs_body = JobBody (job_response (demo_job\<lparr>j_enabled := False\<rparr>))\<rparr>, d')
    \<and> api_request sample_app sample_api_env (GetJob (lit ''job_a'')) d'
      = (\<lparr>rs_status = 200, rs_body = JobBody (job_response (demo_job\<lparr>j_enabled := False\<rparr>))\<rparr>, d')"
proof -
  have "job_get (lit ''job_a'') demo_db = Inr (Some demo_job)"
    by (simp add: job_get_def opt_job_def record_job_roundtrip)
  moreover obtain d' where "job_update (demo_job\<lparr>j_enabled := False\<rparr>) demo_db = Inr ((), d')"
    by (simp add: job_update_def)
  ultimately have "api_request sample_app sample_api_env (PauseJob (lit ''job_a'')) demo_db
      = (\<lparr>rs_status = 200, rs_body = JobBody (job_response (demo_job\<lparr>j_enabled := False\<rparr>))\<rparr>, d')"
    by (simp add: api_request_def api_scope_def api_handler_def set_enabled_def get_or_404_def)
  with api_job_roundtrip [OF sample_request(1) sample_request(2) sample_request(2) this] show ?thesis
    by (auto simp: job_response_def)
qed

section \<open>Two ways to an internal error\<close>

text \<open>A new name that only Python's \<^verbatim>\<open>str.strip\<close> regards as white space passes the schema. The update stores it, and from then on
  the row of the job cannot be read: fetching the job ends in an internal error.\<close>

definition rename_to :: "pystr \<Rightarrow> JobUpdateIn" where
  "rename_to v = \<lparr>ui_name = Some (Some v), ui_timeout_seconds = None, ui_retry_policy = None, ui_enabled = None\<rparr>"

lemma validate_rename:
  "trim v = n \<Longrightarrow> n \<noteq> [] \<Longrightarrow> length n \<le> 128 \<Longrightarrow>
     validate_update trim (rename_to v) = Inr \<lparr>ju_name = Some n, ju_timeout_seconds = None, ju_retry_policy = None, ju_enabled = None\<rparr>"
  by (auto simp: validate_update_def rename_to_def validate_field_def validate_name_def Let_def Suc_le_eq)

lemma api_rename_to_blank:
  assumes "job_get i d = Inr (Some j)" and "ap_trim app v = n" and "n \<noteq> []" "length n \<le> 128" "blank n"
    and "n \<notin> jr_name ` set (t_jobs d)" and "ae_commit_error env = None"
  obtains d' b where "api_request app env (UpdateJob i (rename_to v)) d = (\<lparr>rs_status = 200, rs_body = b\<rparr>, d')"
    and "rs_status (fst (api_request app env (GetJob i) d')) = 500"
proof -
  from assms(1) obtain r where r: "find (\<lambda>r. jr_id r = i) (t_jobs d) = Some r" "record_to_job r = Inr j"
    by (auto simp: job_get_def opt_job_def split: option.splits sum.splits)
  then have id: "jr_id r = i" "j_id j = i" "j_name j \<noteq> n" using record_to_job_valid [OF r(2)] assms(5)
    by (auto simp: find_Some_iff valid_job_def)
  let ?j = "j\<lparr>j_name := n\<rparr>"
  let ?d = "d\<lparr>t_jobs := update_first (\<lambda>r. jr_id r = i) (\<lambda>r. update_job_record r ?j) (t_jobs d)\<rparr>"
  have up: "job_update ?j d = Inr ((), ?d)" using r(1) id assms(6) by (auto simp: job_update_def list_ex_iff)
  have nm: "job_get_by_name n d = Inr None"
    using assms(6) by (auto simp: job_get_by_name_def opt_job_def find_Some_iff split: option.splits)
  have "record_to_job (update_job_record r ?j) \<noteq> Inr k" for k
    using assms(5) record_to_job_valid [of "update_job_record r ?j" k] by (auto simp: valid_job_def update_job_record_def)
  then obtain e where "record_to_job (update_job_record r ?j) = Inl e" by (cases "record_to_job (update_job_record r ?j)") auto
  then have get: "job_get i ?d = Inl e"
    using r(1) by (simp add: job_get_def opt_job_def find_update_first_same update_job_record_def)
  show thesis
  proof (rule that)
    show "api_request app env (UpdateJob i (rename_to v)) d = (\<lparr>rs_status = 200, rs_body = JobBody (job_response ?j)\<rparr>, ?d)"
      using up nm id(3) by (simp add: api_request_def api_scope_def api_handler_def checked_def validate_rename [where trim = "ap_trim app", OF assms(2-4)] update_job_def
          get_or_404_def assms(1,7) apply_changes_def or_default_def Let_def)
    show "rs_status (fst (api_request app env (GetJob i) ?d)) = 500"
      using get by (simp add: api_request_def api_scope_def api_handler_def get_job_def get_or_404_def)
  qed
qed

text \<open>A window that is positive but rounds to no microsecond passes the bounds of the query parameter and ends in an internal error.\<close>

lemma api_metrics_tiny_window: "rs_status (fst (api_request app env (GetMetrics (Some (1 / 10000000))) d)) = 500"
proof -
  have r: "round_half_even (1 / 10) = 0" by code_simp
  show ?thesis
    by (simp add: api_request_def api_scope_def api_handler_def checked_def get_metrics_def timedelta_seconds_def r collect_metrics_def Let_def)
qed

end
