(* ===== verification/Platform.thy ===== *)
theory Platform
  imports Processes Api
begin

text \<open>
  The platform as a whole: what any number of its processes, running side by side, can do to the database they share. The relation
  \<open>evolves\<close> has one rule per kind of process; the private state of a process (its heap, its log buffer, the queue it sees) is
  arbitrary at every step. Whatever happens while a process is in the middle of a step, between two polls of a running handler
  or between two entries of a sweep, is again an evolution of the platform. A process that dies in the middle of a step leaves the
  state it had reached.
\<close>

inductive evolves ::
  "(request \<Rightarrow> bool) \<Rightarrow> 'q TaskQueue \<Rightarrow> 'q api_app \<Rightarrow> db \<Rightarrow> db \<Rightarrow> bool"
  for allowed :: "request \<Rightarrow> bool" and Q :: "'q TaskQueue" and app :: "'q api_app"
where
  stay: "evolves allowed Q app d d"
| trans: "evolves allowed Q app d d1 \<Longrightarrow> evolves allowed Q app d1 d2 \<Longrightarrow> evolves allowed Q app d d2"
| dispatch:
    "(\<And>x w. evolves allowed Q app (fst w) (fst (di_meanwhile i x w)))
     \<Longrightarrow> evolves allowed Q app d (fst (snd (state_of (dispatch_step Q i (st, d, q)))))"
| work:
    "(\<And>p v. p \<in> set (e_polls (se_attempt env)) \<Longrightarrow> evolves allowed Q app (w_db v) (w_db (p_env p v)))
     \<Longrightarrow> evolves allowed Q app (w_db w) (w_db (state_of (run_once Q wk fmt (ap_registry app) env block w)))"
| serve:
    "(\<And>n p v. p \<in> set (e_polls (te_attempt (si_triggers i n))) \<Longrightarrow> evolves allowed Q app (lo_db (sw_ext v)) (lo_db (sw_ext (p_env p v))))
     \<Longrightarrow> evolves allowed Q app (lo_db (sw_ext w)) (lo_db (sw_ext (snd (state_of (serve_step fmt (ap_registry app) i (st, w))))))"
| command:
    "(\<And>p v. p \<in> set (e_polls (ce_attempt cenv)) \<Longrightarrow> evolves allowed Q app (lo_db v) (lo_db (p_env p v)))
     \<Longrightarrow> evolves allowed Q app (lo_db s) (lo_db (state_of (cli_main fmt (ap_registry app) cenv cmd s)))"
| startup: "evolves allowed Q app d (snd (api_startup app fault ids now d))"
| request: "allowed req \<Longrightarrow> evolves allowed Q app d (snd (api_request app aenv req d))"
| run:
    "(\<And>p v. p \<in> set (e_polls (ae_attempt aenv)) \<Longrightarrow> evolves allowed Q app (lo_db v) (lo_db (p_env p v)))
     \<Longrightarrow> evolves allowed Q app (lo_db s) (lo_db (state_of (run_job app aenv i s)))"

text \<open>What the platform relies on: the registry its code declares.\<close>

definition sound_app :: "'q api_app \<Rightarrow> bool" where
  "sound_app app \<longleftrightarrow> sound_registry (ap_registry app) \<and> positive_timeouts (ap_registry app)"

context db_invariant
begin

lemma evolves_keeps:
  assumes "evolves allowed Q app d d'" and "sound_app app" and "\<And>req. allowed req \<Longrightarrow> plain_rename (ap_trim app) req"
    and "\<And>i. allowed (DeleteJob i) \<Longrightarrow> keeps I (job_delete i)" and "I d"
  shows "I d'"
  using assms(1,5)
proof (induction rule: evolves.induct)
  case (dispatch i d st q)
  then show ?case by (intro dispatch_step_keeps) auto
next
  case (work env w wk fmt block)
  then show ?case by (intro run_once_keeps) auto
next
  case (serve i w fmt st)
  then show ?case by (intro serve_step_keeps) (auto simp: trigger_polls_keep_def)
next
  case (command cenv s fmt cmd)
  then show ?case using assms(2) by (intro cli_main_keeps) (auto simp: polls_keep_def sound_app_def)
next
  case (startup d fault ids now)
  then show ?case
    using assms(2) unfolding api_startup_def sound_app_def by (intro session_scope_keeps [OF sync_jobs_keeps]) auto
next
  case (request req d aenv)
  then show ?case using assms(3,4) by (intro api_request_keeps) auto
next
  case (run aenv s i)
  then show ?case by (intro run_job_keeps) (auto simp: polls_keep_def)
qed auto

end

section \<open>Properties\<close>

text \<open>C5: The tables stay consistent whatever the processes of the platform do: starting from a consistent database, no interleaving
  of dispatchers, retry sweeps, workers, schedulers, commands, API requests and crashes leads to a database with a duplicate
  key, a dangling reference, a row out of order or a stored job or schedule that cannot be read back, as long as no client
  renames a job to a name that only the schema takes for more than white space.\<close>

theorem platform_consistent:
  assumes "evolves (plain_rename (ap_trim app)) Q app d d'" and "sound_app app" and "wf_db d"
  shows "wf_db d'"
  by (rule wf.evolves_keeps [OF assms(1,2) _ _ assms(3)]) (simp_all add: keeps_wf_eq job_delete_keeps_wf)

text \<open>C6: No recorded attempt is ever lost: as long as no job is deleted through the API or renamed to such a name, an attempt that is in the database stays
  in the database, whatever the processes of the platform do and wherever they crash.\<close>

theorem platform_keeps_history:
  assumes "evolves (\<lambda>req. plain_rename (ap_trim app) req \<and> (\<forall>i. req \<noteq> DeleteJob i)) Q app d d'" and "sound_app app" and "get_attempt r n d \<noteq> None"
  shows "get_attempt r n d' \<noteq> None"
proof -
  have rec: "get_attempt r n d \<noteq> None \<longleftrightarrow> {(r, n)} \<subseteq> recorded d" for d
    by (auto simp: get_attempt_def exec_find_def find_None_iff recorded_def intro: rev_image_eqI)
  with assms(3) have "{(r, n)} \<subseteq> recorded d" by simp
  from history.evolves_keeps [OF assms(1,2) _ _ this] rec show ?thesis by simp
qed

section \<open>Samples\<close>

definition sample_platform :: "MemoryQueue api_app" where
  "sample_platform = \<lparr>ap_registry = demo_registry, ap_queue = None, ap_rules = default_rules, ap_stream = lit ''jobs'',
     ap_trim = (\<lambda>v. if blank v then [] else v), ap_fmt = (\<lambda>x. []), ap_late = (\<lambda>r e. error_response (Unhandled e))\<rparr>"

lemma sound_sample_platform [simp]: "sound_app sample_platform"
  by (auto simp: sound_app_def sample_platform_def demo_registry_def sound_registry_def positive_timeouts_def)

definition sample_worker :: Worker where
  "sample_worker = \<lparr>wk_consumer = lit ''w1'', wk_stale_after = None, wk_reclaim_interval = 5, wk_heartbeat_interval = None\<rparr>"

text \<open>A worker takes one message, then a client pauses the job.\<close>

definition after_work :: db where
  "after_work = w_db (state_of (run_once memory_queue sample_worker (\<lambda>x. []) (ap_registry sample_platform)
     (sample_env (sample_polls (Inr ()))) 0 sample_world))"

lemma sample_evolution:
  "evolves (plain_rename (ap_trim sample_platform)) memory_queue sample_platform demo_db
     (snd (api_request sample_platform sample_api_env (PauseJob (lit ''job_a'')) after_work))"
proof (rule evolves.trans)
  have "evolves (plain_rename (ap_trim sample_platform)) memory_queue sample_platform (w_db sample_world) after_work"
    unfolding after_work_def by (rule evolves.work) (simp add: evolves.stay)
  then show "evolves (plain_rename (ap_trim sample_platform)) memory_queue sample_platform demo_db after_work" by simp
qed (rule evolves.request, simp)

theorem platform_consistent_witness:
  "wf_db (snd (api_request sample_platform sample_api_env (PauseJob (lit ''job_a'')) after_work))"
  by (rule platform_consistent [OF sample_evolution]) simp_all

theorem platform_keeps_history_witness:
  "get_attempt (lit ''run_m'') 1 (snd (api_request sample_platform sample_api_env (PauseJob (lit ''job_a'')) failing_db)) \<noteq> None"
  by (rule platform_keeps_history [where Q = memory_queue, OF evolves.request])
    (simp_all add: failing_db_def sample_attempt_def get_attempt_def exec_find_def execution_to_record_def exec_key_def)

end
