(* ===== verification/Etl_Quality.thy ===== *)
theory Etl_Quality
  imports Domain
begin

text \<open>
  The raw records (\<^verbatim>\<open>etl/records.py\<close>) and the quality rules with their checker (\<^verbatim>\<open>etl/quality.py\<close>).

  A rule reads a field by its name (\<^verbatim>\<open>getattr\<close>) and gets a value of one of the types the record has; a comparison of values
  of different types raises \<open>TypeError\<close>, and so does the comparison of an aware with a naive time. \<open>UniqueRule\<close> keeps the
  values it has seen, so a check returns the rule it leaves behind. \<^verbatim>\<open>Decimal\<close> values are exact rationals. How Python prints a
  value in a message (\<^verbatim>\<open>str\<close> and \<^verbatim>\<open>repr\<close>) is the parameter \<open>pr\<close>.
\<close>

section \<open>Records\<close>

datatype DirtyKind =
  MISSING_ID | DUPLICATE_ID | BAD_QUANTITY | NEGATIVE_PRICE | BAD_STATUS | ORPHAN_USER | FUTURE_TIME | MISSING_TIME

definition VALID_ORDER_STATUSES :: "pystr list" where
  "VALID_ORDER_STATUSES = [lit ''PAID'', lit ''CANCELED'', lit ''PENDING'']"

record RawUser =
  u_user_id :: pystr
  u_region :: pystr
  u_register_date :: int
  u_member_level :: pystr

record RawProduct =
  pr_product_id :: pystr
  pr_category :: pystr
  pr_price :: rat
  pr_cost :: rat
  pr_supplier :: pystr

record RawOrder =
  ro_order_id :: "pystr option"
  ro_user_id :: pystr
  ro_product_id :: pystr
  ro_quantity :: int
  ro_unit_price :: rat
  ro_discount :: rat
  ro_status :: pystr
  ro_created_at :: "datetime option"

section \<open>Rules\<close>

datatype fval = NoneV | StrV pystr | IntV int | DecV rat | TimeV datetime

definition opt_val :: "('a \<Rightarrow> fval) \<Rightarrow> 'a option \<Rightarrow> fval" where
  "opt_val f v = (case v of None \<Rightarrow> NoneV | Some x \<Rightarrow> f x)"

definition get_field :: "pystr \<Rightarrow> RawOrder \<Rightarrow> exn + fval" where
  "get_field field order =
     (if field = lit ''order_id'' then Inr (opt_val StrV (ro_order_id order))
      else if field = lit ''user_id'' then Inr (StrV (ro_user_id order))
      else if field = lit ''product_id'' then Inr (StrV (ro_product_id order))
      else if field = lit ''quantity'' then Inr (IntV (ro_quantity order))
      else if field = lit ''unit_price'' then Inr (DecV (ro_unit_price order))
      else if field = lit ''discount'' then Inr (DecV (ro_discount order))
      else if field = lit ''status'' then Inr (StrV (ro_status order))
      else if field = lit ''created_at'' then Inr (opt_val TimeV (ro_created_at order))
      else Inl (OtherError (lit ''AttributeError'')))"

definition num_of :: "fval \<Rightarrow> rat option" where
  "num_of v = (case v of IntV i \<Rightarrow> Some (of_int i) | DecV q \<Rightarrow> Some q | _ \<Rightarrow> None)"

datatype QSeverity = Q_ERROR | Q_WARNING

datatype DataQualityRule =
    NotNullRule pystr
  | UniqueRule pystr "fval list"
  | RangeRule pystr rat bool
  | EnumRule pystr "pystr list"
  | ReferenceRule pystr "pystr list"
  | NotFutureRule pystr datetime

fun rule_name :: "DataQualityRule \<Rightarrow> pystr" where
  "rule_name (NotNullRule f) = lit ''not_null:'' @ f"
| "rule_name (UniqueRule f _) = lit ''unique:'' @ f"
| "rule_name (RangeRule f _ _) = lit ''range:'' @ f"
| "rule_name (EnumRule f _) = lit ''enum:'' @ f"
| "rule_name (ReferenceRule f _) = lit ''reference:'' @ f"
| "rule_name (NotFutureRule f _) = lit ''not_future:'' @ f"

fun rule_severity :: "DataQualityRule \<Rightarrow> QSeverity" where
  "rule_severity (NotFutureRule _ _) = Q_WARNING"
| "rule_severity _ = Q_ERROR"

text \<open>\<open>pr b v\<close> is \<^verbatim>\<open>repr(v)\<close> if \<open>b\<close>, else \<^verbatim>\<open>str(v)\<close> (\<^verbatim>\<open>v.isoformat()\<close> for a time).\<close>

fun repr_list :: "(bool \<Rightarrow> fval \<Rightarrow> pystr) \<Rightarrow> pystr list \<Rightarrow> pystr" where
  "repr_list pr [] = []"
| "repr_list pr [s] = pr True (StrV s)"
| "repr_list pr (s # ss) = pr True (StrV s) @ lit '', '' @ repr_list pr ss"

fun rule_check_value ::
  "(bool \<Rightarrow> fval \<Rightarrow> pystr) \<Rightarrow> DataQualityRule \<Rightarrow> fval \<Rightarrow> exn + pystr option \<times> DataQualityRule" where
  "rule_check_value pr (NotNullRule f) v =
     Inr (if v = NoneV then Some (f @ lit '' is null'') else None, NotNullRule f)"
| "rule_check_value pr (UniqueRule f seen) v =
     Inr (if v = NoneV then (None, UniqueRule f seen)
          else if v \<in> set seen then (Some (f @ lit ''='' @ pr True v @ lit '' is duplicated''), UniqueRule f seen)
          else (None, UniqueRule f (v # seen)))"
| "rule_check_value pr (RangeRule f minimum inclusive) v =
     (if v = NoneV then Inr (None, RangeRule f minimum inclusive)
      else case num_of v of
             None \<Rightarrow> Inl TypeError
           | Some q \<Rightarrow>
               if (if inclusive then q \<ge> minimum else q > minimum) then Inr (None, RangeRule f minimum inclusive)
               else Inr (Some (f @ lit ''='' @ pr False v @ lit '' violates '' @ (if inclusive then lit ''>='' else lit ''>'')
                         @ lit '' '' @ pr False (DecV minimum)), RangeRule f minimum inclusive))"
| "rule_check_value pr (EnumRule f allowed) v =
     Inr (if v = NoneV \<or> v \<in> StrV ` set allowed then None
          else Some (f @ lit ''='' @ pr True v @ lit '' not in ['' @ repr_list pr (sort (remdups allowed)) @ lit '']''),
          EnumRule f allowed)"
| "rule_check_value pr (ReferenceRule f valid) v =
     Inr (if v = NoneV \<or> v \<in> StrV ` set valid then None
          else Some (f @ lit ''='' @ pr True v @ lit '' has no matching record''), ReferenceRule f valid)"
| "rule_check_value pr (NotFutureRule f now) v =
     (case v of
        NoneV \<Rightarrow> Inr (None, NotFutureRule f now)
      | TimeV t \<Rightarrow>
          (case dt_le t now of
             Inl e \<Rightarrow> Inl e
           | Inr True \<Rightarrow> Inr (None, NotFutureRule f now)
           | Inr False \<Rightarrow> Inr (Some (f @ lit ''='' @ pr False v @ lit '' is later than '' @ pr False (TimeV now)), NotFutureRule f now))
      | _ \<Rightarrow> Inl TypeError)"

fun rule_field :: "DataQualityRule \<Rightarrow> pystr" where
  "rule_field (NotNullRule f) = f"
| "rule_field (UniqueRule f _) = f"
| "rule_field (RangeRule f _ _) = f"
| "rule_field (EnumRule f _) = f"
| "rule_field (ReferenceRule f _) = f"
| "rule_field (NotFutureRule f _) = f"

definition rule_check ::
  "(bool \<Rightarrow> fval \<Rightarrow> pystr) \<Rightarrow> RawOrder \<Rightarrow> DataQualityRule \<Rightarrow> exn + pystr option \<times> DataQualityRule" where
  "rule_check pr order rule =
     (case get_field (rule_field rule) order of Inl e \<Rightarrow> Inl e | Inr v \<Rightarrow> rule_check_value pr rule v)"

definition default_order_rules :: "pystr list \<Rightarrow> datetime \<Rightarrow> DataQualityRule list" where
  "default_order_rules user_ids now =
     [NotNullRule (lit ''order_id''), NotNullRule (lit ''created_at''), UniqueRule (lit ''order_id'') [],
      RangeRule (lit ''quantity'') 0 False, RangeRule (lit ''unit_price'') 0 True,
      EnumRule (lit ''status'') VALID_ORDER_STATUSES, ReferenceRule (lit ''user_id'') user_ids,
      NotFutureRule (lit ''created_at'') now]"

section \<open>Checker\<close>

record Violation =
  v_rule :: pystr
  v_severity :: QSeverity
  v_message :: pystr

record RuleResult =
  rr_rule :: pystr
  rr_passed :: bool
  rr_invalid_count :: int

record QualityReport =
  qr_total_rows :: int
  qr_quarantined_rows :: int
  qr_warning_rows :: int
  qr_results :: "RuleResult list"

definition is_quarantined :: "Violation list \<Rightarrow> bool" where
  "is_quarantined vs = list_ex (\<lambda>v. v_severity v = Q_ERROR) vs"

record QualityChecker =
  qc_rules :: "DataQualityRule list"
  qc_failures :: "(pystr \<times> int) list"
  qc_total :: int
  qc_quarantined :: int
  qc_warned :: int

definition QualityChecker_init :: "DataQualityRule list \<Rightarrow> exn + QualityChecker" where
  "QualityChecker_init rules =
     (if distinct (map rule_name rules)
      then Inr \<lparr>qc_rules = rules, qc_failures = [], qc_total = 0, qc_quarantined = 0, qc_warned = 0\<rparr>
      else Inl (ValueError (lit ''rule names must be unique'')))"

text \<open>The loop over the rules: the violations, the failure counters and the rules afterwards.\<close>

fun check_rules ::
  "(bool \<Rightarrow> fval \<Rightarrow> pystr) \<Rightarrow> RawOrder \<Rightarrow> DataQualityRule list \<Rightarrow> (pystr \<times> int) list
     \<Rightarrow> (exn + Violation list) \<times> DataQualityRule list \<times> (pystr \<times> int) list" where
  "check_rules pr order [] failures = (Inr [], [], failures)"
| "check_rules pr order (rule # rules) failures =
     (case rule_check pr order rule of
        Inl e \<Rightarrow> (Inl e, rule # rules, failures)
      | Inr (None, rule') \<Rightarrow>
          (let (r, rules', failures') = check_rules pr order rules failures in (r, rule' # rules', failures'))
      | Inr (Some message, rule') \<Rightarrow>
          (let (r, rules', failures') = check_rules pr order rules
                 (AList.update (rule_name rule) (dict_get (rule_name rule) 0 failures + 1) failures)
           in (case r of
                 Inl e \<Rightarrow> Inl e
               | Inr vs \<Rightarrow> Inr (\<lparr>v_rule = rule_name rule, v_severity = rule_severity rule, v_message = message\<rparr> # vs),
               rule' # rules', failures')))"

definition checker_check ::
  "(bool \<Rightarrow> fval \<Rightarrow> pystr) \<Rightarrow> RawOrder \<Rightarrow> QualityChecker \<Rightarrow> (exn + Violation list) \<times> QualityChecker" where
  "checker_check pr order qc =
     (let (r, rules, failures) = check_rules pr order (qc_rules qc) (qc_failures qc);
          qc1 = qc\<lparr>qc_rules := rules, qc_failures := failures\<rparr>
      in case r of
           Inl e \<Rightarrow> (Inl e, qc1)
         | Inr vs \<Rightarrow>
             (Inr vs, qc1\<lparr>qc_total := qc_total qc1 + 1,
                qc_quarantined := qc_quarantined qc1 + (if is_quarantined vs then 1 else 0),
                qc_warned := qc_warned qc1 + (if list_ex (\<lambda>v. v_severity v = Q_WARNING) vs then 1 else 0)\<rparr>))"

definition checker_report :: "QualityChecker \<Rightarrow> QualityReport" where
  "checker_report qc =
     \<lparr>qr_total_rows = qc_total qc, qr_quarantined_rows = qc_quarantined qc, qr_warning_rows = qc_warned qc,
      qr_results = map (\<lambda>r. \<lparr>rr_rule = rule_name r, rr_passed = dict_get (rule_name r) 0 (qc_failures qc) = 0,
        rr_invalid_count = dict_get (rule_name r) 0 (qc_failures qc)\<rparr>) (qc_rules qc)\<rparr>"

end
