(* ===== verification/Etl_Pipeline.thy ===== *)
theory Etl_Pipeline
  imports Etl_Quality
begin

text \<open>
  The order pipeline (\<^verbatim>\<open>etl/pipeline.py\<close>). \<^verbatim>\<open>validate_stream\<close> and \<^verbatim>\<open>transform\<close> are generators, so \<^verbatim>\<open>aggregate\<close> pulls one order
  at a time through them: \<open>pull_orders\<close> is that composition, order by order, with the exception of whichever stage raises
  first. The stages on whole lists are defined beside it, and the two are shown to agree. \<open>pp_quarantine\<close> records the calls of
  \<^verbatim>\<open>on_quarantine\<close>. A \<^verbatim>\<open>Decimal\<close> is its value, without NaN and infinities; every operation rounds to the 28 digits of the default context (\<open>Rounding\<close>), and
  \<^verbatim>\<open>quantize\<close> raises \<^verbatim>\<open>InvalidOperation\<close> when its result needs more.
\<close>

section \<open>Data\<close>

record QuarantinedOrder =
  qo_order :: RawOrder
  qo_violations :: "Violation list"

record CleanOrder =
  co_order_id :: pystr
  co_user_id :: pystr
  co_region :: pystr
  co_order_date :: int
  co_status :: pystr
  co_amount :: rat

record DailyRegionStat =
  ds_order_date :: int
  ds_region :: pystr
  ds_order_count :: int
  ds_paid_count :: int
  ds_gmv :: rat

definition InvalidOperation :: exn where
  "InvalidOperation = OtherError (lit ''[<class '' @ [39] @ lit ''decimal.InvalidOperation'' @ [39] @ lit ''>]'')"

text \<open>\<^verbatim>\<open>x.quantize(Decimal("0.01"), ROUND_HALF_UP)\<close>: to the nearest cent, ties away from zero.\<close>

definition quantize_cent :: "rat \<Rightarrow> exn + rat" where
  "quantize_cent x =
     (let cents = (if x < 0 then - \<lfloor>- x * 100 + 1 / 2\<rfloor> else \<lfloor>x * 100 + 1 / 2\<rfloor>)
      in if 10 ^ 28 \<le> \<bar>cents\<bar> then Inl InvalidOperation else Inr (of_int cents / 100))"

definition avg_order_value :: "DailyRegionStat \<Rightarrow> exn + rat" where
  "avg_order_value s =
     (if ds_paid_count s = 0 then Inr 0 else quantize_cent (decimal_round (ds_gmv s / of_int (ds_paid_count s))))"

record PipelineResult =
  pl_quality :: QualityReport
  pl_stats :: "DailyRegionStat list"

section \<open>Stages\<close>

fun validate_stream ::
  "(bool \<Rightarrow> fval \<Rightarrow> pystr) \<Rightarrow> RawOrder list \<Rightarrow> QualityChecker
     \<Rightarrow> exn + RawOrder list \<times> QuarantinedOrder list \<times> QualityChecker" where
  "validate_stream pr [] qc = Inr ([], [], qc)"
| "validate_stream pr (order # orders) qc =
     (case checker_check pr order qc of
        (Inl e, _) \<Rightarrow> Inl e
      | (Inr vs, qc1) \<Rightarrow>
          (case validate_stream pr orders qc1 of
             Inl e \<Rightarrow> Inl e
           | Inr (valid, quarantined, qc2) \<Rightarrow>
               Inr (if is_quarantined vs then (valid, \<lparr>qo_order = order, qo_violations = vs\<rparr> # quarantined, qc2)
                    else (order # valid, quarantined, qc2))))"

text \<open>The amount before it is rounded to cents.\<close>

definition order_amount :: "RawOrder \<Rightarrow> rat" where
  "order_amount order =
     decimal_round (decimal_round (of_int (ro_quantity order) * ro_unit_price order) * decimal_round (1 - ro_discount order))"

definition transform_order :: "(pystr \<times> RawUser) list \<Rightarrow> RawOrder \<Rightarrow> exn + CleanOrder" where
  "transform_order users order =
     (case (ro_order_id order, ro_created_at order) of
        (Some oid, Some t) \<Rightarrow>
          (case quantize_cent (order_amount order) of
             Inl e \<Rightarrow> Inl e
           | Inr amount \<Rightarrow>
               (case map_of users (ro_user_id order) of
                  None \<Rightarrow> Inl (KeyError (ro_user_id order))
                | Some u \<Rightarrow>
                    Inr \<lparr>co_order_id = oid, co_user_id = ro_user_id order, co_region = u_region u, co_order_date = date_of t,
                         co_status = ro_status order, co_amount = amount\<rparr>))
      | _ \<Rightarrow> Inl (ValueError (lit ''transform expects validated orders'')))"

definition transform :: "(pystr \<times> RawUser) list \<Rightarrow> RawOrder list \<Rightarrow> exn + CleanOrder list" where
  "transform users orders = mapM (transform_order users) orders"

record agg =
  ag_order_counts :: "((int \<times> pystr) \<times> int) list"
  ag_paid_counts :: "((int \<times> pystr) \<times> int) list"
  ag_gmv :: "((int \<times> pystr) \<times> rat) list"

definition agg_init :: agg where
  "agg_init = \<lparr>ag_order_counts = [], ag_paid_counts = [], ag_gmv = []\<rparr>"

definition co_key :: "CleanOrder \<Rightarrow> int \<times> pystr" where
  "co_key c = (co_order_date c, co_region c)"

definition agg_step :: "CleanOrder \<Rightarrow> agg \<Rightarrow> agg" where
  "agg_step c a =
     (let key = co_key c;
          a1 = a\<lparr>ag_order_counts := AList.update key (dict_get key 0 (ag_order_counts a) + 1) (ag_order_counts a)\<rparr>
      in if co_status c = lit ''PAID''
         then a1\<lparr>ag_paid_counts := AList.update key (dict_get key 0 (ag_paid_counts a) + 1) (ag_paid_counts a),
                 ag_gmv := AList.update key (decimal_round (dict_get key 0 (ag_gmv a) + co_amount c)) (ag_gmv a)\<rparr>
         else a1)"

definition agg_result :: "agg \<Rightarrow> DailyRegionStat list" where
  "agg_result a =
     map (\<lambda>key. \<lparr>ds_order_date = fst key, ds_region = snd key, ds_order_count = dict_get key 0 (ag_order_counts a),
                  ds_paid_count = dict_get key 0 (ag_paid_counts a), ds_gmv = dict_get key 0 (ag_gmv a)\<rparr>)
       (sort (map fst (ag_order_counts a)))"

definition aggregate :: "CleanOrder list \<Rightarrow> DailyRegionStat list" where
  "aggregate orders = agg_result (fold agg_step orders agg_init)"

section \<open>The pipeline\<close>

record pull_state =
  pp_checker :: QualityChecker
  pp_quarantine :: "QuarantinedOrder list"
  pp_agg :: agg

fun pull_orders ::
  "(bool \<Rightarrow> fval \<Rightarrow> pystr) \<Rightarrow> (pystr \<times> RawUser) list \<Rightarrow> RawOrder list \<Rightarrow> pull_state \<Rightarrow> (exn + unit) \<times> pull_state" where
  "pull_orders pr users [] s = (Inr (), s)"
| "pull_orders pr users (order # orders) s =
     (case checker_check pr order (pp_checker s) of
        (Inl e, qc) \<Rightarrow> (Inl e, s\<lparr>pp_checker := qc\<rparr>)
      | (Inr vs, qc) \<Rightarrow>
          if is_quarantined vs
          then pull_orders pr users orders
                 (s\<lparr>pp_checker := qc, pp_quarantine := pp_quarantine s @ [\<lparr>qo_order = order, qo_violations = vs\<rparr>]\<rparr>)
          else (case transform_order users order of
                  Inl e \<Rightarrow> (Inl e, s\<lparr>pp_checker := qc\<rparr>)
                | Inr c \<Rightarrow> pull_orders pr users orders (s\<lparr>pp_checker := qc, pp_agg := agg_step c (pp_agg s)\<rparr>)))"

definition user_map_of :: "RawUser list \<Rightarrow> (pystr \<times> RawUser) list" where
  "user_map_of users = fold (\<lambda>u m. AList.update (u_user_id u) u m) users []"

definition run_orders_pipeline ::
  "(bool \<Rightarrow> fval \<Rightarrow> pystr) \<Rightarrow> RawOrder list \<Rightarrow> RawUser list \<Rightarrow> datetime
     \<Rightarrow> (exn + PipelineResult) \<times> QuarantinedOrder list" where
  "run_orders_pipeline pr orders users now =
     (let user_map = user_map_of users in
      case QualityChecker_init (default_order_rules (map fst user_map) now) of
        Inl e \<Rightarrow> (Inl e, [])
      | Inr qc \<Rightarrow>
          (case pull_orders pr user_map orders \<lparr>pp_checker = qc, pp_quarantine = [], pp_agg = agg_init\<rparr> of
             (Inl e, s) \<Rightarrow> (Inl e, pp_quarantine s)
           | (Inr _, s) \<Rightarrow>
               (Inr \<lparr>pl_quality = checker_report (pp_checker s), pl_stats = agg_result (pp_agg s)\<rparr>, pp_quarantine s)))"

section \<open>The default rules\<close>

definition rules_with :: "pystr list \<Rightarrow> datetime \<Rightarrow> fval list \<Rightarrow> DataQualityRule list" where
  "rules_with user_ids now seen =
     [NotNullRule (lit ''order_id''), NotNullRule (lit ''created_at''), UniqueRule (lit ''order_id'') seen,
      RangeRule (lit ''quantity'') 0 False, RangeRule (lit ''unit_price'') 0 True,
      EnumRule (lit ''status'') VALID_ORDER_STATUSES, ReferenceRule (lit ''user_id'') user_ids,
      NotFutureRule (lit ''created_at'') now]"

lemma default_order_rules_with: "default_order_rules ids now = rules_with ids now []"
  by (simp add: default_order_rules_def rules_with_def)

text \<open>What an order must satisfy, given the ids seen before it.\<close>

definition acceptable :: "pystr set \<Rightarrow> pystr set \<Rightarrow> RawOrder \<Rightarrow> bool" where
  "acceptable user_ids seen order \<longleftrightarrow>
     ro_order_id order \<noteq> None \<and> ro_created_at order \<noteq> None \<and> ro_order_id order \<notin> Some ` seen
     \<and> 0 < ro_quantity order \<and> 0 \<le> ro_unit_price order \<and> ro_status order \<in> set VALID_ORDER_STATUSES
     \<and> ro_user_id order \<in> user_ids"

definition comparable :: "datetime \<Rightarrow> RawOrder \<Rightarrow> bool" where
  "comparable now order \<longleftrightarrow> (\<forall>t. ro_created_at order = Some t \<longrightarrow> is_aware t = is_aware now)"

definition late :: "datetime \<Rightarrow> RawOrder \<Rightarrow> bool" where
  "late now order \<longleftrightarrow> (\<exists>t. ro_created_at order = Some t \<and> instant now < instant t)"

definition see :: "pystr option \<Rightarrow> fval list \<Rightarrow> fval list" where
  "see i seen = (case i of None \<Rightarrow> seen | Some x \<Rightarrow> if StrV x \<in> set seen then seen else StrV x # seen)"

lemma check_rules_Cons:
  "check_rules pr order (rule # rules) failures =
     (case rule_check pr order rule of
        Inl e \<Rightarrow> (Inl e, rule # rules, failures)
      | Inr (m, rule') \<Rightarrow>
          (let (r, rules', failures') = check_rules pr order rules
                 (case m of None \<Rightarrow> failures
                  | Some _ \<Rightarrow> AList.update (rule_name rule) (dict_get (rule_name rule) 0 failures + 1) failures)
           in (case r of Inl e \<Rightarrow> Inl e
               | Inr vs \<Rightarrow> Inr ((case m of None \<Rightarrow> [] | Some t \<Rightarrow> [\<lparr>v_rule = rule_name rule, v_severity = rule_severity rule, v_message = t\<rparr>]) @ vs),
               rule' # rules', failures')))"
  by (auto split: sum.splits option.splits prod.splits)

text \<open>The checks of one order, when none of the rules raises.\<close>

lemma check_rules_ok:
  "list_all2 (\<lambda>rule (m, rule'). rule_check pr order rule = Inr (m, rule')) rules res \<Longrightarrow>
     \<exists>failures'. check_rules pr order rules failures =
       (Inr (concat (map2 (\<lambda>rule (m, _). case m of None \<Rightarrow> [] | Some t \<Rightarrow>
          [\<lparr>v_rule = rule_name rule, v_severity = rule_severity rule, v_message = t\<rparr>]) rules res)), map snd res, failures')"
proof (induction rules res arbitrary: failures rule: list_all2_induct)
  case (Cons rule rules p res)
  obtain m rule' where p: "p = (m, rule')" by force
  obtain f where "check_rules pr order rules
      (case m of None \<Rightarrow> failures | Some _ \<Rightarrow> AList.update (rule_name rule) (dict_get (rule_name rule) 0 failures + 1) failures)
      = (Inr (concat (map2 (\<lambda>rule (m, _). case m of None \<Rightarrow> [] | Some t \<Rightarrow>
          [\<lparr>v_rule = rule_name rule, v_severity = rule_severity rule, v_message = t\<rparr>]) rules res)), map snd res, f)"
    using Cons.IH by blast
  with Cons.hyps(1) show ?case
    by (simp add: check_rules_Cons p del: check_rules.simps)
qed simp

text \<open>The eight rules on one order: the rule left behind, and when there is a message.\<close>

lemma get_field_eval:
  "get_field (lit ''order_id'') x = Inr (opt_val StrV (ro_order_id x))"
  "get_field (lit ''created_at'') x = Inr (opt_val TimeV (ro_created_at x))"
  "get_field (lit ''quantity'') x = Inr (IntV (ro_quantity x))"
  "get_field (lit ''unit_price'') x = Inr (DecV (ro_unit_price x))"
  "get_field (lit ''status'') x = Inr (StrV (ro_status x))"
  "get_field (lit ''user_id'') x = Inr (StrV (ro_user_id x))"
  by (simp_all add: get_field_def)

lemma opt_val_None [simp]: "opt_val StrV i = NoneV \<longleftrightarrow> i = None" "opt_val TimeV t = NoneV \<longleftrightarrow> t = None"
  by (auto simp: opt_val_def split: option.splits)

lemma default_rule_checks:
  "\<exists>m. rule_check pr x (NotNullRule (lit ''order_id'')) = Inr (m, NotNullRule (lit ''order_id'')) \<and> (m \<noteq> None \<longleftrightarrow> ro_order_id x = None)"
  "\<exists>m. rule_check pr x (NotNullRule (lit ''created_at'')) = Inr (m, NotNullRule (lit ''created_at'')) \<and> (m \<noteq> None \<longleftrightarrow> ro_created_at x = None)"
  "\<exists>m. rule_check pr x (UniqueRule (lit ''order_id'') seen) = Inr (m, UniqueRule (lit ''order_id'') (see (ro_order_id x) seen))
     \<and> (m \<noteq> None \<longleftrightarrow> ro_order_id x \<in> Some ` {i. StrV i \<in> set seen})"
  "\<exists>m. rule_check pr x (RangeRule (lit ''quantity'') 0 False) = Inr (m, RangeRule (lit ''quantity'') 0 False) \<and> (m \<noteq> None \<longleftrightarrow> ro_quantity x \<le> 0)"
  "\<exists>m. rule_check pr x (RangeRule (lit ''unit_price'') 0 True) = Inr (m, RangeRule (lit ''unit_price'') 0 True) \<and> (m \<noteq> None \<longleftrightarrow> ro_unit_price x < 0)"
  "\<exists>m. rule_check pr x (EnumRule (lit ''status'') allowed) = Inr (m, EnumRule (lit ''status'') allowed) \<and> (m \<noteq> None \<longleftrightarrow> ro_status x \<notin> set allowed)"
  "\<exists>m. rule_check pr x (ReferenceRule (lit ''user_id'') ids) = Inr (m, ReferenceRule (lit ''user_id'') ids) \<and> (m \<noteq> None \<longleftrightarrow> ro_user_id x \<notin> set ids)"
  by (auto simp: rule_check_def get_field_eval num_of_def opt_val_def see_def image_iff split: option.splits)

lemma not_future_check:
  assumes "comparable now x"
  shows "\<exists>m. rule_check pr x (NotFutureRule (lit ''created_at'') now) = Inr (m, NotFutureRule (lit ''created_at'') now) \<and> (m \<noteq> None \<longleftrightarrow> late now x)"
  using assms
  by (cases "ro_created_at x") (auto simp: rule_check_def get_field_eval opt_val_def dt_le_def comparable_def late_def split: bool.splits)

lemma list_ex_violation: "list_ex P (case m of None \<Rightarrow> [] | Some t \<Rightarrow> [f t]) \<longleftrightarrow> (\<exists>t. m = Some t \<and> P (f t))"
  by (cases m) auto

lemma check_default:
  assumes "comparable now x"
  shows "\<exists>vs failures'. check_rules pr x (rules_with ids now seen) failures = (Inr vs, rules_with ids now (see (ro_order_id x) seen), failures')
    \<and> (is_quarantined vs \<longleftrightarrow> \<not> acceptable (set ids) {i. StrV i \<in> set seen} x)
    \<and> (list_ex (\<lambda>v. v_severity v = Q_WARNING) vs \<longleftrightarrow> late now x)"
proof -
  note c = default_rule_checks [where pr = pr and x = x]
  obtain m1 where m1: "rule_check pr x (NotNullRule (lit ''order_id'')) = Inr (m1, NotNullRule (lit ''order_id''))" "m1 \<noteq> None \<longleftrightarrow> ro_order_id x = None"
    using c(1) by (elim exE conjE)
  obtain m2 where m2: "rule_check pr x (NotNullRule (lit ''created_at'')) = Inr (m2, NotNullRule (lit ''created_at''))" "m2 \<noteq> None \<longleftrightarrow> ro_created_at x = None"
    using c(2) by (elim exE conjE)
  obtain m3 where m3: "rule_check pr x (UniqueRule (lit ''order_id'') seen) = Inr (m3, UniqueRule (lit ''order_id'') (see (ro_order_id x) seen))"
    "m3 \<noteq> None \<longleftrightarrow> ro_order_id x \<in> Some ` {i. StrV i \<in> set seen}"
    using c(3) [of seen] by (elim exE conjE)
  obtain m4 where m4: "rule_check pr x (RangeRule (lit ''quantity'') 0 False) = Inr (m4, RangeRule (lit ''quantity'') 0 False)" "m4 \<noteq> None \<longleftrightarrow> ro_quantity x \<le> 0"
    using c(4) by (elim exE conjE)
  obtain m5 where m5: "rule_check pr x (RangeRule (lit ''unit_price'') 0 True) = Inr (m5, RangeRule (lit ''unit_price'') 0 True)" "m5 \<noteq> None \<longleftrightarrow> ro_unit_price x < 0"
    using c(5) by (elim exE conjE)
  obtain m6 where m6: "rule_check pr x (EnumRule (lit ''status'') VALID_ORDER_STATUSES) = Inr (m6, EnumRule (lit ''status'') VALID_ORDER_STATUSES)"
    "m6 \<noteq> None \<longleftrightarrow> ro_status x \<notin> set VALID_ORDER_STATUSES"
    using c(6) [of VALID_ORDER_STATUSES] by (elim exE conjE)
  obtain m7 where m7: "rule_check pr x (ReferenceRule (lit ''user_id'') ids) = Inr (m7, ReferenceRule (lit ''user_id'') ids)" "m7 \<noteq> None \<longleftrightarrow> ro_user_id x \<notin> set ids"
    using c(7) [of ids] by (elim exE conjE)
  obtain m8 where m8: "rule_check pr x (NotFutureRule (lit ''created_at'') now) = Inr (m8, NotFutureRule (lit ''created_at'') now)" "m8 \<noteq> None \<longleftrightarrow> late now x"
    using not_future_check [OF assms, of pr] by (elim exE conjE)
  let ?ms = "[m1, m2, m3, m4, m5, m6, m7, m8]"
  have "list_all2 (\<lambda>rule (m, rule'). rule_check pr x rule = Inr (m, rule')) (rules_with ids now seen)
      (zip ?ms (rules_with ids now (see (ro_order_id x) seen)))"
    using m1(1) m2(1) m3(1) m4(1) m5(1) m6(1) m7(1) m8(1) by (simp add: rules_with_def)
  from check_rules_ok [OF this, of failures] obtain vs f where
    run: "check_rules pr x (rules_with ids now seen) failures = (Inr vs, rules_with ids now (see (ro_order_id x) seen), f)"
    and vs: "vs = concat (map2 (\<lambda>rule (m, _). case m of None \<Rightarrow> [] | Some t \<Rightarrow>
          [\<lparr>v_rule = rule_name rule, v_severity = rule_severity rule, v_message = t\<rparr>]) (rules_with ids now seen)
          (zip ?ms (rules_with ids now (see (ro_order_id x) seen))))"
    by (auto simp: rules_with_def)
  have "is_quarantined vs \<longleftrightarrow> (\<exists>m \<in> set [m1, m2, m3, m4, m5, m6, m7]. m \<noteq> None)"
    by (simp add: vs is_quarantined_def rules_with_def list_ex_violation)
  moreover have "list_ex (\<lambda>v. v_severity v = Q_WARNING) vs \<longleftrightarrow> m8 \<noteq> None"
    by (simp add: vs rules_with_def list_ex_violation)
  ultimately show ?thesis
    using run m1(2) m2(2) m3(2) m4(2) m5(2) m6(2) m7(2) m8(2) by (auto simp: acceptable_def)
qed

section \<open>The stream\<close>

text \<open>Which orders pass, by the ids that came before.\<close>

fun good_orders :: "pystr set \<Rightarrow> pystr set \<Rightarrow> RawOrder list \<Rightarrow> RawOrder list" where
  "good_orders ids seen [] = []"
| "good_orders ids seen (x # xs) =
     (if acceptable ids seen x then [x] else []) @ good_orders ids (set_option (ro_order_id x) \<union> seen) xs"

fun bad_orders :: "pystr set \<Rightarrow> pystr set \<Rightarrow> RawOrder list \<Rightarrow> RawOrder list" where
  "bad_orders ids seen [] = []"
| "bad_orders ids seen (x # xs) =
     (if acceptable ids seen x then [] else [x]) @ bad_orders ids (set_option (ro_order_id x) \<union> seen) xs"

lemma see_set: "{i. StrV i \<in> set (see o_id seen)} = set_option o_id \<union> {i. StrV i \<in> set seen}"
  by (auto simp: see_def split: option.splits)

lemma checker_check_default:
  assumes "comparable now x" "qc_rules qc = rules_with ids now seen"
  shows "\<exists>vs qc'. checker_check pr x qc = (Inr vs, qc') \<and> qc_rules qc' = rules_with ids now (see (ro_order_id x) seen)
    \<and> (is_quarantined vs \<longleftrightarrow> \<not> acceptable (set ids) {i. StrV i \<in> set seen} x)
    \<and> qc_total qc' = qc_total qc + 1
    \<and> qc_quarantined qc' = qc_quarantined qc + (if acceptable (set ids) {i. StrV i \<in> set seen} x then 0 else 1)
    \<and> qc_warned qc' = qc_warned qc + (if late now x then 1 else 0)"
proof -
  from check_default [OF assms(1), of pr ids seen "qc_failures qc"] obtain vs f where
    "check_rules pr x (qc_rules qc) (qc_failures qc) = (Inr vs, rules_with ids now (see (ro_order_id x) seen), f)"
    "is_quarantined vs \<longleftrightarrow> \<not> acceptable (set ids) {i. StrV i \<in> set seen} x"
    "list_ex (\<lambda>v. v_severity v = Q_WARNING) vs \<longleftrightarrow> late now x"
    unfolding assms(2) by (elim exE conjE)
  then show ?thesis by (simp add: checker_check_def)
qed

subsection \<open>Amounts\<close>

text \<open>\<^verbatim>\<open>quantize\<close> raises exactly if the rounded amount needs more than 28 digits.\<close>

definition too_large :: "rat \<Rightarrow> bool" where
  "too_large x \<longleftrightarrow> 10 ^ 26 - 1 / 200 \<le> \<bar>x\<bar>"

lemma quantize_cent_cases:
  "too_large x \<Longrightarrow> quantize_cent x = Inl InvalidOperation"
  "\<not> too_large x \<Longrightarrow> \<exists>r. quantize_cent x = Inr r \<and> whole_cents r \<and> \<bar>r - x\<bar> \<le> 1 / 200"
proof -
  define c where "c = (if x < 0 then - \<lfloor>- x * 100 + 1 / 2\<rfloor> else \<lfloor>x * 100 + 1 / 2\<rfloor>)"
  have "\<bar>c\<bar> = \<lfloor>\<bar>x\<bar> * 100 + 1 / 2\<rfloor>" by (simp add: c_def)
  then have big: "10 ^ 28 \<le> \<bar>c\<bar> \<longleftrightarrow> too_large x"
    unfolding le_floor_iff too_large_def by auto
  then show "too_large x \<Longrightarrow> quantize_cent x = Inl InvalidOperation"
    by (simp add: quantize_cent_def Let_def c_def [symmetric])
  have half: "\<bar>of_int \<lfloor>y + 1 / 2\<rfloor> - y\<bar> \<le> 1 / 2" for y :: rat by linarith
  have near: "\<bar>of_int c - x * 100\<bar> \<le> 1 / 2"
    using half [of "- x * 100"] half [of "x * 100"] by (cases "x < 0") (simp_all add: c_def abs_minus_commute add.commute)
  show "\<exists>r. quantize_cent x = Inr r \<and> whole_cents r \<and> \<bar>r - x\<bar> \<le> 1 / 200" if "\<not> too_large x"
  proof (intro exI conjI)
    show "quantize_cent x = Inr (of_int c / 100)" using that big by (simp add: quantize_cent_def Let_def c_def [symmetric])
    show "whole_cents (of_int c / 100)" by (auto simp: whole_cents_def)
    show "\<bar>of_int c / 100 - x\<bar> \<le> 1 / 200" using near by (simp add: abs_le_iff field_simps)
  qed
qed

lemma order_amount_bound: "\<bar>order_amount x\<bar> \<le> 8 * \<bar>of_int (ro_quantity x) * ro_unit_price x * (1 - ro_discount x)\<bar>"
proof -
  let ?a = "of_int (ro_quantity x) * ro_unit_price x" and ?b = "1 - ro_discount x"
  have "\<bar>decimal_round ?a * decimal_round ?b\<bar> \<le> 2 * \<bar>?a\<bar> * (2 * \<bar>?b\<bar>)"
    unfolding abs_mult [of "decimal_round ?a"] by (intro mult_mono decimal_round_double) auto
  also have "\<dots> = 4 * \<bar>?a * ?b\<bar>" by (simp add: abs_mult)
  finally show ?thesis
    using decimal_round_double [of "decimal_round ?a * decimal_round ?b"] by (simp add: order_amount_def)
qed

text \<open>What the transformation makes of an order.\<close>

definition transformed :: "RawOrder \<Rightarrow> CleanOrder \<Rightarrow> bool" where
  "transformed x c \<longleftrightarrow> ro_order_id x = Some (co_order_id c) \<and> co_user_id c = ro_user_id x \<and> co_status c = ro_status x
     \<and> whole_cents (co_amount c) \<and> \<bar>co_amount c - order_amount x\<bar> \<le> 1 / 200"

lemma transform_acceptable:
  assumes "acceptable (fst ` set users) seen x"
  shows "too_large (order_amount x) \<Longrightarrow> transform_order users x = Inl InvalidOperation"
    and "\<not> too_large (order_amount x) \<Longrightarrow> \<exists>c. transform_order users x = Inr c \<and> transformed x c"
proof -
  obtain oid t u where x: "ro_order_id x = Some oid" "ro_created_at x = Some t" "map_of users (ro_user_id x) = Some u"
    using assms by (auto simp: acceptable_def map_of_eq_None_iff) (metis image_eqI fst_conv map_of_eq_None_iff not_None_eq)
  show "too_large (order_amount x) \<Longrightarrow> transform_order users x = Inl InvalidOperation"
    using quantize_cent_cases(1) x by (simp add: transform_order_def)
  show "\<exists>c. transform_order users x = Inr c \<and> transformed x c" if "\<not> too_large (order_amount x)"
    using quantize_cent_cases(2) [OF that] x by (auto simp: transform_order_def transformed_def)
qed

lemma pull_orders_good:
  "\<forall>x \<in> set orders. comparable now x \<Longrightarrow> qc_rules (pp_checker s) = rules_with (map fst users) now seen \<Longrightarrow>
     \<forall>x \<in> set (good_orders (fst ` set users) {i. StrV i \<in> set seen} orders). \<not> too_large (order_amount x) \<Longrightarrow>
     \<exists>clean s'. pull_orders pr users orders s = (Inr (), s')
       \<and> transform users (good_orders (fst ` set users) {i. StrV i \<in> set seen} orders) = Inr clean
       \<and> list_all2 transformed (good_orders (fst ` set users) {i. StrV i \<in> set seen} orders) clean
       \<and> pp_agg s' = fold agg_step clean (pp_agg s)
       \<and> map qo_order (pp_quarantine s') = map qo_order (pp_quarantine s) @ bad_orders (fst ` set users) {i. StrV i \<in> set seen} orders
       \<and> qc_total (pp_checker s') = qc_total (pp_checker s) + int (length orders)
       \<and> qc_quarantined (pp_checker s')
           = qc_quarantined (pp_checker s) + int (length (bad_orders (fst ` set users) {i. StrV i \<in> set seen} orders))
       \<and> qc_warned (pp_checker s') = qc_warned (pp_checker s) + int (length (filter (late now) orders))"
proof (induction orders arbitrary: s seen)
  case Nil
  then show ?case by (simp add: transform_def)
next
  case (Cons x orders)
  let ?seen = "{i. StrV i \<in> set seen}" and ?ids = "fst ` set users"
  have cmp: "comparable now x" "\<forall>x \<in> set orders. comparable now x" using Cons.prems(1) by auto
  from checker_check_default [OF cmp(1) Cons.prems(2), of pr] obtain vs qc where
    chk: "checker_check pr x (pp_checker s) = (Inr vs, qc)"
    and rules: "qc_rules qc = rules_with (map fst users) now (see (ro_order_id x) seen)"
    and bad: "is_quarantined vs \<longleftrightarrow> \<not> acceptable ?ids ?seen x"
    and cnt: "qc_total qc = qc_total (pp_checker s) + 1"
      "qc_quarantined qc = qc_quarantined (pp_checker s) + (if acceptable ?ids ?seen x then 0 else 1)"
      "qc_warned qc = qc_warned (pp_checker s) + (if late now x then 1 else 0)"
    unfolding set_map by (elim exE conjE)
  show ?case
  proof (cases "acceptable ?ids ?seen x")
    case True
    then obtain c where c: "transform_order users x = Inr c" "transformed x c"
      using transform_acceptable(2) [OF True] Cons.prems(3) by auto
    have fit: "\<forall>y \<in> set (good_orders ?ids {i. StrV i \<in> set (see (ro_order_id x) seen)} orders). \<not> too_large (order_amount y)"
      using Cons.prems(3) by (simp add: see_set)
    let ?s = "s\<lparr>pp_checker := qc, pp_agg := agg_step c (pp_agg s)\<rparr>"
    have "qc_rules (pp_checker ?s) = rules_with (map fst users) now (see (ro_order_id x) seen)" using rules by simp
    from Cons.IH [OF cmp(2) this fit] obtain clean s' where "pull_orders pr users orders ?s = (Inr (), s')"
      "transform users (good_orders ?ids (set_option (ro_order_id x) \<union> ?seen) orders) = Inr clean"
      "list_all2 transformed (good_orders ?ids (set_option (ro_order_id x) \<union> ?seen) orders) clean"
      "pp_agg s' = fold agg_step clean (agg_step c (pp_agg s))"
      "map qo_order (pp_quarantine s') = map qo_order (pp_quarantine s) @ bad_orders ?ids (set_option (ro_order_id x) \<union> ?seen) orders"
      "qc_total (pp_checker s') = qc_total qc + int (length orders)"
      "qc_quarantined (pp_checker s') = qc_quarantined qc + int (length (bad_orders ?ids (set_option (ro_order_id x) \<union> ?seen) orders))"
      "qc_warned (pp_checker s') = qc_warned qc + int (length (filter (late now) orders))"
      unfolding see_set by (elim exE conjE) simp
    with True chk bad c cnt show ?thesis by (simp add: transform_def)
  next
    case False
    have fit: "\<forall>y \<in> set (good_orders ?ids {i. StrV i \<in> set (see (ro_order_id x) seen)} orders). \<not> too_large (order_amount y)"
      using Cons.prems(3) by (simp add: see_set)
    let ?s = "s\<lparr>pp_checker := qc, pp_quarantine := pp_quarantine s @ [\<lparr>qo_order = x, qo_violations = vs\<rparr>]\<rparr>"
    have "qc_rules (pp_checker ?s) = rules_with (map fst users) now (see (ro_order_id x) seen)" using rules by simp
    from Cons.IH [OF cmp(2) this fit] obtain clean s' where "pull_orders pr users orders ?s = (Inr (), s')"
      "transform users (good_orders ?ids (set_option (ro_order_id x) \<union> ?seen) orders) = Inr clean"
      "list_all2 transformed (good_orders ?ids (set_option (ro_order_id x) \<union> ?seen) orders) clean"
      "pp_agg s' = fold agg_step clean (pp_agg s)"
      "map qo_order (pp_quarantine s') = map qo_order (pp_quarantine s) @ x # bad_orders ?ids (set_option (ro_order_id x) \<union> ?seen) orders"
      "qc_total (pp_checker s') = qc_total qc + int (length orders)"
      "qc_quarantined (pp_checker s') = qc_quarantined qc + int (length (bad_orders ?ids (set_option (ro_order_id x) \<union> ?seen) orders))"
      "qc_warned (pp_checker s') = qc_warned qc + int (length (filter (late now) orders))"
      unfolding see_set by (elim exE conjE) simp
    with False chk bad cnt show ?thesis by simp
  qed
qed

lemma pull_orders_overflow:
  "\<forall>x \<in> set orders. comparable now x \<Longrightarrow> qc_rules (pp_checker s) = rules_with (map fst users) now seen \<Longrightarrow>
     \<exists>x \<in> set (good_orders (fst ` set users) {i. StrV i \<in> set seen} orders). too_large (order_amount x) \<Longrightarrow>
     fst (pull_orders pr users orders s) = Inl InvalidOperation"
proof (induction orders arbitrary: s seen)
  case (Cons x orders)
  let ?seen = "{i. StrV i \<in> set seen}" and ?ids = "fst ` set users"
  have cmp: "comparable now x" "\<forall>x \<in> set orders. comparable now x" using Cons.prems(1) by auto
  from checker_check_default [OF cmp(1) Cons.prems(2), of pr] obtain vs qc where
    chk: "checker_check pr x (pp_checker s) = (Inr vs, qc)"
    and rules: "qc_rules qc = rules_with (map fst users) now (see (ro_order_id x) seen)"
    and bad: "is_quarantined vs \<longleftrightarrow> \<not> acceptable ?ids ?seen x"
    unfolding set_map by (elim exE conjE)
  have IH: "fst (pull_orders pr users orders (s\<lparr>pp_checker := qc, pp_quarantine := q, pp_agg := a\<rparr>)) = Inl InvalidOperation"
    if "\<not> (acceptable ?ids ?seen x \<and> too_large (order_amount x))" for q a
    using Cons.prems(3) that by (intro Cons.IH [OF cmp(2), where seen = "see (ro_order_id x) seen"]) (auto simp: rules see_set split: if_splits)
  show ?case
  proof (cases "acceptable ?ids ?seen x \<and> too_large (order_amount x)")
    case True
    with chk bad transform_acceptable(1) [of users ?seen x] show ?thesis by simp
  next
    case False
    note step = IH [OF False]
    show ?thesis
    proof (cases "acceptable ?ids ?seen x")
      case True
      with False obtain c where "transform_order users x = Inr c" using transform_acceptable(2) [OF True] by blast
      with chk bad True step [of "agg_step c (pp_agg s)" "pp_quarantine s"] show ?thesis by simp
    next
      case False
      with chk bad step [of "pp_agg s"] show ?thesis by simp
    qed
  qed
qed simp

lemma good_orders_acceptable: "x \<in> set (good_orders ids seen xs) \<Longrightarrow> acceptable ids seen x"
  by (induction ids seen xs rule: good_orders.induct) (auto simp: acceptable_def split: if_splits)

lemma good_orders_distinct:
  "distinct (map ro_order_id (good_orders ids seen xs)) \<and> ro_order_id ` set (good_orders ids seen xs) \<inter> Some ` seen = {}"
proof (induction ids seen xs rule: good_orders.induct)
  case (2 ids seen x xs)
  then show ?case by (auto simp: acceptable_def)
qed simp

lemma good_bad_split: "mset xs = mset (good_orders ids seen xs) + mset (bad_orders ids seen xs)"
  by (induction ids seen xs rule: good_orders.induct) auto

lemma user_map_keys: "fst ` set (user_map_of users) = u_user_id ` set users"
proof -
  have "fst ` set (fold (\<lambda>u m. AList.update (u_user_id u) u m) us m) = u_user_id ` set us \<union> fst ` set m"
    for us :: "RawUser list" and m
    by (induction us arbitrary: m) auto
  then show ?thesis by (simp add: user_map_of_def)
qed

lemma default_rule_names: "distinct (map rule_name (default_order_rules ids now))"
  by (simp add: default_order_rules_def lit_def)

lemma pipeline_result:
  assumes "\<forall>x \<in> set orders. comparable now x"
    and "\<forall>x \<in> set (good_orders (u_user_id ` set users) {} orders). \<not> too_large (order_amount x)"
  shows "\<exists>res quarantine clean good.
    run_orders_pipeline pr orders users now = (Inr res, quarantine)
    \<and> good = good_orders (u_user_id ` set users) {} orders
    \<and> transform (user_map_of users) good = Inr clean \<and> list_all2 transformed good clean \<and> pl_stats res = aggregate clean
    \<and> map qo_order quarantine = bad_orders (u_user_id ` set users) {} orders
    \<and> mset orders = mset good + mset (map qo_order quarantine)
    \<and> distinct (map ro_order_id good) \<and> (\<forall>x \<in> set good. acceptable (u_user_id ` set users) {} x)
    \<and> qr_total_rows (pl_quality res) = int (length orders)
    \<and> qr_quarantined_rows (pl_quality res) = int (length quarantine)
    \<and> qr_warning_rows (pl_quality res) = int (length (filter (late now) orders))"
proof -
  let ?users = "user_map_of users" and ?ids = "u_user_id ` set users"
  let ?qc = "\<lparr>qc_rules = default_order_rules (map fst ?users) now, qc_failures = [], qc_total = 0, qc_quarantined = 0, qc_warned = 0\<rparr>"
  have "qc_rules (pp_checker \<lparr>pp_checker = ?qc, pp_quarantine = [], pp_agg = agg_init\<rparr>) = rules_with (map fst ?users) now []"
    by (simp add: default_order_rules_with)
  from pull_orders_good [OF assms(1) this, of pr] assms(2) obtain clean s' where
    run: "pull_orders pr ?users orders \<lparr>pp_checker = ?qc, pp_quarantine = [], pp_agg = agg_init\<rparr> = (Inr (), s')"
    and clean: "transform ?users (good_orders ?ids {} orders) = Inr clean" "list_all2 transformed (good_orders ?ids {} orders) clean"
    and agg: "pp_agg s' = fold agg_step clean agg_init"
    and bad: "map qo_order (pp_quarantine s') = bad_orders ?ids {} orders"
    and cnt: "qc_total (pp_checker s') = int (length orders)"
      "qc_quarantined (pp_checker s') = int (length (bad_orders ?ids {} orders))"
      "qc_warned (pp_checker s') = int (length (filter (late now) orders))"
    by (auto simp: user_map_keys)
  have "length (pp_quarantine s') = length (bad_orders ?ids {} orders)"
    using bad by (metis length_map)
  moreover have "\<forall>x \<in> set (good_orders ?ids {} orders). acceptable ?ids {} x"
    using good_orders_acceptable by blast
  ultimately show ?thesis
    using run clean agg bad cnt default_rule_names good_orders_distinct [of ?ids "{}" orders] good_bad_split [of orders ?ids "{}"]
    by (simp add: run_orders_pipeline_def Let_def QualityChecker_init_def checker_report_def aggregate_def del: mset_map)
qed

lemma pipeline_overflow:
  assumes "\<forall>x \<in> set orders. comparable now x"
    and "\<exists>x \<in> set (good_orders (u_user_id ` set users) {} orders). too_large (order_amount x)"
  shows "fst (run_orders_pipeline pr orders users now) = Inl InvalidOperation"
proof -
  let ?users = "user_map_of users"
  let ?s = "\<lparr>pp_checker = \<lparr>qc_rules = default_order_rules (map fst ?users) now, qc_failures = [], qc_total = 0, qc_quarantined = 0, qc_warned = 0\<rparr>,
    pp_quarantine = [], pp_agg = agg_init\<rparr>"
  have "fst (pull_orders pr ?users orders ?s) = Inl InvalidOperation"
    using assms(2) by (intro pull_orders_overflow [OF assms(1), where seen = "[]"]) (simp_all add: default_order_rules_with user_map_keys)
  then show ?thesis
    using default_rule_names by (auto simp: run_orders_pipeline_def Let_def QualityChecker_init_def split: prod.splits)
qed

text \<open>
  C37: The order pipeline, on times it can compare, splits its input and finishes exactly if the amounts fit. The orders that pass are those that break no error
  rule (a null id or time, an id seen before, a quantity of zero or less, a negative price, an unknown status or user). If the amount of one of them, rounded to
  cents, needs more than 28 digits, the run ends with \<^verbatim>\<open>InvalidOperation\<close>. Otherwise it finishes: the quarantined orders are, in order, exactly the others; those that pass
  have pairwise different ids and are the ones that are transformed, each with its id, user and status and its amount to the nearest cent, and aggregated; and the
  report counts all, the quarantined and the late orders.
\<close>

theorem etl_pipeline_result:
  assumes "\<forall>x \<in> set orders. comparable now x" and "good = good_orders (u_user_id ` set users) {} orders"
  shows "if \<exists>x \<in> set good. 10 ^ 26 - 1 / 200 \<le> \<bar>order_amount x\<bar>
    then fst (run_orders_pipeline pr orders users now) = Inl InvalidOperation
    else \<exists>res quarantine clean.
      run_orders_pipeline pr orders users now = (Inr res, quarantine)
      \<and> transform (user_map_of users) good = Inr clean \<and> list_all2 transformed good clean \<and> pl_stats res = aggregate clean
      \<and> map qo_order quarantine = bad_orders (u_user_id ` set users) {} orders
      \<and> mset orders = mset good + mset (map qo_order quarantine)
      \<and> distinct (map ro_order_id good) \<and> (\<forall>x \<in> set good. acceptable (u_user_id ` set users) {} x)
      \<and> qr_total_rows (pl_quality res) = int (length orders)
      \<and> qr_quarantined_rows (pl_quality res) = int (length quarantine)
      \<and> qr_warning_rows (pl_quality res) = int (length (filter (late now) orders))"
proof (cases "\<exists>x \<in> set good. too_large (order_amount x)")
  case True
  with pipeline_overflow [OF assms(1), of users pr] show ?thesis by (simp only: assms(2) too_large_def if_True)
next
  case False
  then have "\<forall>x \<in> set (good_orders (u_user_id ` set users) {} orders). \<not> too_large (order_amount x)" by (simp add: assms(2))
  from pipeline_result [OF assms(1) this, of pr] False show ?thesis unfolding assms(2) [symmetric] too_large_def by (simp only: if_False) blast
qed

section \<open>Aggregation\<close>

lemma agg_step_get:
  "dict_get k 0 (ag_order_counts (agg_step c a)) = dict_get k 0 (ag_order_counts a) + (if co_key c = k then 1 else 0)"
  "dict_get k 0 (ag_paid_counts (agg_step c a))
     = dict_get k 0 (ag_paid_counts a) + (if co_key c = k \<and> co_status c = lit ''PAID'' then 1 else 0)"
  "dict_get k 0 (ag_gmv (agg_step c a))
     = (if co_key c = k \<and> co_status c = lit ''PAID'' then decimal_round (dict_get k 0 (ag_gmv a) + co_amount c) else dict_get k 0 (ag_gmv a))"
  "fst ` set (ag_order_counts (agg_step c a)) = insert (co_key c) (fst ` set (ag_order_counts a))"
  "distinct (map fst (ag_order_counts a)) \<Longrightarrow> distinct (map fst (ag_order_counts (agg_step c a)))"
  by (auto simp: agg_step_def Let_def dict_get_update distinct_update)

definition paid :: "CleanOrder list \<Rightarrow> CleanOrder list" where
  "paid cs = filter (\<lambda>c. co_status c = lit ''PAID'') cs"

definition of_key :: "int \<times> pystr \<Rightarrow> CleanOrder list \<Rightarrow> CleanOrder list" where
  "of_key k cs = filter (\<lambda>c. co_key c = k) cs"

lemma fold_agg_get:
  "dict_get k 0 (ag_order_counts (fold agg_step cs a)) = dict_get k 0 (ag_order_counts a) + int (length (of_key k cs))"
  "dict_get k 0 (ag_paid_counts (fold agg_step cs a)) = dict_get k 0 (ag_paid_counts a) + int (length (paid (of_key k cs)))"
  "dict_get k 0 (ag_gmv (fold agg_step cs a)) = decimal_sum (dict_get k 0 (ag_gmv a)) (map co_amount (paid (of_key k cs)))"
  "fst ` set (ag_order_counts (fold agg_step cs a)) = co_key ` set cs \<union> fst ` set (ag_order_counts a)"
  "distinct (map fst (ag_order_counts a)) \<Longrightarrow> distinct (map fst (ag_order_counts (fold agg_step cs a)))"
  by (induction cs arbitrary: a) (simp_all add: agg_step_get of_key_def paid_def decimal_sum_def)

definition ds_key :: "DailyRegionStat \<Rightarrow> int \<times> pystr" where
  "ds_key s = (ds_order_date s, ds_region s)"

lemma sum_list_by_key:
  "distinct ks \<Longrightarrow> co_key ` set cs \<subseteq> set ks \<Longrightarrow>
     sum_list (map (\<lambda>k. sum_list (map f (filter P (of_key k cs)))) ks) = sum_list (map f (filter P cs))"
  for f :: "CleanOrder \<Rightarrow> 'a :: comm_monoid_add"
proof (induction cs)
  case (Cons c cs)
  have one: "sum_list (map (\<lambda>k. if co_key c = k then v else 0) ks) = v" for v :: 'a
    using Cons.prems by (simp add: sum_list_distinct_conv_sum_set)
  have "map f (filter P (of_key k (c # cs))) = (if co_key c = k \<and> P c then [f c] else []) @ map f (filter P (of_key k cs))" for k
    by (simp add: of_key_def)
  then have "sum_list (map (\<lambda>k. sum_list (map f (filter P (of_key k (c # cs))))) ks)
      = sum_list (map (\<lambda>k. (if co_key c = k then (if P c then f c else 0) else 0) + sum_list (map f (filter P (of_key k cs)))) ks)"
    by (intro arg_cong [of _ _ sum_list] map_cong) auto
  also have "\<dots> = (if P c then f c else 0) + sum_list (map f (filter P cs))"
    using Cons by (simp add: sum_list_addf one)
  finally show ?case by simp
qed (simp add: of_key_def)

lemma aggregate_eq:
  "aggregate cs = map (\<lambda>k. \<lparr>ds_order_date = fst k, ds_region = snd k, ds_order_count = int (length (of_key k cs)),
     ds_paid_count = int (length (paid (of_key k cs))), ds_gmv = decimal_sum 0 (map co_amount (paid (of_key k cs)))\<rparr>)
     (sorted_list_of_set (co_key ` set cs))"
proof -
  define ks where "ks = sort (map fst (ag_order_counts (fold agg_step cs agg_init)))"
  have "set ks = co_key ` set cs" "distinct ks" "sorted ks"
    using fold_agg_get(4,5) [where cs = cs and a = agg_init] by (simp_all add: ks_def agg_init_def flip: set_map)
  then have "sorted_list_of_set (co_key ` set cs) = ks" by (metis sorted_list_of_set.idem_if_sorted_distinct)
  then show ?thesis
    by (simp add: aggregate_def agg_result_def fold_agg_get ks_def) (simp add: agg_init_def)
qed

lemma sum_list_filter_le: "(\<And>x. 0 \<le> f x) \<Longrightarrow> sum_list (map f (filter P xs)) \<le> sum_list (map f xs)" for f :: "'a \<Rightarrow> rat"
  by (induction xs) (simp_all add: add_increasing add_left_mono)

text \<open>The sums of the groups are exact if the amounts are whole cents and do not add up to \<open>10 ^ 26\<close>.\<close>

lemma group_sum_exact:
  assumes "\<forall>c \<in> set (paid cs). whole_cents (co_amount c)" and "sum_list (map (\<lambda>c. \<bar>co_amount c\<bar>) (paid cs)) < 10 ^ 26"
  shows "decimal_sum 0 (map co_amount (paid (of_key k cs))) = sum_list (map co_amount (paid (of_key k cs)))"
proof -
  have swap: "paid (of_key k cs) = filter (\<lambda>c. co_key c = k) (paid cs)" by (simp add: paid_def of_key_def conj_commute)
  have "sum_list (map (\<lambda>c. \<bar>co_amount c\<bar>) (paid (of_key k cs))) < 10 ^ 26"
    using sum_list_filter_le [of "\<lambda>c. \<bar>co_amount c\<bar>" "\<lambda>c. co_key c = k" "paid cs"] assms(2) unfolding swap by simp
  then show ?thesis
    using decimal_sum_exact [of 0 "map co_amount (paid (of_key k cs))"] assms(1) by (auto simp: swap comp_def)
qed

text \<open>The averages of moderate amounts can be computed.\<close>

lemma averages_ok:
  assumes "\<forall>c \<in> set cs. whole_cents (co_amount c) \<and> \<bar>co_amount c\<bar> \<le> 10 ^ 5" and "length cs \<le> 10 ^ 20" and "s \<in> set (aggregate cs)"
  shows "\<exists>v. avg_order_value s = Inr v"
proof (cases "ds_paid_count s = 0")
  case False
  obtain k where s: "ds_gmv s = decimal_sum 0 (map co_amount (paid (of_key k cs)))" "ds_paid_count s = int (length (paid (of_key k cs)))"
    using assms(3) unfolding aggregate_eq set_map by (elim imageE) simp
  have bound: "sum_list (map (\<lambda>c. \<bar>co_amount c\<bar>) xs) \<le> of_nat (length xs) * 10 ^ 5" if "set xs \<subseteq> set cs" for xs
    using that assms(1) by (induction xs) (auto simp: algebra_simps intro: add_mono)
  let ?xs = "paid (of_key k cs)"
  have sub: "set (paid cs) \<subseteq> set cs" "set ?xs \<subseteq> set cs" by (auto simp: paid_def of_key_def)
  have "(of_nat (length (paid cs)) :: rat) \<le> of_nat (length cs)" by (simp add: paid_def)
  also have "\<dots> \<le> of_nat (10 ^ 20)" using assms(2) by (simp only: of_nat_le_iff)
  finally have "sum_list (map (\<lambda>c. \<bar>co_amount c\<bar>) (paid cs)) < 10 ^ 26" using bound [OF sub(1)] by simp
  then have gmv: "ds_gmv s = sum_list (map co_amount ?xs)" using group_sum_exact [of cs k] assms(1) sub(1) s(1) by auto
  have "\<bar>ds_gmv s\<bar> \<le> of_nat (length ?xs) * 10 ^ 5"
    using bound [OF sub(2)] sum_list_abs [of "map co_amount ?xs"] unfolding gmv by (simp add: comp_def)
  then have "\<bar>ds_gmv s / of_int (ds_paid_count s)\<bar> \<le> 10 ^ 5" using False unfolding s(2) by (simp add: pos_divide_le_eq mult.commute)
  then have "\<not> too_large (decimal_round (ds_gmv s / of_int (ds_paid_count s)))"
    using decimal_round_double [of "ds_gmv s / of_int (ds_paid_count s)"] by (simp add: too_large_def)
  from quantize_cent_cases(2) [OF this] False show ?thesis by (auto simp: avg_order_value_def)
qed (simp add: avg_order_value_def)

text \<open>
  C38: Aggregation is a group-by. The statistics are sorted by day and region, one for each pair that occurs; each counts the
  orders and the paid orders of its pair, and its volume is the sum of the paid amounts of the pair in decimal arithmetic; the counts add up to the number of
  orders. If the paid amounts are whole cents, as the transformation leaves them, and their sizes add up to less than \<open>10 ^ 26\<close>, the arithmetic is
  exact: every volume is the exact sum, and over all statistics no amount is lost, the volumes add up to the sum of all paid amounts.
\<close>

theorem aggregate_groups:
  "map ds_key (aggregate cs) = sorted_list_of_set (co_key ` set cs)
   \<and> (\<forall>s \<in> set (aggregate cs).
        ds_order_count s = int (length (of_key (ds_key s) cs)) \<and> ds_paid_count s = int (length (paid (of_key (ds_key s) cs)))
        \<and> ds_gmv s = decimal_sum 0 (map co_amount (paid (of_key (ds_key s) cs))))
   \<and> sum_list (map ds_order_count (aggregate cs)) = int (length cs)
   \<and> ((\<forall>c \<in> set (paid cs). whole_cents (co_amount c)) \<and> sum_list (map (\<lambda>c. \<bar>co_amount c\<bar>) (paid cs)) < 10 ^ 26
      \<longrightarrow> (\<forall>s \<in> set (aggregate cs). ds_gmv s = sum_list (map co_amount (paid (of_key (ds_key s) cs))))
        \<and> sum_list (map ds_gmv (aggregate cs)) = sum_list (map co_amount (paid cs)))"
proof -
  define ks where "ks = sorted_list_of_set (co_key ` set cs)"
  have ks: "set ks = co_key ` set cs" "distinct ks" by (simp_all add: ks_def)
  note agg = aggregate_eq [of cs, folded ks_def]
  have "map ds_key (aggregate cs) = ks"
    by (simp add: agg comp_def ds_key_def)
  moreover have "sum_list (map ds_order_count (aggregate cs)) = int (length cs)"
    using sum_list_by_key [OF ks(2), of cs "\<lambda>_. 1 :: int" "\<lambda>_. True"] ks(1) by (simp add: agg comp_def sum_list_triv)
  moreover have groups: "\<forall>s \<in> set (aggregate cs).
      ds_order_count s = int (length (of_key (ds_key s) cs)) \<and> ds_paid_count s = int (length (paid (of_key (ds_key s) cs)))
      \<and> ds_gmv s = decimal_sum 0 (map co_amount (paid (of_key (ds_key s) cs)))"
    by (simp add: agg ds_key_def)
  moreover have "(\<forall>s \<in> set (aggregate cs). ds_gmv s = sum_list (map co_amount (paid (of_key (ds_key s) cs))))
      \<and> sum_list (map ds_gmv (aggregate cs)) = sum_list (map co_amount (paid cs))"
    if "(\<forall>c \<in> set (paid cs). whole_cents (co_amount c)) \<and> sum_list (map (\<lambda>c. \<bar>co_amount c\<bar>) (paid cs)) < 10 ^ 26"
  proof -
    from that have exact: "decimal_sum 0 (map co_amount (paid (of_key k cs))) = sum_list (map co_amount (paid (of_key k cs)))" for k
      using group_sum_exact by blast
    have "sum_list (map ds_gmv (aggregate cs)) = sum_list (map co_amount (paid cs))"
      using sum_list_by_key [OF ks(2), of cs co_amount "\<lambda>c. co_status c = lit ''PAID''"] ks(1)
      by (simp add: agg comp_def exact) (simp add: paid_def)
    with groups exact show ?thesis by simp
  qed
  ultimately show ?thesis unfolding ks_def by (intro conjI impI) simp_all
qed

definition sample_clean :: "int \<Rightarrow> rat \<Rightarrow> CleanOrder" where
  "sample_clean day amount = \<lparr>co_order_id = lit ''O1'', co_user_id = lit ''U1'', co_region = lit ''NORTH'', co_order_date = day,
     co_status = lit ''PAID'', co_amount = amount\<rparr>"

theorem aggregate_groups_witness:
  "sum_list (map ds_gmv (aggregate [sample_clean 2 5, sample_clean 1 7, sample_clean 2 1])) = 13
   \<and> (\<exists>s \<in> set (aggregate [sample_clean 2 5, sample_clean 1 7, sample_clean 2 1]). ds_gmv s = 6 \<and> ds_order_count s = 2)"
proof -
  let ?cs = "[sample_clean 2 5, sample_clean 1 7, sample_clean 2 1]"
  note facts = aggregate_groups [of ?cs]
  have whole: "whole_cents (of_int k)" for k unfolding whole_cents_def by (rule exI [of _ "k * 100"]) simp
  have paid: "paid ?cs = ?cs" by (simp add: paid_def sample_clean_def)
  then have "(\<forall>c \<in> set (paid ?cs). whole_cents (co_amount c)) \<and> sum_list (map (\<lambda>c. \<bar>co_amount c\<bar>) (paid ?cs)) < 10 ^ 26"
    using whole [of 5] whole [of 7] whole [of 1] by (simp add: sample_clean_def)
  with facts have exact: "\<forall>s \<in> set (aggregate ?cs). ds_gmv s = sum_list (map co_amount (paid (of_key (ds_key s) ?cs)))"
    "sum_list (map ds_gmv (aggregate ?cs)) = sum_list (map co_amount (paid ?cs))" by blast+
  have "(2, lit ''NORTH'') \<in> set (map ds_key (aggregate ?cs))"
    by (subst conjunct1 [OF facts]) (simp add: sample_clean_def co_key_def del: sorted_list_of_set_insert_remove)
  then obtain s where s: "s \<in> set (aggregate ?cs)" "ds_key s = (2, lit ''NORTH'')" by auto
  with facts exact have "ds_order_count s = int (length (of_key (2, lit ''NORTH'') ?cs))"
    "ds_gmv s = sum_list (map co_amount (paid (of_key (2, lit ''NORTH'') ?cs)))" by metis+
  with s have "\<exists>s \<in> set (aggregate ?cs). ds_gmv s = 6 \<and> ds_order_count s = 2"
    by (intro bexI [of _ s]) (simp_all add: of_key_def paid_def sample_clean_def co_key_def)
  then show ?thesis using exact(2) unfolding paid by (simp add: sample_clean_def)
qed

definition sample_user :: RawUser where
  "sample_user = \<lparr>u_user_id = lit ''U000001'', u_region = lit ''NORTH'', u_register_date = 0, u_member_level = lit ''GOLD''\<rparr>"

definition sample_order :: RawOrder where
  "sample_order = \<lparr>ro_order_id = Some (lit ''O00000001''), ro_user_id = lit ''U000001'', ro_product_id = lit ''P00001'',
     ro_quantity = 2, ro_unit_price = 5, ro_discount = 0, ro_status = lit ''PAID'', ro_created_at = Some (utc 5)\<rparr>"

text \<open>A price of \<open>10 ^ 27\<close> breaks no rule.\<close>

definition huge_order :: RawOrder where
  "huge_order = sample_order\<lparr>ro_unit_price := 10 ^ 27\<rparr>"

lemma sample_order_amounts: "order_amount sample_order = 10" "order_amount huge_order = 2 * 10 ^ 27"
proof -
  have r: "decimal_round (of_int k) = of_int k" if "k \<in> {1, 10, 2 * 10 ^ 27}" for k
    using that unfolding decimal_round_def by (intro round_digits_exact [where k = "k div 10 ^ 27 + k mod 10 ^ 27" and j = "if k < 10 ^ 27 then 0 else 27"]) auto
  from r [of 1] r [of 10] r [of "2 * 10 ^ 27"] have d: "decimal_round 1 = 1" "decimal_round 10 = 10" "decimal_round (2 * 10 ^ 27) = 2 * 10 ^ 27"
    by simp_all
  show "order_amount sample_order = 10" by (simp add: order_amount_def sample_order_def d)
  show "order_amount huge_order = 2 * 10 ^ 27" using d(3) by (simp add: order_amount_def huge_order_def sample_order_def d(1))
qed

theorem etl_pipeline_result_witness:
  "(\<exists>res quarantine. run_orders_pipeline (\<lambda>_ _. []) [sample_order, sample_order] [sample_user] (utc 9) = (Inr res, quarantine)
     \<and> map qo_order quarantine = [sample_order] \<and> qr_total_rows (pl_quality res) = 2 \<and> qr_quarantined_rows (pl_quality res) = 1)
   \<and> fst (run_orders_pipeline (\<lambda>_ _. []) [huge_order] [sample_user] (utc 9)) = Inl InvalidOperation"
proof
  have cmp: "\<forall>x \<in> set [sample_order, sample_order]. comparable (utc 9) x" "\<forall>x \<in> set [huge_order]. comparable (utc 9) x"
    by (simp_all add: comparable_def huge_order_def sample_order_def is_aware_def)
  have bad: "bad_orders (u_user_id ` set [sample_user]) {} [sample_order, sample_order] = [sample_order]"
    and good: "good_orders (u_user_id ` set [sample_user]) {} [sample_order, sample_order] = [sample_order]"
      "good_orders (u_user_id ` set [sample_user]) {} [huge_order] = [huge_order]"
    by (simp_all add: acceptable_def huge_order_def sample_order_def sample_user_def VALID_ORDER_STATUSES_def)
  from etl_pipeline_result [OF cmp(1) refl, of "[sample_user]" "\<lambda>_ _. []"] obtain res quarantine where
    run: "run_orders_pipeline (\<lambda>_ _. []) [sample_order, sample_order] [sample_user] (utc 9) = (Inr res, quarantine)"
    and q: "map qo_order quarantine = [sample_order]"
    and rep: "qr_total_rows (pl_quality res) = int (length [sample_order, sample_order])"
      "qr_quarantined_rows (pl_quality res) = int (length quarantine)"
    unfolding bad good by (auto simp: sample_order_amounts)
  have "length quarantine = 1" using q by (metis length_map length_Cons list.size(3) One_nat_def)
  with run q rep show "\<exists>res quarantine. run_orders_pipeline (\<lambda>_ _. []) [sample_order, sample_order] [sample_user] (utc 9) = (Inr res, quarantine)
     \<and> map qo_order quarantine = [sample_order] \<and> qr_total_rows (pl_quality res) = 2 \<and> qr_quarantined_rows (pl_quality res) = 1"
    by simp
  show "fst (run_orders_pipeline (\<lambda>_ _. []) [huge_order] [sample_user] (utc 9)) = Inl InvalidOperation"
    using etl_pipeline_result [OF cmp(2) refl, of "[sample_user]" "\<lambda>_ _. []"] unfolding good by (simp add: sample_order_amounts)
qed

end
