(* ===== verification/Etl_Factory.thy ===== *)
theory Etl_Factory
  imports Etl_Pipeline
begin

text \<open>
  The generator of test data (\<^verbatim>\<open>etl/factory.py\<close>). What \<^verbatim>\<open>random.Random\<close> returns is an input: one record of draws for each
  user, product and order, a function of its number (a seed fixes that function). \<open>order_draws_ok\<close> states the ranges
  \<^verbatim>\<open>randint\<close>, \<^verbatim>\<open>choice\<close> and \<^verbatim>\<open>random\<close> document.
\<close>

section \<open>Factory\<close>

definition REGIONS :: "pystr list" where
  "REGIONS = [lit ''NORTH'', lit ''SOUTH'', lit ''EAST'', lit ''WEST'', lit ''CENTRAL'']"

definition MEMBER_LEVELS :: "pystr list" where
  "MEMBER_LEVELS = [lit ''BRONZE'', lit ''SILVER'', lit ''GOLD'', lit ''PLATINUM'']"

definition CATEGORIES :: "pystr list" where
  "CATEGORIES = [lit ''ELECTRONICS'', lit ''HOME'', lit ''BOOKS'', lit ''APPAREL'', lit ''FOOD'']"

definition SUPPLIERS :: "pystr list" where
  "SUPPLIERS = map (\<lambda>i. lit ''SUP'' @ pad 2 i) [1..<9]"

definition DISCOUNTS :: "rat list" where
  "DISCOUNTS = [0, 5 / 100, 10 / 100, 20 / 100]"

definition DIRTY_KINDS :: "DirtyKind list" where
  "DIRTY_KINDS = [MISSING_ID, DUPLICATE_ID, BAD_QUANTITY, NEGATIVE_PRICE, BAD_STATUS, ORPHAN_USER, FUTURE_TIME, MISSING_TIME]"

definition ORPHAN_USER_ID :: pystr where
  "ORPHAN_USER_ID = lit ''U999999''"

definition money :: "int \<Rightarrow> rat" where
  "money cents = of_int cents / 100"

record TestDataFactory =
  tf_seed :: int
  tf_user_pool_size :: int
  tf_product_pool_size :: int
  tf_now :: datetime

definition TestDataFactory_init :: "int \<Rightarrow> int \<Rightarrow> int \<Rightarrow> datetime \<Rightarrow> exn + TestDataFactory" where
  "TestDataFactory_init seed user_pool_size product_pool_size now =
     (if \<not> (0 < user_pool_size \<and> user_pool_size < 999999) then Inl (ValueError (lit ''user_pool_size must be in (0, 999999)''))
      else if product_pool_size < 1 then Inl (ValueError (lit ''product_pool_size must be >= 1''))
      else if tzinfo now = None then Inl (ValueError (lit ''now must be timezone-aware''))
      else Inr \<lparr>tf_seed = seed, tf_user_pool_size = user_pool_size, tf_product_pool_size = product_pool_size, tf_now = now\<rparr>)"

definition user_id_of :: "int \<Rightarrow> pystr" where
  "user_id_of i = lit ''U'' @ pad 6 (nat i)"

definition product_id_of :: "int \<Rightarrow> pystr" where
  "product_id_of i = lit ''P'' @ pad 5 (nat i)"

definition order_id_of :: "int \<Rightarrow> pystr" where
  "order_id_of i = lit ''O'' @ pad 8 (nat i)"

record user_draws =
  ud_region :: pystr
  ud_age_days :: int
  ud_member_level :: pystr

definition generate_users :: "(int \<Rightarrow> user_draws) \<Rightarrow> TestDataFactory \<Rightarrow> exn + RawUser list" where
  "generate_users draws f =
     mapM (\<lambda>i. case add_timedelta (tf_now f) (- (ud_age_days (draws i) * us_per_day)) of
                Inl e \<Rightarrow> Inl e
              | Inr t \<Rightarrow> Inr \<lparr>u_user_id = user_id_of i, u_region = ud_region (draws i), u_register_date = date_of t,
                              u_member_level = ud_member_level (draws i)\<rparr>)
       [1..tf_user_pool_size f]"

record product_draws =
  pd_cents :: int
  pd_cost_factor :: rat
  pd_category :: pystr
  pd_supplier :: pystr

definition generate_products :: "(int \<Rightarrow> product_draws) \<Rightarrow> TestDataFactory \<Rightarrow> RawProduct list" where
  "generate_products draws f =
     map (\<lambda>i. \<lparr>pr_product_id = product_id_of i, pr_category = pd_category (draws i), pr_price = money (pd_cents (draws i)),
               pr_cost = of_int (round_half_even (money (pd_cents (draws i)) * pd_cost_factor (draws i) * 100)) / 100,
               pr_supplier = pd_supplier (draws i)\<rparr>)
       [1..tf_product_pool_size f]"

record order_draws =
  od_user :: int
  od_product :: int
  od_quantity :: int
  od_cents :: int
  od_discount :: rat
  od_status :: pystr
  od_age_seconds :: int
  od_roll :: pyfloat
  od_kind :: DirtyKind
  od_bad_quantity :: int
  od_bad_status :: pystr
  od_future_days :: int

definition draw_kind :: "order_draws \<Rightarrow> pyfloat \<Rightarrow> pystr option \<Rightarrow> DirtyKind option" where
  "draw_kind dr dirty_ratio last_emitted_id =
     (if od_roll dr < dirty_ratio
      then Some (if od_kind dr = DUPLICATE_ID \<and> last_emitted_id = None then MISSING_ID else od_kind dr)
      else None)"

definition clean_order :: "order_draws \<Rightarrow> int \<Rightarrow> datetime \<Rightarrow> RawOrder" where
  "clean_order dr i created_at =
     \<lparr>ro_order_id = Some (order_id_of i), ro_user_id = user_id_of (od_user dr), ro_product_id = product_id_of (od_product dr),
      ro_quantity = od_quantity dr, ro_unit_price = money (od_cents dr), ro_discount = od_discount dr,
      ro_status = od_status dr, ro_created_at = Some created_at\<rparr>"

definition inject :: "order_draws \<Rightarrow> datetime \<Rightarrow> pystr option \<Rightarrow> DirtyKind option \<Rightarrow> RawOrder \<Rightarrow> exn + RawOrder" where
  "inject dr now last_emitted_id kind x =
     (case kind of
        None \<Rightarrow> Inr x
      | Some MISSING_ID \<Rightarrow> Inr (x\<lparr>ro_order_id := None\<rparr>)
      | Some DUPLICATE_ID \<Rightarrow> Inr (x\<lparr>ro_order_id := last_emitted_id\<rparr>)
      | Some BAD_QUANTITY \<Rightarrow> Inr (x\<lparr>ro_quantity := od_bad_quantity dr\<rparr>)
      | Some NEGATIVE_PRICE \<Rightarrow> Inr (x\<lparr>ro_unit_price := - ro_unit_price x\<rparr>)
      | Some BAD_STATUS \<Rightarrow> Inr (x\<lparr>ro_status := od_bad_status dr\<rparr>)
      | Some ORPHAN_USER \<Rightarrow> Inr (x\<lparr>ro_user_id := ORPHAN_USER_ID\<rparr>)
      | Some FUTURE_TIME \<Rightarrow>
          (case add_timedelta now (od_future_days dr * us_per_day) of Inl e \<Rightarrow> Inl e | Inr t \<Rightarrow> Inr (x\<lparr>ro_created_at := Some t\<rparr>))
      | Some MISSING_TIME \<Rightarrow> Inr (x\<lparr>ro_created_at := None\<rparr>))"

text \<open>The loop over \<^verbatim>\<open>range(1, count + 1)\<close>; \<open>is\<close> are the numbers still to come.\<close>

fun label_orders ::
  "(int \<Rightarrow> order_draws) \<Rightarrow> datetime \<Rightarrow> pyfloat \<Rightarrow> int list \<Rightarrow> pystr option \<Rightarrow> exn + (RawOrder \<times> DirtyKind option) list" where
  "label_orders draws now dirty_ratio [] last_emitted_id = Inr []"
| "label_orders draws now dirty_ratio (i # is) last_emitted_id =
     (case add_timedelta now (- (od_age_seconds (draws i) * us_per_second)) of
        Inl e \<Rightarrow> Inl e
      | Inr created_at \<Rightarrow>
          let kind = draw_kind (draws i) dirty_ratio last_emitted_id in
          case inject (draws i) now last_emitted_id kind (clean_order (draws i) i created_at) of
            Inl e \<Rightarrow> Inl e
          | Inr x \<Rightarrow>
              (case label_orders draws now dirty_ratio is (if ro_order_id x \<noteq> None then ro_order_id x else last_emitted_id) of
                 Inl e \<Rightarrow> Inl e
               | Inr rest \<Rightarrow> Inr ((x, kind) # rest)))"

definition generate_labeled_orders ::
  "(int \<Rightarrow> order_draws) \<Rightarrow> int \<Rightarrow> pyfloat \<Rightarrow> TestDataFactory \<Rightarrow> exn + (RawOrder \<times> DirtyKind option) list" where
  "generate_labeled_orders draws n_orders dirty_ratio f =
     (if n_orders < 0 then Inl (ValueError (lit ''count must be >= 0''))
      else if \<not> (0 \<le> dirty_ratio \<and> dirty_ratio \<le> 1) then Inl (ValueError (lit ''dirty_ratio must be in [0, 1]''))
      else label_orders draws (tf_now f) dirty_ratio [1..n_orders] None)"

definition generate_orders :: "(int \<Rightarrow> order_draws) \<Rightarrow> int \<Rightarrow> pyfloat \<Rightarrow> TestDataFactory \<Rightarrow> exn + RawOrder list" where
  "generate_orders draws n_orders dirty_ratio f =
     (case generate_labeled_orders draws n_orders dirty_ratio f of Inl e \<Rightarrow> Inl e | Inr xs \<Rightarrow> Inr (map fst xs))"

section \<open>The labels are the truth\<close>

definition order_draws_ok :: "TestDataFactory \<Rightarrow> order_draws \<Rightarrow> bool" where
  "order_draws_ok f dr \<longleftrightarrow>
     od_user dr \<in> {1..tf_user_pool_size f} \<and> od_quantity dr \<in> {1..10} \<and> od_cents dr \<in> {500..50000}
     \<and> od_discount dr \<in> set DISCOUNTS \<and> od_status dr \<in> set VALID_ORDER_STATUSES \<and> od_age_seconds dr \<in> {0..30 * 86400} \<and> od_kind dr \<in> set DIRTY_KINDS
     \<and> od_bad_quantity dr \<in> {0, -1, -5} \<and> od_bad_status dr \<in> {lit ''UNKNOWN'', lit ''paid'', lit ''??''}
     \<and> od_future_days dr \<in> {1..30}"

text \<open>The label of a dirty order that must be quarantined.\<close>

definition must_quarantine :: "DirtyKind option \<Rightarrow> bool" where
  "must_quarantine kind \<longleftrightarrow> kind \<noteq> None \<and> kind \<noteq> Some FUTURE_TIME"

lemma id_inject:
  "order_id_of i = order_id_of j \<longleftrightarrow> nat i = nat j" "user_id_of i = user_id_of j \<longleftrightarrow> nat i = nat j"
  by (auto simp: order_id_of_def user_id_of_def dest: pad_inject)

lemma orphan_not_user: "j \<in> {1..n} \<Longrightarrow> n < 999999 \<Longrightarrow> user_id_of j \<noteq> ORPHAN_USER_ID"
proof
  assume "j \<in> {1..n}" "n < 999999" "user_id_of j = ORPHAN_USER_ID"
  then have "pad 6 (nat j) = lit ''999999''" by (simp add: user_id_of_def ORPHAN_USER_ID_def lit_def)
  then have "nat j = read_nat (lit ''999999'')" by (metis read_pad)
  also have "\<dots> = 999999" by (simp add: lit_def read_nat_def)
  finally have "nat j = 999999" .
  with \<open>j \<in> {1..n}\<close> \<open>n < 999999\<close> show False by (auto simp: nat_eq_iff)
qed

lemma bad_status_invalid: "s \<in> {lit ''UNKNOWN'', lit ''paid'', lit ''??''} \<Longrightarrow> s \<notin> set VALID_ORDER_STATUSES"
  by (auto simp: VALID_ORDER_STATUSES_def)

lemma add_timedelta_instant:
  "add_timedelta now us = Inr t \<Longrightarrow> instant t = instant now + us \<and> is_aware t = is_aware now"
  by (auto simp: add_timedelta_def mk_datetime_def instant_def is_aware_def split: if_splits)

text \<open>One order: whether it is acceptable, late and comparable follows from its label.\<close>

lemma injected_order:
  assumes draws: "order_draws_ok f dr" and pool: "tf_user_pool_size f < 999999" and now: "tf_now f = now"
    and created: "add_timedelta now (- (od_age_seconds dr * us_per_second)) = Inr t"
    and kind: "kind = draw_kind dr ratio prev"
    and inj: "inject dr now prev kind (clean_order dr i t) = Inr x"
    and fresh: "order_id_of i \<notin> seen" and prev: "prev \<noteq> None \<Longrightarrow> prev \<in> Some ` seen"
  shows "acceptable (user_id_of ` {1..tf_user_pool_size f}) seen x \<longleftrightarrow> \<not> must_quarantine kind"
    and "late now x \<longleftrightarrow> kind = Some FUTURE_TIME" and "comparable now x"
    and "ro_order_id x \<in> {None, Some (order_id_of i), prev}"
proof -
  let ?ids = "user_id_of ` {1..tf_user_pool_size f}" and ?c = "clean_order dr i t"
  have t: "instant t = instant now - od_age_seconds dr * us_per_second" "is_aware t = is_aware now"
    using add_timedelta_instant [OF created] by auto
  have d: "0 \<le> od_age_seconds dr" "0 < od_quantity dr" "0 < money (od_cents dr)" "od_status dr \<in> set VALID_ORDER_STATUSES"
    "user_id_of (od_user dr) \<in> ?ids" "od_bad_quantity dr \<le> 0" "od_bad_status dr \<notin> set VALID_ORDER_STATUSES" "0 < od_future_days dr"
    using draws bad_status_invalid [of "od_bad_status dr"] unfolding order_draws_ok_def money_def
    by simp_all auto
  have orphan: "ORPHAN_USER_ID \<notin> ?ids" using orphan_not_user pool by force
  have clean: "acceptable ?ids seen ?c" "\<not> late now ?c" "comparable now ?c"
    using d t fresh by (auto simp: acceptable_def late_def comparable_def clean_order_def)
  have dup: "kind = Some DUPLICATE_ID \<Longrightarrow> prev \<in> Some ` seen"
    using prev by (auto simp: kind draw_kind_def split: if_splits)
  have fut: "instant now < instant t' \<and> is_aware t' = is_aware now" if "add_timedelta now (od_future_days dr * us_per_day) = Inr t'" for t'
    using add_timedelta_instant [OF that] d(8) by simp
  note defs = inject_def must_quarantine_def acceptable_def late_def comparable_def clean_order_def
  show "acceptable ?ids seen x \<longleftrightarrow> \<not> must_quarantine kind"
    using inj clean(1) d orphan dup by (cases kind; cases "the kind") (auto simp: defs split: sum.splits)
  show "late now x \<longleftrightarrow> kind = Some FUTURE_TIME"
    using inj clean(2) fut by (cases kind; cases "the kind") (auto simp: defs split: sum.splits)
  show "comparable now x"
    using inj clean(3) fut by (cases kind; cases "the kind") (auto simp: defs split: sum.splits)
  show "ro_order_id x \<in> {None, Some (order_id_of i), prev}"
    using inj by (cases kind; cases "the kind") (auto simp: defs split: sum.splits)
qed

lemma label_orders_truth:
  assumes pool: "tf_user_pool_size f < 999999"
  shows "label_orders draws (tf_now f) ratio is prev = Inr labeled \<Longrightarrow> \<forall>i \<in> set is. order_draws_ok f (draws i) \<Longrightarrow>
     distinct (map order_id_of is) \<Longrightarrow> \<forall>i \<in> set is. order_id_of i \<notin> seen \<Longrightarrow> (prev \<noteq> None \<longrightarrow> prev \<in> Some ` seen) \<Longrightarrow>
     bad_orders (user_id_of ` {1..tf_user_pool_size f}) seen (map fst labeled) = map fst (filter (\<lambda>(x, k). must_quarantine k) labeled)
     \<and> filter (late (tf_now f)) (map fst labeled) = map fst (filter (\<lambda>(x, k). k = Some FUTURE_TIME) labeled)
     \<and> (\<forall>x \<in> set (map fst labeled). comparable (tf_now f) x)"
proof (induction "is" arbitrary: prev seen labeled)
  case (Cons i "is")
  let ?ids = "user_id_of ` {1..tf_user_pool_size f}" and ?kind = "draw_kind (draws i) ratio prev"
  from Cons.prems(1) obtain t x rest where t: "add_timedelta (tf_now f) (- (od_age_seconds (draws i) * us_per_second)) = Inr t"
    and x: "inject (draws i) (tf_now f) prev ?kind (clean_order (draws i) i t) = Inr x"
    and rest: "label_orders draws (tf_now f) ratio is (if ro_order_id x \<noteq> None then ro_order_id x else prev) = Inr rest"
    and lab: "labeled = (x, ?kind) # rest"
    by (auto simp: Let_def split: sum.splits)
  have ok: "order_draws_ok f (draws i)" "order_id_of i \<notin> seen" using Cons.prems(2,4) by auto
  note one = injected_order [OF ok(1) pool refl t refl x ok(2)]
  have prev: "prev \<noteq> None \<Longrightarrow> prev \<in> Some ` seen" using Cons.prems(5) by blast
  have ids: "ro_order_id x \<in> {None, Some (order_id_of i), prev}" using one(4) prev by blast
  let ?seen = "set_option (ro_order_id x) \<union> seen"
  have "\<forall>j \<in> set is. order_id_of j \<notin> ?seen"
    using ids prev Cons.prems(3,4) by auto
  moreover have "(if ro_order_id x \<noteq> None then ro_order_id x else prev) \<noteq> None \<longrightarrow>
      (if ro_order_id x \<noteq> None then ro_order_id x else prev) \<in> Some ` ?seen"
    using prev by auto
  ultimately have IH: "bad_orders ?ids ?seen (map fst rest) = map fst (filter (\<lambda>(x, k). must_quarantine k) rest)"
    "filter (late (tf_now f)) (map fst rest) = map fst (filter (\<lambda>(x, k). k = Some FUTURE_TIME) rest)"
    "\<forall>x \<in> set (map fst rest). comparable (tf_now f) x"
    using Cons.IH [OF rest, of ?seen] Cons.prems(2,3) by auto
  have here: "acceptable ?ids seen x \<longleftrightarrow> \<not> must_quarantine ?kind" "late (tf_now f) x \<longleftrightarrow> ?kind = Some FUTURE_TIME" "comparable (tf_now f) x"
    using one(1-3) prev by blast+
  show ?case using IH here by (simp add: lab)
qed simp

text \<open>The amounts are small.\<close>

lemma injected_amount:
  assumes "order_draws_ok f dr" and "inject dr now prev kind (clean_order dr i t) = Inr x"
  shows "\<bar>order_amount x\<bar> \<le> 40000"
proof -
  have "ro_quantity x \<in> {od_quantity dr, od_bad_quantity dr}" "\<bar>ro_unit_price x\<bar> = \<bar>money (od_cents dr)\<bar>" "ro_discount x = od_discount dr"
    using assms(2) by (cases kind; cases "the kind"; auto simp: inject_def clean_order_def split: sum.splits)+
  moreover have "\<bar>od_quantity dr\<bar> \<le> 10" "\<bar>od_bad_quantity dr\<bar> \<le> 10" "\<bar>money (od_cents dr)\<bar> \<le> 500"
    using assms(1) by (auto simp: order_draws_ok_def money_def)
  ultimately have q: "\<bar>of_int (ro_quantity x)\<bar> \<le> (10 :: rat)" and p: "\<bar>ro_unit_price x\<bar> \<le> 500" and "ro_discount x = od_discount dr"
    by (auto simp flip: of_int_abs)
  then have d: "\<bar>1 - ro_discount x\<bar> \<le> 1" using assms(1) by (auto simp: order_draws_ok_def DISCOUNTS_def)
  have "\<bar>of_int (ro_quantity x) * ro_unit_price x * (1 - ro_discount x)\<bar> \<le> 10 * 500 * 1"
    unfolding abs_mult using q p d by (intro mult_mono) auto
  then show ?thesis using order_amount_bound [of x] by simp
qed

lemma label_orders_amounts:
  "label_orders draws now ratio is prev = Inr labeled \<Longrightarrow> \<forall>i \<in> set is. order_draws_ok f (draws i) \<Longrightarrow>
     \<forall>x \<in> set (map fst labeled). \<bar>order_amount x\<bar> \<le> 40000"
proof (induction "is" arbitrary: prev labeled)
  case (Cons i "is")
  from Cons.prems(1) obtain t x rest where x: "inject (draws i) now prev (draw_kind (draws i) ratio prev) (clean_order (draws i) i t) = Inr x"
    and rest: "label_orders draws now ratio is (if ro_order_id x \<noteq> None then ro_order_id x else prev) = Inr rest"
    and lab: "labeled = (x, draw_kind (draws i) ratio prev) # rest"
    by (auto simp: Let_def split: sum.splits)
  have "\<bar>order_amount x\<bar> \<le> 40000" using injected_amount [OF _ x, of f] Cons.prems(2) by simp
  with Cons.IH [OF rest] Cons.prems(2) show ?case by (simp add: lab)
qed simp

lemma good_orders_subset: "set (good_orders ids seen xs) \<subseteq> set xs"
  by (induction ids seen xs rule: good_orders.induct) auto

lemma small_amount: "\<bar>x\<bar> \<le> 40000 \<Longrightarrow> \<not> too_large x"
  by (simp add: too_large_def)

lemma generated_user_ids:
  assumes "generate_users draws f = Inr us"
  shows "u_user_id ` set us = user_id_of ` {1..tf_user_pool_size f}"
proof -
  have "list_all2 (\<lambda>i u. u_user_id u = user_id_of i) [1..tf_user_pool_size f] us"
    using assms unfolding generate_users_def mapM_Inr_iff
    by (rule list_all2_mono) (auto split: sum.splits)
  then have "map u_user_id us = map user_id_of [1..tf_user_pool_size f]"
    by (induction rule: list_all2_induct) auto
  then show ?thesis by (metis set_map set_upto)
qed

lemma distinct_order_ids: "distinct (map order_id_of [1..n])"
  by (auto simp: distinct_map inj_on_def id_inject)

text \<open>
  C40: The factory's labels and the quality rules agree. On generated users and orders, for any draws in their documented
  ranges, the pipeline quarantines exactly the orders labelled with a dirty kind other than \<^verbatim>\<open>FUTURE_TIME\<close>, in order, and
  warns about exactly as many orders as carry the label \<^verbatim>\<open>FUTURE_TIME\<close>; clean orders all pass.
\<close>

theorem factory_labels_match_rules:
  assumes "TestDataFactory_init seed pool products now = Inr f" and "generate_users user_draws f = Inr users"
    and "generate_labeled_orders draws n ratio f = Inr labeled" and "\<forall>i \<in> {1..n}. order_draws_ok f (draws i)"
  shows "\<exists>res quarantine. run_orders_pipeline pr (map fst labeled) users now = (Inr res, quarantine)
    \<and> map qo_order quarantine = map fst (filter (\<lambda>(x, k). must_quarantine k) labeled)
    \<and> qr_warning_rows (pl_quality res) = int (length (filter (\<lambda>(x, k). k = Some FUTURE_TIME) labeled))
    \<and> qr_total_rows (pl_quality res) = int (length labeled)"
proof -
  have f: "tf_user_pool_size f < 999999" "tf_now f = now"
    using assms(1) by (auto simp: TestDataFactory_init_def split: if_splits)
  have lab: "label_orders draws (tf_now f) ratio [1..n] None = Inr labeled"
    using assms(3) by (auto simp: generate_labeled_orders_def split: if_splits)
  have fit: "\<forall>x \<in> set (good_orders (u_user_id ` set users) {} (map fst labeled)). \<not> too_large (order_amount x)"
    using label_orders_amounts [OF lab, of f] assms(4) good_orders_subset [of "u_user_id ` set users" "{}" "map fst labeled"] small_amount by fastforce
  from label_orders_truth [OF f(1) lab, of "{}"] assms(4) distinct_order_ids
  have truth: "bad_orders (user_id_of ` {1..tf_user_pool_size f}) {} (map fst labeled) = map fst (filter (\<lambda>(x, k). must_quarantine k) labeled)"
    "filter (late now) (map fst labeled) = map fst (filter (\<lambda>(x, k). k = Some FUTURE_TIME) labeled)"
    "\<forall>x \<in> set (map fst labeled). comparable now x"
    by (simp_all add: f(2))
  from pipeline_result [OF truth(3) fit, of pr] obtain res quarantine where
    "run_orders_pipeline pr (map fst labeled) users now = (Inr res, quarantine)"
    "map qo_order quarantine = bad_orders (u_user_id ` set users) {} (map fst labeled)"
    "qr_total_rows (pl_quality res) = int (length (map fst labeled))"
    "qr_warning_rows (pl_quality res) = int (length (filter (late now) (map fst labeled)))"
    by (elim exE conjE)
  then show ?thesis
    by (auto simp: generated_user_ids [OF assms(2)] truth(1,2))
qed

definition sample_factory :: TestDataFactory where
  "sample_factory = \<lparr>tf_seed = 7, tf_user_pool_size = 1, tf_product_pool_size = 1, tf_now = utc (1000 * us_per_day)\<rparr>"

definition sample_user_draws :: "int \<Rightarrow> user_draws" where
  "sample_user_draws i = \<lparr>ud_region = lit ''EAST'', ud_age_days = 10, ud_member_level = lit ''GOLD''\<rparr>"

definition sample_draws :: "int \<Rightarrow> order_draws" where
  "sample_draws i = \<lparr>od_user = 1, od_product = 1, od_quantity = 3, od_cents = 500, od_discount = 0, od_status = lit ''PAID'',
     od_age_seconds = 60, od_roll = 1 / 2, od_kind = ORPHAN_USER, od_bad_quantity = 0, od_bad_status = lit ''paid'', od_future_days = 1\<rparr>"

theorem factory_labels_match_rules_witness:
  "\<exists>users labeled res quarantine. generate_users sample_user_draws sample_factory = Inr users
     \<and> generate_labeled_orders sample_draws 1 1 sample_factory = Inr labeled \<and> map snd labeled = [Some ORPHAN_USER]
     \<and> run_orders_pipeline (\<lambda>_ _. []) (map fst labeled) users (utc (1000 * us_per_day)) = (Inr res, quarantine)
     \<and> map qo_order quarantine = map fst labeled"
proof -
  have init: "TestDataFactory_init 7 1 1 (utc (1000 * us_per_day)) = Inr sample_factory"
    by (simp add: TestDataFactory_init_def sample_factory_def)
  obtain users where users: "generate_users sample_user_draws sample_factory = Inr users"
    by (simp add: generate_users_def sample_factory_def sample_user_draws_def add_timedelta_def mk_datetime_def upto_rec1)
  obtain labeled where lab: "generate_labeled_orders sample_draws 1 1 sample_factory = Inr labeled" "map snd labeled = [Some ORPHAN_USER]"
    by (simp add: generate_labeled_orders_def sample_factory_def sample_draws_def add_timedelta_def mk_datetime_def upto_rec1
        draw_kind_def inject_def Let_def)
  have "\<forall>i \<in> {1..1}. order_draws_ok sample_factory (sample_draws i)"
    by (simp add: order_draws_ok_def sample_draws_def sample_factory_def VALID_ORDER_STATUSES_def DIRTY_KINDS_def DISCOUNTS_def)
  from factory_labels_match_rules [OF init users lab(1) this, of "\<lambda>_ _. []"] obtain res quarantine where
    run: "run_orders_pipeline (\<lambda>_ _. []) (map fst labeled) users (utc (1000 * us_per_day)) = (Inr res, quarantine)"
    and q: "map qo_order quarantine = map fst (filter (\<lambda>(x, k). must_quarantine k) labeled)"
    by (elim exE conjE)
  have "filter (\<lambda>(x, k). must_quarantine k) labeled = labeled"
    using lab(2) by (auto simp: must_quarantine_def)
  with users lab run q show ?thesis by auto
qed

end
