(* ===== verification/Etl_Daily.thy ===== *)
theory Etl_Daily
  imports Etl_Factory
begin

text \<open>
  The daily orders job (\<^verbatim>\<open>etl/daily_orders.py\<close>): its configuration, the rows and fields it writes, and the run that
  composes factory, pipeline and reports. Python's \<^verbatim>\<open>int\<close> and \<^verbatim>\<open>float\<close> on strings and \<^verbatim>\<open>str\<close> of a \<^verbatim>\<open>Decimal\<close> are parameters. The
  files are the data handed to the writers; writing them is assumed to succeed.
\<close>

definition DEFAULT_NOW :: datetime where
  "DEFAULT_NOW = utc (739844 * us_per_day)"

record DailyOrdersConfig =
  dc_seed :: int
  dc_order_count :: int
  dc_dirty_ratio :: pyfloat
  dc_output_dir :: pystr
  dc_user_pool_size :: int
  dc_product_pool_size :: int
  dc_now :: datetime

definition default_config :: DailyOrdersConfig where
  "default_config = \<lparr>dc_seed = 20260817, dc_order_count = 100000, dc_dirty_ratio = 3 / 100, dc_output_dir = lit ''data/output'',
     dc_user_pool_size = 1000, dc_product_pool_size = 200, dc_now = DEFAULT_NOW\<rparr>"

definition ETL_ENV_PREFIX :: pystr where
  "ETL_ENV_PREFIX = lit ''TASK_PLATFORM_ETL_''"

definition config_from_env ::
  "(pystr \<Rightarrow> exn + int) \<Rightarrow> (pystr \<Rightarrow> exn + pyfloat) \<Rightarrow> (pystr \<Rightarrow> pystr option) \<Rightarrow> exn + DailyOrdersConfig" where
  "config_from_env parse_int parse_float env =
     (let d = default_config in
      case env_get parse_int env (ETL_ENV_PREFIX @ lit ''SEED'') (dc_seed d) of
        Inl e \<Rightarrow> Inl e
      | Inr seed \<Rightarrow>
          (case env_get parse_int env (ETL_ENV_PREFIX @ lit ''ORDER_COUNT'') (dc_order_count d) of
             Inl e \<Rightarrow> Inl e
           | Inr order_count \<Rightarrow>
               (case env_get parse_float env (ETL_ENV_PREFIX @ lit ''DIRTY_RATIO'') (dc_dirty_ratio d) of
                  Inl e \<Rightarrow> Inl e
                | Inr dirty_ratio \<Rightarrow>
                    (case env_get Inr env (ETL_ENV_PREFIX @ lit ''OUTPUT_DIR'') (dc_output_dir d) of
                       Inl e \<Rightarrow> Inl e
                     | Inr output_dir \<Rightarrow>
                         Inr (d\<lparr>dc_seed := seed, dc_order_count := order_count, dc_dirty_ratio := dirty_ratio,
                                dc_output_dir := output_dir\<rparr>)))))"

record EtlSummary =
  es_run_dir :: pystr
  es_total_rows :: int
  es_quarantined_rows :: int
  es_warning_rows :: int
  es_report_rows :: int
  es_total_gmv :: rat

text \<open>The rows given to \<^verbatim>\<open>csv.writer\<close>; computing the average of a row can raise. The volume of a group without paid orders is the \<^verbatim>\<open>Decimal()\<close> of the dictionary,
  which prints as \<^verbatim>\<open>0\<close>.\<close>

definition report_row :: "(rat \<Rightarrow> pystr) \<Rightarrow> DailyRegionStat \<Rightarrow> exn + pystr list" where
  "report_row dec_str s =
     (case avg_order_value s of
        Inl e \<Rightarrow> Inl e
      | Inr avg \<Rightarrow>
          Inr [isoformat (ds_order_date s), ds_region s, show_int (ds_order_count s), show_int (ds_paid_count s),
               if ds_paid_count s = 0 then lit ''0'' else dec_str (ds_gmv s), dec_str avg])"

definition daily_report_rows :: "(rat \<Rightarrow> pystr) \<Rightarrow> PipelineResult \<Rightarrow> exn + pystr list list" where
  "daily_report_rows dec_str res =
     (case mapM (report_row dec_str) (pl_stats res) of
        Inl e \<Rightarrow> Inl e
      | Inr rows \<Rightarrow>
          Inr ([lit ''order_date'', lit ''region'', lit ''order_count'', lit ''paid_count'', lit ''gmv'', lit ''avg_order_value''] # rows))"

record quality_payload =
  qp_seed :: int
  qp_order_count :: int
  qp_dirty_ratio :: pyfloat
  qp_total_rows :: int
  qp_quarantined_rows :: int
  qp_warning_rows :: int
  qp_results :: "RuleResult list"

definition quality_report_payload :: "DailyOrdersConfig \<Rightarrow> PipelineResult \<Rightarrow> quality_payload" where
  "quality_report_payload config res =
     (let q = pl_quality res
      in \<lparr>qp_seed = dc_seed config, qp_order_count = dc_order_count config, qp_dirty_ratio = dc_dirty_ratio config,
          qp_total_rows = qr_total_rows q, qp_quarantined_rows = qr_quarantined_rows q, qp_warning_rows = qr_warning_rows q,
          qp_results = qr_results q\<rparr>)"

record etl_files =
  ef_quarantine :: "QuarantinedOrder list"
  ef_daily_report :: "pystr list list"
  ef_quality_report :: quality_payload

definition run_daily_orders_etl ::
  "(bool \<Rightarrow> fval \<Rightarrow> pystr) \<Rightarrow> (rat \<Rightarrow> pystr) \<Rightarrow> (int \<Rightarrow> user_draws) \<Rightarrow> (int \<Rightarrow> order_draws) \<Rightarrow> DailyOrdersConfig \<Rightarrow> pystr
     \<Rightarrow> exn + EtlSummary \<times> etl_files" where
  "run_daily_orders_etl pr dec_str user_draws order_draws config run_dir =
     (case TestDataFactory_init (dc_seed config) (dc_user_pool_size config) (dc_product_pool_size config) (dc_now config) of
        Inl e \<Rightarrow> Inl e
      | Inr f \<Rightarrow>
          (case generate_users user_draws f of
             Inl e \<Rightarrow> Inl e
           | Inr users \<Rightarrow>
               (case generate_orders order_draws (dc_order_count config) (dc_dirty_ratio config) f of
                  Inl e \<Rightarrow> Inl e
                | Inr orders \<Rightarrow>
                    (case run_orders_pipeline pr orders users (dc_now config) of
                       (Inl e, _) \<Rightarrow> Inl e
                     | (Inr res, quarantine) \<Rightarrow>
                         (case daily_report_rows dec_str res of
                            Inl e \<Rightarrow> Inl e
                          | Inr rows \<Rightarrow>
                         Inr (\<lparr>es_run_dir = run_dir, es_total_rows = qr_total_rows (pl_quality res),
                               es_quarantined_rows = qr_quarantined_rows (pl_quality res),
                               es_warning_rows = qr_warning_rows (pl_quality res),
                               es_report_rows = int (length (pl_stats res)),
                               es_total_gmv = decimal_sum 0 (map ds_gmv (pl_stats res))\<rparr>,
                              \<lparr>ef_quarantine = quarantine, ef_daily_report = rows,
                               ef_quality_report = quality_report_payload config res\<rparr>))))))"

lemma label_orders_length: "label_orders draws now ratio is prev = Inr xs \<Longrightarrow> length xs = length is"
  by (induction draws now ratio "is" prev arbitrary: xs rule: label_orders.induct)
    (auto simp: Let_def split: sum.splits)

lemma report_length: "daily_report_rows dec_str res = Inr rows \<Longrightarrow> length rows = length (pl_stats res) + 1"
  by (auto simp: daily_report_rows_def mapM_Inr_iff split: sum.splits dest!: list_all2_lengthD)

text \<open>With the amounts of generated orders, every average of the report can be computed.\<close>

lemma near_small:
  fixes c x :: rat
  assumes "\<bar>c - x\<bar> \<le> 1 / 200" and "\<bar>x\<bar> \<le> 40000"
  shows "\<bar>c\<bar> \<le> 10 ^ 5"
proof -
  have "\<bar>c\<bar> \<le> \<bar>c - x\<bar> + \<bar>x\<bar>" by simp
  also have "\<dots> \<le> 1 / 200 + 40000" using assms by (rule add_mono)
  also have "\<dots> \<le> 10 ^ 5" by simp
  finally show ?thesis .
qed

lemma report_ok:
  assumes "\<forall>x \<in> set orders. comparable now x" and "\<forall>x \<in> set orders. \<bar>order_amount x\<bar> \<le> 40000" and "length orders \<le> 10 ^ 20"
    and "run_orders_pipeline pr orders users now = (Inr res, quarantine)"
  shows "\<exists>rows. daily_report_rows dec_str res = Inr rows"
proof -
  let ?good = "good_orders (u_user_id ` set users) {} orders"
  have sub: "set ?good \<subseteq> set orders" by (rule good_orders_subset)
  then have "\<forall>x \<in> set ?good. \<not> too_large (order_amount x)" using assms(2) small_amount by blast
  from pipeline_result [OF assms(1) this, of pr] obtain res' q clean where
    run: "run_orders_pipeline pr orders users now = (Inr res', q)"
    and clean: "list_all2 transformed ?good clean" and stats: "pl_stats res' = aggregate clean"
    and split: "mset orders = mset ?good + mset (map qo_order q)"
    by (elim exE conjE) (simp only:)
  have res: "res' = res" using run assms(4) by simp
  have "length clean \<le> length orders"
    using list_all2_lengthD [OF clean] arg_cong [OF split, of size] by simp
  with assms(3) have len: "length clean \<le> 10 ^ 20" by simp
  have cents: "\<forall>c \<in> set clean. whole_cents (co_amount c) \<and> \<bar>co_amount c\<bar> \<le> 10 ^ 5"
  proof
    fix c assume "c \<in> set clean"
    then obtain i where i: "i < length clean" "c = clean ! i" unfolding in_set_conv_nth by auto
    let ?x = "?good ! i"
    have x: "?x \<in> set ?good" "transformed ?x c"
      using i list_all2_lengthD [OF clean] list_all2_nthD2 [OF clean, of i] by simp_all
    then have "\<bar>order_amount ?x\<bar> \<le> 40000" using assms(2) sub by blast
    moreover have "whole_cents (co_amount c)" "\<bar>co_amount c - order_amount ?x\<bar> \<le> 1 / 200" using x(2) by (simp_all add: transformed_def)
    ultimately show "whole_cents (co_amount c) \<and> \<bar>co_amount c\<bar> \<le> 10 ^ 5" using near_small by blast
  qed
  from averages_ok [OF cents len] have "\<forall>s \<in> set (pl_stats res). \<exists>row. report_row dec_str s = Inr row"
    unfolding stats [unfolded res] by (fastforce simp: report_row_def)
  then obtain f where "\<And>s. s \<in> set (pl_stats res) \<Longrightarrow> report_row dec_str s = Inr (f s)" by metis
  then have "mapM (report_row dec_str) (pl_stats res) = Inr (map f (pl_stats res))" by (rule mapM_all_Inr)
  then show ?thesis by (simp add: daily_report_rows_def)
qed

text \<open>The summary of a run: every requested order is counted once, the quarantine file has one line for each quarantined
  order and the report one row for each day and region, besides its header.\<close>

lemma daily_etl_summary:
  assumes "run_daily_orders_etl pr dec_str ud od config run_dir = Inr (summary, files)"
    and "\<forall>i \<in> {1..dc_order_count config}. \<forall>f. tf_user_pool_size f = dc_user_pool_size config \<longrightarrow> order_draws_ok f (od i)"
  shows "es_total_rows summary = dc_order_count config \<and> es_quarantined_rows summary = int (length (ef_quarantine files))
    \<and> int (length (ef_daily_report files)) = es_report_rows summary + 1"
proof -
  from assms(1) obtain f users orders res where
    f: "TestDataFactory_init (dc_seed config) (dc_user_pool_size config) (dc_product_pool_size config) (dc_now config) = Inr f"
    and users: "generate_users ud f = Inr users"
    and orders: "generate_orders od (dc_order_count config) (dc_dirty_ratio config) f = Inr orders"
    and run: "run_orders_pipeline pr orders users (dc_now config) = (Inr res, ef_quarantine files)"
    and sum: "es_total_rows summary = qr_total_rows (pl_quality res)" "es_quarantined_rows summary = qr_quarantined_rows (pl_quality res)"
      "es_report_rows summary = int (length (pl_stats res))" "daily_report_rows dec_str res = Inr (ef_daily_report files)"
    by (auto simp: run_daily_orders_etl_def split: sum.splits prod.splits)
  from orders obtain labeled where lab: "generate_labeled_orders od (dc_order_count config) (dc_dirty_ratio config) f = Inr labeled"
    "orders = map fst labeled"
    by (auto simp: generate_orders_def split: sum.splits)
  then have l: "label_orders od (tf_now f) (dc_dirty_ratio config) [1..dc_order_count config] None = Inr labeled" "0 \<le> dc_order_count config"
    by (auto simp: generate_labeled_orders_def split: if_splits)
  have f': "tf_user_pool_size f = dc_user_pool_size config" "tf_user_pool_size f < 999999" "tf_now f = dc_now config"
    using f by (auto simp: TestDataFactory_init_def split: if_splits)
  have cmp: "\<forall>x \<in> set orders. comparable (dc_now config) x"
    using label_orders_truth [OF f'(2) l(1), of "{}"] assms(2) f'(1) distinct_order_ids by (simp add: lab(2) f'(3))
  have "\<forall>x \<in> set (good_orders (u_user_id ` set users) {} orders). \<not> too_large (order_amount x)"
    using pipeline_overflow [OF cmp, of users pr] run by force
  from pipeline_result [OF cmp this, of pr] run have
    "qr_total_rows (pl_quality res) = int (length orders)" "qr_quarantined_rows (pl_quality res) = int (length (ef_quarantine files))"
    by auto
  moreover have "length orders = nat (dc_order_count config)"
    using label_orders_length [OF l(1)] by (simp add: lab(2))
  ultimately show ?thesis
    using l(2) report_length [OF sum(4)] by (simp add: sum(1-3))
qed

end
