(* ===== verification/Migrations.thy ===== *)
theory Migrations
  imports Prelude "HOL-Library.Monad_Syntax" "HOL-Library.Multiset"
begin

text \<open>
  The database schema and its migrations (\<^verbatim>\<open>infrastructure/db/migrations/versions/\<close>, \<^verbatim>\<open>migrate.py\<close>) against the schema that the ORM
  models declare (\<^verbatim>\<open>infrastructure/db/models.py\<close>). A schema is its tables, in the order of their creation, and its indexes. An operation
  of a migration maps a schema to a schema, or to \<open>None\<close> where a database refuses it: a name that is taken or unknown, a foreign key without
  a key to refer to, a dropped table or column that something still refers to, a new column that existing rows could not fill.
\<close>

section \<open>Schemas\<close>

datatype column_type = String nat | Text | Integer | Float | Boolean | DateTime | Time

record column =
  co_name :: string
  co_type :: column_type
  co_primary_key :: bool
  co_autoincrement :: bool
  co_nullable :: bool
  co_server_default :: "string option"

record foreign_key =
  fk_columns :: "string list"
  fk_table :: string
  fk_targets :: "string list"
  fk_ondelete :: string

record table =
  tb_name :: string
  tb_columns :: "column list"
  tb_unique :: "(string option \<times> string list) list"
  tb_foreign_keys :: "foreign_key list"

record index =
  ix_name :: string
  ix_table :: string
  ix_columns :: "string list"

record schema =
  sc_tables :: "table list"
  sc_indexes :: "index list"

definition empty_schema :: schema where
  "empty_schema = \<lparr>sc_tables = [], sc_indexes = []\<rparr>"

definition Column :: "string \<Rightarrow> column_type \<Rightarrow> bool \<Rightarrow> column" where
  "Column n t nullable = \<lparr>co_name = n, co_type = t, co_primary_key = False, co_autoincrement = False, co_nullable = nullable, co_server_default = None\<rparr>"

definition PrimaryKey :: "string \<Rightarrow> column_type \<Rightarrow> bool \<Rightarrow> column" where
  "PrimaryKey n t auto = \<lparr>co_name = n, co_type = t, co_primary_key = True, co_autoincrement = auto, co_nullable = False, co_server_default = None\<rparr>"

definition ForeignKeyConstraint :: "string list \<Rightarrow> string \<Rightarrow> string list \<Rightarrow> string \<Rightarrow> foreign_key" where
  "ForeignKeyConstraint cs t ts del = \<lparr>fk_columns = cs, fk_table = t, fk_targets = ts, fk_ondelete = del\<rparr>"

definition table_names :: "schema \<Rightarrow> string set" where
  "table_names s = tb_name ` set (sc_tables s)"

definition column_names :: "table \<Rightarrow> string set" where
  "column_names t = co_name ` set (tb_columns t)"

definition keys_of :: "table \<Rightarrow> string list list" where
  "keys_of t = map co_name (filter co_primary_key (tb_columns t)) # map snd (tb_unique t)"

section \<open>The operations of a migration\<close>

definition constraint_ok :: "schema \<Rightarrow> table \<Rightarrow> bool" where
  "constraint_ok s t \<longleftrightarrow> distinct (map co_name (tb_columns t))
     \<and> (\<forall>u \<in> set (tb_unique t). set (snd u) \<subseteq> column_names t)
     \<and> (\<forall>f \<in> set (tb_foreign_keys t). set (fk_columns f) \<subseteq> column_names t
          \<and> (\<exists>u \<in> set (sc_tables s). tb_name u = fk_table f \<and> fk_targets f \<in> set (keys_of u)))"

definition create_table :: "table \<Rightarrow> schema \<Rightarrow> schema option" where
  "create_table t s =
     (if tb_name t \<in> table_names s \<or> \<not> constraint_ok s t then None
      else Some (s\<lparr>sc_tables := sc_tables s @ [t]\<rparr>))"

text \<open>A dropped table takes its indexes with it.\<close>

definition drop_table :: "string \<Rightarrow> schema \<Rightarrow> schema option" where
  "drop_table n s =
     (if n \<notin> table_names s \<or> (\<exists>t \<in> set (sc_tables s). tb_name t \<noteq> n \<and> (\<exists>f \<in> set (tb_foreign_keys t). fk_table f = n)) then None
      else Some (s\<lparr>sc_tables := filter (\<lambda>t. tb_name t \<noteq> n) (sc_tables s), sc_indexes := filter (\<lambda>i. ix_table i \<noteq> n) (sc_indexes s)\<rparr>))"

definition create_index :: "string \<Rightarrow> string \<Rightarrow> string list \<Rightarrow> schema \<Rightarrow> schema option" where
  "create_index n t cs s =
     (if n \<in> ix_name ` set (sc_indexes s) \<or> \<not> (\<exists>u \<in> set (sc_tables s). tb_name u = t \<and> set cs \<subseteq> column_names u) then None
      else Some (s\<lparr>sc_indexes := sc_indexes s @ [\<lparr>ix_name = n, ix_table = t, ix_columns = cs\<rparr>]\<rparr>))"

definition drop_index :: "string \<Rightarrow> string \<Rightarrow> schema \<Rightarrow> schema option" where
  "drop_index n t s =
     (if \<exists>i \<in> set (sc_indexes s). ix_name i = n \<and> ix_table i = t
      then Some (s\<lparr>sc_indexes := filter (\<lambda>i. ix_name i \<noteq> n) (sc_indexes s)\<rparr>) else None)"

definition on_table :: "string \<Rightarrow> (table \<Rightarrow> table) \<Rightarrow> schema \<Rightarrow> schema" where
  "on_table n f s = s\<lparr>sc_tables := map (\<lambda>t. if tb_name t = n then f t else t) (sc_tables s)\<rparr>"

definition add_column :: "string \<Rightarrow> column \<Rightarrow> schema \<Rightarrow> schema option" where
  "add_column n c s =
     (if (\<exists>t \<in> set (sc_tables s). tb_name t = n \<and> co_name c \<notin> column_names t) \<and> (co_nullable c \<or> co_server_default c \<noteq> None)
      then Some (on_table n (\<lambda>t. t\<lparr>tb_columns := tb_columns t @ [c]\<rparr>) s) else None)"

definition column_used :: "schema \<Rightarrow> string \<Rightarrow> string \<Rightarrow> bool" where
  "column_used s n c \<longleftrightarrow>
     (\<exists>i \<in> set (sc_indexes s). ix_table i = n \<and> c \<in> set (ix_columns i))
     \<or> (\<exists>t \<in> set (sc_tables s).
          (tb_name t = n \<and> ((\<exists>u \<in> set (tb_unique t). c \<in> set (snd u)) \<or> (\<exists>f \<in> set (tb_foreign_keys t). c \<in> set (fk_columns f))))
          \<or> (\<exists>f \<in> set (tb_foreign_keys t). fk_table f = n \<and> c \<in> set (fk_targets f)))"

definition drop_column :: "string \<Rightarrow> string \<Rightarrow> schema \<Rightarrow> schema option" where
  "drop_column n c s =
     (if (\<exists>t \<in> set (sc_tables s). tb_name t = n \<and> c \<in> column_names t) \<and> \<not> column_used s n c
      then Some (on_table n (\<lambda>t. t\<lparr>tb_columns := filter (\<lambda>d. co_name d \<noteq> c) (tb_columns t)\<rparr>) s) else None)"

section \<open>The migrations\<close>

definition jobs_0001 :: table where
  "jobs_0001 = \<lparr>tb_name = ''jobs'',
     tb_columns = [PrimaryKey ''id'' (String 32) False, Column ''name'' (String 128) False, Column ''job_type'' (String 32) False,
       Column ''handler'' (String 128) False, Column ''timeout_seconds'' Float False, Column ''retry_max_attempts'' Integer False,
       Column ''retry_backoff'' (String 16) False, Column ''retry_base_delay_seconds'' Float False,
       Column ''retry_max_delay_seconds'' Float False, Column ''enabled'' Boolean False, Column ''created_at'' DateTime False],
     tb_unique = [(None, [''name''])], tb_foreign_keys = []\<rparr>"

definition schedules_0001 :: table where
  "schedules_0001 = \<lparr>tb_name = ''schedules'',
     tb_columns = [PrimaryKey ''id'' (String 32) False, Column ''job_id'' (String 32) False, Column ''schedule_type'' (String 16) False,
       Column ''interval_seconds'' Float True, Column ''time_of_day'' Time True, Column ''enabled'' Boolean False],
     tb_unique = [], tb_foreign_keys = [ForeignKeyConstraint [''job_id''] ''jobs'' [''id''] ''CASCADE'']\<rparr>"

definition job_executions_0001 :: table where
  "job_executions_0001 = \<lparr>tb_name = ''job_executions'',
     tb_columns = [PrimaryKey ''id'' Integer True, Column ''run_id'' (String 32) False, Column ''job_id'' (String 32) False,
       Column ''attempt'' Integer False, Column ''status'' (String 16) False, Column ''started_at'' DateTime True,
       Column ''finished_at'' DateTime True, Column ''error_message'' Text True, Column ''timeout_seconds'' Float True,
       Column ''max_attempts'' Integer True],
     tb_unique = [(Some ''uq_job_executions_run_attempt'', [''run_id'', ''attempt''])],
     tb_foreign_keys = [ForeignKeyConstraint [''job_id''] ''jobs'' [''id''] ''CASCADE'']\<rparr>"

definition job_logs_0001 :: table where
  "job_logs_0001 = \<lparr>tb_name = ''job_logs'',
     tb_columns = [PrimaryKey ''id'' Integer True, Column ''run_id'' (String 32) False, Column ''attempt'' Integer False,
       Column ''level'' (String 16) False, Column ''message'' Text False, Column ''created_at'' DateTime False],
     tb_unique = [],
     tb_foreign_keys = [ForeignKeyConstraint [''run_id'', ''attempt''] ''job_executions'' [''run_id'', ''attempt''] ''CASCADE'']\<rparr>"

definition upgrade_0001 :: "schema \<Rightarrow> schema option" where
  "upgrade_0001 s = do {
     s \<leftarrow> create_table jobs_0001 s;
     s \<leftarrow> create_table schedules_0001 s;
     s \<leftarrow> create_index ''ix_schedules_job_id'' ''schedules'' [''job_id''] s;
     s \<leftarrow> create_table job_executions_0001 s;
     s \<leftarrow> create_index ''ix_job_executions_job_id_status'' ''job_executions'' [''job_id'', ''status''] s;
     s \<leftarrow> create_table job_logs_0001 s;
     create_index ''ix_job_logs_run_id_attempt'' ''job_logs'' [''run_id'', ''attempt''] s
   }"

definition downgrade_0001 :: "schema \<Rightarrow> schema option" where
  "downgrade_0001 s = do {
     s \<leftarrow> drop_table ''job_logs'' s;
     s \<leftarrow> drop_table ''job_executions'' s;
     s \<leftarrow> drop_table ''schedules'' s;
     drop_table ''jobs'' s
   }"

definition idempotency_keys_0002 :: table where
  "idempotency_keys_0002 = \<lparr>tb_name = ''idempotency_keys'',
     tb_columns = [PrimaryKey ''key'' (String 255) False, Column ''job_id'' (String 32) False, Column ''run_id'' (String 32) False,
       Column ''created_at'' DateTime False],
     tb_unique = [], tb_foreign_keys = [ForeignKeyConstraint [''job_id''] ''jobs'' [''id''] ''CASCADE'']\<rparr>"

definition upgrade_0002 :: "schema \<Rightarrow> schema option" where
  "upgrade_0002 s = do {
     s \<leftarrow> create_table idempotency_keys_0002 s;
     create_index ''ix_idempotency_keys_job_id'' ''idempotency_keys'' [''job_id''] s
   }"

definition downgrade_0002 :: "schema \<Rightarrow> schema option" where
  "downgrade_0002 s = drop_table ''idempotency_keys'' s"

definition cancel_requested_0003 :: column where
  "cancel_requested_0003 = (Column ''cancel_requested'' Boolean False)\<lparr>co_server_default := Some ''false''\<rparr>"

definition upgrade_0003 :: "schema \<Rightarrow> schema option" where
  "upgrade_0003 s = add_column ''job_executions'' cancel_requested_0003 s"

definition downgrade_0003 :: "schema \<Rightarrow> schema option" where
  "downgrade_0003 s = drop_column ''job_executions'' ''cancel_requested'' s"

definition upgrade_0004 :: "schema \<Rightarrow> schema option" where
  "upgrade_0004 s = do {
     s \<leftarrow> add_column ''job_executions'' (Column ''next_retry_at'' DateTime True) s;
     create_index ''ix_job_executions_next_retry_at'' ''job_executions'' [''next_retry_at''] s
   }"

definition downgrade_0004 :: "schema \<Rightarrow> schema option" where
  "downgrade_0004 s = do {
     s \<leftarrow> drop_index ''ix_job_executions_next_retry_at'' ''job_executions'' s;
     drop_column ''job_executions'' ''next_retry_at'' s
   }"

section \<open>Revisions\<close>

record revision =
  rv_id :: string
  rv_down :: "string option"
  rv_upgrade :: "schema \<Rightarrow> schema option"
  rv_downgrade :: "schema \<Rightarrow> schema option"

definition revision_0001 :: revision where
  "revision_0001 = \<lparr>rv_id = ''0001'', rv_down = None, rv_upgrade = upgrade_0001, rv_downgrade = downgrade_0001\<rparr>"

definition revision_0002 :: revision where
  "revision_0002 = \<lparr>rv_id = ''0002'', rv_down = Some ''0001'', rv_upgrade = upgrade_0002, rv_downgrade = downgrade_0002\<rparr>"

definition revision_0003 :: revision where
  "revision_0003 = \<lparr>rv_id = ''0003'', rv_down = Some ''0002'', rv_upgrade = upgrade_0003, rv_downgrade = downgrade_0003\<rparr>"

definition revision_0004 :: revision where
  "revision_0004 = \<lparr>rv_id = ''0004'', rv_down = Some ''0003'', rv_upgrade = upgrade_0004, rv_downgrade = downgrade_0004\<rparr>"

definition revisions :: "revision list" where
  "revisions = [revision_0001, revision_0002, revision_0003, revision_0004]"

text \<open>A database is the revision it is at (\<open>None\<close> before the first) and its schema. Alembic's commands, which run the scripts, are a parameter; the
  configuration that names the database is in the theory \<open>Settings\<close>.\<close>

type_synonym versioned = "string option \<times> schema"

record alembic =
  command_upgrade :: "revision list \<Rightarrow> string \<Rightarrow> versioned \<Rightarrow> versioned option"
  command_downgrade :: "revision list \<Rightarrow> string \<Rightarrow> versioned \<Rightarrow> versioned option"

definition upgrade_db :: "alembic \<Rightarrow> string \<Rightarrow> versioned \<Rightarrow> versioned option" where
  "upgrade_db A target d = command_upgrade A revisions target d"

definition downgrade_db :: "alembic \<Rightarrow> string \<Rightarrow> versioned \<Rightarrow> versioned option" where
  "downgrade_db A target d = command_downgrade A revisions target d"

text \<open>What is used of Alembic: on a linear history, \<^verbatim>\<open>upgrade head\<close> runs the \<^verbatim>\<open>upgrade\<close> of every revision after the current one, oldest first, and
  \<^verbatim>\<open>downgrade base\<close> runs the \<^verbatim>\<open>downgrade\<close> of the current one and those before it, newest first; each step moves the recorded revision, and an error
  ends the command.\<close>

fun upgrade_all :: "revision list \<Rightarrow> versioned \<Rightarrow> versioned option" where
  "upgrade_all [] d = Some d"
| "upgrade_all (r # rs) d = rv_upgrade r (snd d) \<bind> (\<lambda>s. upgrade_all rs (Some (rv_id r), s))"

fun downgrade_all :: "revision list \<Rightarrow> versioned \<Rightarrow> versioned option" where
  "downgrade_all [] d = Some d"
| "downgrade_all (r # rs) d = rv_downgrade r (snd d) \<bind> (\<lambda>s. downgrade_all rs (rv_down r, s))"

fun linear :: "string option \<Rightarrow> revision list \<Rightarrow> bool" where
  "linear p [] = True"
| "linear p (r # rs) = (rv_down r = p \<and> rv_id r \<notin> rv_id ` set rs \<and> linear (Some (rv_id r)) rs)"

definition current :: "revision list \<Rightarrow> string option" where
  "current applied = (if applied = [] then None else Some (rv_id (last applied)))"

definition runs_revisions :: "alembic \<Rightarrow> bool" where
  "runs_revisions A \<longleftrightarrow> (\<forall>applied pending s. linear None (applied @ pending) \<longrightarrow>
     command_upgrade A (applied @ pending) ''head'' (current applied, s) = upgrade_all pending (current applied, s)
     \<and> command_downgrade A (applied @ pending) ''base'' (current applied, s) = downgrade_all (rev applied) (current applied, s))"

section \<open>The schema of the models\<close>

text \<open>An \<^verbatim>\<open>Enum\<close> that is not native is a \<^verbatim>\<open>VARCHAR\<close> of its length, \<^verbatim>\<open>UTCDateTime\<close> is stored as \<^verbatim>\<open>DateTime\<close>, a foreign key column has the type of its
  target, \<^verbatim>\<open>index=True\<close> makes an index with the default name, and a column is nullable if its annotation is optional.\<close>

definition JobRecord_table :: table where
  "JobRecord_table = \<lparr>tb_name = ''jobs'',
     tb_columns = [PrimaryKey ''id'' (String 32) False, Column ''name'' (String 128) False, Column ''job_type'' (String 32) False,
       Column ''handler'' (String 128) False, Column ''timeout_seconds'' Float False, Column ''retry_max_attempts'' Integer False,
       Column ''retry_backoff'' (String 16) False, Column ''retry_base_delay_seconds'' Float False,
       Column ''retry_max_delay_seconds'' Float False, Column ''enabled'' Boolean False, Column ''created_at'' DateTime False],
     tb_unique = [(None, [''name''])], tb_foreign_keys = []\<rparr>"

definition ScheduleRecord_table :: table where
  "ScheduleRecord_table = \<lparr>tb_name = ''schedules'',
     tb_columns = [PrimaryKey ''id'' (String 32) False, Column ''job_id'' (String 32) False, Column ''schedule_type'' (String 16) False,
       Column ''interval_seconds'' Float True, Column ''time_of_day'' Time True, Column ''enabled'' Boolean False],
     tb_unique = [], tb_foreign_keys = [ForeignKeyConstraint [''job_id''] ''jobs'' [''id''] ''CASCADE'']\<rparr>"

definition ExecutionRecord_table :: table where
  "ExecutionRecord_table = \<lparr>tb_name = ''job_executions'',
     tb_columns = [PrimaryKey ''id'' Integer True, Column ''run_id'' (String 32) False, Column ''job_id'' (String 32) False,
       Column ''attempt'' Integer False, Column ''status'' (String 16) False, Column ''started_at'' DateTime True,
       Column ''finished_at'' DateTime True, Column ''error_message'' Text True, Column ''timeout_seconds'' Float True,
       Column ''max_attempts'' Integer True, Column ''cancel_requested'' Boolean False, Column ''next_retry_at'' DateTime True],
     tb_unique = [(Some ''uq_job_executions_run_attempt'', [''run_id'', ''attempt''])],
     tb_foreign_keys = [ForeignKeyConstraint [''job_id''] ''jobs'' [''id''] ''CASCADE'']\<rparr>"

definition JobLogRecord_table :: table where
  "JobLogRecord_table = \<lparr>tb_name = ''job_logs'',
     tb_columns = [PrimaryKey ''id'' Integer True, Column ''run_id'' (String 32) False, Column ''attempt'' Integer False,
       Column ''level'' (String 16) False, Column ''message'' Text False, Column ''created_at'' DateTime False],
     tb_unique = [],
     tb_foreign_keys = [ForeignKeyConstraint [''run_id'', ''attempt''] ''job_executions'' [''run_id'', ''attempt''] ''CASCADE'']\<rparr>"

definition IdempotencyRecord_table :: table where
  "IdempotencyRecord_table = \<lparr>tb_name = ''idempotency_keys'',
     tb_columns = [PrimaryKey ''key'' (String 255) False, Column ''job_id'' (String 32) False, Column ''run_id'' (String 32) False,
       Column ''created_at'' DateTime False],
     tb_unique = [], tb_foreign_keys = [ForeignKeyConstraint [''job_id''] ''jobs'' [''id''] ''CASCADE'']\<rparr>"

definition model_indexes :: "index list" where
  "model_indexes =
     [\<lparr>ix_name = ''ix_schedules_job_id'', ix_table = ''schedules'', ix_columns = [''job_id'']\<rparr>,
      \<lparr>ix_name = ''ix_job_executions_job_id_status'', ix_table = ''job_executions'', ix_columns = [''job_id'', ''status'']\<rparr>,
      \<lparr>ix_name = ''ix_job_executions_next_retry_at'', ix_table = ''job_executions'', ix_columns = [''next_retry_at'']\<rparr>,
      \<lparr>ix_name = ''ix_job_logs_run_id_attempt'', ix_table = ''job_logs'', ix_columns = [''run_id'', ''attempt'']\<rparr>,
      \<lparr>ix_name = ''ix_idempotency_keys_job_id'', ix_table = ''idempotency_keys'', ix_columns = [''job_id'']\<rparr>]"

definition models_schema :: schema where
  "models_schema = \<lparr>sc_tables = [JobRecord_table, ScheduleRecord_table, ExecutionRecord_table, JobLogRecord_table, IdempotencyRecord_table],
     sc_indexes = model_indexes\<rparr>"

text \<open>The models set defaults in Python; a default of the server is invisible to them.\<close>

definition forget_default :: "table \<Rightarrow> table" where
  "forget_default t = t\<lparr>tb_columns := map (\<lambda>c. c\<lparr>co_server_default := None\<rparr>) (tb_columns t)\<rparr>"

section \<open>Well-formed schemas\<close>

definition wf_schema :: "schema \<Rightarrow> bool" where
  "wf_schema s \<longleftrightarrow> distinct (map tb_name (sc_tables s)) \<and> distinct (map ix_name (sc_indexes s))
     \<and> (\<forall>t \<in> set (sc_tables s). constraint_ok s t)
     \<and> (\<forall>i \<in> set (sc_indexes s). \<exists>t \<in> set (sc_tables s). tb_name t = ix_table i \<and> set (ix_columns i) \<subseteq> column_names t)"

lemma wf_empty: "wf_schema empty_schema"
  by (simp add: wf_schema_def empty_schema_def)

lemma constraint_ok_mono: "constraint_ok s t \<Longrightarrow> set (sc_tables s) \<subseteq> set (sc_tables s') \<Longrightarrow> constraint_ok s' t"
  unfolding constraint_ok_def by (meson subsetD)

lemma constraint_ok_append: "constraint_ok s t \<Longrightarrow> constraint_ok (s\<lparr>sc_tables := sc_tables s @ ts\<rparr>) t"
  by (erule constraint_ok_mono) auto

lemma constraint_ok_indexes [simp]: "constraint_ok (s\<lparr>sc_indexes := is\<rparr>) t = constraint_ok s t"
  by (simp add: constraint_ok_def)

lemma create_table_wf: "wf_schema s \<Longrightarrow> create_table t s = Some s' \<Longrightarrow> wf_schema s'"
  by (auto simp: wf_schema_def create_table_def table_names_def constraint_ok_append split: if_splits)

lemma create_index_wf: "wf_schema s \<Longrightarrow> create_index n t cs s = Some s' \<Longrightarrow> wf_schema s'"
  by (auto simp: wf_schema_def create_index_def split: if_splits) blast

lemma drop_index_wf: "wf_schema s \<Longrightarrow> drop_index n t s = Some s' \<Longrightarrow> wf_schema s'"
  by (auto simp: wf_schema_def drop_index_def distinct_map_filter split: if_splits)

lemma drop_table_wf:
  assumes "wf_schema s" and "drop_table n s = Some s'"
  shows "wf_schema s'"
proof -
  have s': "s' = s\<lparr>sc_tables := filter (\<lambda>t. tb_name t \<noteq> n) (sc_tables s), sc_indexes := filter (\<lambda>i. ix_table i \<noteq> n) (sc_indexes s)\<rparr>"
    and free: "\<And>t f. t \<in> set (sc_tables s) \<Longrightarrow> tb_name t \<noteq> n \<Longrightarrow> f \<in> set (tb_foreign_keys t) \<Longrightarrow> fk_table f \<noteq> n"
    using assms(2) by (auto simp: drop_table_def split: if_splits)
  have "constraint_ok s' t" if "t \<in> set (sc_tables s)" "tb_name t \<noteq> n" for t
  proof -
    have "constraint_ok s t" using assms(1) that(1) by (simp add: wf_schema_def)
    then show ?thesis using free [OF that] by (fastforce simp: constraint_ok_def s')
  qed
  with assms(1) show ?thesis by (auto simp: wf_schema_def s' distinct_map_filter) metis+
qed

text \<open>Changing the columns of one table keeps a schema well-formed if every constraint and index finds its columns again.\<close>

lemma on_table_wf:
  assumes "wf_schema s"
    and same: "\<And>t. tb_name (f t) = tb_name t \<and> tb_unique (f t) = tb_unique t \<and> tb_foreign_keys (f t) = tb_foreign_keys t"
    and own: "\<And>t. t \<in> set (sc_tables s) \<Longrightarrow> tb_name t = n \<Longrightarrow> distinct (map co_name (tb_columns (f t)))
      \<and> (\<forall>u \<in> set (tb_unique t). set (snd u) \<subseteq> column_names (f t)) \<and> (\<forall>g \<in> set (tb_foreign_keys t). set (fk_columns g) \<subseteq> column_names (f t))"
    and target: "\<And>t u g. \<lbrakk>t \<in> set (sc_tables s); u \<in> set (sc_tables s); g \<in> set (tb_foreign_keys t); tb_name u = n; fk_table g = n;
      fk_targets g \<in> set (keys_of u)\<rbrakk> \<Longrightarrow> fk_targets g \<in> set (keys_of (f u))"
    and idx: "\<And>t i. \<lbrakk>t \<in> set (sc_tables s); i \<in> set (sc_indexes s); tb_name t = n; ix_table i = n; set (ix_columns i) \<subseteq> column_names t\<rbrakk>
      \<Longrightarrow> set (ix_columns i) \<subseteq> column_names (f t)"
  shows "wf_schema (on_table n f s)"
proof -
  let ?g = "\<lambda>t. if tb_name t = n then f t else t"
  have tables: "sc_tables (on_table n f s) = map ?g (sc_tables s)" and indexes: "sc_indexes (on_table n f s) = sc_indexes s"
    by (simp_all add: on_table_def)
  have names: "tb_name (?g t) = tb_name t" for t using same by simp
  have "constraint_ok (on_table n f s) (?g t)" if t: "t \<in> set (sc_tables s)" for t
  proof -
    have ok: "constraint_ok s t" using assms(1) t by (simp add: wf_schema_def)
    have "\<exists>u \<in> set (sc_tables (on_table n f s)). tb_name u = fk_table g \<and> fk_targets g \<in> set (keys_of u)" if g: "g \<in> set (tb_foreign_keys t)" for g
    proof -
      obtain u where u: "u \<in> set (sc_tables s)" "tb_name u = fk_table g" "fk_targets g \<in> set (keys_of u)"
        using ok g unfolding constraint_ok_def by blast
      have "tb_name (?g u) = fk_table g \<and> fk_targets g \<in> set (keys_of (?g u))"
        using target [OF t u(1) g] by (cases "tb_name u = n") (simp_all add: u same)
      moreover have "?g u \<in> set (sc_tables (on_table n f s))" using u(1) by (simp only: tables set_map) blast
      ultimately show ?thesis by blast
    qed
    then show ?thesis using ok own [OF t] same by (auto simp: constraint_ok_def)
  qed
  moreover have "\<exists>t \<in> set (sc_tables s). tb_name (?g t) = ix_table i \<and> set (ix_columns i) \<subseteq> column_names (?g t)" if i: "i \<in> set (sc_indexes s)" for i
  proof -
    obtain t where t: "t \<in> set (sc_tables s)" "tb_name t = ix_table i" "set (ix_columns i) \<subseteq> column_names t"
      using assms(1) i unfolding wf_schema_def by blast
    have "tb_name (?g t) = ix_table i \<and> set (ix_columns i) \<subseteq> column_names (?g t)"
      using idx [OF t(1) i] by (cases "tb_name t = n") (simp_all add: t same)
    with t(1) show ?thesis by blast
  qed
  moreover have "map tb_name (map ?g (sc_tables s)) = map tb_name (sc_tables s)" using names by (simp add: comp_def)
  ultimately show ?thesis using assms(1) unfolding wf_schema_def tables indexes by (simp only: set_map ball_simps bex_simps) blast
qed

lemma add_column_wf:
  assumes "wf_schema s" and "\<not> co_primary_key c" and "add_column n c s = Some s'"
  shows "wf_schema s'"
proof -
  have s': "s' = on_table n (\<lambda>t. t\<lparr>tb_columns := tb_columns t @ [c]\<rparr>) s" and new: "\<exists>t \<in> set (sc_tables s). tb_name t = n \<and> co_name c \<notin> column_names t"
    using assms(3) by (auto simp: add_column_def split: if_splits)
  have uniq: "t = u" if "t \<in> set (sc_tables s)" "u \<in> set (sc_tables s)" "tb_name t = tb_name u" for t u
    using assms(1) that by (auto simp: wf_schema_def distinct_map dest: inj_onD)
  have ok: "constraint_ok s t" if "t \<in> set (sc_tables s)" for t using assms(1) that by (simp add: wf_schema_def)
  show ?thesis
    unfolding s'
  proof (rule on_table_wf [OF assms(1)], goal_cases)
    case (2 t)
    with new uniq ok show ?case by (fastforce simp: constraint_ok_def column_names_def)
  qed (use assms(2) in \<open>auto simp: keys_of_def column_names_def\<close>)
qed

lemma drop_column_wf:
  assumes "wf_schema s" and "drop_column n c s = Some s'"
  shows "wf_schema s'"
proof -
  let ?f = "\<lambda>t. t\<lparr>tb_columns := filter (\<lambda>d. co_name d \<noteq> c) (tb_columns t)\<rparr>"
  have s': "s' = on_table n ?f s" and free: "\<not> column_used s n c" using assms(2) by (auto simp: drop_column_def split: if_splits)
  have cols: "column_names (?f t) = column_names t - {c}" for t by (auto simp: column_names_def)
  have keys: "k \<in> set (keys_of (?f u))" if "k \<in> set (keys_of u)" "c \<notin> set k" for k u
  proof -
    have "map co_name (filter co_primary_key (tb_columns (?f u))) = filter (\<lambda>x. x \<noteq> c) (map co_name (filter co_primary_key (tb_columns u)))"
      by (induction "tb_columns u") (simp_all add: filter_map comp_def conj_commute)
    moreover have "filter (\<lambda>x. x \<noteq> c) k = k" using that(2) by (metis (mono_tags, lifting) filter_True)
    ultimately show ?thesis using that(1) by (auto simp: keys_of_def)
  qed
  have ok: "constraint_ok s t" if "t \<in> set (sc_tables s)" for t using assms(1) that by (simp add: wf_schema_def)
  show ?thesis
    unfolding s'
  proof (rule on_table_wf [OF assms(1)], goal_cases)
    case (2 t)
    with ok [OF 2(1)] free show ?case unfolding cols by (auto simp: constraint_ok_def column_used_def distinct_map_filter)
  next
    case (3 t u g)
    with free have "c \<notin> set (fk_targets g)" by (auto simp: column_used_def)
    with keys [OF 3(6)] show ?case .
  next
    case (4 t i)
    with free show ?case unfolding cols by (auto simp: column_used_def)
  qed simp
qed

section \<open>A downgrade undoes its upgrade\<close>

lemma wf_no_reference: "wf_schema s \<Longrightarrow> t \<in> set (sc_tables s) \<Longrightarrow> f \<in> set (tb_foreign_keys t) \<Longrightarrow> fk_table f \<in> table_names s"
  unfolding wf_schema_def constraint_ok_def table_names_def by (metis image_eqI)

lemma wf_index_table: "wf_schema s \<Longrightarrow> i \<in> set (sc_indexes s) \<Longrightarrow> ix_table i \<in> table_names s"
  unfolding wf_schema_def table_names_def by (metis image_eqI)

lemma drop_new_table:
  assumes "wf_schema s" and "tb_name t \<notin> table_names s" and "list_all (\<lambda>i. ix_table i = tb_name t) is"
  shows "drop_table (tb_name t) (s\<lparr>sc_tables := sc_tables s @ [t], sc_indexes := sc_indexes s @ is\<rparr>) = Some s"
proof -
  have "filter (\<lambda>u. tb_name u \<noteq> tb_name t) (sc_tables s) = sc_tables s"
    using assms(2) by (simp add: filter_id_conv table_names_def) (metis image_eqI)
  moreover have "filter (\<lambda>i. ix_table i \<noteq> tb_name t) (sc_indexes s) = sc_indexes s"
    using wf_index_table [OF assms(1)] assms(2) by (intro filter_True) force
  moreover have "filter (\<lambda>i. ix_table i \<noteq> tb_name t) is = []" using assms(3) by (simp add: filter_empty_conv list_all_iff)
  moreover have "fk_table f \<noteq> tb_name t" if "u \<in> set (sc_tables s)" "f \<in> set (tb_foreign_keys u)" for u f
    using wf_no_reference [OF assms(1) that] assms(2) by metis
  ultimately show ?thesis by (auto simp: drop_table_def table_names_def)
qed

lemma drop_created:
  assumes "wf_schema s" and "create_table t s = Some s1"
  shows "drop_table (tb_name t) s1 = Some s"
    and "create_index n (tb_name t) cs s1 = Some s2 \<Longrightarrow> drop_table (tb_name t) s2 = Some s"
proof -
  have s1: "s1 = s\<lparr>sc_tables := sc_tables s @ [t]\<rparr>" "tb_name t \<notin> table_names s" using assms(2) by (auto simp: create_table_def split: if_splits)
  then have "s1 = s\<lparr>sc_tables := sc_tables s @ [t], sc_indexes := sc_indexes s @ []\<rparr>" by simp
  with drop_new_table [OF assms(1) s1(2), of "[]"] show "drop_table (tb_name t) s1 = Some s" by simp
  show "drop_table (tb_name t) s2 = Some s" if "create_index n (tb_name t) cs s1 = Some s2"
    using that drop_new_table [OF assms(1) s1(2), of "[\<lparr>ix_name = n, ix_table = tb_name t, ix_columns = cs\<rparr>]"]
    by (simp add: s1(1) create_index_def split: if_splits)
qed

lemma on_table_id: "(\<And>t. t \<in> set (sc_tables s) \<Longrightarrow> tb_name t = n \<Longrightarrow> f t = t) \<Longrightarrow> on_table n f s = s"
  by (simp add: on_table_def map_idI)

lemma on_table_on_table: "(\<And>t. tb_name (f t) = tb_name t) \<Longrightarrow> on_table n g (on_table n f s) = on_table n (\<lambda>t. g (f t)) s"
  by (auto simp: on_table_def)

text \<open>Whatever uses a column of a well-formed schema finds it in its table.\<close>

lemma column_used_exists:
  assumes "wf_schema s" and "column_used s n c"
  shows "\<exists>t \<in> set (sc_tables s). tb_name t = n \<and> c \<in> column_names t"
proof -
  have ok: "constraint_ok s t" if "t \<in> set (sc_tables s)" for t using assms(1) that by (simp add: wf_schema_def)
  have keys: "c \<in> column_names u" if "u \<in> set (sc_tables s)" "k \<in> set (keys_of u)" "c \<in> set k" for u k
    using ok [OF that(1)] that(2,3) by (auto simp: keys_of_def constraint_ok_def column_names_def)
  from assms(2) consider (idx) i where "i \<in> set (sc_indexes s)" "ix_table i = n" "c \<in> set (ix_columns i)"
    | (uniq) t u where "t \<in> set (sc_tables s)" "tb_name t = n" "u \<in> set (tb_unique t)" "c \<in> set (snd u)"
    | (own) t f where "t \<in> set (sc_tables s)" "tb_name t = n" "f \<in> set (tb_foreign_keys t)" "c \<in> set (fk_columns f)"
    | (target) t f where "t \<in> set (sc_tables s)" "f \<in> set (tb_foreign_keys t)" "fk_table f = n" "c \<in> set (fk_targets f)"
    unfolding column_used_def by blast
  then show ?thesis
  proof cases
    case idx
    with assms(1) show ?thesis unfolding wf_schema_def by blast
  next
    case uniq
    with ok [of t] show ?thesis unfolding constraint_ok_def by blast
  next
    case own
    with ok [of t] show ?thesis unfolding constraint_ok_def by blast
  next
    case target
    with ok [of t] obtain u where "u \<in> set (sc_tables s)" "tb_name u = n" "fk_targets f \<in> set (keys_of u)"
      unfolding constraint_ok_def by blast
    with keys target(4) show ?thesis by blast
  qed
qed

lemma bex_on_table: "(\<And>t. P (f t) \<longleftrightarrow> P t) \<Longrightarrow> (\<exists>t \<in> set (sc_tables (on_table n f s)). P t) \<longleftrightarrow> (\<exists>t \<in> set (sc_tables s). P t)"
  by (simp add: on_table_def) blast

lemma column_used_on_table:
  assumes "\<And>t. tb_name (f t) = tb_name t \<and> tb_unique (f t) = tb_unique t \<and> tb_foreign_keys (f t) = tb_foreign_keys t"
  shows "column_used (on_table n f s) m c = column_used s m c"
  unfolding column_used_def using assms by (subst bex_on_table) (simp_all add: on_table_def)

lemma drop_added:
  assumes "wf_schema s" and "add_column n c s = Some s1"
  shows "drop_column n (co_name c) s1 = Some s"
proof -
  let ?f = "\<lambda>t. t\<lparr>tb_columns := tb_columns t @ [c]\<rparr>"
  from assms(2) obtain t0 where t0: "t0 \<in> set (sc_tables s)" "tb_name t0 = n" "co_name c \<notin> column_names t0"
    and s1: "s1 = on_table n ?f s" by (auto simp: add_column_def split: if_splits)
  have uniq: "co_name c \<notin> column_names t" if "t \<in> set (sc_tables s)" "tb_name t = n" for t
    using assms(1) that t0 by (auto simp: wf_schema_def distinct_map dest: inj_onD)
  have "\<not> column_used s n (co_name c)" using column_used_exists [OF assms(1)] uniq by blast
  then have "\<not> column_used s1 n (co_name c)" by (simp add: s1 column_used_on_table)
  moreover have "?f t0 \<in> set (sc_tables s1)" using t0 by (force simp: s1 on_table_def)
  then have "\<exists>t \<in> set (sc_tables s1). tb_name t = n \<and> co_name c \<in> column_names t"
    using t0(2) by (intro bexI [of _ "?f t0"]) (auto simp: column_names_def)
  moreover have "on_table n (\<lambda>t. t\<lparr>tb_columns := filter (\<lambda>d. co_name d \<noteq> co_name c) (tb_columns t)\<rparr>) s1 = s"
  proof -
    have "filter (\<lambda>d. co_name d \<noteq> co_name c) (tb_columns t) = tb_columns t" if "t \<in> set (sc_tables s)" "tb_name t = n" for t
      using uniq [OF that] by (intro filter_True) (metis column_names_def image_eqI)
    then show ?thesis by (simp add: s1 on_table_on_table) (intro on_table_id, simp)
  qed
  ultimately show ?thesis by (simp add: drop_column_def)
qed

lemma drop_new_index:
  "create_index n t cs s = Some s1 \<Longrightarrow> drop_index n t s1 = Some s"
proof -
  assume "create_index n t cs s = Some s1"
  then have s1: "s1 = s\<lparr>sc_indexes := sc_indexes s @ [\<lparr>ix_name = n, ix_table = t, ix_columns = cs\<rparr>]\<rparr>" and n: "n \<notin> ix_name ` set (sc_indexes s)"
    by (auto simp: create_index_def split: if_splits)
  have "filter (\<lambda>i. ix_name i \<noteq> n) (sc_indexes s) = sc_indexes s" using n by (intro filter_True) (metis image_eqI)
  then show ?thesis by (simp add: s1 drop_index_def)
qed

lemma downgrade_0001_undoes:
  assumes "wf_schema s" and "upgrade_0001 s = Some s'"
  shows "downgrade_0001 s' = Some s"
proof -
  from assms(2) obtain s1 s2 s3 s4 s5 s6 where c1: "create_table jobs_0001 s = Some s1" and c2: "create_table schedules_0001 s1 = Some s2"
    and c3: "create_index ''ix_schedules_job_id'' ''schedules'' [''job_id''] s2 = Some s3" and c4: "create_table job_executions_0001 s3 = Some s4"
    and c5: "create_index ''ix_job_executions_job_id_status'' ''job_executions'' [''job_id'', ''status''] s4 = Some s5"
    and c6: "create_table job_logs_0001 s5 = Some s6"
    and c7: "create_index ''ix_job_logs_run_id_attempt'' ''job_logs'' [''run_id'', ''attempt''] s6 = Some s'"
    by (auto simp: upgrade_0001_def bind_eq_Some_conv)
  have names: "''jobs'' = tb_name jobs_0001" "''schedules'' = tb_name schedules_0001" "''job_executions'' = tb_name job_executions_0001"
    "''job_logs'' = tb_name job_logs_0001" by (simp_all add: jobs_0001_def schedules_0001_def job_executions_0001_def job_logs_0001_def)
  have w1: "wf_schema s1" by (rule create_table_wf [OF assms(1) c1])
  have w3: "wf_schema s3" by (rule create_index_wf [OF create_table_wf [OF w1 c2] c3])
  have w5: "wf_schema s5" by (rule create_index_wf [OF create_table_wf [OF w3 c4] c5])
  have "drop_table ''job_logs'' s' = Some s5" using drop_created(2) [OF w5 c6] c7 unfolding names by blast
  moreover have "drop_table ''job_executions'' s5 = Some s3" using drop_created(2) [OF w3 c4] c5 unfolding names by blast
  moreover have "drop_table ''schedules'' s3 = Some s1" using drop_created(2) [OF w1 c2] c3 unfolding names by blast
  moreover have "drop_table ''jobs'' s1 = Some s" using drop_created(1) [OF assms(1) c1] unfolding names by blast
  ultimately show ?thesis by (simp add: downgrade_0001_def)
qed

lemma downgrade_0002_undoes:
  assumes "wf_schema s" and "upgrade_0002 s = Some s'"
  shows "downgrade_0002 s' = Some s"
proof -
  from assms(2) obtain s1 where c: "create_table idempotency_keys_0002 s = Some s1"
    "create_index ''ix_idempotency_keys_job_id'' ''idempotency_keys'' [''job_id''] s1 = Some s'"
    by (auto simp: upgrade_0002_def bind_eq_Some_conv)
  have name: "''idempotency_keys'' = tb_name idempotency_keys_0002" by (simp add: idempotency_keys_0002_def)
  show ?thesis using drop_created(2) [OF assms(1) c(1)] c(2) unfolding downgrade_0002_def name by blast
qed

lemma downgrade_0003_undoes: "wf_schema s \<Longrightarrow> upgrade_0003 s = Some s' \<Longrightarrow> downgrade_0003 s' = Some s"
  using drop_added [of s "''job_executions''" cancel_requested_0003 s']
  by (simp add: upgrade_0003_def downgrade_0003_def cancel_requested_0003_def Column_def)

lemma downgrade_0004_undoes:
  assumes "wf_schema s" and "upgrade_0004 s = Some s'"
  shows "downgrade_0004 s' = Some s"
proof -
  from assms(2) obtain s1 where c: "add_column ''job_executions'' (Column ''next_retry_at'' DateTime True) s = Some s1"
    "create_index ''ix_job_executions_next_retry_at'' ''job_executions'' [''next_retry_at''] s1 = Some s'"
    by (auto simp: upgrade_0004_def bind_eq_Some_conv)
  from drop_added [OF assms(1) c(1)] drop_new_index [OF c(2)] show ?thesis by (simp add: downgrade_0004_def Column_def)
qed

lemma upgrades_wf:
  "wf_schema s \<Longrightarrow> upgrade_0001 s = Some s' \<Longrightarrow> wf_schema s'" "wf_schema s \<Longrightarrow> upgrade_0002 s = Some s' \<Longrightarrow> wf_schema s'"
  "wf_schema s \<Longrightarrow> upgrade_0003 s = Some s' \<Longrightarrow> wf_schema s'" "wf_schema s \<Longrightarrow> upgrade_0004 s = Some s' \<Longrightarrow> wf_schema s'"
  unfolding upgrade_0001_def upgrade_0002_def upgrade_0003_def upgrade_0004_def bind_eq_Some_conv
  by (meson create_table_wf create_index_wf, meson create_table_wf create_index_wf,
      rule add_column_wf, simp_all add: cancel_requested_0003_def Column_def)
    (elim exE conjE, rule create_index_wf, rule add_column_wf, simp_all)

lemma revisions_cases: "r \<in> set revisions \<Longrightarrow> r = revision_0001 \<or> r = revision_0002 \<or> r = revision_0003 \<or> r = revision_0004"
  by (simp add: revisions_def)

lemma revision_roundtrip:
  assumes "r \<in> set revisions" and "wf_schema s" and "rv_upgrade r s = Some s'"
  shows "wf_schema s'" and "rv_downgrade r s' = Some s"
proof -
  from revisions_cases [OF assms(1)] consider "r = revision_0001" | "r = revision_0002" | "r = revision_0003" | "r = revision_0004" by blast
  then have "wf_schema s' \<and> rv_downgrade r s' = Some s"
  proof cases
    case 1
    with assms(2,3) upgrades_wf(1) downgrade_0001_undoes show ?thesis by (simp add: revision_0001_def)
  next
    case 2
    with assms(2,3) upgrades_wf(2) downgrade_0002_undoes show ?thesis by (simp add: revision_0002_def)
  next
    case 3
    with assms(2,3) upgrades_wf(3) downgrade_0003_undoes show ?thesis by (simp add: revision_0003_def)
  next
    case 4
    with assms(2,3) upgrades_wf(4) downgrade_0004_undoes show ?thesis by (simp add: revision_0004_def)
  qed
  then show "wf_schema s'" and "rv_downgrade r s' = Some s" by blast+
qed

section \<open>Histories\<close>

lemma upgrade_all_version: "upgrade_all rs d = Some d' \<Longrightarrow> fst d' = (if rs = [] then fst d else current rs)"
proof (induction rs arbitrary: d)
  case (Cons r rs)
  from Cons.prems obtain s where "upgrade_all rs (Some (rv_id r), s) = Some d'" by (auto simp: bind_eq_Some_conv)
  from Cons.IH [OF this] show ?case by (simp add: current_def)
qed simp

lemma upgrade_all_append: "upgrade_all (xs @ ys) d = upgrade_all xs d \<bind> upgrade_all ys"
  by (induction xs arbitrary: d) (simp_all add: bind_assoc)

lemma downgrade_all_append: "downgrade_all (xs @ ys) d = downgrade_all xs d \<bind> downgrade_all ys"
  by (induction xs arbitrary: d) (simp_all add: bind_assoc)

text \<open>Downgrading runs the history backwards, if each of its revisions can be taken back.\<close>

lemma history_roundtrip:
  assumes "\<And>r s s'. r \<in> set rs \<Longrightarrow> wf_schema s \<Longrightarrow> rv_upgrade r s = Some s' \<Longrightarrow> wf_schema s' \<and> rv_downgrade r s' = Some s"
    and "linear v rs" and "wf_schema s" and "upgrade_all rs (v, s) = Some d"
  shows "wf_schema (snd d) \<and> downgrade_all (rev rs) d = Some (v, s)"
  using assms
proof (induction rs arbitrary: v s)
  case (Cons r rs)
  from Cons.prems(4) obtain s1 where s1: "rv_upgrade r s = Some s1" "upgrade_all rs (Some (rv_id r), s1) = Some d"
    by (auto simp: bind_eq_Some_conv)
  have r: "wf_schema s1" "rv_downgrade r s1 = Some s" using Cons.prems(1) [OF _ Cons.prems(3) s1(1)] by simp_all
  have "wf_schema (snd d) \<and> downgrade_all (rev rs) d = Some (Some (rv_id r), s1)"
    by (rule Cons.IH [OF Cons.prems(1) _ r(1) s1(2)]) (use Cons.prems(2) in auto)
  then show ?case using r(2) Cons.prems(2) by (simp add: downgrade_all_append)
qed auto

lemma linear_revisions: "linear None revisions"
  by code_simp

lemma current_revisions: "current revisions = Some ''0004''"
  by code_simp

lemma runs_upgrade:
  assumes "runs_revisions A"
  shows "upgrade_db A ''head'' (None, s) = upgrade_all revisions (None, s)"
    and "upgrade_db A ''head'' (Some ''0004'', s) = Some (Some ''0004'', s)"
    and "downgrade_db A ''base'' (Some ''0004'', s) = downgrade_all (rev revisions) (Some ''0004'', s)"
proof -
  note law = assms [unfolded runs_revisions_def, rule_format]
  have none: "current [] = None" by (simp add: current_def)
  show "upgrade_db A ''head'' (None, s) = upgrade_all revisions (None, s)"
    using law [of "[]" revisions s] linear_revisions by (simp add: upgrade_db_def none)
  show "upgrade_db A ''head'' (Some ''0004'', s) = Some (Some ''0004'', s)"
    "downgrade_db A ''base'' (Some ''0004'', s) = downgrade_all (rev revisions) (Some ''0004'', s)"
    using law [of revisions "[]" s] linear_revisions by (simp_all add: upgrade_db_def downgrade_db_def current_revisions)
qed

lemma upgrade_head:
  "upgrade_all revisions (None, empty_schema) = Some (Some ''0004'',
     \<lparr>sc_tables = [jobs_0001, schedules_0001,
        job_executions_0001\<lparr>tb_columns := tb_columns job_executions_0001 @ [cancel_requested_0003, Column ''next_retry_at'' DateTime True]\<rparr>,
        job_logs_0001, idempotency_keys_0002],
      sc_indexes = [\<lparr>ix_name = ''ix_schedules_job_id'', ix_table = ''schedules'', ix_columns = [''job_id'']\<rparr>,
        \<lparr>ix_name = ''ix_job_executions_job_id_status'', ix_table = ''job_executions'', ix_columns = [''job_id'', ''status'']\<rparr>,
        \<lparr>ix_name = ''ix_job_logs_run_id_attempt'', ix_table = ''job_logs'', ix_columns = [''run_id'', ''attempt'']\<rparr>,
        \<lparr>ix_name = ''ix_idempotency_keys_job_id'', ix_table = ''idempotency_keys'', ix_columns = [''job_id'']\<rparr>,
        \<lparr>ix_name = ''ix_job_executions_next_retry_at'', ix_table = ''job_executions'', ix_columns = [''next_retry_at'']\<rparr>]\<rparr>)"
  by code_simp

text \<open>A database that an earlier version of the platform has built is upgraded to the same schema as an empty one.\<close>

lemma upgrade_from_any:
  assumes "runs_revisions A" and "applied @ pending = revisions" and "upgrade_all applied (None, empty_schema) = Some d"
  shows "upgrade_db A ''head'' d = upgrade_all revisions (None, empty_schema)"
proof -
  have "fst d = current applied" using upgrade_all_version [OF assms(3)] by (auto simp: current_def)
  moreover have "command_upgrade A (applied @ pending) ''head'' (current applied, snd d) = upgrade_all pending (current applied, snd d)"
    using assms(1,2) linear_revisions unfolding runs_revisions_def by metis
  moreover have "upgrade_all revisions (None, empty_schema) = upgrade_all pending d"
    using assms(3) by (simp add: assms(2) [symmetric] upgrade_all_append)
  ultimately show ?thesis using assms(2) by (metis prod.collapse upgrade_db_def)
qed

lemma head_matches_models:
  obtains s where "upgrade_all revisions (None, empty_schema) = Some (Some ''0004'', s)"
    and "map forget_default (sc_tables s) = sc_tables models_schema" and "mset (sc_indexes s) = mset (sc_indexes models_schema)"
  by (rule that [OF upgrade_head])
    (simp_all add: forget_default_def models_schema_def model_indexes_def jobs_0001_def JobRecord_table_def schedules_0001_def ScheduleRecord_table_def
      job_executions_0001_def ExecutionRecord_table_def job_logs_0001_def JobLogRecord_table_def idempotency_keys_0002_def
      IdempotencyRecord_table_def cancel_requested_0003_def Column_def PrimaryKey_def add_mset_commute)

section \<open>Properties\<close>

text \<open>C30: The migrations build the schema the models declare: upgrading an empty database, or one that an earlier version of the platform has built, to the newest
  revision succeeds, and the result has exactly the tables, columns with their types and nullability, keys, foreign keys with their cascades, and
  indexes of the ORM models, up to defaults of the server. Upgrading again, as every start of the application does, changes nothing.\<close>

theorem migrations_build_models:
  assumes "runs_revisions A" and "applied @ pending = revisions" and "upgrade_all applied (None, empty_schema) = Some d"
  shows "\<exists>s. upgrade_db A ''head'' d = Some (Some ''0004'', s)
     \<and> map forget_default (sc_tables s) = sc_tables models_schema \<and> mset (sc_indexes s) = mset (sc_indexes models_schema)
     \<and> upgrade_db A ''head'' (Some ''0004'', s) = Some (Some ''0004'', s)"
  unfolding upgrade_from_any [OF assms] runs_upgrade [OF assms(1)] by (rule head_matches_models) blast

text \<open>A runner that finds the current revision in the history.\<close>

definition sample_alembic :: alembic where
  "sample_alembic = \<lparr>
     command_upgrade = (\<lambda>rs target d. upgrade_all (case fst d of None \<Rightarrow> rs | Some i \<Rightarrow> tl (dropWhile (\<lambda>r. rv_id r \<noteq> i) rs)) d),
     command_downgrade = (\<lambda>rs target d. downgrade_all
       (rev (case fst d of None \<Rightarrow> [] | Some i \<Rightarrow> takeWhile (\<lambda>r. rv_id r \<noteq> i) rs @ take 1 (dropWhile (\<lambda>r. rv_id r \<noteq> i) rs))) d)\<rparr>"

lemma linear_distinct: "linear v rs \<Longrightarrow> distinct (map rv_id rs)"
  by (induction v rs rule: linear.induct) auto

lemma sample_alembic_runs: "runs_revisions sample_alembic"
proof (unfold runs_revisions_def, intro allI impI)
  fix applied pending s
  assume lin: "linear None (applied @ pending)"
  show "command_upgrade sample_alembic (applied @ pending) ''head'' (current applied, s) = upgrade_all pending (current applied, s)
     \<and> command_downgrade sample_alembic (applied @ pending) ''base'' (current applied, s) = downgrade_all (rev applied) (current applied, s)"
  proof (cases applied rule: rev_cases)
    case Nil
    then show ?thesis by (simp add: sample_alembic_def current_def)
  next
    case (snoc front r)
    with linear_distinct [OF lin] have "\<forall>x \<in> set front. rv_id x \<noteq> rv_id r" by (auto simp: rev_image_eqI)
    then show ?thesis
      by (simp add: snoc sample_alembic_def current_def takeWhile_append2 dropWhile_append2)
  qed
qed

theorem migrations_build_models_witness:
  "\<exists>d s. upgrade_all [revision_0001, revision_0002] (None, empty_schema) = Some d
     \<and> upgrade_db sample_alembic ''head'' d = Some (Some ''0004'', s)
     \<and> map forget_default (sc_tables s) = sc_tables models_schema \<and> mset (sc_indexes s) = mset (sc_indexes models_schema)
     \<and> upgrade_db sample_alembic ''head'' (Some ''0004'', s) = Some (Some ''0004'', s)"
proof -
  have "upgrade_all [revision_0001, revision_0002] (None, empty_schema) \<noteq> None" by code_simp
  then obtain d where d: "upgrade_all [revision_0001, revision_0002] (None, empty_schema) = Some d" by blast
  with migrations_build_models [OF sample_alembic_runs _ d, of "[revision_0003, revision_0004]"] show ?thesis
    by (auto simp: revisions_def)
qed

text \<open>C31: The migrations can be taken back: on any well-formed schema, which may have other tables, on which the upgrade to the newest revision succeeds, the
  upgraded schema is well-formed, and the downgrade to the base succeeds and restores the schema exactly, with its tables, columns,
  constraints and indexes.\<close>

theorem migration_roundtrip:
  assumes "runs_revisions A" and "wf_schema s" and "upgrade_db A ''head'' (None, s) = Some d"
  shows "wf_schema (snd d) \<and> downgrade_db A ''base'' d = Some (None, s)"
proof -
  have up: "upgrade_all revisions (None, s) = Some d" using assms(3) by (simp add: runs_upgrade [OF assms(1)])
  then have "fst d = Some ''0004''" using upgrade_all_version [OF up] current_revisions by (simp add: revisions_def)
  then have "downgrade_db A ''base'' d = downgrade_all (rev revisions) d" using runs_upgrade(3) [OF assms(1)] by (metis prod.collapse)
  with history_roundtrip [OF _ linear_revisions assms(2) up] revision_roundtrip show ?thesis by auto
qed

theorem migration_roundtrip_witness:
  "\<exists>d. upgrade_db sample_alembic ''head'' (None, empty_schema) = Some d \<and> wf_schema (snd d)
     \<and> downgrade_db sample_alembic ''base'' d = Some (None, empty_schema)"
proof -
  have "upgrade_db sample_alembic ''head'' (None, empty_schema) \<noteq> None"
    by (simp add: runs_upgrade [OF sample_alembic_runs] upgrade_head)
  then show ?thesis using migration_roundtrip [OF sample_alembic_runs wf_empty] by blast
qed

end
