(* ===== verification/Settings.thy ===== *)
theory Settings
  imports Redis_Queue Migrations
begin

text \<open>
  Where the platform connects to: the database URL and the engine built from it (\<^verbatim>\<open>infrastructure/db/session.py\<close>), the configuration the
  migrations run with (\<^verbatim>\<open>infrastructure/db/migrate.py\<close>, \<^verbatim>\<open>migrations/env.py\<close>), and the Redis URL and queue
  (\<^verbatim>\<open>infrastructure/queue/redis_stream.py\<close>, \<^verbatim>\<open>factory.py\<close>). The environment is a partial map. Of SQLAlchemy the name of the dialect of a URL is used, the
  text before the first \<^verbatim>\<open>+\<close> or \<^verbatim>\<open>:\<close>; of \<^verbatim>\<open>configparser\<close> the interpolation of the character \<^verbatim>\<open>%\<close>. The Redis client for a URL is a parameter.
\<close>

type_synonym environ = "pystr \<Rightarrow> pystr option"

definition environ_get :: "environ \<Rightarrow> pystr \<Rightarrow> pystr \<Rightarrow> pystr" where
  "environ_get env key dflt = (case env key of Some v \<Rightarrow> v | None \<Rightarrow> dflt)"

text \<open>\<^verbatim>\<open>url or default\<close> for an optional string.\<close>

definition given_or :: "pystr option \<Rightarrow> pystr \<Rightarrow> pystr" where
  "given_or u dflt = (case u of Some v \<Rightarrow> if v = [] then dflt else v | None \<Rightarrow> dflt)"

definition startswith :: "pystr \<Rightarrow> pystr \<Rightarrow> bool" where
  "startswith s p \<longleftrightarrow> take (length p) s = p"

definition removeprefix :: "pystr \<Rightarrow> pystr \<Rightarrow> pystr" where
  "removeprefix s p = (if startswith s p then drop (length p) s else s)"

section \<open>The database URL\<close>

definition DEFAULT_DATABASE_URL :: pystr where
  "DEFAULT_DATABASE_URL = lit ''sqlite:///data/task_platform.db''"

definition get_database_url :: "environ \<Rightarrow> pystr" where
  "get_database_url env = environ_get env (lit ''TASK_PLATFORM_DB_URL'') DEFAULT_DATABASE_URL"

fun rewrite_prefixes :: "pystr list \<Rightarrow> pystr \<Rightarrow> pystr" where
  "rewrite_prefixes [] url = url"
| "rewrite_prefixes (p # ps) url =
     (if startswith url p then lit ''postgresql+psycopg://'' @ removeprefix url p else rewrite_prefixes ps url)"

definition normalize_database_url :: "pystr \<Rightarrow> pystr" where
  "normalize_database_url url = rewrite_prefixes [lit ''postgresql://'', lit ''postgres://''] url"

text \<open>The file whose parent directory is created, if any.\<close>

definition ensure_sqlite_parent_dir :: "pystr \<Rightarrow> pystr option" where
  "ensure_sqlite_parent_dir url =
     (if \<not> startswith url (lit ''sqlite:///'') then None
      else let db_path = removeprefix url (lit ''sqlite:///'') in
           if db_path = [] \<or> db_path = lit '':memory:'' then None else Some db_path)"

record engine =
  en_url :: pystr
  en_echo :: bool
  en_pool_pre_ping :: bool
  en_foreign_keys :: bool
  en_parent_of :: "pystr option"

definition dialect_name :: "pystr \<Rightarrow> pystr" where
  "dialect_name url = takeWhile (\<lambda>c. c \<noteq> 43 \<and> c \<noteq> 58) url"

definition create_db_engine :: "environ \<Rightarrow> pystr option \<Rightarrow> bool \<Rightarrow> engine" where
  "create_db_engine env url echo =
     (let resolved_url = normalize_database_url (given_or url (get_database_url env)) in
      \<lparr>en_url = resolved_url, en_echo = echo, en_pool_pre_ping = (\<not> startswith resolved_url (lit ''sqlite'')),
       en_foreign_keys = (dialect_name resolved_url = lit ''sqlite''), en_parent_of = ensure_sqlite_parent_dir resolved_url\<rparr>)"

section \<open>The configuration of the migrations\<close>

text \<open>\<^verbatim>\<open>str.replace("%", "%%")\<close>\<close>

definition escape_percent :: "pystr \<Rightarrow> pystr" where
  "escape_percent s = concat (map (\<lambda>c. if c = 37 then [37, 37] else [c]) s)"

text \<open>Setting an option of a \<^verbatim>\<open>ConfigParser\<close> raises if a \<^verbatim>\<open>%\<close> remains after all \<^verbatim>\<open>%%\<close>, then all \<^verbatim>\<open>%(name)s\<close>, are taken out.\<close>

fun without_escapes :: "pystr \<Rightarrow> pystr" where
  "without_escapes (c # d # s) = (if c = 37 \<and> d = 37 then without_escapes s else c # without_escapes (d # s))"
| "without_escapes s = s"

definition after_reference :: "pystr \<Rightarrow> pystr option" where
  "after_reference s =
     (let name = takeWhile (\<lambda>c. c \<noteq> 41) (drop 2 s); rest = dropWhile (\<lambda>c. c \<noteq> 41) (drop 2 s) in
      if take 2 s = [37, 40] \<and> name \<noteq> [] \<and> take 2 rest = [41, 115] then Some (drop 2 rest) else None)"

function stray_percent :: "pystr \<Rightarrow> bool" where
  "stray_percent [] = False"
| "stray_percent (c # s) = (case after_reference (c # s) of Some rest \<Rightarrow> stray_percent rest | None \<Rightarrow> c = 37 \<or> stray_percent s)"
  by pat_completeness auto
termination
proof (relation "measure length")
  fix c s rest
  assume "after_reference (c # s) = Some rest"
  then have "length rest \<le> length (dropWhile (\<lambda>c. c \<noteq> 41) (drop 2 (c # s)))"
    by (auto simp: after_reference_def Let_def split: if_splits)
  also have "\<dots> \<le> length (drop 2 (c # s))" by (rule length_dropWhile_le)
  finally show "(rest, c # s) \<in> measure length" by simp
qed simp_all

definition set_option :: "pystr \<Rightarrow> pystr \<Rightarrow> (pystr \<times> pystr) list \<Rightarrow> exn + (pystr \<times> pystr) list" where
  "set_option key v options =
     (if stray_percent (without_escapes v) then Inl (ValueError (lit ''invalid interpolation syntax'')) else Inr (AList.update key v options))"

definition make_alembic_config :: "pystr \<Rightarrow> environ \<Rightarrow> pystr option \<Rightarrow> exn + (pystr \<times> pystr) list" where
  "make_alembic_config migrations_dir env url =
     (case set_option (lit ''script_location'') migrations_dir [] of
        Inl e \<Rightarrow> Inl e
      | Inr options \<Rightarrow> set_option (lit ''sqlalchemy.url'') (escape_percent (given_or url (get_database_url env))) options)"

text \<open>Reading an option of a \<^verbatim>\<open>ConfigParser\<close> replaces \<^verbatim>\<open>%%\<close> by \<^verbatim>\<open>%\<close>, expands \<^verbatim>\<open>%(name)s\<close>, and raises on any other \<^verbatim>\<open>%\<close>; \<open>expand\<close> is what it does with
  the text behind an opening parenthesis.\<close>

fun interpolate :: "(pystr \<Rightarrow> exn + pystr) \<Rightarrow> pystr \<Rightarrow> exn + pystr" where
  "interpolate expand [] = Inr []"
| "interpolate expand (c # s) =
     (if c \<noteq> 37 then (case interpolate expand s of Inl e \<Rightarrow> Inl e | Inr t \<Rightarrow> Inr (c # t))
      else case s of
             [] \<Rightarrow> Inl (OtherError (lit ''InterpolationSyntaxError''))
           | d # u \<Rightarrow>
               if d = 37 then (case interpolate expand u of Inl e \<Rightarrow> Inl e | Inr t \<Rightarrow> Inr (37 # t))
               else if d = 40 then expand u
               else Inl (OtherError (lit ''InterpolationSyntaxError'')))"

text \<open>\<^verbatim>\<open>_url\<close> of \<^verbatim>\<open>env.py\<close>, for the options of the configuration.\<close>

definition migration_url :: "(pystr \<Rightarrow> exn + pystr) \<Rightarrow> environ \<Rightarrow> (pystr \<times> pystr) list \<Rightarrow> exn + pystr" where
  "migration_url expand env options =
     (case map_of options (lit ''sqlalchemy.url'') of
        None \<Rightarrow> Inr (get_database_url env)
      | Some raw \<Rightarrow>
          (case interpolate expand raw of
             Inl e \<Rightarrow> Inl e
           | Inr v \<Rightarrow> Inr (given_or (Some v) (get_database_url env))))"

definition migration_engine :: "(pystr \<Rightarrow> exn + pystr) \<Rightarrow> environ \<Rightarrow> (pystr \<times> pystr) list \<Rightarrow> exn + engine" where
  "migration_engine expand env options =
     (case migration_url expand env options of Inl e \<Rightarrow> Inl e | Inr url \<Rightarrow> Inr (create_db_engine env (Some url) False))"

definition render_item :: "pystr \<Rightarrow> bool \<Rightarrow> pystr option" where
  "render_item ty utc_type = (if ty = lit ''type'' \<and> utc_type then Some (lit ''sa.DateTime()'') else None)"

section \<open>The queue\<close>

definition DEFAULT_REDIS_URL :: pystr where
  "DEFAULT_REDIS_URL = lit ''redis://localhost:6379/0''"

definition DEFAULT_STREAM :: pystr where
  "DEFAULT_STREAM = lit ''task_platform:jobs''"

definition DEFAULT_GROUP :: pystr where
  "DEFAULT_GROUP = lit ''workers''"

definition get_redis_url :: "environ \<Rightarrow> pystr" where
  "get_redis_url env = environ_get env (lit ''TASK_PLATFORM_REDIS_URL'') DEFAULT_REDIS_URL"

definition create_redis_client :: "(pystr \<Rightarrow> 'c) \<Rightarrow> environ \<Rightarrow> pystr option \<Rightarrow> 'c" where
  "create_redis_client from_url env url = from_url (given_or url (get_redis_url env))"

definition get_queue_stream :: "environ \<Rightarrow> pystr" where
  "get_queue_stream env = environ_get env (lit ''TASK_PLATFORM_QUEUE_STREAM'') DEFAULT_STREAM"

definition RedisStreamQueue_init ::
  "(exn \<Rightarrow> bool) \<Rightarrow> 'r redis \<Rightarrow> pystr \<Rightarrow> pystr \<Rightarrow> 'r \<Rightarrow> (exn + redis_config) \<times> 'r" where
  "RedisStreamQueue_init busy R stream grp r =
     (let c = \<lparr>rc_stream = stream, rc_group = grp\<rparr> in
      case ensure_group busy R c r of (Inl e, r1) \<Rightarrow> (Inl e, r1) | (Inr _, r1) \<Rightarrow> (Inr c, r1))"

definition build_queue ::
  "(exn \<Rightarrow> bool) \<Rightarrow> (pystr \<Rightarrow> 'r redis) \<Rightarrow> environ \<Rightarrow> 'r \<Rightarrow> (exn + 'r redis \<times> redis_config) \<times> 'r" where
  "build_queue busy from_url env r =
     (let R = create_redis_client from_url env None in
      case RedisStreamQueue_init busy R (get_queue_stream env) DEFAULT_GROUP r of
        (Inl e, r1) \<Rightarrow> (Inl e, r1)
      | (Inr c, r1) \<Rightarrow> (Inr (R, c), r1))"

section \<open>URLs\<close>

lemma startswith_append [simp]: "startswith (p @ s) p"
  by (simp add: startswith_def)

lemma startswith_decompose: "startswith s p \<Longrightarrow> s = p @ removeprefix s p"
  by (metis append_take_drop_id removeprefix_def startswith_def)

lemma normalize_cases:
  obtains (rewritten) rest where "normalize_database_url url = lit ''postgresql+psycopg://'' @ rest"
  | (kept) "normalize_database_url url = url" "\<not> startswith url (lit ''postgresql://'')" "\<not> startswith url (lit ''postgres://'')"
  by (cases "startswith url (lit ''postgresql://'')"; cases "startswith url (lit ''postgres://'')") (auto simp: normalize_database_url_def)

lemma normalized_prefixes:
  "\<not> startswith (normalize_database_url url) (lit ''postgresql://'')" "\<not> startswith (normalize_database_url url) (lit ''postgres://'')"
  by (cases rule: normalize_cases [of url]; simp add: startswith_def lit_def)+

lemma normalize_idem [simp]: "normalize_database_url (normalize_database_url url) = normalize_database_url url"
  using normalized_prefixes [of url] by (simp add: normalize_database_url_def [of "normalize_database_url url"])

lemma interpolate_escape: "interpolate expand (escape_percent s) = Inr s"
  by (induction s) (simp_all add: escape_percent_def)

lemma without_escapes_other: "c \<noteq> 37 \<Longrightarrow> without_escapes (c # s) = c # without_escapes s"
  by (cases s) simp_all

lemma without_escapes_escape: "37 \<notin> set (without_escapes (escape_percent s))"
  by (induction s) (auto simp: escape_percent_def without_escapes_other)

lemma without_escapes_none: "37 \<notin> set s \<Longrightarrow> without_escapes s = s"
  by (induction s rule: without_escapes.induct) auto

lemma no_stray_percent: "37 \<notin> set s \<Longrightarrow> \<not> stray_percent s"
proof (induction s)
  case (Cons c s)
  then have "after_reference (c # s) = None" by (auto simp: after_reference_def)
  with Cons show ?case by simp
qed simp

text \<open>The migrations run against the database of the application: whatever characters the URL contains, and whether it is given or comes from the
  environment, the configuration is accepted unless the directory of the scripts has a stray percent sign, which is not escaped; the engine that \<^verbatim>\<open>env.py\<close>
  then builds is the engine the application builds. Its URL names no PostgreSQL database without the driver of the platform, and foreign keys are enforced on
  every SQLite database.\<close>

theorem migrations_use_app_database:
  "(case make_alembic_config migrations_dir env url of
      Inl e \<Rightarrow> stray_percent (without_escapes migrations_dir)
    | Inr options \<Rightarrow> migration_engine expand env options = Inr (create_db_engine env url False))
   \<and> \<not> startswith (en_url (create_db_engine env url False)) (lit ''postgresql://'')
   \<and> \<not> startswith (en_url (create_db_engine env url False)) (lit ''postgres://'')
   \<and> (dialect_name (en_url (create_db_engine env url False)) = lit ''sqlite'' \<longleftrightarrow> en_foreign_keys (create_db_engine env url False))"
proof -
  have "given_or (Some (given_or url x)) x = given_or url x" for x by (simp add: given_or_def split: option.splits)
  then show ?thesis
    using normalized_prefixes no_stray_percent [OF without_escapes_escape]
    by (simp add: migration_engine_def migration_url_def make_alembic_config_def set_option_def AList.update_conv' interpolate_escape create_db_engine_def Let_def)
qed

lemma alembic_config_ok: "37 \<notin> set migrations_dir \<Longrightarrow> \<exists>options. make_alembic_config migrations_dir env url = Inr options"
  using no_stray_percent [OF without_escapes_escape]
  by (simp add: make_alembic_config_def set_option_def without_escapes_none no_stray_percent)

text \<open>A URL of a PostgreSQL server in either of its short forms selects the driver \<^verbatim>\<open>psycopg\<close>; the rest of it is kept.\<close>

lemma normalize_postgres:
  "normalize_database_url (lit ''postgresql://'' @ rest) = lit ''postgresql+psycopg://'' @ rest"
  "normalize_database_url (lit ''postgres://'' @ rest) = lit ''postgresql+psycopg://'' @ rest"
  by (simp_all add: normalize_database_url_def removeprefix_def) (simp add: startswith_def lit_def)

end
