(* ===== verification/Jobs.thy ===== *)
theory Jobs
  imports Bootstrap Etl_Daily Settings
begin

text \<open>
  The jobs the platform ships with (\<^verbatim>\<open>jobs/demo_jobs.py\<close>, \<^verbatim>\<open>etl_jobs.py\<close>, \<^verbatim>\<open>example_new_job.py\<close>, \<^verbatim>\<open>fault_jobs.py\<close>, \<^verbatim>\<open>faults.py\<close>), their discovery
  (\<^verbatim>\<open>jobs/discovery.py\<close>, \<^verbatim>\<open>bootstrap.py\<close>) and the call of a handler (\<^verbatim>\<open>jobs/context.py\<close>). Importing a module runs its decorators in order; a module is
  run once per process. The body of a handler takes what it reads (environment, clock, cancel token, file) as inputs and returns a text or
  an exception. How Python prints a number, and the parsing of numbers, are parameters.
\<close>

section \<open>Declarations\<close>

record job_declaration =
  jd_name :: pystr
  jd_description :: pystr
  jd_timeout_seconds :: pyfloat
  jd_max_attempts :: int
  jd_backoff :: BackoffStrategy
  jd_base_delay_seconds :: pyfloat
  jd_max_delay_seconds :: pyfloat
  jd_func :: Handler

text \<open>The defaults of the decorator's parameters.\<close>

definition declare_job :: "pystr \<Rightarrow> pystr \<Rightarrow> Handler \<Rightarrow> job_declaration" where
  "declare_job name description func = \<lparr>jd_name = name, jd_description = description, jd_timeout_seconds = 30, jd_max_attempts = 3,
     jd_backoff = FIXED, jd_base_delay_seconds = 1, jd_max_delay_seconds = 60, jd_func = func\<rparr>"

definition register_declaration :: "job_declaration \<Rightarrow> TaskRegistry \<Rightarrow> exn + TaskRegistry" where
  "register_declaration d reg = job_decorator (jd_name d) (jd_description d) (jd_timeout_seconds d) (jd_max_attempts d) (jd_backoff d)
     (jd_base_delay_seconds d) (jd_max_delay_seconds d) (jd_func d) reg"

definition demo_success_job :: job_declaration where
  "demo_success_job = declare_job (lit ''demo.success'') ([0x6210, 0x529F, 0x6F14, 0x793A, 0x4EFB, 0x52A1]) 0"

definition demo_failure_job :: job_declaration where
  "demo_failure_job = declare_job (lit ''demo.failure'') ([0x5931, 0x8D25, 0x6F14, 0x793A, 0x4EFB, 0x52A1]) 1"

definition demo_slow_job :: job_declaration where
  "demo_slow_job = (declare_job (lit ''demo.slow'') ([0x8017, 0x65F6, 0x6F14, 0x793A, 0x4EFB, 0x52A1]) 2)
     \<lparr>jd_timeout_seconds := 5\<rparr>"

definition demo_cancellable_job :: job_declaration where
  "demo_cancellable_job = (declare_job (lit ''demo.cancellable'') ([0x53EF, 0x53D6, 0x6D88, 0x7684, 0x957F, 0x4EFB, 0x52A1, 0xFF08, 0x534F, 0x4F5C, 0x5F0F, 0x53D6, 0x6D88, 0x6F14, 0x793A, 0xFF09]) 3)
     \<lparr>jd_timeout_seconds := 120, jd_max_attempts := 1\<rparr>"

definition daily_orders_etl_job :: job_declaration where
  "daily_orders_etl_job = (declare_job (lit ''etl.daily_orders'') ([0x6BCF, 0x65E5, 0x8BA2, 0x5355] @ lit '' ETL'' @ [0xFF1A, 0x6821, 0x9A8C, 0x3001, 0x8F6C, 0x6362, 0x3001, 0x805A, 0x5408, 0xFF0C, 0x8F93, 0x51FA, 0x65E5, 0x62A5] @ lit ''/'' @ [0x8D28, 0x91CF, 0x62A5, 0x544A] @ lit ''/quarantine'') 4)
     \<lparr>jd_timeout_seconds := 300, jd_max_attempts := 3\<rparr>"

definition example_new_job_job :: job_declaration where
  "example_new_job_job = declare_job (lit ''demo.example_new'') ([0x6F14, 0x793A, 0x65B0, 0x589E, 0x4EFB, 0x52A1, 0x65E0, 0x9700, 0x4FEE, 0x6539, 0x6838, 0x5FC3, 0x4EE3, 0x7801]) 5"

definition fault_flaky_job :: job_declaration where
  "fault_flaky_job = (declare_job (lit ''fault.flaky'') ([0x6545, 0x969C, 0x6CE8, 0x5165, 0xFF1A, 0x6BCF, 0x6B21, 0x8FD0, 0x884C, 0x524D] @ lit '' N '' @ [0x6B21, 0x5C1D, 0x8BD5, 0x5931, 0x8D25, 0xFF0C, 0x4E4B, 0x540E, 0x6210, 0x529F, 0xFF08, 0x9A8C, 0x8BC1, 0x91CD, 0x8BD5, 0x94FE, 0x8DEF, 0xFF09]) 6)
     \<lparr>jd_timeout_seconds := 30, jd_max_attempts := 3, jd_base_delay_seconds := 1 / 2\<rparr>"

definition fault_slow_job :: job_declaration where
  "fault_slow_job = (declare_job (lit ''fault.slow'') ([0x6545, 0x969C, 0x6CE8, 0x5165, 0xFF1A, 0x914D, 0x5408, 0x53D6, 0x6D88, 0x7684, 0x5EF6, 0x8FDF, 0x4EFB, 0x52A1, 0xFF08, 0x9A8C, 0x8BC1, 0x5EF6, 0x8FDF, 0x4E0E, 0x53D6, 0x6D88, 0xFF09]) 7)
     \<lparr>jd_timeout_seconds := 30, jd_max_attempts := 1\<rparr>"

definition fault_hang_job :: job_declaration where
  "fault_hang_job = (declare_job (lit ''fault.hang'') ([0x6545, 0x969C, 0x6CE8, 0x5165, 0xFF1A, 0x4E0D, 0x54CD, 0x5E94, 0x53D6, 0x6D88, 0x7684, 0x6302, 0x8D77, 0x4EFB, 0x52A1, 0xFF08, 0x9A8C, 0x8BC1, 0x8D85, 0x65F6, 0x4E0E, 0x5BBD, 0x9650, 0x671F, 0xFF1B, 0x7EBF, 0x7A0B, 0x4F1A, 0x6B8B, 0x7559, 0x7EA6] @ lit '' 10 '' @ [0x79D2, 0xFF09]) 8)
     \<lparr>jd_timeout_seconds := 2, jd_max_attempts := 2, jd_base_delay_seconds := 1 / 2\<rparr>"

definition fault_ledger_job :: job_declaration where
  "fault_ledger_job = (declare_job (lit ''fault.ledger'') ([0x6545, 0x969C, 0x6CE8, 0x5165, 0xFF1A, 0x975E, 0x5E42, 0x7B49, 0x526F, 0x4F5C, 0x7528, 0xFF0C, 0x6BCF, 0x6B21, 0x6267, 0x884C, 0x8FFD, 0x52A0, 0x4E00, 0x884C, 0x53F0, 0x8D26, 0xFF08, 0x9A8C, 0x8BC1, 0x91CD, 0x590D, 0x6267, 0x884C, 0xFF09]) 9)
     \<lparr>jd_timeout_seconds := 30, jd_max_attempts := 1\<rparr>"

section \<open>Discovery\<close>

type_synonym job_module = "pystr \<times> job_declaration list"

record import_state =
  im_modules :: "pystr set"
  im_registry :: TaskRegistry

text \<open>A decorator that raises ends the import; what was registered before it stays registered.\<close>

fun run_module :: "job_declaration list \<Rightarrow> TaskRegistry \<Rightarrow> exn option \<times> TaskRegistry" where
  "run_module [] reg = (None, reg)"
| "run_module (d # ds) reg = (case register_declaration d reg of Inl e \<Rightarrow> (Some e, reg) | Inr reg1 \<Rightarrow> run_module ds reg1)"

definition import_module :: "job_module \<Rightarrow> import_state \<Rightarrow> (exn + unit) \<times> import_state" where
  "import_module m st =
     (if fst m \<in> im_modules st then (Inr (), st)
      else case run_module (snd m) (im_registry st) of
             (Some e, reg) \<Rightarrow> (Inl e, st\<lparr>im_registry := reg\<rparr>)
           | (None, reg) \<Rightarrow> (Inr (), \<lparr>im_modules = insert (fst m) (im_modules st), im_registry = reg\<rparr>))"

fun discover_jobs :: "pystr \<Rightarrow> job_module list \<Rightarrow> import_state \<Rightarrow> (exn + pystr list) \<times> import_state" where
  "discover_jobs pre [] st = (Inr [], st)"
| "discover_jobs pre (m # ms) st =
     (if startswith (removeprefix (fst m) pre) (lit ''_'') then discover_jobs pre ms st
      else case import_module m st of
             (Inl e, st1) \<Rightarrow> (Inl e, st1)
           | (Inr _, st1) \<Rightarrow>
               (case discover_jobs pre ms st1 of
                  (Inl e, st2) \<Rightarrow> (Inl e, st2)
                | (Inr names, st2) \<Rightarrow> (Inr (fst m # names), st2)))"

definition jobs_prefix :: pystr where
  "jobs_prefix = lit ''task_platform.jobs.''"

text \<open>The modules of the package \<^verbatim>\<open>task_platform.jobs\<close>, in the order in which they are listed.\<close>

definition jobs_package :: "job_module list" where
  "jobs_package = map (\<lambda>(n, ds). (jobs_prefix @ n, ds))
     [(lit ''context'', []), (lit ''decorators'', []),
      (lit ''demo_jobs'', [demo_success_job, demo_failure_job, demo_slow_job, demo_cancellable_job]),
      (lit ''discovery'', []), (lit ''etl_jobs'', [daily_orders_etl_job]), (lit ''example_new_job'', [example_new_job_job]),
      (lit ''fault_jobs'', [fault_flaky_job, fault_slow_job, fault_hang_job, fault_ledger_job])]"

definition build_registry :: "import_state \<Rightarrow> (exn + TaskRegistry) \<times> import_state" where
  "build_registry st =
     (case discover_jobs jobs_prefix jobs_package st of
        (Inl e, st1) \<Rightarrow> (Inl e, st1)
      | (Inr _, st1) \<Rightarrow> (Inr (im_registry st1), st1))"

section \<open>Calling a handler\<close>

text \<open>\<open>sig\<close> is what \<^verbatim>\<open>inspect.signature\<close> gives for the function, which takes a context or nothing.\<close>

definition call_handler :: "exn + pystr list \<Rightarrow> (JobContext option \<Rightarrow> exn + pystr) \<Rightarrow> JobContext \<Rightarrow> exn + pystr" where
  "call_handler sig func ctx =
     (case accepts_context sig of Inl e \<Rightarrow> Inl e | Inr True \<Rightarrow> func (Some ctx) | Inr False \<Rightarrow> func None)"

text \<open>\<^verbatim>\<open>CancelToken.wait\<close>: \<open>during\<close> is what other threads do until the token fires or the time is over.\<close>

definition token_wait :: "(ActiveRuns \<Rightarrow> ActiveRuns) \<Rightarrow> token \<Rightarrow> ActiveRuns \<Rightarrow> bool \<times> ActiveRuns" where
  "token_wait during t a = (let a1 = if fired a t then a else during a in (fired a1 t, a1))"

section \<open>Demonstration jobs\<close>

definition demo_success :: "exn + pystr" where
  "demo_success = Inr (lit ''ok'')"

definition demo_failure :: "exn + pystr" where
  "demo_failure = Inl (OtherError (lit ''demo_failure '' @ [0x6F14, 0x793A, 0x4EFB, 0x52A1, 0xFF1A, 0x6545, 0x610F, 0x5931, 0x8D25]))"

definition demo_slow :: "(pyfloat \<Rightarrow> pystr) \<Rightarrow> pyfloat \<Rightarrow> exn + pystr" where
  "demo_slow fmt seconds =
     (if seconds < 0 then Inl (ValueError (lit ''sleep length must be non-negative'')) else Inr (lit ''slept '' @ fmt seconds @ lit ''s''))"

text \<open>Each turn of the loop checks the token and waits; \<open>turns\<close> are what the other threads do in the waits.\<close>

fun cancellable_loop :: "nat \<Rightarrow> JobContext \<Rightarrow> (nat \<Rightarrow> ActiveRuns \<Rightarrow> ActiveRuns) \<Rightarrow> ActiveRuns \<Rightarrow> (exn + unit) \<times> ActiveRuns" where
  "cancellable_loop 0 ctx during a = (Inr (), a)"
| "cancellable_loop (Suc n) ctx during a =
     (case check_cancelled ctx a of
        Inl e \<Rightarrow> (Inl e, a)
      | Inr _ \<Rightarrow> cancellable_loop n ctx during (snd (token_wait (during n) (cancel ctx) a)))"

definition demo_cancellable ::
  "(pyfloat \<Rightarrow> pystr) \<Rightarrow> pyfloat \<Rightarrow> JobContext \<Rightarrow> (nat \<Rightarrow> ActiveRuns \<Rightarrow> ActiveRuns) \<Rightarrow> ActiveRuns \<Rightarrow> (exn + pystr) \<times> ActiveRuns" where
  "demo_cancellable fmt seconds ctx during a =
     (case cancellable_loop (nat (int_trunc (seconds * 10))) ctx during a of
        (Inl e, a1) \<Rightarrow> (Inl e, a1)
      | (Inr _, a1) \<Rightarrow> (Inr (lit ''ran '' @ fmt seconds @ lit ''s''), a1))"

definition example_new_job :: "exn + pystr" where
  "example_new_job = Inr (lit ''new job discovered without touching core code'')"

definition daily_orders_etl ::
  "(bool \<Rightarrow> fval \<Rightarrow> pystr) \<Rightarrow> (rat \<Rightarrow> pystr) \<Rightarrow> (pystr \<Rightarrow> exn + int) \<Rightarrow> (pystr \<Rightarrow> exn + pyfloat) \<Rightarrow> environ
     \<Rightarrow> (int \<Rightarrow> user_draws) \<Rightarrow> (int \<Rightarrow> order_draws) \<Rightarrow> JobContext \<Rightarrow> exn + pystr" where
  "daily_orders_etl pr dec_str parse_int parse_float env user_draws order_draws ctx =
     (case config_from_env parse_int parse_float env of
        Inl e \<Rightarrow> Inl e
      | Inr config \<Rightarrow>
          (case run_daily_orders_etl pr dec_str user_draws order_draws config (dc_output_dir config @ lit ''/'' @ execution_id ctx) of
             Inl e \<Rightarrow> Inl e
           | Inr (summary, files) \<Rightarrow>
               Inr (lit ''total='' @ show_int (es_total_rows summary) @ lit '' quarantined='' @ show_int (es_quarantined_rows summary))))"

section \<open>Fault injection\<close>

text \<open>\<^verbatim>\<open>FlakyState\<close>: the number of calls seen, per run.\<close>

type_synonym FlakyState = "pystr \<Rightarrow> int"

definition FlakyState_init :: FlakyState where
  "FlakyState_init = (\<lambda>run_id. 0)"

definition should_fail :: "pystr \<Rightarrow> int \<Rightarrow> FlakyState \<Rightarrow> bool \<times> FlakyState" where
  "should_fail run_id fail_times st = (st run_id < fail_times, st(run_id := st run_id + 1))"

definition fault_flaky :: "(pystr \<Rightarrow> exn + int) \<Rightarrow> environ \<Rightarrow> JobContext \<Rightarrow> FlakyState \<Rightarrow> (exn + pystr) \<times> FlakyState" where
  "fault_flaky parse_int env ctx st =
     (case parse_int (environ_get env (lit ''TASK_PLATFORM_FAULT_FAIL_TIMES'') (lit ''1'')) of
        Inl e \<Rightarrow> (Inl e, st)
      | Inr fail_times \<Rightarrow>
          (case should_fail (execution_id ctx) fail_times st of
             (True, st1) \<Rightarrow> (Inl (OtherError (lit ''injected failure'')), st1)
           | (False, st1) \<Rightarrow> (Inr (lit ''ok after injected failures''), st1)))"

definition fault_slow ::
  "(pyfloat \<Rightarrow> pystr) \<Rightarrow> (pystr \<Rightarrow> exn + pyfloat) \<Rightarrow> environ \<Rightarrow> JobContext \<Rightarrow> (ActiveRuns \<Rightarrow> ActiveRuns) \<Rightarrow> ActiveRuns \<Rightarrow> (exn + pystr) \<times> ActiveRuns" where
  "fault_slow fmt parse_float env ctx during a =
     (case parse_float (environ_get env (lit ''TASK_PLATFORM_FAULT_DELAY_SECONDS'') (lit ''3'')) of
        Inl e \<Rightarrow> (Inl e, a)
      | Inr delay \<Rightarrow>
          (let a1 = snd (token_wait during (cancel ctx) a) in
           case check_cancelled ctx a1 of
             Inl e \<Rightarrow> (Inl e, a1)
           | Inr _ \<Rightarrow> (Inr (lit ''delayed '' @ fmt delay @ lit ''s''), a1)))"

definition fault_hang :: "exn + pystr" where
  "fault_hang = Inr (lit ''finally woke up'')"

text \<open>The ledger is a text file, opened for appending.\<close>

definition fault_ledger :: "environ \<Rightarrow> JobContext \<Rightarrow> (pystr \<Rightarrow> pystr) \<Rightarrow> (exn + pystr) \<times> (pystr \<Rightarrow> pystr)" where
  "fault_ledger env ctx files =
     (let path = environ_get env (lit ''TASK_PLATFORM_FAULT_LEDGER'') (lit ''data/output/fault_ledger.txt'') in
      (Inr (lit ''appended''), files(path := files path @ execution_id ctx @ [10])))"

section \<open>Discovery is idempotent\<close>

lemma import_module_known: "import_module m st = (Inr u, st1) \<Longrightarrow> fst m \<in> im_modules st1 \<and> im_modules st \<subseteq> im_modules st1"
  by (auto simp: import_module_def split: if_splits prod.splits option.splits)

lemma discover_known:
  "discover_jobs pre ms st = (Inr names, st1) \<Longrightarrow> im_modules st \<subseteq> im_modules st1 \<and> set names \<subseteq> im_modules st1
     \<and> names = map fst (filter (\<lambda>m. \<not> startswith (removeprefix (fst m) pre) (lit ''_'')) ms)"
proof (induction ms arbitrary: st names)
  case (Cons m ms)
  then show ?case
    by (auto split: if_splits prod.splits sum.splits dest!: import_module_known) blast+
qed simp

lemma discover_nothing_new:
  "fst ` set (filter (\<lambda>m. \<not> startswith (removeprefix (fst m) pre) (lit ''_'')) ms) \<subseteq> im_modules st \<Longrightarrow>
   discover_jobs pre ms st = (Inr (map fst (filter (\<lambda>m. \<not> startswith (removeprefix (fst m) pre) (lit ''_'')) ms)), st)"
  by (induction ms) (auto simp: import_module_def)

lemma discover_again:
  assumes "discover_jobs pre ms st = (Inr names, st1)"
  shows "discover_jobs pre ms st1 = (Inr names, st1)"
  using discover_known [OF assms] discover_nothing_new [of pre ms st1] by (metis (no_types, lifting) list.set_map)

section \<open>The registry of the platform\<close>

definition fresh_process :: import_state where
  "fresh_process = \<lparr>im_modules = {}, im_registry = []\<rparr>"

lemmas job_defs = demo_success_job_def demo_failure_job_def demo_slow_job_def demo_cancellable_job_def daily_orders_etl_job_def
  example_new_job_job_def fault_flaky_job_def fault_slow_job_def fault_hang_job_def fault_ledger_job_def declare_job_def

definition handler_of :: "job_declaration \<Rightarrow> pystr \<times> RegisteredHandler" where
  "handler_of d = (jd_name d, \<lparr>rh_name = jd_name d, rh_func = jd_func d, rh_description = jd_description d,
     rh_timeout_seconds = Some (jd_timeout_seconds d),
     rh_retry_policy = Some \<lparr>max_attempts = jd_max_attempts d, backoff = jd_backoff d, base_delay_seconds = jd_base_delay_seconds d,
       max_delay_seconds = jd_max_delay_seconds d\<rparr>\<rparr>)"

definition sound_declaration :: "job_declaration \<Rightarrow> bool" where
  "sound_declaration d \<longleftrightarrow> \<not> blank (jd_name d) \<and> 0 < jd_timeout_seconds d \<and> valid_policy \<lparr>max_attempts = jd_max_attempts d, backoff = jd_backoff d,
     base_delay_seconds = jd_base_delay_seconds d, max_delay_seconds = jd_max_delay_seconds d\<rparr>"

text \<open>Declarations with sound values and new names are all registered, in order.\<close>

lemma run_module_ok:
  "\<lbrakk>list_all sound_declaration ds; distinct (map jd_name ds); jd_name ` set ds \<inter> fst ` set reg = {}\<rbrakk> \<Longrightarrow>
   run_module ds reg = (None, reg @ map handler_of ds)"
proof (induction ds arbitrary: reg)
  case (Cons d ds)
  then have "map_of reg (jd_name d) = None" by (auto simp: map_of_eq_None_iff)
  then have "AList.update (jd_name d) v reg = reg @ [(jd_name d, v)]" for v by (induction reg) (auto split: if_splits)
  moreover note \<open>map_of reg (jd_name d) = None\<close>
  ultimately have "register_declaration d reg = Inr (reg @ [handler_of d])"
    using Cons.prems(1) by (auto simp: register_declaration_def job_decorator_def registry_register_def handler_of_def sound_declaration_def)
  then show ?case using Cons.IH [of "reg @ [handler_of d]"] Cons.prems by (auto simp: handler_of_def)
qed simp

definition platform_jobs :: "job_declaration list" where
  "platform_jobs = [demo_success_job, demo_failure_job, demo_slow_job, demo_cancellable_job, daily_orders_etl_job, example_new_job_job,
     fault_flaky_job, fault_slow_job, fault_hang_job, fault_ledger_job]"

lemma platform_jobs_names:
  "map jd_name platform_jobs = map lit [''demo.success'', ''demo.failure'', ''demo.slow'', ''demo.cancellable'', ''etl.daily_orders'',
     ''demo.example_new'', ''fault.flaky'', ''fault.slow'', ''fault.hang'', ''fault.ledger'']"
  by (simp add: platform_jobs_def job_defs)

lemma platform_jobs_sound: "list_all sound_declaration platform_jobs"
  by (simp add: platform_jobs_def job_defs sound_declaration_def valid_policy_iff) (simp add: blank_def lit_def is_space_def)

lemma discover_fresh:
  assumes "list_all (\<lambda>m. \<not> startswith (removeprefix (fst m) pre) (lit ''_'')) ms" and "distinct (map fst ms)" and "fst ` set ms \<inter> im_modules st = {}"
    and "list_all sound_declaration (concat (map snd ms))" and "distinct (map jd_name (concat (map snd ms)))"
    and "jd_name ` set (concat (map snd ms)) \<inter> fst ` set (im_registry st) = {}"
  shows "discover_jobs pre ms st = (Inr (map fst ms),
     \<lparr>im_modules = im_modules st \<union> fst ` set ms, im_registry = im_registry st @ map handler_of (concat (map snd ms))\<rparr>)"
  using assms
proof (induction ms arbitrary: st)
  case (Cons m ms)
  let ?st = "\<lparr>im_modules = insert (fst m) (im_modules st), im_registry = im_registry st @ map handler_of (snd m)\<rparr>"
  have "run_module (snd m) (im_registry st) = (None, im_registry st @ map handler_of (snd m))"
    using Cons.prems(4-6) by (intro run_module_ok) auto
  then have "import_module m st = (Inr (), ?st)" using Cons.prems(3) by (auto simp: import_module_def)
  moreover have "discover_jobs pre ms ?st = (Inr (map fst ms),
     \<lparr>im_modules = im_modules ?st \<union> fst ` set ms, im_registry = im_registry ?st @ map handler_of (concat (map snd ms))\<rparr>)"
  proof (intro Cons.IH)
    have "fst ` set (im_registry ?st) = fst ` set (im_registry st) \<union> jd_name ` set (snd m)" by (simp add: image_Un image_image handler_of_def)
    with Cons.prems(5,6) show "jd_name ` set (concat (map snd ms)) \<inter> fst ` set (im_registry ?st) = {}"
      by (simp add: image_Un Int_Un_distrib Int_Un_distrib2 Int_commute del: set_concat)
  qed (use Cons.prems in auto)
  ultimately show ?case using Cons.prems(1) by (simp add: Un_insert_left)
qed simp

lemma build_registry_fresh:
  obtains st1 where "build_registry fresh_process = (Inr (map handler_of platform_jobs), st1)"
    and "build_registry st1 = (Inr (map handler_of platform_jobs), st1)"
proof -
  have jobs: "concat (map snd jobs_package) = platform_jobs" by (simp add: jobs_package_def platform_jobs_def)
  have names: "distinct (map jd_name platform_jobs)" unfolding platform_jobs_names by simp
  have "list_all (\<lambda>m. \<not> startswith (removeprefix (fst m) jobs_prefix) (lit ''_'')) jobs_package"
    by (simp add: jobs_package_def removeprefix_def) (simp add: startswith_def lit_def)
  moreover have "distinct (map fst jobs_package)" by (simp add: jobs_package_def)
  ultimately obtain st1 where d: "discover_jobs jobs_prefix jobs_package fresh_process = (Inr (map fst jobs_package), st1)"
    and reg: "im_registry st1 = map handler_of platform_jobs"
    using discover_fresh [of jobs_prefix jobs_package fresh_process] names platform_jobs_sound by (simp add: jobs fresh_process_def)
  show thesis using d discover_again [OF d] reg by (intro that [of st1]) (simp_all add: build_registry_def)
qed

lemma platform_registry:
  "sound_registry (map handler_of platform_jobs)" "positive_timeouts (map handler_of platform_jobs)"
  "\<forall>n \<in> fst ` set (map handler_of platform_jobs). \<not> blank n"
  using platform_jobs_sound
  by (auto simp: sound_registry_def positive_timeouts_def handler_of_def sound_declaration_def list_all_iff)

text \<open>The names of the jobs that the code defines for a registry.\<close>

lemma build_explicit_keys:
  "build_explicit ids now reg defs jobs = Inr js \<Longrightarrow>
   fst ` set js = fst ` set jobs \<union> auto_job_name ` {n \<in> fst ` set defs. is_registered n reg}"
proof (induction ids now reg defs jobs rule: build_explicit.induct)
  case (2 ids now reg n ty defs jobs)
  then show ?case by (auto simp: dom_update split: if_splits sum.splits)
qed simp

lemma build_auto_keys:
  "build_auto ids now reg ns jobs = Inr js \<Longrightarrow> sound_registry reg \<Longrightarrow>
   fst ` set js = fst ` set jobs \<union> auto_job_name ` (set ns - fst ` set EXPLICIT_JOB_DEFINITIONS)"
proof (induction ids now reg ns jobs rule: build_auto.induct)
  case (2 ids now reg n ns jobs)
  show ?case
  proof (cases "n \<in> fst ` set EXPLICIT_JOB_DEFINITIONS")
    case True
    with 2 show ?thesis by auto
  next
    case False
    with 2(3) obtain h j where h: "map_of reg n = Some h" and j: "build_job_from_handler h (ids n) now = Inr j"
      and rest: "build_auto ids now reg ns (AList.update (j_name j) j jobs) = Inr js"
      by (auto simp: registry_get_def split: sum.splits option.splits)
    have "rh_name h = n" using 2(4) h by (auto simp: sound_registry_def dest: map_of_SomeD)
    with j have "j_name j = auto_job_name n"
      by (auto simp: build_job_from_handler_def Let_def new_job_sel split: sum.splits option.splits)
    with 2(2) [OF False _ j rest 2(4)] h False show ?thesis by (auto simp: registry_get_def dom_update)
  qed
qed simp

lemma build_jobs_key_set:
  assumes "build_jobs ids now reg = Inr js" and "sound_registry reg" and "fst ` set EXPLICIT_JOB_DEFINITIONS \<subseteq> fst ` set reg"
  shows "fst ` set js = auto_job_name ` fst ` set reg"
proof -
  from assms(1) obtain jobs where "build_explicit ids now reg EXPLICIT_JOB_DEFINITIONS [] = Inr jobs"
    and auto_: "build_auto ids now reg (list_names reg) jobs = Inr js" by (auto simp: build_jobs_def split: sum.splits)
  let ?E = "fst ` set EXPLICIT_JOB_DEFINITIONS" and ?R = "fst ` set reg"
  have "fst ` set js = auto_job_name ` ({n \<in> ?E. n \<in> ?R} \<union> (?R - ?E))"
    using build_explicit_keys [OF \<open>build_explicit ids now reg EXPLICIT_JOB_DEFINITIONS [] = Inr jobs\<close>] build_auto_keys [OF auto_ assms(2)]
    by (simp add: list_names_def is_registered_def map_of_eq_None_iff image_Un)
  moreover have "{n \<in> ?E. n \<in> ?R} \<union> (?R - ?E) = ?R" using assms(3) by blast
  ultimately show ?thesis by simp
qed

section \<open>Injected failures\<close>

fun flaky_calls :: "int \<Rightarrow> pystr list \<Rightarrow> FlakyState \<Rightarrow> bool list" where
  "flaky_calls n [] st = []"
| "flaky_calls n (r # rs) st = (let (b, st1) = should_fail r n st in b # flaky_calls n rs st1)"

text \<open>However the calls of several runs interleave, exactly the first \<open>n\<close> calls of each run fail.\<close>

lemma flaky_calls_nth:
  "i < length rs \<Longrightarrow> flaky_calls n rs st ! i \<longleftrightarrow> st (rs ! i) + int (count_list (take i rs) (rs ! i)) < n"
proof (induction rs arbitrary: i st)
  case (Cons r rs)
  then show ?case by (cases i) (auto simp: should_fail_def)
qed simp

lemma flaky_fails_first: "i < length rs \<Longrightarrow> flaky_calls n rs FlakyState_init ! i \<longleftrightarrow> int (count_list (take i rs) (rs ! i)) < n"
  by (simp add: flaky_calls_nth FlakyState_init_def)

text \<open>A cancelled token ends the cooperative jobs at their next check.\<close>

lemma cancellable_stops: "fired a (cancel ctx) \<Longrightarrow> cancellable_loop (Suc n) ctx during a = (Inl (JobCanceledError (lit ''job canceled'')), a)"
  by (simp add: check_cancelled_def token_check_def)

lemma fault_slow_cancelled:
  "parse_float (environ_get env (lit ''TASK_PLATFORM_FAULT_DELAY_SECONDS'') (lit ''3'')) = Inr delay \<Longrightarrow> fired (during a) (cancel ctx) \<Longrightarrow>
   fst (fault_slow fmt parse_float env ctx during a) = Inl (JobCanceledError (lit ''job canceled''))"
  by (simp add: fault_slow_def token_wait_def check_cancelled_def token_check_def Let_def)

section \<open>Reconciliation with the jobs of the platform\<close>

lemma platform_sync:
  assumes "wf_db d" and "inj ids" and "range ids \<inter> jr_id ` set (t_jobs d) = {}"
  shows "\<exists>synced d'. sync_jobs_to_db ids now (map handler_of platform_jobs) d = Inr (synced, d') \<and> wf_db d'
     \<and> fst ` set synced = lit ` {''demo-success'', ''demo-failure'', ''demo-slow'', ''demo-cancellable'', ''etl-daily_orders'', ''demo-example_new'',
          ''fault-flaky'', ''fault-slow'', ''fault-hang'', ''fault-ledger''}
     \<and> jr_name ` set (t_jobs d') = jr_name ` set (t_jobs d) \<union> fst ` set synced"
proof -
  let ?reg = "map handler_of platform_jobs"
  from sync_succeeds [OF assms(1) platform_registry assms(2,3)] obtain desired synced d' where des: "build_jobs ids now ?reg = Inr desired"
    and sync: "sync_jobs_to_db ids now ?reg d = Inr (synced, d')" "map fst synced = map fst desired" "wf_db d'" by blast
  have keys: "map fst ?reg = map jd_name platform_jobs" by (simp add: handler_of_def)
  then have names: "fst ` set ?reg = set (map jd_name platform_jobs)" by (metis list.set_map)
  have "fst ` set desired = auto_job_name ` set (map jd_name platform_jobs)"
    using build_jobs_key_set [OF des platform_registry(1)] unfolding names platform_jobs_names
    by (auto simp: EXPLICIT_JOB_DEFINITIONS_def)
  moreover have same: "fst ` set synced = fst ` set desired" using sync(2) by (metis list.set_map)
  ultimately have "fst ` set synced = lit ` {''demo-success'', ''demo-failure'', ''demo-slow'', ''demo-cancellable'', ''etl-daily_orders'', ''demo-example_new'',
          ''fault-flaky'', ''fault-slow'', ''fault-hang'', ''fault-ledger''}"
    unfolding platform_jobs_names by (simp add: auto_job_name_def) (simp add: lit_def)
  moreover have "jr_name ` set (t_jobs d') = jr_name ` set (t_jobs d) \<union> fst ` set synced"
    using sync_rows [OF assms(1) sync(1)] des same by auto
  ultimately show ?thesis using sync by blast
qed

text \<open>The platform starts with its own jobs. In a fresh process, discovery imports the modules of the package \<^verbatim>\<open>jobs\<close> without an error and registers the ten
  declared handlers; discovering again changes nothing. On any consistent database, with new identifiers, reconciliation with this registry succeeds,
  returns a job for each of the ten names, and leaves the database consistent.\<close>

theorem platform_jobs_start:
  assumes "wf_db d" and "inj ids" and "range ids \<inter> jr_id ` set (t_jobs d) = {}"
  shows "\<exists>reg st1 synced d'. build_registry fresh_process = (Inr reg, st1) \<and> build_registry st1 = (Inr reg, st1)
     \<and> sync_jobs_to_db ids now reg d = Inr (synced, d') \<and> wf_db d'
     \<and> fst ` set synced = lit ` {''demo-success'', ''demo-failure'', ''demo-slow'', ''demo-cancellable'', ''etl-daily_orders'', ''demo-example_new'',
          ''fault-flaky'', ''fault-slow'', ''fault-hang'', ''fault-ledger''}"
  using build_registry_fresh platform_sync [OF assms] by metis

theorem platform_jobs_start_witness:
  "\<exists>reg st1 synced d'. build_registry fresh_process = (Inr reg, st1) \<and> build_registry st1 = (Inr reg, st1)
     \<and> sync_jobs_to_db sample_ids (utc 5) reg demo_db = Inr (synced, d') \<and> wf_db d'
     \<and> fst ` set synced = lit ` {''demo-success'', ''demo-failure'', ''demo-slow'', ''demo-cancellable'', ''etl-daily_orders'', ''demo-example_new'',
          ''fault-flaky'', ''fault-slow'', ''fault-hang'', ''fault-ledger''}"
proof (rule platform_jobs_start [OF wf_demo_db])
  show "inj sample_ids" by (simp add: sample_ids_def inj_def)
  show "range sample_ids \<inter> jr_id ` set (t_jobs demo_db) = {}" by (auto simp: sample_ids_def lit_def)
qed

end
