(* ===== verification/Json_Print.thy ===== *)
theory Json_Print
  imports Json
begin

text \<open>
  \<^verbatim>\<open>json.dumps\<close> with \<^verbatim>\<open>ensure_ascii=False\<close>, in one line or with \<^verbatim>\<open>indent=2\<close>, on any JSON value, and the proof that \<^verbatim>\<open>json.loads\<close> reads it back. A floating-point
  number is its text, which is what \<^verbatim>\<open>float.__repr__\<close> gives.
\<close>

section \<open>Printing\<close>

fun join :: "pystr \<Rightarrow> pystr list \<Rightarrow> pystr" where
  "join sep [] = []"
| "join sep [x] = x"
| "join sep (x # y # xs) = x @ sep @ join sep (y # xs)"

text \<open>White space behind an opening bracket, behind a comma and before a closing bracket; \<open>None\<close> prints one line, \<open>Some k\<close> at depth \<open>k\<close> of an indented text.\<close>

definition newline :: "nat \<Rightarrow> pystr" where
  "newline k = 10 # replicate (2 * k) 32"

definition ws_open :: "nat option \<Rightarrow> pystr" where
  "ws_open ind = (case ind of None \<Rightarrow> [] | Some k \<Rightarrow> newline (Suc k))"

definition ws_item :: "nat option \<Rightarrow> pystr" where
  "ws_item ind = (case ind of None \<Rightarrow> [32] | Some k \<Rightarrow> newline (Suc k))"

definition ws_close :: "nat option \<Rightarrow> pystr" where
  "ws_close ind = (case ind of None \<Rightarrow> [] | Some k \<Rightarrow> newline k)"

fun print_at :: "nat option \<Rightarrow> json \<Rightarrow> pystr" where
  "print_at ind JNull = lit ''null''"
| "print_at ind (JBool b) = (if b then lit ''true'' else lit ''false'')"
| "print_at ind (JInt i) = show_int i"
| "print_at ind (JFloat t) = t"
| "print_at ind (JStr s) = encode_string s"
| "print_at ind (JArray vs) =
     (if vs = [] then [91, 93]
      else [91] @ ws_open ind @ join (44 # ws_item ind) (map (print_at (map_option Suc ind)) vs) @ ws_close ind @ [93])"
| "print_at ind (JObject ms) =
     (if ms = [] then [123, 125]
      else [123] @ ws_open ind
        @ join (44 # ws_item ind) (map (\<lambda>m. encode_string (fst m) @ [58, 32] @ print_at (map_option Suc ind) (snd m)) ms) @ ws_close ind @ [125])"

abbreviation print_json :: "json \<Rightarrow> pystr" where
  "print_json \<equiv> print_at None"

text \<open>The text of a float: one of the three special names, or a number with a fraction or an exponent.\<close>

definition float_text :: "pystr \<Rightarrow> bool" where
  "float_text t \<longleftrightarrow> t \<in> {lit ''NaN'', lit ''Infinity'', lit ''-Infinity''} \<or> match_number t = Inr (JFloat t, [])"

text \<open>The values \<^verbatim>\<open>dumps\<close> prints: an integer of more than 4300 digits raises.\<close>

fun wf_json :: "json \<Rightarrow> bool" where
  "wf_json (JInt i) = (length (show_nat (nat \<bar>i\<bar>)) \<le> INT_MAX_STR_DIGITS)"
| "wf_json (JFloat t) = float_text t"
| "wf_json (JArray vs) = list_all wf_json vs"
| "wf_json (JObject ms) = list_all (\<lambda>m. wf_json (snd m)) ms"
| "wf_json _ = True"

section \<open>Numbers\<close>

lemma digits_append:
  assumes "ends_number r"
  shows "takeWhile is_digit (u @ r) = takeWhile is_digit u" and "dropWhile is_digit (u @ r) = dropWhile is_digit u @ r"
proof -
  have r: "takeWhile is_digit r = []" "dropWhile is_digit r = r"
    using assms by (auto simp: ends_number_def is_digit_def is_ws_def split: list.splits)
  show "takeWhile is_digit (u @ r) = takeWhile is_digit u" by (induction u) (simp_all add: r)
  show "dropWhile is_digit (u @ r) = dropWhile is_digit u @ r" by (induction u) (simp_all add: r)
qed

lemma ends_number_not: "ends_number (c # t) \<Longrightarrow> c = 44 \<or> c = 125 \<or> c = 93 \<or> c = 32 \<or> c = 9 \<or> c = 10 \<or> c = 13"
  by (auto simp: ends_number_def is_ws_def)

lemma int_part_append: "int_part u = Some (ds, u1) \<Longrightarrow> ends_number r \<Longrightarrow> int_part (u @ r) = Some (ds, u1 @ r)"
  by (auto simp: int_part_def digits_append split: list.splits if_splits)

lemma frac_part_append: "frac_part u = (fs, u1) \<Longrightarrow> ends_number r \<Longrightarrow> frac_part (u @ r) = (fs, u1 @ r)"
  by (cases u; cases "tl u"; cases r) (auto simp: frac_part_def digits_append is_digit_def split: if_splits list.splits dest: ends_number_not)

lemma exp_part_append:
  assumes "exp_part u = (es, u1)" and "ends_number r"
  shows "exp_part (u @ r) = (es, u1 @ r)"
proof (cases u)
  case Nil
  with assms show ?thesis by (cases r) (auto simp: exp_part_def dest!: ends_number_not)
next
  case (Cons c v)
  show ?thesis
  proof (cases v)
    case Nil
    with assms Cons show ?thesis by (cases r) (auto simp: exp_part_def is_digit_def split: if_splits dest!: ends_number_not)
  next
    case (Cons x w)
    with assms \<open>u = c # v\<close> show ?thesis by (auto simp: exp_part_def digits_append Let_def split: if_splits)
  qed
qed

lemma match_number_float:
  assumes "match_number t = Inr (JFloat t, [])" and "ends_number r"
  shows "match_number (t @ r) = Inr (JFloat t, r)"
proof -
  let ?sign = "\<lambda>s. (case s of c # r' \<Rightarrow> if c = 45 then (True, r') else (False, s) | [] \<Rightarrow> (False, s :: pystr))"
  obtain neg u where n: "?sign t = (neg, u)" by fastforce
  from assms(1) obtain ds r1 where i: "int_part u = Some (ds, r1)" by (auto simp: match_number_def n Let_def split: option.splits)
  then have "u \<noteq> []" by (auto simp: int_part_def)
  with n have n': "?sign (t @ r) = (neg, u @ r)" by (cases t) (auto split: if_splits)
  obtain fs r2 es r3 where fe: "frac_part r1 = (fs, r2)" "exp_part r2 = (es, r3)" by fastforce
  with assms(1) have parts: "\<not> (fs = [] \<and> es = [])" "r3 = []" and t: "(if neg then [45] else []) @ ds @ fs @ es = t"
    by (auto simp: match_number_def n i split: if_splits)
  have "match_number (t @ r) = Inr (JFloat ((if neg then [45] else []) @ ds @ fs @ es), r)"
    using int_part_append [OF i assms(2)] frac_part_append [OF fe(1) assms(2)] exp_part_append [OF fe(2) assms(2)] parts
    by (auto simp: match_number_def n')
  with t show ?thesis by simp
qed

lemma match_number_head: "match_number t = Inr (v, r) \<Longrightarrow> \<exists>c u. t = c # u \<and> (is_digit c \<or> c = 45 \<and> (\<exists>d w. u = d # w \<and> is_digit d))"
  by (auto simp: match_number_def int_part_def is_digit_def split: list.splits if_splits option.splits)

section \<open>Scalars\<close>

definition number_head :: "pystr \<Rightarrow> bool" where
  "number_head s \<longleftrightarrow> (\<exists>c u. s = c # u \<and> (is_digit c \<or> c = 45 \<and> (\<exists>d w. u = d # w \<and> is_digit d)))"

lemma scan_number: "number_head s \<Longrightarrow> scan_once (Suc n) s = match_number s"
  by (auto simp: number_head_def expect_def is_digit_def match_literal_def literals_def lit_def)

lemma number_head_append: "number_head s \<Longrightarrow> number_head (s @ r)"
  by (auto simp: number_head_def)

lemma show_int_head: "number_head (show_int i)"
proof -
  have d: "\<exists>d w. show_nat n = d # w \<and> is_digit d" for n using show_nat_digits [of n] by (cases "show_nat n") auto
  show ?thesis using d [of "nat (- i)"] d [of "nat i"] by (cases "i < 0") (auto simp: number_head_def show_int_def)
qed

lemma scan_scalar:
  assumes "wf_json v" and "ends_number r" and "\<And>vs. v \<noteq> JArray vs" and "\<And>ms. v \<noteq> JObject ms"
  shows "scan_once (Suc n) (print_at ind v @ r) = Inr (v, r)"
proof (cases v)
  case JNull
  then show ?thesis using scan_once_null by simp
next
  case (JBool b)
  then show ?thesis by (cases b) (simp_all add: expect_def match_literal_def literals_def lit_def)
next
  case (JInt i)
  with assms(1) have "encode_int i = Inr (show_int i)" by (simp add: encode_int_def)
  from match_show_int [OF this assms(2)] JInt show ?thesis
    using scan_number [OF number_head_append [OF show_int_head]] by simp
next
  case (JFloat t)
  show ?thesis
  proof (cases "match_number t = Inr (JFloat t, [])")
    case True
    then have "number_head t" using match_number_head by (simp add: number_head_def)
    with match_number_float [OF True assms(2)] JFloat show ?thesis using scan_number [OF number_head_append] by simp
  next
    case False
    with assms(1) JFloat have "t \<in> {lit ''NaN'', lit ''Infinity'', lit ''-Infinity''}" by (auto simp: float_text_def)
    then show ?thesis using JFloat by (auto simp: expect_def match_literal_def literals_def lit_def)
  qed
next
  case (JStr s)
  then show ?thesis using scan_once_string by simp
qed (use assms in auto)

text \<open>What a printed value starts with.\<close>

lemma print_head: "wf_json v \<Longrightarrow> \<exists>c t. print_at ind v = c # t \<and> \<not> is_ws c \<and> c \<noteq> 93 \<and> c \<noteq> 125 \<and> c < 128"
proof (cases v)
  case (JInt i)
  then show ?thesis using show_int_head [of i] by (auto simp: number_head_def is_digit_def is_ws_def)
next
  case (JFloat t)
  moreover assume "wf_json v"
  ultimately show ?thesis by (auto simp: float_text_def lit_def is_ws_def is_digit_def dest!: match_number_head)
qed (auto simp: lit_def is_ws_def encode_string_def)

section \<open>White space\<close>

lemma skip_ws_append: "list_all is_ws w \<Longrightarrow> skip_ws (w @ s) = skip_ws s"
  by (induction w) (auto simp: skip_ws_def)

lemma layout_ws [simp]: "list_all is_ws (newline k)" "list_all is_ws (ws_open ind)" "list_all is_ws (ws_item ind)" "list_all is_ws (ws_close ind)"
  by (auto simp: newline_def ws_open_def ws_item_def ws_close_def is_ws_def list_all_iff split: option.splits)

lemma ends_number_ws: "list_all is_ws w \<Longrightarrow> c = 44 \<or> c = 125 \<or> c = 93 \<Longrightarrow> ends_number (w @ c # r)"
  by (cases w) (auto simp: ends_number_def)

lemma skip_ws_id: "s = c # t \<Longrightarrow> \<not> is_ws c \<Longrightarrow> skip_ws s = s"
  by (simp add: skip_ws_def)

lemma expect_closing: "list_all is_ws w \<Longrightarrow> \<not> is_ws c \<Longrightarrow> expect c (skip_ws (w @ c # r)) = Some r"
  by (simp add: skip_ws_append) (simp add: skip_ws_def expect_def)

lemma expect_other: "\<not> is_ws c \<Longrightarrow> c \<noteq> d \<Longrightarrow> expect d (skip_ws (c # r)) = None"
  by (simp add: skip_ws_def expect_def)

lemma brackets [simp]: "\<not> is_ws 44" "\<not> is_ws 93" "\<not> is_ws 125" "\<not> is_ws 58"
  by (simp_all add: is_ws_def)

section \<open>Arrays and objects\<close>

lemma skip_printed: "wf_json v \<Longrightarrow> skip_ws (print_at ind v @ r) = print_at ind v @ r"
  using print_head [of v ind] by (auto simp: skip_ws_def)

lemma join_Cons: "xs \<noteq> [] \<Longrightarrow> join sep (x # xs) = x @ sep @ join sep xs"
  by (cases xs) auto

definition reads_back :: "json \<Rightarrow> bool" where
  "reads_back v \<longleftrightarrow> (\<forall>ind r n. ends_number r \<longrightarrow> 2 * length (print_at ind v @ r) < n \<longrightarrow> scan_once n (print_at ind v @ r) = Inr (v, r))"

lemma reads_backD: "reads_back v \<Longrightarrow> ends_number r \<Longrightarrow> 2 * length (print_at ind v @ r) < n \<Longrightarrow> scan_once n (print_at ind v @ r) = Inr (v, r)"
  unfolding reads_back_def by blast

lemma reads_back_scalar:
  assumes "wf_json v" and "\<And>vs. v \<noteq> JArray vs" and "\<And>ms. v \<noteq> JObject ms"
  shows "reads_back v"
  unfolding reads_back_def
proof (intro allI impI)
  fix ind r n
  assume "ends_number r" "2 * length (print_at ind v @ r) < n"
  then show "scan_once n (print_at ind v @ r) = Inr (v, r)" using scan_scalar [OF assms(1) _ assms(2,3)] by (cases n) auto
qed

lemma join_head: "list_all wf_json vs \<Longrightarrow> vs \<noteq> [] \<Longrightarrow> \<exists>c t. join sep (map (print_at ind) vs) = c # t \<and> \<not> is_ws c \<and> c \<noteq> 93"
  using print_head [of "hd vs" ind] by (cases vs; cases "tl vs") auto

lemma scan_elements_print:
  assumes w: "list_all is_ws w" "list_all is_ws w'"
  shows "\<lbrakk>list_all wf_json vs; list_all reads_back vs; vs \<noteq> []; 2 * length (join (44 # w) (map (print_at ind) vs) @ w' @ 93 # r) + 1 < n\<rbrakk>
   \<Longrightarrow> scan_elements n (join (44 # w) (map (print_at ind) vs) @ w' @ 93 # r) = Inr (vs, r)"
proof (induction vs arbitrary: n)
  case (Cons v vs)
  then obtain m where n: "n = Suc m" by (cases n) auto
  show ?case
  proof (cases "vs = []")
    case True
    have "scan_once m (print_at ind v @ w' @ 93 # r) = Inr (v, w' @ 93 # r)"
      by (rule reads_backD) (use Cons.prems True n ends_number_ws [OF w(2)] in auto)
    then show ?thesis using expect_closing [OF w(2), of 93 r] by (simp add: n True)
  next
    case False
    let ?rest = "join (44 # w) (map (print_at ind) vs) @ w' @ 93 # r"
    have s: "join (44 # w) (map (print_at ind) (v # vs)) @ w' @ 93 # r = print_at ind v @ 44 # w @ ?rest" using False by (simp add: join_Cons)
    have once: "scan_once m (print_at ind v @ 44 # w @ ?rest) = Inr (v, 44 # w @ ?rest)"
      by (rule reads_backD) (use Cons.prems(2) n Cons.prems(4) [unfolded s] in \<open>auto simp: ends_number_def\<close>)
    have "skip_ws (w @ ?rest) = ?rest"
      using join_head [of vs "44 # w" ind] False Cons.prems(1) by (auto simp: skip_ws_append [OF w(1)] intro: skip_ws_id)
    moreover have "scan_elements m ?rest = Inr (vs, r)" using Cons.prems False n unfolding s by (intro Cons.IH) auto
    moreover have "expect 93 (skip_ws (44 # w @ ?rest)) = None" by (rule expect_other) simp_all
    moreover have "expect 44 (skip_ws (44 # w @ ?rest)) = Some (w @ ?rest)" using expect_closing [of "[]" 44] by simp
    ultimately show ?thesis unfolding s n by (simp only: scan_elements.simps once sum.case prod.case option.case)
  qed
qed simp

definition print_member :: "nat option \<Rightarrow> pystr \<times> json \<Rightarrow> pystr" where
  "print_member ind m = encode_string (fst m) @ [58, 32] @ print_at ind (snd m)"

lemma print_member_head: "\<exists>t. print_member ind m = 34 # t"
  by (simp add: print_member_def encode_string_def)

lemma scan_printed_key:
  "Option.bind (expect 34 (print_member ind m @ r)) scanstring = Some (fst m, 58 # 32 # print_at ind (snd m) @ r)"
  using scan_encode_string [of "fst m" "58 # 32 # print_at ind (snd m) @ r"] by (simp add: print_member_def encode_string_def expect_def)

lemma member_value: "wf_json (snd m) \<Longrightarrow> expect 58 (skip_ws (58 # x)) = Some x" "wf_json v \<Longrightarrow> skip_ws (32 # print_at ind v @ r) = print_at ind v @ r"
  using expect_closing [of "[]" 58] skip_ws_append [of "[32]"] skip_printed [of v ind r] by (simp_all add: is_ws_def)

lemma member_join_head: "ms \<noteq> [] \<Longrightarrow> \<exists>t. join sep (map (print_member ind) ms) = 34 # t"
  by (cases ms; cases "tl ms") (auto simp: print_member_def encode_string_def)

lemma scan_members_print:
  assumes w: "list_all is_ws w" "list_all is_ws w'"
  shows "\<lbrakk>list_all (wf_json \<circ> snd) ms; list_all (reads_back \<circ> snd) ms; ms \<noteq> []; 2 * length (join (44 # w) (map (print_member ind) ms) @ w' @ 125 # r) + 1 < n\<rbrakk>
   \<Longrightarrow> scan_members n (join (44 # w) (map (print_member ind) ms) @ w' @ 125 # r) = Inr (ms, r)"
proof (induction ms arbitrary: n)
  case (Cons m ms)
  then obtain k where n: "n = Suc k" by (cases n) auto
  have wf: "wf_json (snd m)" "reads_back (snd m)" using Cons.prems(1,2) by simp_all
  show ?case
  proof (cases "ms = []")
    case True
    have "scan_once k (print_at ind (snd m) @ w' @ 125 # r) = Inr (snd m, w' @ 125 # r)"
      by (rule reads_backD) (use Cons.prems True n wf ends_number_ws [OF w(2)] in \<open>auto simp: print_member_def\<close>)
    then show ?thesis
      using scan_printed_key [of ind m "w' @ 125 # r"] expect_closing [OF w(2), of 125 r] member_value [OF wf(1)] by (simp add: n True)
  next
    case False
    let ?rest = "join (44 # w) (map (print_member ind) ms) @ w' @ 125 # r"
    have s: "join (44 # w) (map (print_member ind) (m # ms)) @ w' @ 125 # r = print_member ind m @ 44 # w @ ?rest" using False by (simp add: join_Cons)
    have once: "scan_once k (print_at ind (snd m) @ 44 # w @ ?rest) = Inr (snd m, 44 # w @ ?rest)"
      by (rule reads_backD) (use Cons.prems(4) [unfolded s] wf n in \<open>auto simp: ends_number_def print_member_def [of ind m]\<close>)
    have "skip_ws (w @ ?rest) = ?rest"
      using member_join_head [OF False, of "44 # w" ind] by (auto simp: skip_ws_append [OF w(1)] is_ws_def intro: skip_ws_id)
    moreover have "scan_members k ?rest = Inr (ms, r)"
      using Cons.prems False n unfolding s by (intro Cons.IH) auto
    moreover have "expect 125 (skip_ws (44 # w @ ?rest)) = None" by (rule expect_other) simp_all
    moreover have "expect 44 (skip_ws (44 # w @ ?rest)) = Some (w @ ?rest)" using expect_closing [of "[]" 44] by simp
    ultimately show ?thesis
      unfolding s n
      by (simp only: scan_members.simps scan_printed_key member_value [OF wf(1)] once sum.case prod.case option.case prod.collapse)
  qed
qed simp

lemma reads_back_array:
  assumes "list_all wf_json vs" and "list_all reads_back vs"
  shows "reads_back (JArray vs)"
  unfolding reads_back_def
proof (intro allI impI)
  fix ind r n
  assume n: "2 * length (print_at ind (JArray vs) @ r) < n"
  then obtain k where k: "n = Suc k" by (cases n) auto
  show "scan_once n (print_at ind (JArray vs) @ r) = Inr (JArray vs, r)"
  proof (cases "vs = []")
    case True
    then show ?thesis by (simp add: k expect_def is_ws_def)
  next
    case False
    let ?s = "join (44 # ws_item ind) (map (print_at (map_option Suc ind)) vs) @ ws_close ind @ 93 # r"
    have "scan_elements k ?s = Inr (vs, r)" using n k assms False by (intro scan_elements_print) auto
    moreover have "skip_ws (ws_open ind @ ?s) = ?s" "expect 93 ?s = None"
      using join_head [OF assms(1) False, of "44 # ws_item ind" "map_option Suc ind"] by (auto simp: skip_ws_append expect_def intro: skip_ws_id)
    ultimately show ?thesis using False by (simp add: k) (simp add: expect_def)
  qed
qed

lemma reads_back_object:
  assumes "list_all (wf_json \<circ> snd) ms" and "list_all (reads_back \<circ> snd) ms"
  shows "reads_back (JObject ms)"
  unfolding reads_back_def
proof (intro allI impI)
  fix ind r n
  assume n: "2 * length (print_at ind (JObject ms) @ r) < n"
  then obtain k where k: "n = Suc k" by (cases n) auto
  show "scan_once n (print_at ind (JObject ms) @ r) = Inr (JObject ms, r)"
  proof (cases "ms = []")
    case True
    then show ?thesis by (simp add: k expect_def is_ws_def)
  next
    case False
    let ?s = "join (44 # ws_item ind) (map (print_member (map_option Suc ind)) ms) @ ws_close ind @ 125 # r"
    have p: "print_at ind (JObject ms) @ r = 123 # ws_open ind @ ?s" using False by (simp add: print_member_def [abs_def])
    have "scan_members k ?s = Inr (ms, r)" using n k assms False unfolding p by (intro scan_members_print) auto
    moreover have "skip_ws (ws_open ind @ ?s) = ?s" "expect 125 ?s = None"
      using member_join_head [OF False, of "44 # ws_item ind" "map_option Suc ind"] by (auto simp: skip_ws_append expect_def is_ws_def intro: skip_ws_id)
    ultimately show ?thesis unfolding p by (simp add: k) (simp add: expect_def)
  qed
qed

lemma wf_reads_back: "wf_json v \<Longrightarrow> reads_back v"
proof (induction v)
  case (JArray vs)
  then show ?case by (intro reads_back_array) (auto simp: list_all_iff)
next
  case (JObject ms)
  then show ?case by (intro reads_back_object) (auto simp: list_all_iff comp_def)
qed (rule reads_back_scalar; simp)+

text \<open>\<^verbatim>\<open>loads\<close> inverts \<^verbatim>\<open>dumps\<close>, in either layout.\<close>

lemma loads_print:
  assumes "wf_json v"
  shows "json_loads (print_at ind v) = Inr v"
proof -
  obtain c t where c: "print_at ind v = c # t" "\<not> is_ws c" "c < 128" using print_head [OF assms] by blast
  have "scan_once (2 * length (print_at ind v) + 2) (print_at ind v @ []) = Inr (v, [])"
    by (rule reads_backD [OF wf_reads_back [OF assms]]) (simp_all add: ends_number_def)
  then show ?thesis using c by (simp add: json_loads_def del: scan_once.simps) (simp add: skip_ws_def)
qed

section \<open>One line\<close>

lemma encode_char_printable: "x \<in> set (encode_char c) \<Longrightarrow> 32 \<le> x"
  by (auto simp: encode_char_def hex_digit_def split: if_splits)

lemma encode_string_printable: "x \<in> set (encode_string s) \<Longrightarrow> 32 \<le> x"
  by (auto simp: encode_string_def dest: encode_char_printable)

lemma digit_printable: "is_digit x \<Longrightarrow> 32 \<le> x"
  by (simp add: is_digit_def)

lemma takeWhile_digits: "x \<in> set (takeWhile is_digit s) \<Longrightarrow> 32 \<le> x"
  by (auto dest: set_takeWhileD digit_printable)

lemma number_parts_printable:
  "int_part s = Some (ds, r) \<Longrightarrow> x \<in> set ds \<Longrightarrow> 32 \<le> x" "frac_part s = (fs, r) \<Longrightarrow> x \<in> set fs \<Longrightarrow> 32 \<le> x"
  "exp_part s = (es, r) \<Longrightarrow> x \<in> set es \<Longrightarrow> 32 \<le> x"
  by (auto simp: int_part_def frac_part_def exp_part_def Let_def split: list.splits if_splits dest: takeWhile_digits digit_printable)

lemma float_text_printable:
  assumes "float_text t" and "x \<in> set t"
  shows "32 \<le> x"
proof (cases "match_number t = Inr (JFloat t, [])")
  case True
  let ?sign = "\<lambda>s. (case s of c # r' \<Rightarrow> if c = 45 then (True, r') else (False, s) | [] \<Rightarrow> (False, s :: pystr))"
  obtain neg u where n: "?sign t = (neg, u)" by fastforce
  from True obtain ds r1 where i: "int_part u = Some (ds, r1)" by (auto simp: match_number_def n Let_def split: option.splits)
  obtain fs r2 es r3 where fe: "frac_part r1 = (fs, r2)" "exp_part r2 = (es, r3)" by fastforce
  with True have t: "t = (if neg then [45] else []) @ ds @ fs @ es" by (auto simp: match_number_def n i split: if_splits)
  have "set t \<subseteq> {45} \<union> set ds \<union> set fs \<union> set es" by (subst t) auto
  with assms(2) have "x = 45 \<or> x \<in> set ds \<or> x \<in> set fs \<or> x \<in> set es" by blast
  then show ?thesis
    using number_parts_printable(1) [OF i] number_parts_printable(2) [OF fe(1)] number_parts_printable(3) [OF fe(2)] by auto
next
  case False
  with assms show ?thesis by (auto simp: float_text_def lit_def)
qed

lemma show_int_printable: "x \<in> set (show_int i) \<Longrightarrow> 32 \<le> x"
  using show_nat_digits by (auto simp: show_int_def list_all_iff dest: digit_printable split: if_splits)

lemma join_set: "x \<in> set (join sep xs) \<Longrightarrow> x \<in> set sep \<or> (\<exists>y \<in> set xs. x \<in> set y)"
  by (induction sep xs rule: join.induct) auto

lemma print_printable: "wf_json v \<Longrightarrow> x \<in> set (print_json v) \<Longrightarrow> 32 \<le> x"
proof (induction v arbitrary: x)
  case (JArray vs)
  then show ?case by (auto simp: list_all_iff ws_open_def ws_item_def ws_close_def dest!: join_set split: if_splits)
next
  case (JObject ms)
  then show ?case
    by (fastforce simp: list_all_iff ws_open_def ws_item_def ws_close_def split: if_splits dest!: join_set dest: encode_string_printable)
next
  case (JStr s)
  then show ?case using encode_string_printable by simp
qed (auto simp: lit_def split: if_splits dest: float_text_printable show_int_printable)

end
