(* ===== verification/Structured_Log.thy ===== *)
theory Structured_Log
  imports Json_Print Log_Collector Settings
begin

text \<open>
  Structured logging (\<^verbatim>\<open>infrastructure/logging/structured.py\<close>) and the scopes that install log handlers (\<^verbatim>\<open>structured_logging\<close>, and \<^verbatim>\<open>collecting_logs\<close> of
  \<^verbatim>\<open>collector.py\<close>). The attributes of a log record besides those the formatter reads are an association list of JSON values; a value that is not JSON is
  the text \<^verbatim>\<open>default=str\<close> makes of it. \<^verbatim>\<open>str.lower\<close> and \<^verbatim>\<open>str.strip\<close> on values of the environment are the parameters \<open>lower\<close> and \<open>normalise\<close>. The
  logger \<^verbatim>\<open>task_platform\<close> is its level and its handlers; the body of a \<^verbatim>\<open>with\<close> block is a function of it.
\<close>

section \<open>The formatter\<close>

record log_event =
  le_created :: datetime
  le_levelname :: pystr
  le_name :: pystr
  le_message :: pystr
  le_attributes :: "(pystr \<times> json) list"
  le_exception :: "pystr option"

definition STANDARD_ATTRS :: "pystr list" where
  "STANDARD_ATTRS = map lit [''name'', ''msg'', ''args'', ''levelname'', ''levelno'', ''pathname'', ''filename'', ''module'', ''exc_info'', ''exc_text'',
     ''stack_info'', ''lineno'', ''funcName'', ''created'', ''msecs'', ''relativeCreated'', ''thread'', ''threadName'', ''processName'', ''process'',
     ''taskName'', ''message'', ''asctime'']"

definition SENSITIVE_PARTS :: "pystr list" where
  "SENSITIVE_PARTS = map lit [''password'', ''passwd'', ''token'', ''secret'', ''authorization'', ''api_key'']"

definition REDACTED :: pystr where
  "REDACTED = lit ''***''"

text \<open>\<^verbatim>\<open>part in text\<close>\<close>

definition contains :: "pystr \<Rightarrow> pystr \<Rightarrow> bool" where
  "contains part text \<longleftrightarrow> list_ex (\<lambda>i. take (length part) (drop i text) = part) [0..<Suc (length text)]"

definition is_sensitive :: "(pystr \<Rightarrow> pystr) \<Rightarrow> pystr \<Rightarrow> bool" where
  "is_sensitive lower key \<longleftrightarrow> list_ex (\<lambda>part. contains part (lower key)) SENSITIVE_PARTS"

text \<open>\<^verbatim>\<open>isoformat(timespec="milliseconds")\<close> of a time in UTC.\<close>

definition iso_milliseconds :: "datetime \<Rightarrow> pystr" where
  "iso_milliseconds d =
     (let s = nat (time_of d div us_per_second) in
      isoformat (date_of d) @ [84] @ pad 2 (s div 3600) @ [58] @ pad 2 (s div 60 mod 60) @ [58] @ pad 2 (s mod 60)
        @ [46] @ pad 3 (nat (time_of d mod us_per_second div 1000)) @ lit ''+00:00'')"

definition core_payload :: "pystr \<Rightarrow> log_event \<Rightarrow> (pystr \<times> json) list" where
  "core_payload service r =
     [(lit ''timestamp'', JStr (iso_milliseconds (le_created r))), (lit ''level'', JStr (le_levelname r)), (lit ''service'', JStr service),
      (lit ''logger'', JStr (le_name r)), (lit ''message'', JStr (le_message r))]"

fun add_attributes :: "(pystr \<Rightarrow> pystr) \<Rightarrow> (pystr \<times> json) list \<Rightarrow> (pystr \<times> json) list \<Rightarrow> (pystr \<times> json) list" where
  "add_attributes lower [] payload = payload"
| "add_attributes lower ((key, value) # attrs) payload =
     (if key \<in> set STANDARD_ATTRS \<or> startswith key (lit ''_'') \<or> key \<in> fst ` set payload then add_attributes lower attrs payload
      else add_attributes lower attrs (AList.update key (if is_sensitive lower key then JStr REDACTED else value) payload))"

definition log_payload :: "(pystr \<Rightarrow> pystr) \<Rightarrow> pystr \<Rightarrow> log_event \<Rightarrow> (pystr \<times> json) list" where
  "log_payload lower service r =
     (let p = add_attributes lower (le_attributes r) (core_payload service r);
          p1 = (if lit ''run_id'' \<notin> fst ` set p \<and> startswith (le_name r) JOB_LOGGER_PREFIX
                then AList.update (lit ''run_id'') (JStr (removeprefix (le_name r) JOB_LOGGER_PREFIX)) p else p)
      in case le_exception r of None \<Rightarrow> p1 | Some e \<Rightarrow> AList.update (lit ''exception'') (JStr e) p1)"

definition json_format :: "(pystr \<Rightarrow> pystr) \<Rightarrow> pystr \<Rightarrow> log_event \<Rightarrow> pystr" where
  "json_format lower service r = print_json (JObject (log_payload lower service r))"

section \<open>Configuration\<close>

definition VALID_FORMATS :: "pystr list" where
  "VALID_FORMATS = [lit ''text'', lit ''json'']"

text \<open>\<open>normalise\<close> is \<^verbatim>\<open>strip().lower()\<close> here and \<^verbatim>\<open>strip().upper()\<close> for the level; \<open>levels\<close> is \<^verbatim>\<open>logging.getLevelNamesMapping()\<close>.\<close>

definition resolve_log_format :: "(pystr \<Rightarrow> pystr) \<Rightarrow> environ \<Rightarrow> exn + pystr" where
  "resolve_log_format normalise env =
     (let value = normalise (environ_get env (lit ''TASK_PLATFORM_LOG_FORMAT'') (lit ''text'')) in
      if value \<notin> set VALID_FORMATS then Inl (ValueError (lit ''TASK_PLATFORM_LOG_FORMAT'')) else Inr value)"

definition resolve_log_level :: "(pystr \<Rightarrow> pystr) \<Rightarrow> (pystr \<Rightarrow> int option) \<Rightarrow> environ \<Rightarrow> exn + int" where
  "resolve_log_level normalise levels env =
     (case levels (normalise (environ_get env (lit ''TASK_PLATFORM_LOG_LEVEL'') (lit ''INFO''))) of
        None \<Rightarrow> Inl (ValueError (lit ''TASK_PLATFORM_LOG_LEVEL''))
      | Some level \<Rightarrow> Inr level)"

section \<open>Scopes\<close>

datatype formatter = JsonFormatter pystr | TextFormatter

datatype log_handler = Collector nat int | Stream nat formatter

record logger =
  lo_level :: int
  lo_handlers :: "log_handler list"

definition addHandler :: "log_handler \<Rightarrow> logger \<Rightarrow> logger" where
  "addHandler h l = (if h \<in> set (lo_handlers l) then l else l\<lparr>lo_handlers := lo_handlers l @ [h]\<rparr>)"

definition removeHandler :: "log_handler \<Rightarrow> logger \<Rightarrow> logger" where
  "removeHandler h l = l\<lparr>lo_handlers := remove1 h (lo_handlers l)\<rparr>"

text \<open>\<^verbatim>\<open>getEffectiveLevel\<close>: a level of zero defers to the parent.\<close>

definition effective_level :: "int \<Rightarrow> logger \<Rightarrow> int" where
  "effective_level parent l = (if lo_level l = 0 then parent else lo_level l)"

text \<open>The body of a \<^verbatim>\<open>with\<close> block works on the logger and the rest of the process; a body that has not ended leaves the handler installed.\<close>

type_synonym ('s, 'a) log_body = "logger \<times> 's \<Rightarrow> (logger \<times> 's, 'a) progress"

definition with_handler :: "log_handler \<Rightarrow> (logger \<Rightarrow> logger) \<Rightarrow> ('s, 'a) log_body \<Rightarrow> ('s, 'a) log_body" where
  "with_handler h adjust body st =
     (let previous_level = lo_level (fst st)
      in case body (adjust (addHandler h (fst st)), snd st) of
           Waiting st1 \<Rightarrow> Waiting st1
         | Done r st1 \<Rightarrow> Done r ((removeHandler h (fst st1))\<lparr>lo_level := previous_level\<rparr>, snd st1))"

text \<open>\<open>n\<close> is the identity of the new handler object.\<close>

definition collecting_logs :: "int \<Rightarrow> nat \<Rightarrow> int \<Rightarrow> (log_handler \<Rightarrow> ('s, 'a) log_body) \<Rightarrow> ('s, 'a) log_body" where
  "collecting_logs parent n level body =
     with_handler (Collector n level) (\<lambda>l. if effective_level parent l > level then l\<lparr>lo_level := level\<rparr> else l) (body (Collector n level))"

definition structured_logging ::
  "(exn + pystr) \<Rightarrow> (exn + int) \<Rightarrow> nat \<Rightarrow> pystr \<Rightarrow> pystr option \<Rightarrow> int option \<Rightarrow> (log_handler \<Rightarrow> ('s, 'a) log_body) \<Rightarrow> ('s, 'a) log_body" where
  "structured_logging resolved_format resolved_level n service fmt level body st =
     (case (case fmt of Some f \<Rightarrow> Inr f | None \<Rightarrow> resolved_format) of
        Inl e \<Rightarrow> Done (Inl e) st
      | Inr f \<Rightarrow>
          if f \<notin> set VALID_FORMATS then Done (Inl (ValueError (lit ''fmt''))) st
          else (case (case level of Some v \<Rightarrow> Inr v | None \<Rightarrow> resolved_level) of
                  Inl e \<Rightarrow> Done (Inl e) st
                | Inr v \<Rightarrow>
                    let h = Stream n (if f = lit ''json'' then JsonFormatter service else TextFormatter)
                    in with_handler h (\<lambda>l. l\<lparr>lo_level := v\<rparr>) (body h) st))"

section \<open>Scopes restore the logger\<close>

text \<open>A body that takes care of the handlers it installs itself, run in a given state.\<close>

definition keeps_handlers :: "('s, 'a) log_body \<Rightarrow> logger \<times> 's \<Rightarrow> bool" where
  "keeps_handlers body st \<longleftrightarrow> (\<forall>r st1. body st = Done r st1 \<longrightarrow> lo_handlers (fst st1) = lo_handlers (fst st))"

lemma with_handler_restores:
  assumes "keeps_handlers body (adjust (addHandler h (fst st)), snd st)" and "\<And>l. lo_handlers (adjust l) = lo_handlers l"
    and "h \<notin> set (lo_handlers (fst st))" and "with_handler h adjust body st = Done r st1"
  shows "fst st1 = fst st"
proof -
  from assms(4) obtain st2 where b: "body (adjust (addHandler h (fst st)), snd st) = Done r st2"
    "fst st1 = (removeHandler h (fst st2))\<lparr>lo_level := lo_level (fst st)\<rparr>"
    by (auto simp: with_handler_def Let_def split: progress.splits)
  then have "lo_handlers (fst st2) = lo_handlers (fst st) @ [h]"
    using assms(1) [unfolded keeps_handlers_def, rule_format, OF b(1)] assms(2,3) by (simp add: addHandler_def)
  with assms(3) b(2) show ?thesis by (simp add: removeHandler_def remove1_append)
qed

text \<open>Whether the body returns or raises, the logger has its handlers and its level back.\<close>

lemma collecting_logs_restores:
  assumes "\<And>st. keeps_handlers (body (Collector n level)) st" and "Collector n level \<notin> set (lo_handlers (fst st))"
    and "collecting_logs parent n level body st = Done r st1"
  shows "fst st1 = fst st"
  using with_handler_restores [OF assms(1) _ assms(2) assms(3) [unfolded collecting_logs_def]] by simp

lemma structured_logging_restores:
  assumes "\<And>f v. keeps_handlers (body (Stream n f)) ((addHandler (Stream n f) (fst st))\<lparr>lo_level := v\<rparr>, snd st)"
    and "\<And>f. Stream n f \<notin> set (lo_handlers (fst st))" and "structured_logging rf rl n service fmt level body st = Done r st1"
  shows "fst st1 = fst st"
proof -
  have "fst st1 = fst st" if "with_handler (Stream n f) (\<lambda>l. l\<lparr>lo_level := v\<rparr>) (body (Stream n f)) st = Done r st1" for f v
    by (rule with_handler_restores [OF _ _ assms(2) that]) (use assms(1) in auto)
  with assms(3) show ?thesis by (auto simp: structured_logging_def Let_def split: option.splits sum.splits if_splits)
qed

text \<open>Inside \<^verbatim>\<open>collecting_logs\<close> no record of its level is filtered out by the logger.\<close>

lemma collecting_logs_enabled:
  assumes "0 < level"
  shows "effective_level parent ((\<lambda>l. if effective_level parent l > level then l\<lparr>lo_level := level\<rparr> else l) (addHandler h l)) \<le> level"
  using assms by (simp add: effective_level_def)

section \<open>Log lines\<close>

lemma update_new_key: "k \<notin> fst ` set p \<Longrightarrow> AList.update k v p = p @ [(k, v)]"
  by (induction p) auto

lemma set_update_subset: "set (AList.update k v p) \<subseteq> insert (k, v) (set p)"
  by (induction p) auto

text \<open>The attributes are appended to the core fields, which they cannot override.\<close>

lemma add_attributes_prefix: "\<exists>q. add_attributes lower attrs p = p @ q \<and> fst ` set q \<subseteq> fst ` set attrs
    \<and> (\<forall>(k, v) \<in> set q. (is_sensitive lower k \<and> v = JStr REDACTED) \<or> (k, v) \<in> set attrs \<and> \<not> is_sensitive lower k)"
proof (induction lower attrs p rule: add_attributes.induct)
  case (2 lower key val attrs p)
  show ?case
  proof (cases "key \<in> set STANDARD_ATTRS \<or> startswith key (lit ''_'') \<or> key \<in> fst ` set p")
    case True
    from 2(1) [OF True] obtain q where "add_attributes lower attrs p = p @ q" "fst ` set q \<subseteq> fst ` set attrs"
      "\<forall>(k, v) \<in> set q. (is_sensitive lower k \<and> v = JStr REDACTED) \<or> (k, v) \<in> set attrs \<and> \<not> is_sensitive lower k" by blast
    with True show ?thesis by (intro exI [of _ q]) auto
  next
    case False
    let ?v = "if is_sensitive lower key then JStr REDACTED else val"
    have u: "AList.update key ?v p = p @ [(key, ?v)]" using False by (simp add: update_new_key)
    from 2(2) [OF False] obtain q where q: "add_attributes lower attrs (AList.update key ?v p) = (p @ [(key, ?v)]) @ q"
      "fst ` set q \<subseteq> fst ` set attrs" "\<forall>(k, v) \<in> set q. (is_sensitive lower k \<and> v = JStr REDACTED) \<or> (k, v) \<in> set attrs \<and> \<not> is_sensitive lower k"
      unfolding u by blast
    show ?thesis by (rule exI [of _ "(key, ?v) # q"]) (use False q in auto)
  qed
qed simp

definition redact :: "(pystr \<Rightarrow> pystr) \<Rightarrow> (pystr \<times> json) list \<Rightarrow> (pystr \<times> json) list" where
  "redact lower attrs = map (\<lambda>(k, v). (k, if is_sensitive lower k then JStr REDACTED else v)) attrs"

lemma add_attributes_redact: "add_attributes lower (redact lower attrs) p = add_attributes lower attrs p"
  by (induction lower attrs p rule: add_attributes.induct) (auto simp: redact_def)

text \<open>What a payload contains: the core fields, the attributes, a run id taken from the name of the logger, and an exception.\<close>

lemma log_payload_set:
  "set (log_payload lower service r) \<subseteq> set (add_attributes lower (le_attributes r) (core_payload service r))
     \<union> {(lit ''run_id'', JStr (removeprefix (le_name r) JOB_LOGGER_PREFIX))} \<union> range (\<lambda>e. (lit ''exception'', JStr e))"
proof -
  let ?p = "add_attributes lower (le_attributes r) (core_payload service r)" and ?i = "JStr (removeprefix (le_name r) JOB_LOGGER_PREFIX)"
  have "set (AList.update (lit ''exception'') (JStr e) x) \<subseteq> set x \<union> range (\<lambda>e. (lit ''exception'', JStr e))" for e x
    using set_update_subset [of "lit ''exception''" "JStr e" x] by blast
  moreover have "set (AList.update (lit ''run_id'') ?i ?p) \<subseteq> set ?p \<union> {(lit ''run_id'', ?i)}"
    using set_update_subset [of "lit ''run_id''" ?i ?p] by blast
  ultimately show ?thesis unfolding log_payload_def Let_def by (auto split: option.splits if_splits)
qed

lemma log_payload_wf:
  assumes "list_all (wf_json \<circ> snd) (le_attributes r)"
  shows "wf_json (JObject (log_payload lower service r))"
proof -
  obtain q where q: "add_attributes lower (le_attributes r) (core_payload service r) = core_payload service r @ q"
    "\<forall>(k, v) \<in> set q. (is_sensitive lower k \<and> v = JStr REDACTED) \<or> (k, v) \<in> set (le_attributes r) \<and> \<not> is_sensitive lower k"
    using add_attributes_prefix by blast
  have "wf_json (snd m)" if m: "m \<in> set (log_payload lower service r)" for m
  proof -
    from subsetD [OF log_payload_set m] have "m \<in> set (core_payload service r) \<or> m \<in> set q \<or> (\<exists>t. snd m = JStr t)" by (auto simp: q(1))
    moreover have "wf_json (snd m)" if "m \<in> set (core_payload service r)" using that by (auto simp: core_payload_def)
    moreover have "wf_json (snd m)" if "m \<in> set q" using bspec [OF q(2) that] assms by (cases m) (auto simp: list_all_iff)
    ultimately show ?thesis by auto
  qed
  then show ?thesis by (simp add: list_all_iff)
qed

lemma update_append: "k \<notin> fst ` set xs \<Longrightarrow> AList.update k v (xs @ ys) = xs @ AList.update k v ys"
  by (induction xs) auto

lemma log_payload_core: "take (length (core_payload service r)) (log_payload lower service r) = core_payload service r"
proof -
  obtain q where q: "add_attributes lower (le_attributes r) (core_payload service r) = core_payload service r @ q"
    using add_attributes_prefix by blast
  have "lit ''run_id'' \<notin> fst ` set (core_payload service r)" "lit ''exception'' \<notin> fst ` set (core_payload service r)"
    by (simp_all add: core_payload_def)
  then show ?thesis by (auto simp: log_payload_def q update_append Let_def split: option.splits)
qed

lemma log_payload_redact: "log_payload lower service (r\<lparr>le_attributes := redact lower (le_attributes r)\<rparr>) = log_payload lower service r"
  by (simp add: log_payload_def add_attributes_redact core_payload_def Let_def split: option.split)

section \<open>Properties\<close>

text \<open>C32: A log record becomes one line of JSON that hides sensitive attributes. Whatever text the message, the name of the logger, the attributes and the exception
  contain, the formatted record has no control character, so no line feed or carriage return, and \<^verbatim>\<open>json.loads\<close> reads it back as the payload; the payload starts
  with the five core fields of the record, which no attribute overrides; and the line does not depend on the values of attributes with sensitive
  names: it is the line of the record in which they are replaced by \<^verbatim>\<open>***\<close>.\<close>

theorem log_line_safe:
  assumes "list_all (wf_json \<circ> snd) (le_attributes r)"
  shows "json_loads (json_format lower service r) = Inr (JObject (log_payload lower service r))
    \<and> list_all (\<lambda>c. 32 \<le> c) (json_format lower service r)
    \<and> take 5 (log_payload lower service r) = core_payload service r
    \<and> json_format lower service (r\<lparr>le_attributes := redact lower (le_attributes r)\<rparr>) = json_format lower service r"
proof (intro conjI)
  note wf = log_payload_wf [OF assms, of lower service]
  show "json_loads (json_format lower service r) = Inr (JObject (log_payload lower service r))"
    unfolding json_format_def by (rule loads_print [OF wf])
  show "list_all (\<lambda>c. 32 \<le> c) (json_format lower service r)"
    unfolding json_format_def list_all_iff using print_printable [OF wf] by blast
  have "length (core_payload service r) = 5" by (simp add: core_payload_def)
  with log_payload_core [of service r lower] show "take 5 (log_payload lower service r) = core_payload service r" by simp
  show "json_format lower service (r\<lparr>le_attributes := redact lower (le_attributes r)\<rparr>) = json_format lower service r"
    by (simp only: json_format_def log_payload_redact)
qed

definition sample_event :: log_event where
  "sample_event = \<lparr>le_created = utc 0, le_levelname = lit ''INFO'', le_name = lit ''task_platform.job.run_1'', le_message = [72, 10, 34],
     le_attributes = [(lit ''attempt'', JInt 2), (lit ''api_token'', JStr (lit ''s3cr3t''))], le_exception = None\<rparr>"

theorem log_line_safe_witness:
  "json_loads (json_format (\<lambda>k. k) (lit ''worker'') sample_event) = Inr (JObject (log_payload (\<lambda>k. k) (lit ''worker'') sample_event))
    \<and> redact (\<lambda>k. k) (le_attributes sample_event) = [(lit ''attempt'', JInt 2), (lit ''api_token'', JStr (lit ''***''))]"
proof
  have "length (show_nat 2) \<le> 4300" by (simp add: show_nat.simps)
  then have "list_all (wf_json \<circ> snd) (le_attributes sample_event)" by (simp add: sample_event_def INT_MAX_STR_DIGITS_def)
  from log_line_safe [OF this] show "json_loads (json_format (\<lambda>k. k) (lit ''worker'') sample_event)
      = Inr (JObject (log_payload (\<lambda>k. k) (lit ''worker'') sample_event))" by blast
  show "redact (\<lambda>k. k) (le_attributes sample_event) = [(lit ''attempt'', JInt 2), (lit ''api_token'', JStr (lit ''***''))]"
    by code_simp
qed

end
