(* ===== verification/Startup.thy ===== *)
theory Startup
  imports Platform Jobs Structured_Log
begin

text \<open>
  The start of the processes: \<^verbatim>\<open>main\<close>, \<^verbatim>\<open>_main\<close> and \<^verbatim>\<open>_setup_db\<close> of \<^verbatim>\<open>cli/main.py\<close>, and \<^verbatim>\<open>create_app\<close> of \<^verbatim>\<open>api/app.py\<close> with its lifespan. A process is its
  logger, the modules it has imported, and the databases it can reach: by URL, the schema with its revision and the rows. An SQLite database in memory
  belongs to the engine that opened it, so that migrations, which open an engine of their own, do not reach it. A statement on a database without the tables of
  the models raises.
\<close>

section \<open>Processes\<close>

record host =
  ho_imports :: import_state
  ho_schemas :: "pystr \<Rightarrow> versioned"
  ho_rows :: "pystr \<Rightarrow> db"

text \<open>What the start of a process reads: the environment, the directory of the migrations, Alembic and the interpolation of configuration values, ids and the clock,
  what the first commit raises, \<^verbatim>\<open>strip().lower()\<close>, \<^verbatim>\<open>strip().upper()\<close> and the level names, the level of the root logger, and the identities of new handlers.\<close>

record startup =
  su_environ :: environ
  su_migrations_dir :: pystr
  su_alembic :: alembic
  su_expand :: "pystr \<Rightarrow> exn + pystr"
  su_ids :: "pystr \<Rightarrow> pystr"
  su_now :: datetime
  su_sync_error :: "exn option"
  su_lower :: "pystr \<Rightarrow> pystr"
  su_upper :: "pystr \<Rightarrow> pystr"
  su_levels :: "pystr \<Rightarrow> int option"
  su_root_level :: int
  su_stream_id :: nat
  su_collector_id :: nat
  su_int :: "pystr \<Rightarrow> exn + int"
  su_float :: "pystr \<Rightarrow> exn + pyfloat"

definition in_memory :: "pystr \<Rightarrow> bool" where
  "in_memory url \<longleftrightarrow> url \<in> {lit ''sqlite://'', lit ''sqlite:///'', lit ''sqlite:///:memory:''}"

text \<open>\<^verbatim>\<open>upgrade_db(url)\<close> on the databases of the process.\<close>

definition migrate :: "startup \<Rightarrow> pystr \<Rightarrow> host \<Rightarrow> (exn + unit) \<times> host" where
  "migrate su url h =
     (case make_alembic_config (su_migrations_dir su) (su_environ su) (Some url) of
        Inl e \<Rightarrow> (Inl e, h)
      | Inr options \<Rightarrow>
          (case migration_engine (su_expand su) (su_environ su) options of
             Inl e \<Rightarrow> (Inl e, h)
           | Inr en \<Rightarrow>
               if in_memory (en_url en)
               then (case upgrade_db (su_alembic su) ''head'' (None, empty_schema) of
                       None \<Rightarrow> (Inl (OtherError (lit ''migration'')), h)
                     | Some v \<Rightarrow> (Inr (), h))
               else (case upgrade_db (su_alembic su) ''head'' (ho_schemas h (en_url en)) of
                       None \<Rightarrow> (Inl (OtherError (lit ''migration'')), h)
                     | Some v \<Rightarrow> (Inr (), h\<lparr>ho_schemas := (ho_schemas h)(en_url en := v)\<rparr>))))"

definition schema_ready :: "schema \<Rightarrow> bool" where
  "schema_ready s \<longleftrightarrow> map forget_default (sc_tables s) = sc_tables models_schema"

text \<open>A transaction on the database of an engine.\<close>

definition on_engine :: "engine \<Rightarrow> (db \<Rightarrow> (exn + 'a) \<times> db) \<Rightarrow> host \<Rightarrow> (exn + 'a) \<times> host" where
  "on_engine en t h =
     (if in_memory (en_url en) \<or> \<not> schema_ready (snd (ho_schemas h (en_url en))) then (Inl (OtherError (lit ''no such table'')), h)
      else let (r, d) = t (ho_rows h (en_url en)) in (r, h\<lparr>ho_rows := (ho_rows h)(en_url en := d)\<rparr>))"

section \<open>The command line\<close>

definition setup_db :: "startup \<Rightarrow> host \<Rightarrow> (exn + engine) \<times> host" where
  "setup_db su h =
     (let url = get_database_url (su_environ su) in
      case migrate su url h of (Inl e, h1) \<Rightarrow> (Inl e, h1) | (Inr _, h1) \<Rightarrow> (Inr (create_db_engine (su_environ su) (Some url) False), h1))"

definition SERVICE_BY_COMMAND :: "(pystr \<times> pystr) list" where
  "SERVICE_BY_COMMAND = [(lit ''serve'', lit ''scheduler''), (lit ''dispatch'', lit ''dispatcher''), (lit ''worker'', lit ''worker''), (lit ''alerts'', lit ''alerts'')]"

definition logging_scope :: "startup \<Rightarrow> pystr \<Rightarrow> (log_handler \<Rightarrow> (host, 'a) log_body) \<Rightarrow> (host, 'a) log_body" where
  "logging_scope su service body =
     structured_logging (resolve_log_format (su_lower su) (su_environ su)) (resolve_log_level (su_upper su) (su_levels su) (su_environ su))
       (su_stream_id su) service None None (\<lambda>_. collecting_logs (su_root_level su) (su_collector_id su) 20 body)"

text \<open>\<^verbatim>\<open>_main\<close> up to the command; \<open>run\<close> reconciles the jobs and executes the command on the database of the engine.\<close>

definition main_body :: "startup \<Rightarrow> (log_handler \<Rightarrow> engine \<Rightarrow> TaskRegistry \<Rightarrow> (host, int) log_body) \<Rightarrow> log_handler \<Rightarrow> (host, int) log_body" where
  "main_body su run collector st =
     (case setup_db su (snd st) of
        (Inl e, h1) \<Rightarrow> Done (Inl e) (fst st, h1)
      | (Inr en, h1) \<Rightarrow>
          (case build_registry (ho_imports h1) of
             (Inl e, im) \<Rightarrow> Done (Inl e) (fst st, h1\<lparr>ho_imports := im\<rparr>)
           | (Inr reg, im) \<Rightarrow> run collector en reg (fst st, h1\<lparr>ho_imports := im\<rparr>)))"

definition main :: "startup \<Rightarrow> pystr \<Rightarrow> (log_handler \<Rightarrow> engine \<Rightarrow> TaskRegistry \<Rightarrow> (host, int) log_body) \<Rightarrow> (host, int) log_body" where
  "main su command_name run =
     logging_scope su (case map_of SERVICE_BY_COMMAND command_name of None \<Rightarrow> lit ''cli'' | Some s \<Rightarrow> s) (main_body su run)"

text \<open>The commands that end by themselves.\<close>

definition run_command ::
  "(pyfloat \<Rightarrow> pystr) \<Rightarrow> cli_env \<Rightarrow> command \<Rightarrow> log_buffer \<Rightarrow> log_handler \<Rightarrow> engine \<Rightarrow> TaskRegistry \<Rightarrow> (host, int) log_body" where
  "run_command fmt env cmd buffer collector en reg st =
     (let h = snd st; url = en_url en in
      if in_memory url \<or> \<not> schema_ready (snd (ho_schemas h url)) then Done (Inl (OtherError (lit ''no such table''))) st
      else case cli_main fmt reg env cmd \<lparr>lo_db = ho_rows h url, lo_buffer = buffer, lo_fired = False\<rparr> of
             Waiting s \<Rightarrow> Waiting (fst st, h\<lparr>ho_rows := (ho_rows h)(url := lo_db s)\<rparr>)
           | Done r s \<Rightarrow> Done r (fst st, h\<lparr>ho_rows := (ho_rows h)(url := lo_db s)\<rparr>))"

section \<open>The REST API\<close>

record 'q app_state =
  as_engine :: engine
  as_registry :: TaskRegistry
  as_collector :: log_handler
  as_queue :: "'q option"
  as_rules :: AlertRules

text \<open>\<open>built\<close> is what \<^verbatim>\<open>build_queue\<close> gives; \<open>body\<close> is the application between its start and its end.\<close>

definition lifespan ::
  "startup \<Rightarrow> pystr \<Rightarrow> 'q option \<Rightarrow> exn + 'q \<Rightarrow> AlertRules \<Rightarrow> ('q app_state \<Rightarrow> (host, 'a) log_body) \<Rightarrow> (host, 'a) log_body" where
  "lifespan su url queue built rules body st =
     (case migrate su url (snd st) of
        (Inl e, h1) \<Rightarrow> Done (Inl e) (fst st, h1)
      | (Inr _, h1) \<Rightarrow>
          (let en = create_db_engine (su_environ su) (Some url) False in
           case build_registry (ho_imports h1) of
             (Inl e, im) \<Rightarrow> Done (Inl e) (fst st, h1\<lparr>ho_imports := im\<rparr>)
           | (Inr reg, im) \<Rightarrow>
               (case on_engine en (session_scope (su_sync_error su) (sync_jobs_to_db (su_ids su) (su_now su) reg)) (h1\<lparr>ho_imports := im\<rparr>) of
                  (Inl e, h2) \<Rightarrow> Done (Inl e) (fst st, h2)
                | (Inr _, h2) \<Rightarrow>
                    logging_scope su (lit ''api'') (\<lambda>collector.
                      body \<lparr>as_engine = en, as_registry = reg, as_collector = collector,
                            as_queue = (case queue of Some q \<Rightarrow> Some q
                                        | None \<Rightarrow> build_metrics_queue (su_lower su) (su_environ su (lit ''TASK_PLATFORM_METRICS_QUEUE'')) built),
                            as_rules = rules\<rparr>) (fst st, h2))))"

definition create_app ::
  "startup \<Rightarrow> pystr option \<Rightarrow> 'q option \<Rightarrow> exn + 'q \<Rightarrow> AlertRules option \<Rightarrow> exn + (('q app_state \<Rightarrow> (host, 'a) log_body) \<Rightarrow> (host, 'a) log_body)" where
  "create_app su database_url queue built alert_rules =
     (let url = given_or database_url (get_database_url (su_environ su)) in
      case (case alert_rules of Some r \<Rightarrow> Inr r | None \<Rightarrow> from_env (su_int su) (su_float su) (su_environ su)) of
        Inl e \<Rightarrow> Inl e
      | Inr rules \<Rightarrow> Inr (lifespan su url queue built rules))"

section \<open>Logging scopes\<close>

text \<open>Handlers of the process that starts are not those it installs.\<close>

definition fresh_handlers :: "startup \<Rightarrow> logger \<Rightarrow> bool" where
  "fresh_handlers su l \<longleftrightarrow> (\<forall>f. Stream (su_stream_id su) f \<notin> set (lo_handlers l)) \<and> Collector (su_collector_id su) 20 \<notin> set (lo_handlers l)"

lemma logging_scope_restores:
  assumes "\<And>c st. keeps_handlers (body c) st" and "fresh_handlers su (fst st)" and "logging_scope su service body st = Done r st1"
  shows "fst st1 = fst st"
proof (rule structured_logging_restores [OF _ _ assms(3) [unfolded logging_scope_def]])
  fix f v
  let ?st = "((addHandler (Stream (su_stream_id su) f) (fst st))\<lparr>lo_level := v\<rparr>, snd st)"
  have "Collector (su_collector_id su) 20 \<notin> set (lo_handlers (fst ?st))"
    using assms(2) by (auto simp: fresh_handlers_def addHandler_def)
  then show "keeps_handlers (collecting_logs (su_root_level su) (su_collector_id su) 20 body) ?st"
    unfolding keeps_handlers_def using collecting_logs_restores [where body = body, OF assms(1), of "su_collector_id su" 20 ?st] by metis
qed (use assms(2) in \<open>auto simp: fresh_handlers_def\<close>)

text \<open>Inside the scopes, both handlers are installed.\<close>

lemma logging_scope_runs:
  assumes "fresh_handlers su l" and "resolve_log_format (su_lower su) (su_environ su) = Inr f"
    and "resolve_log_level (su_upper su) (su_levels su) (su_environ su) = Inr v"
  obtains l1 c where "lo_handlers l1 = lo_handlers l @ [Stream (su_stream_id su) c, Collector (su_collector_id su) 20]"
    and "logging_scope su service (\<lambda>c st. Done (Inr (g c, st)) st) (l, h0) = Done (Inr (g (Collector (su_collector_id su) 20), l1, h0)) (l, h0)"
proof -
  have f: "f \<in> set VALID_FORMATS" using assms(2) by (auto simp: resolve_log_format_def Let_def split: if_splits)
  let ?c = "if f = lit ''json'' then JsonFormatter service else TextFormatter"
  let ?l0 = "l\<lparr>lo_handlers := lo_handlers l @ [Stream (su_stream_id su) ?c], lo_level := v\<rparr>"
  let ?l1 = "?l0\<lparr>lo_handlers := lo_handlers ?l0 @ [Collector (su_collector_id su) 20]\<rparr>"
  let ?l2 = "if effective_level (su_root_level su) ?l1 > 20 then ?l1\<lparr>lo_level := 20\<rparr> else ?l1"
  show thesis
    by (rule that [of ?l2 ?c])
      (use assms f in \<open>auto simp: logging_scope_def structured_logging_def collecting_logs_def with_handler_def addHandler_def removeHandler_def
        fresh_handlers_def remove1_append Let_def\<close>)
qed

section \<open>The database is ready\<close>

text \<open>The database of a URL has been built by a version of the platform, or is empty.\<close>

definition platform_database :: "versioned \<Rightarrow> bool" where
  "platform_database v \<longleftrightarrow> (\<exists>applied pending. applied @ pending = revisions \<and> upgrade_all applied (None, empty_schema) = Some v)"

lemma empty_database: "platform_database (None, empty_schema)"
  unfolding platform_database_def by (rule exI [of _ "[]"]) simp

lemma config_engine:
  assumes "37 \<notin> set dir"
  obtains options where "make_alembic_config dir env url = Inr options" and "migration_engine expand env options = Inr (create_db_engine env url False)"
  using alembic_config_ok [OF assms, of env url] migrations_use_app_database [where migrations_dir = dir and env = env and url = url and expand = expand] by auto

lemma migrate_ready:
  assumes "runs_revisions (su_alembic su)" and "37 \<notin> set (su_migrations_dir su)"
    and "u = en_url (create_db_engine (su_environ su) (Some url) False)" and "\<not> in_memory u" and "platform_database (ho_schemas h u)"
  obtains s where "migrate su url h = (Inr (), h\<lparr>ho_schemas := (ho_schemas h)(u := (Some ''0004'', s))\<rparr>)" and "schema_ready s"
proof -
  obtain s where s: "upgrade_all revisions (None, empty_schema) = Some (Some ''0004'', s)" "map forget_default (sc_tables s) = sc_tables models_schema"
    by (rule head_matches_models)
  from assms(5) obtain applied pending where "applied @ pending = revisions" "upgrade_all applied (None, empty_schema) = Some (ho_schemas h u)"
    unfolding platform_database_def by blast
  with assms(1) s(1) have up: "upgrade_db (su_alembic su) ''head'' (ho_schemas h u) = Some (Some ''0004'', s)" by (simp add: upgrade_from_any)
  obtain options where "make_alembic_config (su_migrations_dir su) (su_environ su) (Some url) = Inr options"
    "migration_engine (su_expand su) (su_environ su) options = Inr (create_db_engine (su_environ su) (Some url) False)"
    by (rule config_engine [OF assms(2)])
  with up assms(3,4) s(2) that show thesis by (simp add: migrate_def schema_ready_def)
qed

section \<open>Commands and the logger\<close>

text \<open>However a command ends, with a code or an exception, in the start or later, the logger is as before.\<close>

lemma main_body_keeps:
  assumes "\<And>c en reg st. keeps_handlers (run c en reg) st"
  shows "keeps_handlers (main_body su run c) st"
  using assms unfolding keeps_handlers_def main_body_def by (fastforce split: prod.splits sum.splits)

lemma main_restores_logger:
  assumes "\<And>c en reg st. keeps_handlers (run c en reg) st" and "fresh_handlers su (fst st)" and "main su name run st = Done r st1"
  shows "fst st1 = fst st"
  by (rule logging_scope_restores [OF main_body_keeps [OF assms(1)] assms(2) assms(3) [unfolded main_def]])

lemma run_command_keeps: "keeps_handlers (run_command fmt env cmd buffer c en reg) st"
  by (auto simp: keeps_handlers_def run_command_def Let_def split: progress.splits if_splits)

text \<open>A URL of a database in memory is migrated on an engine of its own: no command can use the database.\<close>

lemma memory_database_unusable:
  assumes "in_memory (en_url en)"
  shows "\<exists>e. run_command fmt env cmd buffer c en reg st = Done (Inl e) st"
  using assms by (simp add: run_command_def Let_def)

section \<open>Properties\<close>

text \<open>C27: The application starts. Suppose Alembic runs the revisions of a history in order, the directory of the migrations has no percent sign, and the database of the URL is not in
  memory and either empty or built by a version of the platform, with consistent rows; ids are new, the first commit succeeds, and the settings for logs and alerts are valid.
  Then, in a fresh process, \<^verbatim>\<open>create_app\<close> gives an application that, when it begins to serve, has the engine of this database, the ten handlers of the platform
  and the configured thresholds, with both log handlers installed; the database has the tables of the models and consistent rows, with all old jobs and a job
  for each handler; and when it ends, the logger is as before.\<close>

theorem app_starts:
  assumes "runs_revisions (su_alembic su)" and "37 \<notin> set (su_migrations_dir su)"
    and "u = en_url (create_db_engine (su_environ su) (Some (given_or url (get_database_url (su_environ su)))) False)" and "\<not> in_memory u"
    and "platform_database (ho_schemas h u)" and "wf_db (ho_rows h u)" and "ho_imports h = fresh_process"
    and "inj (su_ids su)" and "range (su_ids su) \<inter> jr_id ` set (t_jobs (ho_rows h u)) = {}" and "su_sync_error su = None"
    and "resolve_log_format (su_lower su) (su_environ su) = Inr f" and "resolve_log_level (su_upper su) (su_levels su) (su_environ su) = Inr v"
    and "fresh_handlers su l" and "from_env (su_int su) (su_float su) (su_environ su) = Inr rules"
  shows "\<exists>app state l1 h1 c. create_app su url queue built None = Inr app
    \<and> app (\<lambda>state st. Done (Inr (state, st)) st) (l, h) = Done (Inr (state, l1, h1)) (l, h1)
    \<and> en_url (as_engine state) = u \<and> as_registry state = map handler_of platform_jobs \<and> as_rules state = rules
    \<and> lo_handlers l1 = lo_handlers l @ [Stream (su_stream_id su) c, as_collector state]
    \<and> schema_ready (snd (ho_schemas h1 u)) \<and> wf_db (ho_rows h1 u)
    \<and> jr_name ` set (t_jobs (ho_rows h1 u)) = jr_name ` set (t_jobs (ho_rows h u))
        \<union> lit ` {''demo-success'', ''demo-failure'', ''demo-slow'', ''demo-cancellable'', ''etl-daily_orders'', ''demo-example_new'',
            ''fault-flaky'', ''fault-slow'', ''fault-hang'', ''fault-ledger''}"
proof -
  let ?url = "given_or url (get_database_url (su_environ su))" and ?reg = "map handler_of platform_jobs"
  let ?en = "create_db_engine (su_environ su) (Some ?url) False"
  obtain s where mig: "migrate su ?url h = (Inr (), h\<lparr>ho_schemas := (ho_schemas h)(u := (Some ''0004'', s))\<rparr>)" and ready: "schema_ready s"
    by (rule migrate_ready [OF assms(1-5)])
  obtain im where reg: "build_registry fresh_process = (Inr ?reg, im)" using build_registry_fresh by blast
  obtain synced d' where sync: "sync_jobs_to_db (su_ids su) (su_now su) ?reg (ho_rows h u) = Inr (synced, d')" "wf_db d'"
    "jr_name ` set (t_jobs d') = jr_name ` set (t_jobs (ho_rows h u)) \<union> lit ` {''demo-success'', ''demo-failure'', ''demo-slow'', ''demo-cancellable'',
        ''etl-daily_orders'', ''demo-example_new'', ''fault-flaky'', ''fault-slow'', ''fault-hang'', ''fault-ledger''}"
    using platform_sync [OF assms(6,8,9), of "su_now su"] by auto
  define h1 where "h1 = h\<lparr>ho_schemas := (ho_schemas h)(u := (Some ''0004'', s)), ho_imports := im, ho_rows := (ho_rows h)(u := d')\<rparr>"
  have eng: "on_engine ?en (session_scope (su_sync_error su) (sync_jobs_to_db (su_ids su) (su_now su) ?reg))
      (h\<lparr>ho_schemas := (ho_schemas h)(u := (Some ''0004'', s)), ho_imports := im\<rparr>) = (Inr synced, h1)"
    using assms(4,10) ready sync(1) by (simp add: on_engine_def assms(3) [symmetric] session_scope_def h1_def)
  let ?q = "case queue of Some q \<Rightarrow> Some q | None \<Rightarrow> build_metrics_queue (su_lower su) (su_environ su (lit ''TASK_PLATFORM_METRICS_QUEUE'')) built"
  define state where "state = (\<lambda>c. \<lparr>as_engine = ?en, as_registry = ?reg, as_collector = c, as_queue = ?q, as_rules = rules\<rparr>)"
  obtain l1 c where l1: "lo_handlers l1 = lo_handlers l @ [Stream (su_stream_id su) c, Collector (su_collector_id su) 20]"
    and run: "logging_scope su (lit ''api'') (\<lambda>c st. Done (Inr (state c, st)) st) (l, h1)
      = Done (Inr (state (Collector (su_collector_id su) 20), l1, h1)) (l, h1)"
    by (rule logging_scope_runs [where service = "lit ''api''" and g = state and ?h0.0 = h1, OF assms(13,11,12)])
  have app: "lifespan su ?url queue built rules (\<lambda>state st. Done (Inr (state, st)) st) (l, h)
      = Done (Inr (state (Collector (su_collector_id su) 20), l1, h1)) (l, h1)"
    using run by (simp add: lifespan_def mig assms(7) reg eng state_def)
  have create: "create_app su url queue built None = Inr (lifespan su ?url queue built rules)" using assms(14) by (simp add: create_app_def Let_def)
  show ?thesis
  proof (intro exI conjI)
    show "create_app su url queue built None = Inr (lifespan su ?url queue built rules)" by (fact create)
    show "lifespan su ?url queue built rules (\<lambda>state st. Done (Inr (state, st)) st) (l, h)
      = Done (Inr (state (Collector (su_collector_id su) 20), l1, h1)) (l, h1)" by (fact app)
    show "lo_handlers l1 = lo_handlers l @ [Stream (su_stream_id su) c, as_collector (state (Collector (su_collector_id su) 20))]"
      by (simp add: l1 state_def)
  qed (use ready sync(2,3) in \<open>simp_all add: state_def assms(3) [symmetric] h1_def\<close>)
qed

text \<open>A process with the default settings and an empty database.\<close>

definition sample_startup :: startup where
  "sample_startup = \<lparr>su_environ = (\<lambda>_. None), su_migrations_dir = lit ''/app/migrations'', su_alembic = sample_alembic, su_expand = Inr, su_ids = sample_ids,
     su_now = utc 5, su_sync_error = None, su_lower = (\<lambda>v. v), su_upper = (\<lambda>v. v), su_levels = (\<lambda>n. if n = lit ''INFO'' then Some 20 else None),
     su_root_level = 30, su_stream_id = 1, su_collector_id = 2, su_int = (\<lambda>v. Inr 0), su_float = (\<lambda>v. Inr 0)\<rparr>"

definition sample_host :: host where
  "sample_host = \<lparr>ho_imports = fresh_process, ho_schemas = (\<lambda>_. (None, empty_schema)), ho_rows = (\<lambda>_. demo_db)\<rparr>"

definition sample_logger :: logger where
  "sample_logger = \<lparr>lo_level = 0, lo_handlers = []\<rparr>"

theorem app_starts_witness:
  "\<exists>app state l1 h1 c. create_app sample_startup None (None :: nat option) (Inl (OtherError [])) None = Inr app
    \<and> app (\<lambda>state st. Done (Inr (state, st)) st) (sample_logger, sample_host) = Done (Inr (state, l1, h1)) (sample_logger, h1)
    \<and> en_url (as_engine state) = DEFAULT_DATABASE_URL \<and> as_registry state = map handler_of platform_jobs \<and> as_rules state = default_rules
    \<and> lo_handlers l1 = lo_handlers sample_logger @ [Stream (su_stream_id sample_startup) c, as_collector state]
    \<and> schema_ready (snd (ho_schemas h1 DEFAULT_DATABASE_URL)) \<and> wf_db (ho_rows h1 DEFAULT_DATABASE_URL)
    \<and> jr_name ` set (t_jobs (ho_rows h1 DEFAULT_DATABASE_URL)) = jr_name ` set (t_jobs (ho_rows sample_host DEFAULT_DATABASE_URL))
        \<union> lit ` {''demo-success'', ''demo-failure'', ''demo-slow'', ''demo-cancellable'', ''etl-daily_orders'', ''demo-example_new'',
            ''fault-flaky'', ''fault-slow'', ''fault-hang'', ''fault-ledger''}"
proof (rule app_starts)
  show "DEFAULT_DATABASE_URL = en_url (create_db_engine (su_environ sample_startup)
      (Some (given_or None (get_database_url (su_environ sample_startup)))) False)"
    by code_simp
  show "\<not> in_memory DEFAULT_DATABASE_URL" by code_simp
  show "runs_revisions (su_alembic sample_startup)" by (simp add: sample_startup_def sample_alembic_runs)
  show "37 \<notin> set (su_migrations_dir sample_startup)" by (simp add: sample_startup_def lit_def)
  show "platform_database (ho_schemas sample_host DEFAULT_DATABASE_URL)" by (simp add: sample_host_def empty_database)
  show "wf_db (ho_rows sample_host DEFAULT_DATABASE_URL)" "ho_imports sample_host = fresh_process" by (simp_all add: sample_host_def)
  show "inj (su_ids sample_startup)" by (simp add: sample_startup_def sample_ids_def inj_def)
  show "range (su_ids sample_startup) \<inter> jr_id ` set (t_jobs (ho_rows sample_host DEFAULT_DATABASE_URL)) = {}"
    by (auto simp: sample_startup_def sample_host_def sample_ids_def lit_def)
  show "su_sync_error sample_startup = None" by (simp add: sample_startup_def)
  show "resolve_log_format (su_lower sample_startup) (su_environ sample_startup) = Inr (lit ''text'')" by code_simp
  show "resolve_log_level (su_upper sample_startup) (su_levels sample_startup) (su_environ sample_startup) = Inr 20" by code_simp
  show "fresh_handlers sample_startup sample_logger" by (simp add: fresh_handlers_def sample_logger_def)
  show "from_env (su_int sample_startup) (su_float sample_startup) (su_environ sample_startup) = Inr default_rules"
    by code_simp
qed

end
