(* ===== verification/Shutdown.thy ===== *)
theory Shutdown
  imports Processes
begin

text \<open>
  Shutdown by signals: \<^verbatim>\<open>stop_on_signals\<close> of \<^verbatim>\<open>runtime.py\<close>, used by \<^verbatim>\<open>dispatch\<close>, \<^verbatim>\<open>worker\<close> and \<^verbatim>\<open>alerts\<close>, and the handlers that
  \<^verbatim>\<open>Scheduler.run_forever\<close> (\<^verbatim>\<open>scheduler.py\<close>) installs itself. The dispositions of the signals are a table; \<^verbatim>\<open>signal.signal\<close> returns \<^verbatim>\<open>None\<close> for a handler
  that was not installed from Python (\<open>Foreign\<close>). The numbers of the named signals of a platform are a parameter. The input of a loop is a list of periods: the
  signals delivered since the loop last looked at its flag, and what the next step reads.
\<close>

section \<open>Dispositions\<close>

datatype disposition = SIG_DFL | SIG_IGN | PyHandler nat | Foreign

type_synonym signals = "int \<Rightarrow> disposition"

definition signal_signal :: "int \<Rightarrow> disposition \<Rightarrow> signals \<Rightarrow> disposition option \<times> signals" where
  "signal_signal sig h tbl = (if tbl sig = Foreign then None else Some (tbl sig), tbl(sig := h))"

section \<open>Stop events\<close>

text \<open>\<open>n\<close> is the identity of the handler that sets the event.\<close>

fun install_each :: "(pystr \<Rightarrow> int option) \<Rightarrow> nat \<Rightarrow> pystr list \<Rightarrow> (int \<times> disposition option) list \<Rightarrow> signals \<Rightarrow> (int \<times> disposition option) list \<times> signals" where
  "install_each number n [] previous tbl = (previous, tbl)"
| "install_each number n (name # names) previous tbl =
     (case number name of
        None \<Rightarrow> install_each number n names previous tbl
      | Some sig \<Rightarrow>
          (let (old, tbl1) = signal_signal sig (PyHandler n) tbl in install_each number n names (AList.update sig old previous) tbl1))"

fun restore_each :: "(int \<times> disposition option) list \<Rightarrow> signals \<Rightarrow> signals" where
  "restore_each [] tbl = tbl"
| "restore_each ((sig, None) # previous) tbl = restore_each previous tbl"
| "restore_each ((sig, Some h) # previous) tbl = restore_each previous (snd (signal_signal sig h tbl))"

text \<open>The body of the block works on a state that contains the table; a body that has not ended leaves the handlers installed.\<close>

definition stop_on_signals ::
  "(pystr \<Rightarrow> int option) \<Rightarrow> nat \<Rightarrow> (signals \<Rightarrow> 's \<Rightarrow> (signals \<times> 's, 'a) progress) \<Rightarrow> signals \<Rightarrow> 's \<Rightarrow> (signals \<times> 's, 'a) progress" where
  "stop_on_signals number n body tbl s =
     (let (previous, tbl1) = install_each number n [lit ''SIGINT'', lit ''SIGTERM''] [] tbl in
      case body tbl1 s of
        Waiting s1 \<Rightarrow> Waiting s1
      | Done r (tbl2, s1) \<Rightarrow> Done r (restore_each previous tbl2, s1))"

text \<open>A delivered signal sets the event if its disposition is the handler of the event, which stays set.\<close>

record 'i period =
  pe_signals :: "int list"
  pe_input :: 'i

definition sets_event :: "signals \<Rightarrow> nat \<Rightarrow> 'i period \<Rightarrow> bool" where
  "sets_event tbl n p \<longleftrightarrow> list_ex (\<lambda>sig. tbl sig = PyHandler n) (pe_signals p)"

fun signal_turns :: "signals \<Rightarrow> nat \<Rightarrow> bool \<Rightarrow> 'i period list \<Rightarrow> 'i turn list" where
  "signal_turns tbl n ev [] = []"
| "signal_turns tbl n ev (p # ps) =
     (let ev1 = (ev \<or> sets_event tbl n p) in \<lparr>tn_stop = ev1, tn_input = pe_input p\<rparr> # signal_turns tbl n ev1 ps)"

definition stoppable_loop ::
  "(pystr \<Rightarrow> int option) \<Rightarrow> nat \<Rightarrow> ('i \<Rightarrow> 's \<Rightarrow> ('s, 'a) progress) \<Rightarrow> pyfloat \<Rightarrow> pyfloat \<Rightarrow> 'i period list \<Rightarrow> signals \<Rightarrow> 's \<Rightarrow> (signals \<times> 's, unit) progress" where
  "stoppable_loop number n step interval error_backoff periods =
     stop_on_signals number n (\<lambda>tbl s.
       case snd (run_loop step interval error_backoff (signal_turns tbl n False periods) s) of
         Waiting s1 \<Rightarrow> Waiting (tbl, s1)
       | Done r s1 \<Rightarrow> Done r (tbl, s1))"

section \<open>The handlers of the scheduler\<close>

text \<open>\<^verbatim>\<open>signal.signal(sig, None)\<close> raises \<^verbatim>\<open>TypeError\<close>.\<close>

definition restore_previous :: "int \<Rightarrow> disposition option \<Rightarrow> signals \<Rightarrow> (exn + unit) \<times> signals" where
  "restore_previous sig old tbl =
     (case old of
        None \<Rightarrow> (Inl TypeError, tbl)
      | Some h \<Rightarrow> (Inr (), snd (signal_signal sig h tbl)))"

text \<open>The flag is set to run after the handlers are installed: a signal delivered in between has no effect, so that only the periods of the loop count.\<close>

definition serve_until_signal ::
  "int \<Rightarrow> int option \<Rightarrow> nat \<Rightarrow> ('i \<Rightarrow> 's \<Rightarrow> ('s, unit) progress) \<Rightarrow> 'i period list \<Rightarrow> signals \<Rightarrow> 's \<Rightarrow> (signals \<times> 's, unit) progress" where
  "serve_until_signal sigint sigterm n step periods tbl s =
     (let (previous_sigint, tbl1) = signal_signal sigint (PyHandler n) tbl;
          (previous_sigterm, tbl2) = (case sigterm of None \<Rightarrow> (None, tbl1) | Some sig \<Rightarrow> signal_signal sig (PyHandler n) tbl1)
      in case run_forever step (signal_turns tbl2 n False periods) s of
           Waiting s1 \<Rightarrow> Waiting (tbl2, s1)
         | Done r s1 \<Rightarrow>
             (case restore_previous sigint previous_sigint tbl2 of
                (Inl e, tbl3) \<Rightarrow> Done (Inl e) (tbl3, s1)
              | (Inr _, tbl3) \<Rightarrow>
                  (case (sigterm, previous_sigterm) of
                     (Some sig, Some h) \<Rightarrow> Done r (snd (signal_signal sig h tbl3), s1)
                   | _ \<Rightarrow> Done r (tbl3, s1))))"

section \<open>Handlers are put back\<close>

text \<open>The signals that stop a process on this platform.\<close>

definition stop_signals :: "(pystr \<Rightarrow> int option) \<Rightarrow> int set" where
  "stop_signals number = {sig. number (lit ''SIGINT'') = Some sig \<or> number (lit ''SIGTERM'') = Some sig}"

lemma names_differ: "lit ''SIGINT'' \<noteq> lit ''SIGTERM''"
  by (simp add: lit_def)

text \<open>While the block runs, exactly the stop signals have the handler of the event; afterwards the table is as before, but a handler that was not
  installed from Python cannot be put back.\<close>

lemma restore_installed:
  "tbl1 sig = PyHandler n \<Longrightarrow> restore_each [(sig, fst (signal_signal sig h tbl))] tbl1 = tbl1(sig := if tbl sig = Foreign then PyHandler n else tbl sig)"
  by (auto simp: signal_signal_def)

lemma restore_each_append: "restore_each (xs @ ys) tbl = restore_each ys (restore_each xs tbl)"
  by (induction xs tbl rule: restore_each.induct) simp_all

lemma install_restore:
  assumes "number (lit ''SIGINT'') \<noteq> number (lit ''SIGTERM'') \<or> number (lit ''SIGINT'') = None"
    and "install_each number n [lit ''SIGINT'', lit ''SIGTERM''] [] tbl = (previous, tbl1)"
  shows "tbl1 = (\<lambda>sig. if sig \<in> stop_signals number then PyHandler n else tbl sig)"
    and "restore_each previous tbl1 = (\<lambda>sig. if sig \<in> stop_signals number \<and> tbl sig = Foreign then PyHandler n else tbl sig)"
proof -
  have pair: "{sig. a = sig \<or> b = sig} = {a, b}" for a b :: int by blast
  consider (none) "stop_signals number = {}" "previous = []" "tbl1 = tbl"
    | (one) a where "stop_signals number = {a}" "previous = [(a, fst (signal_signal a SIG_DFL tbl))]" "tbl1 = tbl(a := PyHandler n)"
    | (two) a b where "stop_signals number = {a, b}" "a \<noteq> b" "tbl1 = tbl(a := PyHandler n, b := PyHandler n)"
        "previous = [(a, fst (signal_signal a SIG_DFL tbl)), (b, fst (signal_signal b SIG_DFL tbl))]"
    using assms by (cases "number (lit ''SIGINT'')"; cases "number (lit ''SIGTERM'')") (auto simp: stop_signals_def signal_signal_def pair)
  then have "tbl1 = (\<lambda>sig. if sig \<in> stop_signals number then PyHandler n else tbl sig)
    \<and> restore_each previous tbl1 = (\<lambda>sig. if sig \<in> stop_signals number \<and> tbl sig = Foreign then PyHandler n else tbl sig)"
  proof cases
    case one
    then show ?thesis by (auto simp: restore_installed simp del: restore_each.simps)
  next
    case two
    let ?ra = "(a, fst (signal_signal a SIG_DFL tbl))" and ?rb = "(b, fst (signal_signal b SIG_DFL tbl))"
    have "restore_each previous tbl1 = restore_each [?rb] (restore_each [?ra] tbl1)"
      using restore_each_append [of "[?ra]" "[?rb]"] two(4) by simp
    also have "restore_each [?ra] tbl1 = tbl1(a := if tbl a = Foreign then PyHandler n else tbl a)"
      by (rule restore_installed) (simp add: two(2,3))
    also have "restore_each [?rb] \<dots> = tbl1(a := if tbl a = Foreign then PyHandler n else tbl a, b := if tbl b = Foreign then PyHandler n else tbl b)"
      by (rule restore_installed) (use two(2,3) in auto)
    finally have r: "restore_each previous tbl1
      = tbl1(a := if tbl a = Foreign then PyHandler n else tbl a, b := if tbl b = Foreign then PyHandler n else tbl b)" .
    show ?thesis unfolding r unfolding two(1,3) by auto
  qed auto
  then show "tbl1 = (\<lambda>sig. if sig \<in> stop_signals number then PyHandler n else tbl sig)"
    and "restore_each previous tbl1 = (\<lambda>sig. if sig \<in> stop_signals number \<and> tbl sig = Foreign then PyHandler n else tbl sig)"
    by blast+
qed

section \<open>Stopping\<close>

lemma signal_turns_quiet: "\<forall>p \<in> set ps. \<not> sets_event tbl n p \<Longrightarrow>
    signal_turns tbl n False (ps @ qs) = map (\<lambda>p. \<lparr>tn_stop = False, tn_input = pe_input p\<rparr>) ps @ signal_turns tbl n False qs"
  by (induction ps) auto

text \<open>The steps a loop takes before the flag is set.\<close>

lemma run_loop_stops:
  assumes "\<forall>p \<in> set ps. \<forall>s. \<exists>r s'. step (pe_input p) s = Done r s'"
  shows "snd (run_loop step iv bo (map (\<lambda>p. \<lparr>tn_stop = False, tn_input = pe_input p\<rparr>) ps @ \<lparr>tn_stop = True, tn_input = i\<rparr> # ts) s)
    = Done (Inr ()) (foldl (\<lambda>s p. state_of (step (pe_input p) s)) s ps)"
  using assms
proof (induction ps arbitrary: s)
  case (Cons p ps)
  from Cons.prems obtain r s' where "step (pe_input p) s = Done r s'" by (metis list.set_intros(1))
  with Cons show ?case by (auto simp: split_beta Let_def split: sum.splits)
qed simp

lemma run_forever_stops:
  assumes "\<forall>p \<in> set ps. \<forall>s. \<exists>s'. step (pe_input p) s = Done (Inr ()) s'"
  shows "run_forever step (map (\<lambda>p. \<lparr>tn_stop = False, tn_input = pe_input p\<rparr>) ps @ \<lparr>tn_stop = True, tn_input = i\<rparr> # ts) s
    = Done (Inr ()) (foldl (\<lambda>s p. state_of (step (pe_input p) s)) s ps)"
  using assms
proof (induction ps arbitrary: s)
  case (Cons p ps)
  from Cons.prems obtain s' where "step (pe_input p) s = Done (Inr ()) s'" by (metis list.set_intros(1))
  with Cons show ?case by auto
qed simp

text \<open>\<^verbatim>\<open>serve\<close> stops in the same way when each of its turns succeeds, if \<^verbatim>\<open>SIGINT\<close> had a handler of Python; otherwise it ends with a \<^verbatim>\<open>TypeError\<close> after its last turn.\<close>

lemma serve_stops:
  assumes "\<And>sig. tbl sig \<noteq> PyHandler n" and "sigterm \<noteq> Some sigint"
    and "\<forall>p \<in> set ps. set (pe_signals p) \<inter> insert sigint (set_option sigterm) = {}"
    and "set (pe_signals q) \<inter> insert sigint (set_option sigterm) \<noteq> {}"
    and "\<forall>p \<in> set ps. \<forall>s. \<exists>s'. step (pe_input p) s = Done (Inr ()) s'"
  shows "\<exists>tbl'. serve_until_signal sigint sigterm n step (ps @ q # qs) tbl s
      = Done (if tbl sigint = Foreign then Inl TypeError else Inr ()) (tbl', foldl (\<lambda>s p. state_of (step (pe_input p) s)) s ps)
    \<and> ((\<forall>sig. tbl sig \<noteq> Foreign) \<longrightarrow> tbl' = tbl)"
proof -
  define t where "t = (\<lambda>sig. if sig \<in> insert sigint (set_option sigterm) then PyHandler n else tbl sig)"
  have "\<forall>p \<in> set ps. \<not> sets_event t n p" using assms(1,3) by (auto simp: sets_event_def t_def list_ex_iff)
  moreover have "sets_event t n q" using assms(4) by (auto simp: sets_event_def t_def list_ex_iff)
  ultimately have "run_forever step (signal_turns t n False (ps @ q # qs)) s = Done (Inr ()) (foldl (\<lambda>s p. state_of (step (pe_input p) s)) s ps)"
    by (simp add: signal_turns_quiet Let_def run_forever_stops [OF assms(5)])
  moreover have "t = (case sigterm of None \<Rightarrow> tbl(sigint := PyHandler n) | Some sig \<Rightarrow> (tbl(sigint := PyHandler n))(sig := PyHandler n))"
    by (auto simp: t_def fun_eq_iff split: option.splits)
  ultimately show ?thesis
    using assms(2)
    by (cases sigterm) (auto simp: serve_until_signal_def signal_signal_def restore_previous_def Let_def fun_upd_twist)
qed

section \<open>Properties\<close>

text \<open>C28: A signal shuts a process down gracefully. Suppose the steps of the loop return or raise, and the first stop signal (\<^verbatim>\<open>SIGINT\<close> or \<^verbatim>\<open>SIGTERM\<close>, where the platform has
  it) is delivered after some steps. Then the process takes exactly these steps, the one in progress to its end, even if some raise, and leaves the
  loop normally; the signals have the handlers they had before, except where such a handler was not installed from Python.\<close>

theorem graceful_shutdown:
  assumes "number (lit ''SIGINT'') \<noteq> number (lit ''SIGTERM'') \<or> number (lit ''SIGINT'') = None" and "\<And>sig. tbl sig \<noteq> PyHandler n"
    and "\<forall>p \<in> set ps. set (pe_signals p) \<inter> stop_signals number = {}" and "set (pe_signals q) \<inter> stop_signals number \<noteq> {}"
    and "\<forall>p \<in> set ps. \<forall>s. \<exists>r s'. step (pe_input p) s = Done r s'"
  shows "stoppable_loop number n step interval error_backoff (ps @ q # qs) tbl s
    = Done (Inr ()) (\<lambda>sig. if sig \<in> stop_signals number \<and> tbl sig = Foreign then PyHandler n else tbl sig,
        foldl (\<lambda>s p. state_of (step (pe_input p) s)) s ps)"
proof -
  obtain previous t where inst: "install_each number n [lit ''SIGINT'', lit ''SIGTERM''] [] tbl = (previous, t)" by fastforce
  note t = install_restore [OF assms(1) inst]
  have "\<forall>p \<in> set ps. \<not> sets_event t n p" using assms(2,3) by (auto simp: sets_event_def t(1) list_ex_iff)
  moreover have "sets_event t n q" using assms(4) by (auto simp: sets_event_def t(1) list_ex_iff)
  ultimately have "snd (run_loop step interval error_backoff (signal_turns t n False (ps @ q # qs)) s)
      = Done (Inr ()) (foldl (\<lambda>s p. state_of (step (pe_input p) s)) s ps)"
    by (simp add: signal_turns_quiet Let_def run_loop_stops [OF assms(5)])
  then show ?thesis by (simp add: stoppable_loop_def stop_on_signals_def inst t(2) del: install_each.simps)
qed

text \<open>The alert process checks once, then receives \<^verbatim>\<open>SIGTERM\<close>.\<close>

definition posix_number :: "pystr \<Rightarrow> int option" where
  "posix_number name = (if name = lit ''SIGINT'' then Some 2 else if name = lit ''SIGTERM'' then Some 15 else None)"

definition sample_alert_input :: "MemoryQueue alert_input" where
  "sample_alert_input = \<lparr>ai_error = None, ai_queue = None, ai_now = utc 0, ai_db = demo_db\<rparr>"

theorem graceful_shutdown_witness:
  "stoppable_loop posix_number 7 (alert_step default_rules (lit ''jobs'')) 5 1
     ([\<lparr>pe_signals = [17], pe_input = sample_alert_input\<rparr>] @ \<lparr>pe_signals = [15], pe_input = sample_alert_input\<rparr> # []) (\<lambda>sig. SIG_DFL) AlertTracker_init
   = Done (Inr ()) (\<lambda>sig. SIG_DFL, state_of (alert_step default_rules (lit ''jobs'') sample_alert_input AlertTracker_init))"
  by (subst graceful_shutdown) (auto simp: posix_number_def stop_signals_def names_differ alert_step_def split: prod.splits)

end
