(* ===== verification/Etl_Benchmark.thy ===== *)
theory Etl_Benchmark
  imports Etl_Daily
begin

text \<open>
  The scale check of the order pipeline (\<^verbatim>\<open>etl/benchmark.py\<close>): the same orders streamed through the pipeline, collected in a list first, or written out by
  the daily job. A generator is the orders it yields and the exception it ends with, if any. The clock, the peak of the traced memory and the draws
  of the generators are inputs. Parsing of arguments and printing are left out.
\<close>

section \<open>Generators\<close>

text \<open>What \<^verbatim>\<open>generate_orders\<close> yields before it ends or raises.\<close>

fun emitted_orders ::
  "(int \<Rightarrow> order_draws) \<Rightarrow> datetime \<Rightarrow> pyfloat \<Rightarrow> int list \<Rightarrow> pystr option \<Rightarrow> RawOrder list \<times> exn option" where
  "emitted_orders draws now dirty_ratio [] last_emitted_id = ([], None)"
| "emitted_orders draws now dirty_ratio (i # is) last_emitted_id =
     (case add_timedelta now (- (od_age_seconds (draws i) * us_per_second)) of
        Inl e \<Rightarrow> ([], Some e)
      | Inr created_at \<Rightarrow>
          case inject (draws i) now last_emitted_id (draw_kind (draws i) dirty_ratio last_emitted_id) (clean_order (draws i) i created_at) of
            Inl e \<Rightarrow> ([], Some e)
          | Inr x \<Rightarrow>
              (let (rest, e) = emitted_orders draws now dirty_ratio is (if ro_order_id x \<noteq> None then ro_order_id x else last_emitted_id)
               in (x # rest, e)))"

definition order_generator :: "(int \<Rightarrow> order_draws) \<Rightarrow> int \<Rightarrow> pyfloat \<Rightarrow> TestDataFactory \<Rightarrow> RawOrder list \<times> exn option" where
  "order_generator draws n_orders dirty_ratio f =
     (if n_orders < 0 then ([], Some (ValueError (lit ''count must be >= 0'')))
      else if \<not> (0 \<le> dirty_ratio \<and> dirty_ratio \<le> 1) then ([], Some (ValueError (lit ''dirty_ratio must be in [0, 1]'')))
      else emitted_orders draws (tf_now f) dirty_ratio [1..n_orders] None)"

lemma emitted_orders_label:
  "case label_orders draws now ratio is prev of
     Inl e \<Rightarrow> snd (emitted_orders draws now ratio is prev) = Some e
   | Inr xs \<Rightarrow> emitted_orders draws now ratio is prev = (map fst xs, None)"
proof (induction "is" arbitrary: prev)
  case (Cons i "is")
  let ?next = "\<lambda>x. if ro_order_id x \<noteq> None then ro_order_id x else prev"
  show ?case
  proof (cases "add_timedelta now (- (od_age_seconds (draws i) * us_per_second))")
    case (Inr t)
    then show ?thesis
    proof (cases "inject (draws i) now prev (draw_kind (draws i) ratio prev) (clean_order (draws i) i t)")
      fix x
      assume x: "inject (draws i) now prev (draw_kind (draws i) ratio prev) (clean_order (draws i) i t) = Inr x"
      show ?thesis
        using Cons.IH [of "?next x"] by (cases "label_orders draws now ratio is (?next x)") (simp_all add: Inr x Let_def split_beta)
    qed (simp add: Let_def)
  qed simp
qed simp

lemma order_generator_list:
  "case generate_orders draws n ratio f of
     Inl e \<Rightarrow> snd (order_generator draws n ratio f) = Some e
   | Inr xs \<Rightarrow> order_generator draws n ratio f = (xs, None)"
  using emitted_orders_label [of draws "tf_now f" ratio "[1..n]" None]
  by (auto simp: generate_orders_def generate_labeled_orders_def order_generator_def split: sum.splits)

section \<open>The runs\<close>

definition benchmark_factory :: "DailyOrdersConfig \<Rightarrow> exn + TestDataFactory" where
  "benchmark_factory cfg = TestDataFactory_init (dc_seed cfg) (dc_user_pool_size cfg) (dc_product_pool_size cfg) (dc_now cfg)"

definition row_counts :: "PipelineResult \<Rightarrow> int \<times> int" where
  "row_counts res = (qr_total_rows (pl_quality res), qr_quarantined_rows (pl_quality res))"

text \<open>The pipeline first pulls all users, then the orders one by one: an exception of the generator comes after those of the orders it has yielded.\<close>

definition streaming ::
  "(bool \<Rightarrow> fval \<Rightarrow> pystr) \<Rightarrow> (int \<Rightarrow> user_draws) \<Rightarrow> (int \<Rightarrow> order_draws) \<Rightarrow> DailyOrdersConfig \<Rightarrow> exn + int \<times> int" where
  "streaming pr user_draws order_draws cfg =
     (case benchmark_factory cfg of
        Inl e \<Rightarrow> Inl e
      | Inr f \<Rightarrow>
          (case generate_users user_draws f of
             Inl e \<Rightarrow> Inl e
           | Inr users \<Rightarrow>
               (let (orders, err) = order_generator order_draws (dc_order_count cfg) (dc_dirty_ratio cfg) f in
                case fst (run_orders_pipeline pr orders users (dc_now cfg)) of
                  Inl e \<Rightarrow> Inl e
                | Inr res \<Rightarrow> (case err of Some e \<Rightarrow> Inl e | None \<Rightarrow> Inr (row_counts res)))))"

definition materialized ::
  "(bool \<Rightarrow> fval \<Rightarrow> pystr) \<Rightarrow> (int \<Rightarrow> user_draws) \<Rightarrow> (int \<Rightarrow> order_draws) \<Rightarrow> DailyOrdersConfig \<Rightarrow> exn + int \<times> int" where
  "materialized pr user_draws order_draws cfg =
     (case benchmark_factory cfg of
        Inl e \<Rightarrow> Inl e
      | Inr f \<Rightarrow>
          (case order_generator order_draws (dc_order_count cfg) (dc_dirty_ratio cfg) f of
             (_, Some e) \<Rightarrow> Inl e
           | (orders, None) \<Rightarrow>
               (case generate_users user_draws f of
                  Inl e \<Rightarrow> Inl e
                | Inr users \<Rightarrow> (case fst (run_orders_pipeline pr orders users (dc_now cfg)) of Inl e \<Rightarrow> Inl e | Inr res \<Rightarrow> Inr (row_counts res)))))"

definition etl_run ::
  "(bool \<Rightarrow> fval \<Rightarrow> pystr) \<Rightarrow> (rat \<Rightarrow> pystr) \<Rightarrow> pystr \<Rightarrow> (int \<Rightarrow> user_draws) \<Rightarrow> (int \<Rightarrow> order_draws) \<Rightarrow> DailyOrdersConfig \<Rightarrow> exn + int \<times> int" where
  "etl_run pr dec_str tmp user_draws order_draws cfg =
     (case run_daily_orders_etl pr dec_str user_draws order_draws cfg (tmp @ lit ''/run'') of
        Inl e \<Rightarrow> Inl e
      | Inr (summary, files) \<Rightarrow> Inr (es_total_rows summary, es_quarantined_rows summary))"

definition MODES :: "pystr list" where
  "MODES = [lit ''streaming'', lit ''materialized'', lit ''etl'']"

record benchmark_env =
  be_print :: "bool \<Rightarrow> fval \<Rightarrow> pystr"
  be_decimal :: "rat \<Rightarrow> pystr"
  be_tmp :: pystr
  be_users :: "int \<Rightarrow> user_draws"
  be_orders :: "int \<Rightarrow> order_draws"
  be_start :: pyfloat
  be_end :: pyfloat
  be_peak :: int

definition RUNNERS :: "benchmark_env \<Rightarrow> (pystr \<times> (DailyOrdersConfig \<Rightarrow> exn + int \<times> int)) list" where
  "RUNNERS env =
     [(lit ''streaming'', streaming (be_print env) (be_users env) (be_orders env)),
      (lit ''materialized'', materialized (be_print env) (be_users env) (be_orders env)),
      (lit ''etl'', etl_run (be_print env) (be_decimal env) (be_tmp env) (be_users env) (be_orders env))]"

record BenchmarkResult =
  br_mode :: pystr
  br_count :: int
  br_total_rows :: int
  br_quarantined_rows :: int
  br_elapsed_seconds :: pyfloat
  br_peak_mb :: "pyfloat option"

text \<open>The second result is whether memory is being traced afterwards.\<close>

definition benchmark :: "benchmark_env \<Rightarrow> pystr \<Rightarrow> int \<Rightarrow> pyfloat \<Rightarrow> bool \<Rightarrow> bool \<Rightarrow> (exn + BenchmarkResult) \<times> bool" where
  "benchmark env mode n_orders dirty_ratio measure_memory tracing =
     (let cfg = default_config\<lparr>dc_order_count := n_orders, dc_dirty_ratio := dirty_ratio\<rparr> in
      case map_of (RUNNERS env) mode of
        None \<Rightarrow> (Inl (KeyError mode), tracing)
      | Some runner \<Rightarrow>
          (case runner cfg of
             Inl e \<Rightarrow> Inl e
           | Inr (total_rows, quarantined) \<Rightarrow>
               Inr \<lparr>br_mode = mode, br_count = n_orders, br_total_rows = total_rows, br_quarantined_rows = quarantined,
                    br_elapsed_seconds = be_end env - be_start env,
                    br_peak_mb = (if measure_memory then Some (of_int (be_peak env) / 1024 / 1024) else None)\<rparr>,
           tracing \<and> \<not> measure_memory))"

section \<open>The modes agree\<close>

lemma streaming_materialized: "streaming pr ud od cfg = Inr r \<longleftrightarrow> materialized pr ud od cfg = Inr r"
  by (auto simp: streaming_def materialized_def split: sum.splits prod.splits option.splits)

text \<open>The draws are in their ranges, and there are few enough orders for exact sums.\<close>

definition benchmark_draws_ok :: "benchmark_env \<Rightarrow> DailyOrdersConfig \<Rightarrow> bool" where
  "benchmark_draws_ok env cfg \<longleftrightarrow> dc_order_count cfg \<le> 10 ^ 20
     \<and> (\<forall>i \<in> {1..dc_order_count cfg}. \<forall>f. tf_user_pool_size f = dc_user_pool_size cfg \<longrightarrow> order_draws_ok f (be_orders env i))"

lemma benchmark_report_ok:
  assumes "benchmark_draws_ok env cfg" and "benchmark_factory cfg = Inr f" and "order_generator (be_orders env) (dc_order_count cfg) (dc_dirty_ratio cfg) f = (orders, None)"
    and "run_orders_pipeline pr orders users (dc_now cfg) = (Inr res, quarantine)"
  shows "\<exists>rows. daily_report_rows dec_str res = Inr rows"
proof (rule report_ok [OF _ _ _ assms(4)])
  have f: "tf_user_pool_size f = dc_user_pool_size cfg" "tf_user_pool_size f < 999999" "tf_now f = dc_now cfg"
    using assms(2) by (auto simp: benchmark_factory_def TestDataFactory_init_def split: if_splits)
  obtain labeled where l: "label_orders (be_orders env) (tf_now f) (dc_dirty_ratio cfg) [1..dc_order_count cfg] None = Inr labeled" "orders = map fst labeled"
    and n: "0 \<le> dc_order_count cfg"
    using emitted_orders_label [of "be_orders env" "tf_now f" "dc_dirty_ratio cfg" "[1..dc_order_count cfg]" None] assms(3)
    by (auto simp: order_generator_def split: if_splits sum.splits)
  have ok: "\<forall>i \<in> set [1..dc_order_count cfg]. order_draws_ok f (be_orders env i)"
    using assms(1) f(1) by (simp add: benchmark_draws_ok_def)
  show "\<forall>x \<in> set orders. comparable (dc_now cfg) x"
    using label_orders_truth [OF f(2) l(1) ok distinct_order_ids, of "{}"] by (simp add: l(2) f(3))
  show "\<forall>x \<in> set orders. \<bar>order_amount x\<bar> \<le> 40000" using label_orders_amounts [OF l(1) ok] by (simp add: l(2))
  have "int (length orders) = dc_order_count cfg" using label_orders_length [OF l(1)] n by (simp add: l(2))
  with assms(1) have "int (length orders) \<le> int (10 ^ 20)" by (simp add: benchmark_draws_ok_def)
  then show "length orders \<le> 10 ^ 20" by (simp only: of_nat_le_iff)
qed

lemma materialized_etl:
  assumes "benchmark_draws_ok env cfg"
  shows "materialized pr ud (be_orders env) cfg = Inr r \<longleftrightarrow> etl_run pr dec_str tmp ud (be_orders env) cfg = Inr r"
proof (cases "benchmark_factory cfg")
  case (Inr f)
  have "\<exists>rows. daily_report_rows dec_str res = Inr rows"
    if "order_generator (be_orders env) (dc_order_count cfg) (dc_dirty_ratio cfg) f = (orders, None)"
      and "run_orders_pipeline pr orders users (dc_now cfg) = (Inr res, q)" for orders users res q
    using benchmark_report_ok [OF assms Inr that] .
  then show ?thesis
    using order_generator_list [of "be_orders env" "dc_order_count cfg" "dc_dirty_ratio cfg" f] Inr
    by (fastforce simp: materialized_def etl_run_def run_daily_orders_etl_def benchmark_factory_def row_counts_def split: sum.splits prod.splits option.splits)
qed (simp add: materialized_def etl_run_def run_daily_orders_etl_def benchmark_factory_def)

lemma runners_agree:
  assumes "benchmark_draws_ok env cfg" and "map_of (RUNNERS env) m1 = Some f" and "map_of (RUNNERS env) m2 = Some g" and "f cfg = Inr r"
  shows "g cfg = Inr r"
  using assms streaming_materialized [of "be_print env" "be_users env" "be_orders env" cfg r]
    materialized_etl [OF assms(1), of "be_print env" "be_users env" r "be_decimal env" "be_tmp env"]
  by (auto simp: RUNNERS_def split: if_splits)

lemma runner_of_mode: "m \<in> set MODES \<Longrightarrow> \<exists>f. map_of (RUNNERS env) m = Some f"
  by (auto simp: MODES_def RUNNERS_def)

lemma benchmark_Inr:
  "map_of (RUNNERS env) m = Some f \<Longrightarrow> fst (benchmark env m n ratio mem tr) = Inr r \<longleftrightarrow>
   (\<exists>x. f (default_config\<lparr>dc_order_count := n, dc_dirty_ratio := ratio\<rparr>) = Inr x
      \<and> r = \<lparr>br_mode = m, br_count = n, br_total_rows = fst x, br_quarantined_rows = snd x, br_elapsed_seconds = be_end env - be_start env,
             br_peak_mb = (if mem then Some (of_int (be_peak env) / 1024 / 1024) else None)\<rparr>)"
  by (auto simp: benchmark_def Let_def split: sum.splits prod.splits)

section \<open>Properties\<close>

text \<open>The modes of the benchmark process the same data: for draws in their ranges and at most \<open>10 ^ 20\<close> orders, when a run in one mode succeeds, a run in any other mode with
  the same draws succeeds, whatever the clock and the traced memory, and counts the same rows and the same quarantined rows. Memory is not traced any more after a run that measured it.\<close>

theorem benchmark_modes_agree:
  assumes "m1 \<in> set MODES" and "m2 \<in> set MODES" and "fst (benchmark env m1 n ratio mem1 tr1) = Inr r1"
    and "benchmark_draws_ok env (default_config\<lparr>dc_order_count := n, dc_dirty_ratio := ratio\<rparr>)"
  shows "\<exists>r2. benchmark (env\<lparr>be_start := a, be_end := b, be_peak := c\<rparr>) m2 n ratio mem2 tr2 = (Inr r2, tr2 \<and> \<not> mem2)
    \<and> br_total_rows r2 = br_total_rows r1 \<and> br_quarantined_rows r2 = br_quarantined_rows r1"
proof -
  let ?env = "env\<lparr>be_start := a, be_end := b, be_peak := c\<rparr>"
  obtain f g where f: "map_of (RUNNERS env) m1 = Some f" and g: "map_of (RUNNERS env) m2 = Some g"
    using runner_of_mode [OF assms(1)] runner_of_mode [OF assms(2)] by blast
  have same: "RUNNERS ?env = RUNNERS env" by (simp add: RUNNERS_def)
  from assms(3) obtain x where x: "f (default_config\<lparr>dc_order_count := n, dc_dirty_ratio := ratio\<rparr>) = Inr x"
    "br_total_rows r1 = fst x" "br_quarantined_rows r1 = snd x"
    by (auto simp: benchmark_Inr [OF f])
  from runners_agree [OF assms(4) f g x(1)] x(2,3) g show ?thesis
    by (cases x) (auto simp: benchmark_def Let_def same)
qed

text \<open>One order with the default sizes of the pools.\<close>

definition sample_benchmark :: benchmark_env where
  "sample_benchmark = \<lparr>be_print = (\<lambda>_ _. []), be_decimal = (\<lambda>_. []), be_tmp = lit ''/tmp/x'', be_users = sample_user_draws, be_orders = sample_draws,
     be_start = 0, be_end = 1, be_peak = 0\<rparr>"

lemma sample_streaming:
  "streaming (\<lambda>_ _. []) sample_user_draws sample_draws (default_config\<lparr>dc_order_count := 1, dc_dirty_ratio := 1\<rparr>) = Inr (1, 1)"
proof -
  let ?cfg = "default_config\<lparr>dc_order_count := 1, dc_dirty_ratio := 1\<rparr>"
  obtain f where f: "benchmark_factory ?cfg = Inr f" "tf_user_pool_size f = 1000" "tf_now f = DEFAULT_NOW"
    by (simp add: benchmark_factory_def default_config_def TestDataFactory_init_def DEFAULT_NOW_def)
  obtain t where "add_timedelta DEFAULT_NOW (- (10 * us_per_day)) = Inr t"
    by (simp add: add_timedelta_def mk_datetime_def DEFAULT_NOW_def)
  then obtain users where users: "generate_users sample_user_draws f = Inr users"
    by (simp add: generate_users_def f(3) sample_user_draws_def mapM_all_Inr [OF refl])
  obtain x where x: "order_generator sample_draws 1 1 f = ([x], None)" "generate_labeled_orders sample_draws 1 1 f = Inr [(x, Some ORPHAN_USER)]"
    by (simp add: order_generator_def generate_labeled_orders_def f(3) sample_draws_def add_timedelta_def mk_datetime_def DEFAULT_NOW_def upto_rec1
        draw_kind_def inject_def Let_def)
  have ok: "order_draws_ok f (sample_draws i)" for i
    by (simp add: order_draws_ok_def sample_draws_def f(2) VALID_ORDER_STATUSES_def DIRTY_KINDS_def DISCOUNTS_def)
  have "label_orders sample_draws (tf_now f) 1 [1] None = Inr [(x, Some ORPHAN_USER)]"
    using x(2) by (simp add: generate_labeled_orders_def upto_rec1)
  from label_orders_truth [OF _ this, of "{}"] ok f(2)
  have "bad_orders (user_id_of ` {1..1000}) {} [x] = [x]" "comparable DEFAULT_NOW x"
    by (simp_all add: must_quarantine_def f(3))
  moreover have "good_orders (u_user_id ` set users) {} [x] = []"
    using calculation(1) generated_user_ids [OF users] f(2) by (auto split: if_splits)
  ultimately have "\<forall>y \<in> set [x]. comparable DEFAULT_NOW y" "\<forall>y \<in> set (good_orders (u_user_id ` set users) {} [x]). \<not> too_large (order_amount y)"
    and bad: "bad_orders (user_id_of ` {1..1000}) {} [x] = [x]" by simp_all
  with pipeline_result [of "[x]" DEFAULT_NOW users "\<lambda>_ _. []"] generated_user_ids [OF users] f(2)
  obtain res q where "run_orders_pipeline (\<lambda>_ _. []) [x] users DEFAULT_NOW = (Inr res, q)" "qr_total_rows (pl_quality res) = 1"
    "qr_quarantined_rows (pl_quality res) = int (length q)" "map qo_order q = [x]"
    by auto
  moreover from this have "length q = 1" by (metis length_map length_Cons list.size(3) One_nat_def)
  ultimately show ?thesis
    using f(1) users x(1) by (simp add: streaming_def default_config_def row_counts_def)
qed

theorem benchmark_modes_agree_witness:
  "\<exists>r2. benchmark (sample_benchmark\<lparr>be_start := 5, be_end := 7, be_peak := 1048576\<rparr>) (lit ''etl'') 1 1 True False = (Inr r2, False)
    \<and> br_total_rows r2 = 1 \<and> br_quarantined_rows r2 = 1"
proof -
  let ?r = "\<lparr>br_mode = lit ''streaming'', br_count = 1, br_total_rows = 1, br_quarantined_rows = 1, br_elapsed_seconds = 1, br_peak_mb = None\<rparr>"
  have "fst (benchmark sample_benchmark (lit ''streaming'') 1 1 False False) = Inr ?r"
    using sample_streaming by (simp add: benchmark_def RUNNERS_def sample_benchmark_def Let_def)
  moreover have "benchmark_draws_ok sample_benchmark (default_config\<lparr>dc_order_count := 1, dc_dirty_ratio := 1\<rparr>)"
    by (simp add: benchmark_draws_ok_def sample_benchmark_def default_config_def order_draws_ok_def sample_draws_def VALID_ORDER_STATUSES_def
        DIRTY_KINDS_def DISCOUNTS_def)
  ultimately show ?thesis
    using benchmark_modes_agree [of "lit ''streaming''" "lit ''etl''" sample_benchmark 1 1 False False ?r 1048576 7 5 True False]
    by (simp add: MODES_def)
qed

end
