(* ===== verification/Csv.thy ===== *)
theory Csv
  imports Json_Print
begin

text \<open>
  Python's \<^verbatim>\<open>csv.writer\<close> with the default dialect (comma, double quotes where needed, lines ended by \<^verbatim>\<open>CR LF\<close>), and \<^verbatim>\<open>csv.reader\<close> as a machine over the characters
  of the text, with the proof that reading gives back what was written.
\<close>

section \<open>Writing\<close>

definition needs_quotes :: "pystr \<Rightarrow> bool" where
  "needs_quotes f \<longleftrightarrow> list_ex (\<lambda>c. c = 44 \<or> c = 34 \<or> c = 10 \<or> c = 13) f"

definition double_quotes :: "pystr \<Rightarrow> pystr" where
  "double_quotes f = concat (map (\<lambda>c. if c = 34 then [34, 34] else [c]) f)"

definition csv_field :: "pystr \<Rightarrow> pystr" where
  "csv_field f = (if needs_quotes f then [34] @ double_quotes f @ [34] else f)"

text \<open>A row of one empty field is written with quotes, so that it is not an empty line.\<close>

definition csv_row :: "pystr list \<Rightarrow> pystr" where
  "csv_row row = (if row = [[]] then [34, 34] else join [44] (map csv_field row)) @ [13, 10]"

definition csv_text :: "pystr list list \<Rightarrow> pystr" where
  "csv_text rows = concat (map csv_row rows)"

section \<open>Reading\<close>

datatype csv_state = START_RECORD | START_FIELD | IN_FIELD | IN_QUOTED_FIELD | QUOTE_IN_QUOTED_FIELD

definition eat_newline :: "nat \<Rightarrow> pystr \<Rightarrow> pystr" where
  "eat_newline c s = (if c = 13 \<and> take 1 s = [10] then drop 1 s else s)"

function csv_read :: "csv_state \<Rightarrow> pystr \<Rightarrow> pystr list \<Rightarrow> pystr \<Rightarrow> pystr list list" where
  "csv_read st field row [] = (if st = START_RECORD then [] else [row @ [field]])"
| "csv_read st field row (c # s) =
     (if st = IN_QUOTED_FIELD
      then (if c = 34 then csv_read QUOTE_IN_QUOTED_FIELD field row s else csv_read IN_QUOTED_FIELD (field @ [c]) row s)
      else if st = QUOTE_IN_QUOTED_FIELD \<and> c = 34 then csv_read IN_QUOTED_FIELD (field @ [34]) row s
      else if c = 13 \<or> c = 10 then (if st = START_RECORD then [] else row @ [field]) # csv_read START_RECORD [] [] (eat_newline c s)
      else if c = 44 then csv_read START_FIELD [] (row @ [field]) s
      else if c = 34 \<and> st \<in> {START_RECORD, START_FIELD} then csv_read IN_QUOTED_FIELD field row s
      else csv_read IN_FIELD (field @ [c]) row s)"
  by pat_completeness auto
termination
  by (relation "measure (\<lambda>(st, field, row, s). length s)") (auto simp: eat_newline_def)

section \<open>Reading what was written\<close>

lemma read_plain: "\<not> needs_quotes f \<Longrightarrow> csv_read IN_FIELD field row (f @ s) = csv_read IN_FIELD (field @ f) row s"
  by (induction f arbitrary: field) (auto simp: needs_quotes_def)

lemma read_doubled: "csv_read IN_QUOTED_FIELD field row (double_quotes f @ s) = csv_read IN_QUOTED_FIELD (field @ f) row s"
  by (induction f arbitrary: field) (auto simp: double_quotes_def)

text \<open>The state behind a field: it decides between quotes and characters, and a comma or the end of the line follows.\<close>

lemma read_field:
  assumes "st \<in> {START_RECORD, START_FIELD}" and "c = 44 \<or> c = 13"
  shows "csv_field f \<noteq> [] \<Longrightarrow> csv_read st [] row (csv_field f @ c # s) = csv_read IN_FIELD f row (c # s)"
proof (cases "needs_quotes f")
  case True
  then show ?thesis using assms by (auto simp: csv_field_def read_doubled)
next
  case False
  moreover assume "csv_field f \<noteq> []"
  ultimately obtain d g where f: "f = d # g" by (cases f) (auto simp: csv_field_def)
  with False have "\<not> needs_quotes g" "d \<noteq> 34" "d \<noteq> 44" "d \<noteq> 10" "d \<noteq> 13" by (auto simp: needs_quotes_def)
  with False f assms read_plain [of g "[d]" row "c # s"] show ?thesis by (auto simp: csv_field_def)
qed

lemma read_comma: "st \<in> {START_RECORD, START_FIELD} \<Longrightarrow> csv_read st [] row (csv_field f @ 44 # s) = csv_read START_FIELD [] (row @ [f]) s"
  using read_field [of st 44 f row s] by (cases "csv_field f = []") (auto simp: csv_field_def split: if_splits)

lemma read_line_end:
  assumes "st = START_FIELD \<or> st = START_RECORD \<and> csv_field f \<noteq> []"
  shows "csv_read st [] row (csv_field f @ 13 # 10 # s) = (row @ [f]) # csv_read START_RECORD [] [] s"
  using assms read_field [of st 13 f row "10 # s"] by (cases "csv_field f = []") (auto simp: csv_field_def eat_newline_def split: if_splits)

lemma read_fields:
  "fs \<noteq> [] \<Longrightarrow> st = START_FIELD \<or> st = START_RECORD \<and> (length fs > 1 \<or> csv_field (hd fs) \<noteq> []) \<Longrightarrow>
   csv_read st [] row (join [44] (map csv_field fs) @ 13 # 10 # s) = (row @ fs) # csv_read START_RECORD [] [] s"
proof (induction fs arbitrary: st row)
  case (Cons f fs)
  show ?case
  proof (cases "fs = []")
    case True
    with Cons.prems read_line_end [of st f row s] show ?thesis by auto
  next
    case False
    then have "join [44] (map csv_field (f # fs)) @ 13 # 10 # s = csv_field f @ 44 # join [44] (map csv_field fs) @ 13 # 10 # s"
      by (simp add: join_Cons)
    with Cons.prems(2) Cons.IH [OF False, of START_FIELD "row @ [f]"] show ?thesis using read_comma [of st row f] by auto
  qed
qed simp

lemma csv_field_empty: "csv_field f = [] \<longleftrightarrow> f = []"
  by (auto simp: csv_field_def needs_quotes_def)

lemma read_row: "csv_read START_RECORD [] [] (csv_row row @ s) = row # csv_read START_RECORD [] [] s"
proof -
  consider "row = []" | "row = [[]]" | "row \<noteq> []" "length row > 1 \<or> csv_field (hd row) \<noteq> []"
    by (cases row; cases "tl row") (auto simp: csv_field_empty)
  then show ?thesis
  proof cases
    case 3
    then have "row \<noteq> [[]]" by (auto simp: csv_field_empty)
    with read_fields [OF 3(1), of START_RECORD "[]" s] 3(2) show ?thesis by (simp add: csv_row_def)
  qed (simp_all add: csv_row_def eat_newline_def)
qed

text \<open>Any rows, with any text in their fields, are read back.\<close>

lemma csv_roundtrip: "csv_read START_RECORD [] [] (csv_text rows) = rows"
  by (induction rows) (simp_all add: csv_text_def read_row)

end
