(* ===== verification/Etl_Files.thy ===== *)
theory Etl_Files
  imports Etl_Daily Csv
begin

text \<open>
  The files of the daily orders job (\<^verbatim>\<open>etl/daily_orders.py\<close>): quarantined orders as one line of JSON each, the daily report as CSV, the quality report as indented
  JSON. What \<^verbatim>\<open>str\<close> makes of a \<^verbatim>\<open>Decimal\<close> and of a time, and \<^verbatim>\<open>repr\<close> of a float, are parameters; \<^verbatim>\<open>dumps\<close> raises on an integer of more than 4300 digits.
  The files are written in UTF-8 without translation of line ends; the disk is not modelled.
\<close>

section \<open>Encoding\<close>

definition dumps :: "nat option \<Rightarrow> json \<Rightarrow> exn + pystr" where
  "dumps ind v = (if wf_json v then Inr (print_at ind v) else Inl (ValueError (lit ''Exceeds the limit for integer string conversion'')))"

definition order_json :: "(rat \<Rightarrow> pystr) \<Rightarrow> (datetime \<Rightarrow> pystr) \<Rightarrow> RawOrder \<Rightarrow> json" where
  "order_json dec_str time_str x = JObject
     [(lit ''order_id'', case ro_order_id x of None \<Rightarrow> JNull | Some i \<Rightarrow> JStr i), (lit ''user_id'', JStr (ro_user_id x)),
      (lit ''product_id'', JStr (ro_product_id x)), (lit ''quantity'', JInt (ro_quantity x)), (lit ''unit_price'', JStr (dec_str (ro_unit_price x))),
      (lit ''discount'', JStr (dec_str (ro_discount x))), (lit ''status'', JStr (ro_status x)),
      (lit ''created_at'', case ro_created_at x of None \<Rightarrow> JNull | Some t \<Rightarrow> JStr (time_str t))]"

fun severity_value :: "QSeverity \<Rightarrow> pystr" where
  "severity_value Q_ERROR = lit ''ERROR''"
| "severity_value Q_WARNING = lit ''WARNING''"

definition violation_json :: "Violation \<Rightarrow> json" where
  "violation_json v = JObject [(lit ''rule'', JStr (v_rule v)), (lit ''severity'', JStr (severity_value (v_severity v))), (lit ''message'', JStr (v_message v))]"

definition quarantine_json :: "(rat \<Rightarrow> pystr) \<Rightarrow> (datetime \<Rightarrow> pystr) \<Rightarrow> QuarantinedOrder \<Rightarrow> json" where
  "quarantine_json dec_str time_str q =
     JObject [(lit ''order'', order_json dec_str time_str (qo_order q)), (lit ''violations'', JArray (map violation_json (qo_violations q)))]"

definition quarantine_line :: "(rat \<Rightarrow> pystr) \<Rightarrow> (datetime \<Rightarrow> pystr) \<Rightarrow> QuarantinedOrder \<Rightarrow> exn + pystr" where
  "quarantine_line dec_str time_str q = dumps None (quarantine_json dec_str time_str q)"

text \<open>\<open>on_quarantine\<close> writes each line with a line feed.\<close>

definition write_quarantine :: "(rat \<Rightarrow> pystr) \<Rightarrow> (datetime \<Rightarrow> pystr) \<Rightarrow> QuarantinedOrder list \<Rightarrow> exn + pystr" where
  "write_quarantine dec_str time_str qs =
     (case mapM (quarantine_line dec_str time_str) qs of Inl e \<Rightarrow> Inl e | Inr ls \<Rightarrow> Inr (concat (map (\<lambda>l. l @ [10]) ls)))"

definition result_json :: "RuleResult \<Rightarrow> json" where
  "result_json r = JObject [(lit ''rule'', JStr (rr_rule r)), (lit ''passed'', JBool (rr_passed r)), (lit ''invalid_count'', JInt (rr_invalid_count r))]"

definition quality_json :: "(pyfloat \<Rightarrow> pystr) \<Rightarrow> quality_payload \<Rightarrow> json" where
  "quality_json float_repr p = JObject
     [(lit ''config'', JObject [(lit ''seed'', JInt (qp_seed p)), (lit ''order_count'', JInt (qp_order_count p)),
        (lit ''dirty_ratio'', JFloat (float_repr (qp_dirty_ratio p)))]),
      (lit ''total_rows'', JInt (qp_total_rows p)), (lit ''quarantined_rows'', JInt (qp_quarantined_rows p)),
      (lit ''warning_rows'', JInt (qp_warning_rows p)), (lit ''results'', JArray (map result_json (qp_results p)))]"

record file_texts =
  ft_quarantine :: pystr
  ft_daily_report :: pystr
  ft_quality_report :: pystr

definition write_files :: "(rat \<Rightarrow> pystr) \<Rightarrow> (datetime \<Rightarrow> pystr) \<Rightarrow> (pyfloat \<Rightarrow> pystr) \<Rightarrow> etl_files \<Rightarrow> exn + file_texts" where
  "write_files dec_str time_str float_repr files =
     (case write_quarantine dec_str time_str (ef_quarantine files) of
        Inl e \<Rightarrow> Inl e
      | Inr quarantine \<Rightarrow>
          (case dumps (Some 0) (quality_json float_repr (ef_quality_report files)) of
             Inl e \<Rightarrow> Inl e
           | Inr quality \<Rightarrow>
               Inr \<lparr>ft_quarantine = quarantine, ft_daily_report = csv_text (ef_daily_report files), ft_quality_report = quality\<rparr>))"

section \<open>Lines\<close>

fun split_lines :: "pystr \<Rightarrow> pystr \<Rightarrow> pystr list" where
  "split_lines acc [] = (if acc = [] then [] else [acc])"
| "split_lines acc (c # s) = (if c = 10 then acc # split_lines [] s else split_lines (acc @ [c]) s)"

lemma split_lines_line: "10 \<notin> set l \<Longrightarrow> split_lines acc (l @ 10 # s) = (acc @ l) # split_lines [] s"
  by (induction l arbitrary: acc) auto

lemma split_lines_concat: "\<forall>l \<in> set ls. 10 \<notin> set l \<Longrightarrow> split_lines [] (concat (map (\<lambda>l. l @ [10]) ls)) = ls"
  by (induction ls) (simp_all add: split_lines_line)

lemma dumps_Inr: "dumps ind v = Inr t \<Longrightarrow> json_loads t = Inr v" "dumps None v = Inr t \<Longrightarrow> 10 \<notin> set t"
  using loads_print print_printable [of v 10] by (auto simp: dumps_def split: if_splits)

text \<open>A quarantine file is read line by line.\<close>

lemma quarantine_lines:
  assumes "write_quarantine dec_str time_str qs = Inr t"
  shows "map json_loads (split_lines [] t) = map (\<lambda>q. Inr (quarantine_json dec_str time_str q)) qs"
proof -
  from assms obtain ls where ls: "mapM (quarantine_line dec_str time_str) qs = Inr ls" and t: "t = concat (map (\<lambda>l. l @ [10]) ls)"
    by (auto simp: write_quarantine_def split: sum.splits)
  from ls have all: "list_all2 (\<lambda>q l. quarantine_line dec_str time_str q = Inr l) qs ls" by (simp add: mapM_Inr_iff)
  then have "\<forall>l \<in> set ls. 10 \<notin> set l" by (induction rule: list_all2_induct) (auto simp: quarantine_line_def dest: dumps_Inr)
  then have "split_lines [] t = ls" by (simp add: t split_lines_concat)
  moreover from all have "map json_loads ls = map (\<lambda>q. Inr (quarantine_json dec_str time_str q)) qs"
    by (induction rule: list_all2_induct) (auto simp: quarantine_line_def dest: dumps_Inr)
  ultimately show ?thesis by simp
qed

text \<open>Only the numbers can keep the files from being written.\<close>

lemma write_files_ok:
  assumes "\<forall>q \<in> set (ef_quarantine files). wf_json (JInt (ro_quantity (qo_order q)))"
    and "\<forall>i \<in> {qp_seed p, qp_order_count p, qp_total_rows p, qp_quarantined_rows p, qp_warning_rows p} \<union> rr_invalid_count ` set (qp_results p). wf_json (JInt i)"
    and "float_text (float_repr (qp_dirty_ratio p))" and "p = ef_quality_report files"
  shows "\<exists>texts. write_files dec_str time_str float_repr files = Inr texts"
proof -
  have "wf_json (quarantine_json dec_str time_str q)" if "q \<in> set (ef_quarantine files)" for q
    using assms(1) that
    by (auto simp: quarantine_json_def order_json_def violation_json_def list_all_iff split: option.splits)
  then have "mapM (quarantine_line dec_str time_str) (ef_quarantine files) = Inr (map (print_json \<circ> quarantine_json dec_str time_str) (ef_quarantine files))"
    by (intro mapM_all_Inr) (simp add: quarantine_line_def dumps_def)
  moreover have "wf_json (quality_json float_repr p)"
    using assms(2,3) by (auto simp: quality_json_def result_json_def list_all_iff)
  ultimately show ?thesis using assms(4) by (simp add: write_files_def write_quarantine_def dumps_def)
qed

section \<open>Properties\<close>

text \<open>C39: The files of the daily job can be read back. After a run whose files were written, whatever text the orders contain, the quarantine file has one line for
  each quarantined order the summary counts, which \<^verbatim>\<open>json.loads\<close> reads as the order with its violations; \<^verbatim>\<open>csv.reader\<close> reads the daily report as its header and one row for each day
  and region; and \<^verbatim>\<open>json.loads\<close> reads the quality report as the configuration, the counts and the result of every rule.\<close>

theorem daily_files_readable:
  assumes "run_daily_orders_etl pr dec_str ud od config run_dir = Inr (summary, files)"
    and "\<forall>i \<in> {1..dc_order_count config}. \<forall>f. tf_user_pool_size f = dc_user_pool_size config \<longrightarrow> order_draws_ok f (od i)"
    and "write_files dec_str time_str float_repr files = Inr texts"
  shows "map json_loads (split_lines [] (ft_quarantine texts)) = map (\<lambda>q. Inr (quarantine_json dec_str time_str q)) (ef_quarantine files)
    \<and> int (length (split_lines [] (ft_quarantine texts))) = es_quarantined_rows summary
    \<and> csv_read START_RECORD [] [] (ft_daily_report texts) = ef_daily_report files
    \<and> int (length (csv_read START_RECORD [] [] (ft_daily_report texts))) = es_report_rows summary + 1
    \<and> json_loads (ft_quality_report texts) = Inr (quality_json float_repr (ef_quality_report files))"
proof -
  from assms(3) obtain q j where q: "write_quarantine dec_str time_str (ef_quarantine files) = Inr q"
    and j: "dumps (Some 0) (quality_json float_repr (ef_quality_report files)) = Inr j"
    and texts: "texts = \<lparr>ft_quarantine = q, ft_daily_report = csv_text (ef_daily_report files), ft_quality_report = j\<rparr>"
    by (auto simp: write_files_def split: sum.splits)
  note lines = quarantine_lines [OF q]
  from arg_cong [OF lines, of length] have "length (split_lines [] q) = length (ef_quarantine files)" by simp
  with lines daily_etl_summary [OF assms(1,2)] show ?thesis
    by (simp add: texts csv_roundtrip dumps_Inr(1) [OF j])
qed

text \<open>One order with an unknown user.\<close>

definition small_config :: DailyOrdersConfig where
  "small_config = default_config\<lparr>dc_seed := 7, dc_order_count := 1, dc_dirty_ratio := 1, dc_user_pool_size := 1\<rparr>"

definition small_user :: RawUser where
  "small_user = \<lparr>u_user_id = lit ''U000001'', u_region = lit ''EAST'', u_register_date = 739834, u_member_level = lit ''GOLD''\<rparr>"

definition small_order :: RawOrder where
  "small_order = \<lparr>ro_order_id = Some (lit ''O00000001''), ro_user_id = lit ''U999999'', ro_product_id = lit ''P00001'', ro_quantity = 3,
     ro_unit_price = 5, ro_discount = 0, ro_status = lit ''PAID'', ro_created_at = Some (utc (739844 * us_per_day - 60000000))\<rparr>"

lemma small_parts:
  "generate_users sample_user_draws \<lparr>tf_seed = 7, tf_user_pool_size = 1, tf_product_pool_size = 200, tf_now = DEFAULT_NOW\<rparr> = Inr [small_user]"
  "generate_orders sample_draws 1 1 \<lparr>tf_seed = 7, tf_user_pool_size = 1, tf_product_pool_size = 200, tf_now = DEFAULT_NOW\<rparr> = Inr [small_order]"
  by code_simp+

lemma small_pipeline:
  "case run_orders_pipeline (\<lambda>_ _. []) [small_order] [small_user] DEFAULT_NOW of
     (Inl e, q) \<Rightarrow> False
   | (Inr res, q) \<Rightarrow> map qo_order q = [small_order] \<and> qr_total_rows (pl_quality res) = 1 \<and> qr_quarantined_rows (pl_quality res) = 1
       \<and> qr_warning_rows (pl_quality res) = 0 \<and> List.null (pl_stats res) \<and> list_all (\<lambda>r. \<bar>rr_invalid_count r\<bar> < 10) (qr_results (pl_quality res))"
  by code_simp

lemma small_run:
  "case run_daily_orders_etl (\<lambda>_ _. []) (\<lambda>_. lit ''5.00'') sample_user_draws sample_draws small_config (lit ''out'') of
     Inl e \<Rightarrow> False
   | Inr (summary, files) \<Rightarrow>
       es_quarantined_rows summary = 1 \<and> list_all (\<lambda>q. \<bar>ro_quantity (qo_order q)\<bar> < 10) (ef_quarantine files)
       \<and> (let p = ef_quality_report files in
          list_all (\<lambda>i. \<bar>i\<bar> < 10) ([qp_seed p, qp_order_count p, qp_total_rows p, qp_quarantined_rows p, qp_warning_rows p] @ map rr_invalid_count (qp_results p)))"
proof -
  have "tzinfo DEFAULT_NOW = Some 0" by (simp add: DEFAULT_NOW_def)
  then have init: "TestDataFactory_init 7 1 200 DEFAULT_NOW = Inr \<lparr>tf_seed = 7, tf_user_pool_size = 1, tf_product_pool_size = 200, tf_now = DEFAULT_NOW\<rparr>"
    by (simp add: TestDataFactory_init_def)
  obtain res q where run: "run_orders_pipeline (\<lambda>_ _. []) [small_order] [small_user] DEFAULT_NOW = (Inr res, q)"
    using small_pipeline by (auto split: prod.split_asm sum.split_asm)
  note res = small_pipeline [unfolded run prod.case sum.case]
  then have "map qo_order q = [small_order]" by (rule conjunct1)
  then obtain x where "q = [x]" "qo_order x = small_order" by (auto simp: map_eq_Cons_conv)
  with res show ?thesis
    by (simp add: run_daily_orders_etl_def small_config_def default_config_def init small_parts run daily_report_rows_def List.null_iff quality_report_payload_def list_all_iff Let_def)
      (simp add: small_order_def)
qed

lemma wf_small: "\<bar>i\<bar> < 10 \<Longrightarrow> wf_json (JInt i)"
  using length_show_nat [of "nat \<bar>i\<bar>" 0] by (simp add: INT_MAX_STR_DIGITS_def nat_less_iff)

theorem daily_files_readable_witness:
  "\<exists>summary files texts. run_daily_orders_etl (\<lambda>_ _. []) (\<lambda>_. lit ''5.00'') sample_user_draws sample_draws small_config (lit ''out'') = Inr (summary, files)
    \<and> write_files (\<lambda>_. lit ''5.00'') (\<lambda>_. lit ''2026'') (\<lambda>_. lit ''1.0'') files = Inr texts
    \<and> length (split_lines [] (ft_quarantine texts)) = 1
    \<and> csv_read START_RECORD [] [] (ft_daily_report texts) = ef_daily_report files
    \<and> json_loads (ft_quality_report texts) = Inr (quality_json (\<lambda>_. lit ''1.0'') (ef_quality_report files))"
proof -
  obtain summary files where
    run: "run_daily_orders_etl (\<lambda>_ _. []) (\<lambda>_. lit ''5.00'') sample_user_draws sample_draws small_config (lit ''out'') = Inr (summary, files)"
    using small_run by (cases "run_daily_orders_etl (\<lambda>_ _. []) (\<lambda>_. lit ''5.00'') sample_user_draws sample_draws small_config (lit ''out'')") auto
  note small = small_run [unfolded run sum.case prod.case Let_def]
  have "float_text (lit ''1.0'')" by code_simp
  with small wf_small obtain texts where texts: "write_files (\<lambda>_. lit ''5.00'') (\<lambda>_. lit ''2026'') (\<lambda>_. lit ''1.0'') files = Inr texts"
    using write_files_ok [of files "ef_quality_report files" "\<lambda>_. lit ''1.0''" "\<lambda>_. lit ''5.00''" "\<lambda>_. lit ''2026''"] by (auto simp: list_all_iff simp del: wf_json.simps)
  have "order_draws_ok f (sample_draws i)" if "tf_user_pool_size f = dc_user_pool_size small_config" for f i
    using that by (simp add: order_draws_ok_def sample_draws_def small_config_def VALID_ORDER_STATUSES_def DIRTY_KINDS_def DISCOUNTS_def)
  with daily_files_readable [OF run _ texts] small run texts show ?thesis by auto
qed

end
