(* ===== verification/Spec2Isabelle.thy ===== *)
theory Spec2Isabelle
  imports Queue_Spec Watcher Startup Shutdown Etl_Benchmark Etl_Files
begin

text \<open>
  A verification library for the task platform: a job scheduler in Python whose processes (dispatcher, workers, in-process scheduler,
  command line, REST API) share a relational database and a message queue. All source paths below are under
  \<^verbatim>\<open>src/src/task_platform/\<close>.

  \<^bold>\<open>How the program works.\<close> At start-up \<^verbatim>\<open>bootstrap.py\<close> reconciles the jobs that the code declares with the
  database. The dispatcher keeps a heap of triggers; for a due trigger it claims an idempotency key in the database, publishes a message and puts
  the next trigger back. A worker takes a message, skips it when the attempt was handled already or another run holds the slot, runs the
  handler under a timeout with cooperative cancellation, records the attempt and its log lines in one transaction and acknowledges the message only
  then. The retry sweeper turns recorded retries that are due into messages. \<^verbatim>\<open>serve\<close> does all of it in one process,
  without a queue. Recovery repairs what a crash leaves behind; metrics and alerts read what was recorded. The jobs shipped with the platform are an
  order pipeline with its quality rules and data generator.

  \<^bold>\<open>The theories and what they model.\<close>

  \<^item> \<^emph>\<open>Foundations.\<close> \<open>Prelude\<close>: Python strings, numbers, exceptions as results, list lemmas. \<open>Rounding\<close>: how \<^verbatim>\<open>float\<close> and \<^verbatim>\<open>Decimal\<close>
    operations round, with error bounds. \<open>Enums\<close>, \<open>Domain\<close>:
    \<^verbatim>\<open>domain/enums.py\<close>, \<^verbatim>\<open>models.py\<close>, \<^verbatim>\<open>state_machine.py\<close>, \<^verbatim>\<open>cancel.py\<close>.
    \<open>Pytime\<close>: what is used of \<^verbatim>\<open>datetime\<close>. \<open>Scheduling\<close>: \<^verbatim>\<open>domain/schedule.py\<close>,
    \<^verbatim>\<open>idempotency.py\<close>. \<open>Samples\<close>: the concrete inputs of the witnesses.
  \<^item> \<^emph>\<open>Database.\<close> \<open>Tables\<close>: rows, constraints, mappers and transactions (\<^verbatim>\<open>infrastructure/db/models.py\<close>,
    \<^verbatim>\<open>mappers.py\<close>, \<^verbatim>\<open>base.py\<close>, \<^verbatim>\<open>session.py\<close>); the state is the record \<open>db\<close> of five tables.
    \<open>Repositories\<close>: every query and write of \<^verbatim>\<open>repositories.py\<close>; a write maps a database to an exception or a
    result with a new database. \<open>Migrations\<close>: the operations of \<^verbatim>\<open>migrations/versions/\<close> on schemas and \<^verbatim>\<open>migrate.py\<close>. \<open>Settings\<close>: the URLs of the
    database and of Redis from the environment, and the configuration of the migrations (\<^verbatim>\<open>session.py\<close>, \<^verbatim>\<open>migrations/env.py\<close>,
    \<^verbatim>\<open>queue/factory.py\<close>).
  \<^item> \<^emph>\<open>Queue.\<close> \<open>Task_Queue\<close>: messages, the protocol as a record of operations and the in-memory queue
    (\<^verbatim>\<open>infrastructure/queue/base.py\<close>, \<^verbatim>\<open>memory.py\<close>). \<open>Json\<close>: \<^verbatim>\<open>json.dumps\<close> and
    \<^verbatim>\<open>json.loads\<close> as the messages use them. \<open>Redis_Queue\<close>: \<^verbatim>\<open>to_json\<close>, \<^verbatim>\<open>from_json\<close> and
    \<^verbatim>\<open>redis_stream.py\<close> over a parameter for the Redis commands. \<open>Queue_Spec\<close>: the abstract queue that both queues refine.
  \<^item> \<^emph>\<open>Execution.\<close> \<open>Heap\<close>: \<^verbatim>\<open>heapq\<close>. \<open>Executor\<close>: \<^verbatim>\<open>executor.py\<close>,
    \<^verbatim>\<open>registry.py\<close>, \<^verbatim>\<open>jobs/decorators.py\<close>, \<^verbatim>\<open>jobs/context.py\<close>. \<open>Log_Collector\<close>:
    \<^verbatim>\<open>infrastructure/logging/collector.py\<close>. \<open>Dispatcher\<close>, \<open>Worker\<close>, \<open>Retry_Sweeper\<close>, \<open>Scheduler\<close>,
    \<open>Bootstrap\<close>: the modules of the same name. \<open>Recovery\<close>: \<^verbatim>\<open>recovery.py\<close>, \<^verbatim>\<open>cancellation.py\<close>;
    \<open>Watcher\<close>: the thread of its cancel watcher.
  \<^item> \<^emph>\<open>Observation.\<close> \<open>Metrics\<close>, \<open>Prometheus\<close>, \<open>Alerts\<close>: the modules of the same name and
    \<^verbatim>\<open>cli/alert_commands.py\<close>. \<open>Structured_Log\<close>: \<^verbatim>\<open>infrastructure/logging/structured.py\<close> and the scopes that install log handlers.
  \<^item> \<^emph>\<open>Front ends.\<close> \<open>Local_Run\<close>: the run of one attempt in the calling process, shared by \<open>Cli\<close>
    (\<^verbatim>\<open>cli/main.py\<close>) and \<open>Api\<close> with \<open>Api_Schemas\<close> (\<^verbatim>\<open>api/\<close>). \<open>Processes\<close>:
    the loop of \<^verbatim>\<open>runtime.py\<close>, \<^verbatim>\<open>cli/queue_commands.py\<close> and the long-running commands. \<open>Shutdown\<close>: the stop signals of \<^verbatim>\<open>runtime.py\<close> and
    of \<^verbatim>\<open>scheduler.py\<close>. \<open>Startup\<close>: \<^verbatim>\<open>main\<close> and \<^verbatim>\<open>_setup_db\<close> of \<^verbatim>\<open>cli/main.py\<close>, \<^verbatim>\<open>create_app\<close> of \<^verbatim>\<open>api/app.py\<close> with its lifespan.
  \<^item> \<^emph>\<open>Jobs.\<close> \<open>Jobs\<close>: the shipped jobs, fault injection and discovery (\<^verbatim>\<open>jobs/\<close>). \<open>Etl_Quality\<close>, \<open>Etl_Pipeline\<close>, \<open>Etl_Factory\<close>,
    \<open>Etl_Daily\<close>: \<^verbatim>\<open>etl/records.py\<close>, \<^verbatim>\<open>quality.py\<close>, \<^verbatim>\<open>pipeline.py\<close>, \<^verbatim>\<open>factory.py\<close>, \<^verbatim>\<open>daily_orders.py\<close>.
    \<open>Json_Print\<close>, \<open>Csv\<close>: the printers of \<^verbatim>\<open>json\<close> and \<^verbatim>\<open>csv\<close> with their readers; \<open>Etl_Files\<close>: the files of the daily job.
    \<open>Etl_Benchmark\<close>: \<^verbatim>\<open>etl/benchmark.py\<close>.
  \<^item> \<^emph>\<open>Composition.\<close> \<open>Invariants\<close>: what an invariant of the database has to survive, and that every component then keeps it.
    \<open>Platform\<close>: the relation \<open>evolves\<close>, any interleaving of the steps of all processes with faults and crashes.

  \<^bold>\<open>How state, errors and loops are modelled.\<close> An operation has the name of its Python function. An exception is a value
  of \<open>exn\<close> in the left summand; a process that may die in the middle returns \<open>progress\<close> with the state it had reached. A
  component's attributes are a record, and a component that talks to several others works on a record of their states. Time, new identifiers, faults
  of the database and the queue, the actions of other processes, and the polls at which a waiting loop wakes up are inputs. There is no fuel: a loop over
  the clock takes the list of its turns or readings, and is still running (\<open>None\<close>, or a result that says so) when the list ends first;
  \<open>execute_attempt_returns\<close> shows which lists are long enough. The JSON scanner descends at most \<open>2 * length + 2\<close> levels, which
  \<open>json_loads_depth\<close> shows to be enough for any text.

  \<^bold>\<open>Interfaces.\<close> \<open>priority_queue\<close> (what the scheduler and the dispatcher need of \<^verbatim>\<open>heapq\<close>),
  \<open>task_queue\<close> (what a worker needs of a queue), \<open>claim_store\<close> and \<open>dispatching\<close> (what the dispatcher needs of the table of
  keys), \<open>queue_implementation\<close> (what makes a queue a refinement of the abstract queue) and \<open>db_invariant\<close> are locales; each is interpreted on the model of the
  code that provides it, and the properties of the clients rest on the interpretations. The Redis queue is shown to satisfy \<open>queue_implementation\<close> over every server
  that is a stream with a consumer group.

  \<^bold>\<open>What is proved.\<close>

  \<^item> \<^emph>\<open>Delivery.\<close> A worker acknowledges only what it has recorded, a message stays in flight until then, a duplicate or a
    message of a foreign slot is not executed, a message whose worker crashed is executed again (\<open>Worker\<close>). A tick of the dispatcher claims each due slot
    once, loses no schedule, and gives a slot back when publication fails (\<open>Dispatcher\<close>). A sweep sends every due retry, and reports and clears exactly
    those the queue accepted (\<open>Retry_Sweeper\<close>).
  \<^item> \<^emph>\<open>Platform.\<close> Every interleaving of all processes keeps the tables consistent and every recorded attempt recorded
    (\<open>Platform\<close>).
  \<^item> \<^emph>\<open>Attempts.\<close> The outcome of an attempt, its timeout, and that it returns (\<open>Executor\<close>); recovery is complete,
    idempotent and exact for every row and key, cancellation reaches exactly the runs asked for (\<open>Recovery\<close>); a run of the command line is recorded (\<open>Cli\<close>).
  \<^item> \<^emph>\<open>Messages.\<close> \<^verbatim>\<open>from_json\<close> inverts \<^verbatim>\<open>to_json\<close>; the Redis queue delivers the next
    well-formed entry (\<open>Redis_Queue\<close>); it refines the abstract queue and delivers in order of publication (\<open>Queue_Spec\<close>).
  \<^item> \<^emph>\<open>Schedules.\<close> Next triggers and keys (\<open>Scheduling\<close>), the in-process scheduler (\<open>Scheduler\<close>),
    reconciliation of declared and stored jobs (\<open>Bootstrap\<close>).
  \<^item> \<^emph>\<open>Schema and start-up.\<close> The migrations build the schema the models declare and can be undone (\<open>Migrations\<close>), on the database the
    application opens (\<open>Settings\<close>); the application then starts, with the shipped jobs in the database (\<open>Jobs\<close>, \<open>Startup\<close>).
  \<^item> \<^emph>\<open>Shutdown and cancellation.\<close> A signal ends the loops after the step they are in, and the handlers installed from Python are
    restored (\<open>Shutdown\<close>); the watcher's thread fires the tokens of requested cancellations and survives failing polls (\<open>Watcher\<close>).
  \<^item> \<^emph>\<open>REST API.\<close> An error changes nothing, and what it answers is what it stored (\<open>Api\<close>).
  \<^item> \<^emph>\<open>Observation.\<close> Metrics equal a direct count of the rows, their rates and averages up to the rounding of floats; alerts fire exactly at their thresholds, the tracker reports every
    change once, the export is well-formed line by line; a structured log record is one line of JSON that reads back (\<open>Structured_Log\<close>).
  \<^item> \<^emph>\<open>Jobs.\<close> The pipeline equals a group-by over the valid orders, or ends with an error if an amount does not fit a decimal of 28 digits; the labels of generated orders agree with the rules, the files of the daily job
    read back as what was written (\<open>Etl_Files\<close>), and the modes of the benchmark compute the same result (\<open>Etl_Benchmark\<close>).

  \<^bold>\<open>Parameters.\<close> The Redis server (\<open>stream_group\<close> states the documented behaviour of a stream with a consumer group) and the client for a URL;
  Alembic (\<open>runs_revisions\<close>: it runs the scripts between two revisions in order); the stripping of names by pydantic; the response of FastAPI when a commit
  fails after the handler; the text Python prints for numbers and values; the parsing of numbers, \<^verbatim>\<open>str.lower\<close> and \<^verbatim>\<open>str.strip\<close> on environment variables; the signal
  numbers of the operating system.

  \<^bold>\<open>Not modelled.\<close> Argument parsing and printing; the threads and pools behind the inputs above, with \<^verbatim>\<open>Worker.close\<close> and the start and join of the
  watcher; the text log format; Alembic's offline mode, which prints SQL; SQLAlchemy, FastAPI and pydantic beyond what the definitions state of
  them; the disk, which is assumed to accept what is written. Floats and decimals are rationals without infinities and NaN and with unbounded exponents. Durations and
  the figures of the metrics round to 53 binary digits at every operation, order amounts, their sums and averages to 28 decimal ones; delays, timeouts and clock readings, which are only
  compared and added to times, are exact. The recursion limit of the interpreter is not modelled.
\<close>

end
